(* ===== verification/Prelude.thy ===== *)
theory Prelude
  imports Main "HOL-Library.Sublist" "HOL-Library.Word"
begin

section \<open>Shared types, collections and generic lemmas\<close>

text \<open>
  What every component of the agent-bash model shares: the type names used for the
  program's machine types, the named collections of rules that the component proofs feed
  to the simplifier, the Rust arithmetic helpers that saturate, the part of Rust's text
  library that the source calls (trimming, splitting at white space, decimal and
  hexadecimal conversion), and the generic facts about lists those need.

  A Rust string is the list of its UTF-8 bytes, a \<^typ>\<open>char\<close> being one byte; lengths and
  offsets are therefore byte counts, as Rust's are.
\<close>

type_synonym pid = int
type_synonym bytes = string
type_synonym millis = nat

named_theorems wp_rules "weakest-precondition rules of effectful operations"
named_theorems keeps_rules "operations that keep an invariant"
named_theorems gives_rules "operations that keep an invariant and return a good value"
named_theorems frame_simps "what an operation leaves unchanged"

abbreviation u64_max :: nat where "u64_max \<equiv> 18446744073709551615"
abbreviation u8_max :: nat where "u8_max \<equiv> 255"

subsection \<open>I/O errors\<close>

text \<open>
  \<^verbatim>\<open>std::io::Error\<close>: its kind, the operating-system code when it has one, its text.
\<close>

datatype err_kind = NotFound | AlreadyExists | WouldBlock | Interrupted | InvalidData | TimedOut | UnexpectedEof | OtherKind

record io_error =
  kind :: err_kind
  raw_os_error :: "int option"
  to_string :: string

definition io_other :: "string \<Rightarrow> io_error" where
  "io_other m = \<lparr>kind = OtherKind, raw_os_error = None, to_string = m\<rparr>"

definition io_invalid :: "string \<Rightarrow> io_error" where
  "io_invalid m = \<lparr>kind = InvalidData, raw_os_error = None, to_string = m\<rparr>"

definition io_new :: "err_kind \<Rightarrow> string \<Rightarrow> io_error" where
  "io_new k m = \<lparr>kind = k, raw_os_error = None, to_string = m\<rparr>"

subsection \<open>Saturating arithmetic\<close>

definition saturating_mul_u64 :: "nat \<Rightarrow> nat \<Rightarrow> nat" where
  "saturating_mul_u64 a b = min u64_max (a * b)"

definition saturating_add_u8 :: "nat \<Rightarrow> nat \<Rightarrow> nat" where
  "saturating_add_u8 a b = min u8_max (a + b)"

lemma saturating_add_u8_le: "saturating_add_u8 a b \<le> u8_max"
  by (simp add: saturating_add_u8_def)

subsection \<open>Occurrences of a byte string\<close>

definition occurs :: "'a list \<Rightarrow> 'a list \<Rightarrow> bool" where
  "occurs pat s \<longleftrightarrow> (\<exists>i \<le> length s. prefix pat (drop i s))"

lemma occurs_sublist: "occurs pat s \<longleftrightarrow> sublist pat s"
proof
  assume "occurs pat s"
  then obtain i where "prefix pat (drop i s)" by (auto simp: occurs_def)
  then obtain zs where "drop i s = pat @ zs" by (auto simp: prefix_def)
  then have "s = take i s @ pat @ zs" by (metis append_take_drop_id)
  then show "sublist pat s" by (metis sublist_def)
next
  assume "sublist pat s"
  then obtain ps ss where s: "s = ps @ pat @ ss" by (auto simp: sublist_def)
  then have "prefix pat (drop (length ps) s)" and "length ps \<le> length s" by auto
  then show "occurs pat s" by (auto simp: occurs_def)
qed

fun rfind :: "string \<Rightarrow> string \<Rightarrow> nat option" where
  "rfind pat [] = (if pat = [] then Some 0 else None)"
| "rfind pat (c # cs) =
     (case rfind pat cs of
        Some i \<Rightarrow> Some (Suc i)
      | None \<Rightarrow> if prefix pat (c # cs) then Some 0 else None)"

lemma rfind_None_iff: "rfind pat s = None \<longleftrightarrow> \<not> occurs pat s"
proof (induction s)
  case Nil
  then show ?case by (simp add: occurs_def)
next
  case (Cons c cs)
  have "occurs pat (c # cs) \<longleftrightarrow> prefix pat (c # cs) \<or> occurs pat cs"
    unfolding occurs_sublist by (metis prefix_imp_sublist sublist_Cons_right)
  with Cons show ?case by (auto split: option.splits)
qed

lemma rfind_last_pair:
  assumes "\<not> occurs [a, b] (b # rest)"
  shows "rfind [a, b] (pre @ a # b # rest) = Some (length pre)"
proof (induction pre)
  case Nil
  have "rfind [a, b] (b # rest) = None" using assms by (simp only: rfind_None_iff) simp
  then show ?case unfolding append_Nil by (subst rfind.simps(2)) (simp del: rfind.simps)
next
  case (Cons c cs)
  then show ?case by simp
qed

subsection \<open>White space and trimming\<close>

text \<open>
  The number of bytes of the \<^emph>\<open>White_Space\<close> character a UTF-8 text starts with, zero when it
  does not start with one. No other character's encoding begins with these bytes.
\<close>

definition byte_at :: "string \<Rightarrow> nat \<Rightarrow> nat" where
  "byte_at s i = (if i < length s then of_char (s ! i) else 0)"

definition ws_len :: "string \<Rightarrow> nat" where
  "ws_len s =
     (let b = byte_at s 0; d = byte_at s 1; e = byte_at s 2
      in if b = 32 \<or> 9 \<le> b \<and> b \<le> 13 then 1
         else if b = 194 \<and> (d = 133 \<or> d = 160) then 2
         else if b = 225 \<and> d = 154 \<and> e = 128 then 3
         else if b = 226 \<and> d = 128 \<and> (128 \<le> e \<and> e \<le> 138 \<or> e = 168 \<or> e = 169 \<or> e = 175) then 3
         else if b = 226 \<and> d = 129 \<and> e = 159 then 3
         else if b = 227 \<and> d = 128 \<and> e = 128 then 3
         else 0)"

lemma ws_len_Nil [simp]: "ws_len [] = 0"
  by (simp add: ws_len_def byte_at_def)

function trim_start :: "string \<Rightarrow> string" where
  "trim_start s = (if ws_len s = 0 then s else trim_start (drop (ws_len s) s))"
  by pat_completeness auto
termination
proof (relation "measure length")
  fix s :: string
  assume "ws_len s \<noteq> 0"
  then show "(drop (ws_len s) s, s) \<in> measure length" by (cases s) auto
qed simp

declare trim_start.simps [simp del]

definition ws_end_len :: "string \<Rightarrow> nat" where
  "ws_end_len s =
     (case find (\<lambda>k. k \<le> length s \<and> ws_len (drop (length s - k) s) = k) [1, 2, 3] of
        Some k \<Rightarrow> k | None \<Rightarrow> 0)"

function trim_end :: "string \<Rightarrow> string" where
  "trim_end s =
     (if s = [] \<or> ws_end_len s = 0 then s else trim_end (take (length s - ws_end_len s) s))"
  by pat_completeness auto
termination by (relation "measure length") auto

declare trim_end.simps [simp del]

definition trim :: "string \<Rightarrow> string" where
  "trim s = trim_end (trim_start s)"

fun span_token :: "string \<Rightarrow> string \<times> string" where
  "span_token [] = ([], [])"
| "span_token (c # cs) =
     (if ws_len (c # cs) \<noteq> 0 then ([], c # cs)
      else (case span_token cs of (a, b) \<Rightarrow> (c # a, b)))"

lemma span_token_append: "fst (span_token s) @ snd (span_token s) = s"
  by (induction s) (auto split: prod.splits)

lemma length_trim_start: "length (trim_start s) \<le> length s"
proof (induction s rule: trim_start.induct)
  case (1 s)
  then show ?case by (subst trim_start.simps) (force intro: le_trans)
qed

lemma trim_start_no_ws: "ws_len (trim_start s) = 0"
proof (induction s rule: trim_start.induct)
  case (1 s)
  then show ?case by (subst trim_start.simps) auto
qed

function split_whitespace :: "string \<Rightarrow> string list" where
  "split_whitespace s =
     (let t = trim_start s
      in if t = [] then [] else fst (span_token t) # split_whitespace (snd (span_token t)))"
  by pat_completeness auto
termination
proof (relation "measure length", goal_cases)
  case 1
  show ?case by simp
next
  case (2 s t)
  obtain c cs where t: "trim_start s = c # cs" using 2 by (cases "trim_start s") auto
  have "fst (span_token (c # cs)) \<noteq> []"
    using trim_start_no_ws [of s] by (simp add: t split: prod.splits)
  then have "length (snd (span_token (c # cs))) < length (c # cs)"
    using span_token_append [of "c # cs"] by (metis append_eq_append_conv2 length_append
        less_add_same_cancel2 length_greater_0_conv)
  then show ?case using length_trim_start [of s] 2 t by simp
qed

declare split_whitespace.simps [simp del]

text \<open>A byte that is printable ASCII other than the space never starts a white-space character.\<close>

definition graphic :: "char \<Rightarrow> bool" where
  "graphic c \<longleftrightarrow> 33 \<le> (of_char c :: nat) \<and> (of_char c :: nat) \<le> 126"

lemma ws_len_graphic: "graphic c \<Longrightarrow> ws_len (c # cs) = 0"
  by (auto simp: graphic_def ws_len_def byte_at_def Let_def)

lemma trim_start_graphic: "graphic c \<Longrightarrow> trim_start (c # cs) = c # cs"
  by (subst trim_start.simps) (simp add: ws_len_graphic)

lemma ws_end_len_graphic:
  assumes "list_all graphic s"
  shows "ws_end_len s = 0"
proof -
  have "ws_len (drop (length s - k) s) = 0" for k
  proof (cases "drop (length s - k) s")
    case (Cons a list)
    then have "a \<in> set s" by (metis in_set_dropD list.set_intros(1))
    with assms Cons show ?thesis by (simp add: list_all_iff ws_len_graphic)
  qed simp
  then show ?thesis by (simp add: ws_end_len_def)
qed

lemma trim_start_Nil [simp]: "trim_start [] = []"
  by (subst trim_start.simps) simp

lemma ws_len_space [simp]: "ws_len (CHR '' '' # cs) = 1"
  by (simp add: ws_len_def byte_at_def)

lemma trim_start_space: "trim_start (CHR '' '' # cs) = trim_start cs"
  by (subst trim_start.simps) simp

lemma span_token_graphic:
  assumes "list_all graphic t" and "rest = [] \<or> ws_len rest \<noteq> 0"
  shows "span_token (t @ rest) = (t, rest)"
  using assms(1)
proof (induction t)
  case Nil
  then show ?case using assms(2) by (cases rest) auto
next
  case (Cons c cs)
  then show ?case by (simp add: ws_len_graphic)
qed

fun join_space :: "string list \<Rightarrow> string" where
  "join_space [] = []"
| "join_space [t] = t"
| "join_space (t # ts) = t @ CHR '' '' # join_space ts"

definition token :: "string \<Rightarrow> bool" where
  "token t \<longleftrightarrow> t \<noteq> [] \<and> list_all graphic t"

lemma split_whitespace_tokens:
  assumes "list_all token ts"
  shows "split_whitespace (join_space ts) = ts"
  using assms
proof (induction ts rule: join_space.induct)
  case 1
  then show ?case by (subst split_whitespace.simps) simp
next
  case (2 t)
  then obtain c cs where t: "t = c # cs" "graphic c" "list_all graphic t"
    by (cases t) (auto simp: token_def)
  then have "trim_start t = t" by (simp add: trim_start_graphic)
  moreover have "span_token t = (t, [])" using span_token_graphic [of t "[]"] t by simp
  moreover have "split_whitespace [] = []" by (subst split_whitespace.simps) simp
  moreover have "t \<noteq> []" using t(1) by simp
  ultimately show ?case by (simp add: split_whitespace.simps [of t])
next
  case (3 t t' ts)
  let ?rest = "CHR '' '' # join_space (t' # ts)"
  obtain c cs where t: "t = c # cs" "graphic c" "list_all graphic t"
    using 3 by (cases t) (auto simp: token_def)
  have "trim_start (t @ ?rest) = t @ ?rest" using t by (simp add: trim_start_graphic)
  moreover have "span_token (t @ ?rest) = (t, ?rest)"
    using t by (intro span_token_graphic) simp_all
  moreover have "split_whitespace ?rest = split_whitespace (join_space (t' # ts))"
    by (subst (1 2) split_whitespace.simps) (simp add: trim_start_space)
  ultimately show ?case
    using 3 by (simp add: split_whitespace.simps [of "t @ ?rest"])
qed

end
