(* ===== verification/Rolling_Window.thy ===== *)
theory Rolling_Window
  imports Prelude
begin

section \<open>Interface: a bounded window over an append-only stream\<close>

text \<open>
  Two components keep only the tail of an unbounded stream: the live capture of
  \<^verbatim>\<open>live_capture.rs\<close> (records) and the sentinel matcher of \<^verbatim>\<open>supervisor.rs\<close> (bytes). Both
  promise the same thing: an operation appends what it emits and may drop items at the
  front only. What a client concludes from that promise is proved here once.
\<close>

locale rolling_window =
  fixes content :: "'s \<Rightarrow> 'a list"
    and step :: "'op \<Rightarrow> 's \<Rightarrow> 's"
    and emit :: "'op \<Rightarrow> 's \<Rightarrow> 'a list"
  assumes step_suffix: "suffix (content (step op s)) (content s @ emit op s)"
begin

primrec emitted :: "'op list \<Rightarrow> 's \<Rightarrow> 'a list" where
  "emitted [] s = []"
| "emitted (op # ops) s = emit op s @ emitted ops (step op s)"

lemma content_run_suffix:
  "suffix (content (fold step ops s)) (content s @ emitted ops s)"
proof (induction ops arbitrary: s)
  case Nil
  then show ?case by simp
next
  case (Cons op ops)
  have "suffix (content (step op s) @ emitted ops (step op s))
     (content s @ emit op s @ emitted ops (step op s))"
    using step_suffix [of op s] by (auto simp: suffix_def)
  with Cons.IH [of "step op s"] show ?case by (auto intro: suffix_order.trans)
qed

lemma content_run_items:
  "x \<in> set (content (fold step ops s)) \<Longrightarrow> x \<in> set (content s) \<or> x \<in> set (emitted ops s)"
  using set_mono_suffix [OF content_run_suffix [of ops s]] by auto

lemma emitted_append:
  "emitted (as @ bs) s = emitted as s @ emitted bs (fold step as s)"
  by (induction as arbitrary: s) auto

end

end
