(* ===== verification/Live_Capture.thy ===== *)
theory Live_Capture
  imports Rolling_Window
begin

section \<open>Live capture of supervised output\<close>

text \<open>
  \<^verbatim>\<open>src/src/live_capture.rs\<close>: the bounded in-memory copy of what the supervisor drains from
  the workload's two pipes. Every record is charged its payload plus a fixed amount, the
  oldest records are evicted when a new one does not fit, and a reader gets the retained
  records from its cursor together with the exact gap. The model keeps the two panics of the
  eviction loop (popping an empty queue, subtracting more than was charged) as \<open>None\<close>;
  the lemmas show that no sequence of calls reaches them and that the retained records are
  always the longest tail of the whole history that fits the budget.

  Positions are \<^verbatim>\<open>u64\<close> counters; they are natural numbers here, which agrees with the code as
  long as fewer than $2^{64}$ bytes have been captured.
\<close>

definition RECORD_CHARGE :: nat where
  "RECORD_CHARGE = 64"

datatype channel = Stdout | Stderr

record position =
  seq :: nat
  stdout_bytes :: nat
  stderr_bytes :: nat

definition position_default :: position where
  "position_default = \<lparr>seq = 0, stdout_bytes = 0, stderr_bytes = 0\<rparr>"

definition advance :: "position \<Rightarrow> channel \<Rightarrow> nat \<Rightarrow> position" where
  "advance p ch len =
     (case ch of
        Stdout \<Rightarrow> p\<lparr>seq := seq p + 1, stdout_bytes := stdout_bytes p + len\<rparr>
      | Stderr \<Rightarrow> p\<lparr>seq := seq p + 1, stderr_bytes := stderr_bytes p + len\<rparr>)"

record live_record =
  start :: position
  channel :: channel
  payload :: bytes

record gap =
  gap_from :: position
  gap_to :: position

record live_read =
  read_gap :: "gap option"
  read_records :: "live_record list"
  read_next :: position

record live_capture =
  budget :: nat
  charged :: nat
  records :: "live_record list"
  next_pos :: position

definition new_capture :: "nat \<Rightarrow> live_capture" where
  "new_capture b = \<lparr>budget = b, charged = 0, records = [], next_pos = position_default\<rparr>"

text \<open>The eviction loop of \<^verbatim>\<open>record\<close>; \<open>None\<close> is a panic.\<close>

fun evict :: "nat \<Rightarrow> nat \<Rightarrow> nat \<Rightarrow> live_record list \<Rightarrow> (nat \<times> live_record list) option" where
  "evict bud charge chd [] = (if chd + charge > bud then None else Some (chd, []))"
| "evict bud charge chd (r # rs) =
     (if chd + charge > bud
      then (if chd < length (payload r) + RECORD_CHARGE then None
            else evict bud charge (chd - (length (payload r) + RECORD_CHARGE)) rs)
      else Some (chd, r # rs))"

definition record_live :: "live_capture \<Rightarrow> channel \<Rightarrow> bytes \<Rightarrow> live_capture option" where
  "record_live lc ch bs =
     (if bs = [] then Some lc
      else
        let start_pos = next_pos lc;
            lc = lc\<lparr>next_pos := advance start_pos ch (length bs)\<rparr>;
            charge = length bs + RECORD_CHARGE
        in if charge > budget lc then Some (lc\<lparr>records := [], charged := 0\<rparr>)
           else
             (case evict (budget lc) charge (charged lc) (records lc) of
                None \<Rightarrow> None
              | Some (chd, rs) \<Rightarrow>
                  Some (lc\<lparr>charged := chd + charge,
                     records := rs @ [\<lparr>start = start_pos, channel = ch, payload = bs\<rparr>]\<rparr>)))"

definition first_pos :: "live_capture \<Rightarrow> position" where
  "first_pos lc = (case records lc of [] \<Rightarrow> next_pos lc | r # _ \<Rightarrow> start r)"

definition read_from :: "live_capture \<Rightarrow> position \<Rightarrow> live_read option" where
  "read_from lc cursor =
     (if seq cursor > seq (next_pos lc) then None
      else
        let first = first_pos lc
        in Some \<lparr>read_gap = (if seq cursor < seq first
                            then Some \<lparr>gap_from = cursor, gap_to = first\<rparr> else None),
                 read_records = filter (\<lambda>r. seq (start r) \<ge> seq cursor) (records lc),
                 read_next = next_pos lc\<rparr>)"

subsection \<open>Specification: the whole history and its longest fitting tail\<close>

text \<open>
  A history is the list of non-empty chunks drained so far; \<open>history_records\<close> numbers them.
\<close>

type_synonym history = "(channel \<times> bytes) list"

fun history_records :: "position \<Rightarrow> history \<Rightarrow> live_record list" where
  "history_records p [] = []"
| "history_records p ((ch, bs) # h) =
     \<lparr>start = p, channel = ch, payload = bs\<rparr> # history_records (advance p ch (length bs)) h"

fun history_end :: "position \<Rightarrow> history \<Rightarrow> position" where
  "history_end p [] = p"
| "history_end p ((ch, bs) # h) = history_end (advance p ch (length bs)) h"

definition total_charge :: "live_record list \<Rightarrow> nat" where
  "total_charge rs = sum_list (map (\<lambda>r. length (payload r) + RECORD_CHARGE) rs)"

fun fitting_tail :: "nat \<Rightarrow> live_record list \<Rightarrow> live_record list" where
  "fitting_tail b [] = []"
| "fitting_tail b (r # rs) = (if total_charge (r # rs) \<le> b then r # rs else fitting_tail b rs)"

definition nonempty_chunks :: "history \<Rightarrow> history" where
  "nonempty_chunks h = filter (\<lambda>(ch, bs). bs \<noteq> []) h"

fun record_all :: "live_capture \<Rightarrow> history \<Rightarrow> live_capture option" where
  "record_all lc [] = Some lc"
| "record_all lc ((ch, bs) # h) =
     (case record_live lc ch bs of None \<Rightarrow> None | Some lc' \<Rightarrow> record_all lc' h)"

definition captures :: "live_capture \<Rightarrow> history \<Rightarrow> bool" where
  "captures lc h \<longleftrightarrow>
     records lc = fitting_tail (budget lc) (history_records position_default h) \<and>
     charged lc = total_charge (records lc) \<and>
     next_pos lc = history_end position_default h"

subsection \<open>Facts about histories and fitting tails\<close>

lemma seq_position_default [simp]: "seq position_default = 0"
  by (simp add: position_default_def)

lemma total_charge_simps [simp]:
  "total_charge [] = 0"
  "total_charge (r # rs) = length (payload r) + RECORD_CHARGE + total_charge rs"
  "total_charge (rs @ rs') = total_charge rs + total_charge rs'"
  by (simp_all add: total_charge_def)

lemma seq_advance [simp]: "seq (advance p ch n) = Suc (seq p)"
  by (cases ch) (simp_all add: advance_def)

lemma history_records_append:
  "history_records p (h @ h') = history_records p h @ history_records (history_end p h) h'"
  by (induction p h rule: history_records.induct) auto

lemma history_end_append: "history_end p (h @ h') = history_end (history_end p h) h'"
  by (induction p h rule: history_end.induct) auto

lemma length_history_records [simp]: "length (history_records p h) = length h"
  by (induction p h rule: history_records.induct) auto

lemma seq_history_end [simp]: "seq (history_end p h) = seq p + length h"
  by (induction p h rule: history_end.induct) auto

lemma history_records_nth:
  "i < length h \<Longrightarrow> start (history_records p h ! i) = history_end p (take i h)"
proof (induction p h arbitrary: i rule: history_records.induct)
  case (2 p ch bs h)
  then show ?case by (cases i) auto
qed simp

lemma fitting_tail_suffix: "suffix (fitting_tail b rs) rs"
  by (induction b rs rule: fitting_tail.induct) (auto intro: suffix_ConsI)

lemma fitting_tail_charge: "total_charge (fitting_tail b rs) \<le> b"
  by (induction b rs rule: fitting_tail.induct) auto

lemma fitting_tail_snoc_small:
  assumes "length (payload r) + RECORD_CHARGE \<le> b"
  shows "fitting_tail b (rs @ [r]) = fitting_tail (b - (length (payload r) + RECORD_CHARGE)) rs @ [r]"
  using assms by (induction rs) auto

lemma fitting_tail_snoc_large:
  assumes "length (payload r) + RECORD_CHARGE > b"
  shows "fitting_tail b (rs @ [r]) = []"
  using assms by (induction rs) auto

lemma fitting_tail_mono:
  assumes "b' \<le> b"
  shows "fitting_tail b' (fitting_tail b rs) = fitting_tail b' rs"
  using assms by (induction rs) auto

lemma evict_fitting_tail:
  assumes "charge \<le> bud"
  shows "evict bud charge (total_charge rs) rs =
     Some (total_charge (fitting_tail (bud - charge) rs), fitting_tail (bud - charge) rs)"
  using assms
proof (induction rs)
  case Nil
  then show ?case by simp
next
  case (Cons r rs)
  then show ?case by auto
qed

lemma budget_record_live: "record_live lc ch bs = Some lc' \<Longrightarrow> budget lc' = budget lc"
  by (auto simp: record_live_def Let_def split: if_splits option.splits)

lemma record_live_captures:
  assumes "captures lc h" and "bs \<noteq> []"
  shows "\<exists>lc'. record_live lc ch bs = Some lc' \<and> captures lc' (h @ [(ch, bs)])"
proof -
  let ?rs = "history_records position_default h"
  let ?charge = "length bs + RECORD_CHARGE"
  let ?r = "\<lparr>start = next_pos lc, channel = ch, payload = bs\<rparr>"
  have rs: "records lc = fitting_tail (budget lc) ?rs"
    and chd: "charged lc = total_charge (records lc)"
    and nxt: "next_pos lc = history_end position_default h"
    using assms(1) by (auto simp: captures_def)
  have all: "history_records position_default (h @ [(ch, bs)]) = ?rs @ [?r]"
    by (simp add: history_records_append nxt)
  have end': "history_end position_default (h @ [(ch, bs)]) = advance (next_pos lc) ch (length bs)"
    by (simp add: history_end_append nxt)
  show ?thesis
  proof (cases "?charge > budget lc")
    case True
    with assms(2) show ?thesis
      unfolding captures_def all end'
      by (simp add: record_live_def Let_def fitting_tail_snoc_large)
  next
    case False
    then have le: "?charge \<le> budget lc" by simp
    have "fitting_tail (budget lc) (?rs @ [?r]) = fitting_tail (budget lc - ?charge) ?rs @ [?r]"
      using le by (simp add: fitting_tail_snoc_small)
    also have "\<dots> = fitting_tail (budget lc - ?charge) (records lc) @ [?r]"
      by (simp add: rs fitting_tail_mono)
    finally show ?thesis
      using le assms(2) unfolding captures_def all end'
      by (simp add: record_live_def Let_def chd evict_fitting_tail)
  qed
qed

lemma captures_new: "captures (new_capture b) []"
  by (simp add: captures_def new_capture_def)

lemma record_all_captures:
  assumes "captures lc h0"
  shows "\<exists>lc'. record_all lc h = Some lc' \<and> captures lc' (h0 @ nonempty_chunks h)
     \<and> budget lc' = budget lc"
  using assms
proof (induction h arbitrary: lc h0)
  case Nil
  then show ?case by (simp add: nonempty_chunks_def)
next
  case (Cons c h)
  obtain ch bs where c: "c = (ch, bs)" by force
  show ?case
  proof (cases "bs = []")
    case True
    with Cons.IH [OF Cons.prems] c show ?thesis
      by (simp add: record_live_def nonempty_chunks_def)
  next
    case False
    then obtain lc1 where lc1: "record_live lc ch bs = Some lc1" "captures lc1 (h0 @ [(ch, bs)])"
      using record_live_captures [OF Cons.prems] by blast
    from Cons.IH [OF lc1(2)] lc1(1) budget_record_live [OF lc1(1)] c False show ?thesis
      by (simp add: nonempty_chunks_def)
  qed
qed

subsection \<open>The window interface, on this component\<close>

definition record_step :: "channel \<times> bytes \<Rightarrow> live_capture \<Rightarrow> live_capture" where
  "record_step c lc = (case record_live lc (fst c) (snd c) of None \<Rightarrow> lc | Some lc' \<Rightarrow> lc')"

definition record_emit :: "channel \<times> bytes \<Rightarrow> live_capture \<Rightarrow> live_record list" where
  "record_emit c lc =
     (if snd c = [] \<or> record_live lc (fst c) (snd c) = None then []
      else [\<lparr>start = next_pos lc, channel = fst c, payload = snd c\<rparr>])"

lemma evict_suffix: "evict bud charge chd rs = Some (chd', rs') \<Longrightarrow> suffix rs' rs"
  by (induction bud charge chd rs rule: evict.induct)
    (auto split: if_splits intro: suffix_ConsI)

lemma record_live_suffix:
  assumes "record_live lc ch bs = Some lc'"
  shows "suffix (records lc') (records lc @ record_emit (ch, bs) lc)"
proof (cases "bs = [] \<or> length bs + RECORD_CHARGE > budget lc")
  case True
  with assms show ?thesis
    by (cases "bs = []") (auto simp: record_live_def record_emit_def Let_def)
next
  case False
  with assms obtain chd rs where
    "evict (budget lc) (length bs + RECORD_CHARGE) (charged lc) (records lc) = Some (chd, rs)"
    "records lc' = rs @ record_emit (ch, bs) lc"
    by (auto simp: record_live_def record_emit_def Let_def split: option.splits)
  then show ?thesis using evict_suffix by (fastforce simp: suffix_def)
qed

interpretation live_window: rolling_window records record_step record_emit
proof
  fix op :: "channel \<times> bytes" and lc :: live_capture
  show "suffix (records (record_step op lc)) (records lc @ record_emit op lc)"
  proof (cases "record_live lc (fst op) (snd op)")
    case None
    then show ?thesis by (simp add: record_step_def record_emit_def)
  next
    case (Some lc')
    with record_live_suffix [OF Some] show ?thesis by (simp add: record_step_def)
  qed
qed

subsection \<open>Properties\<close>

text \<open>
  C37. From an empty capture, no sequence of drained chunks makes the eviction loop panic,
  and afterwards the retained records are exactly the longest tail of the whole record
  history whose charge fits the budget, with the position counting every byte ever drained.
\<close>

theorem record_all_refines_history:
  "\<exists>lc. record_all (new_capture b) h = Some lc \<and>
     records lc = fitting_tail b (history_records position_default (nonempty_chunks h)) \<and>
     charged lc = total_charge (records lc) \<and> charged lc \<le> b \<and>
     next_pos lc = history_end position_default (nonempty_chunks h)"
  using record_all_captures [OF captures_new, of b h]
  by (auto simp: captures_def new_capture_def fitting_tail_charge)

lemma suffix_is_drop: "suffix xs ys \<Longrightarrow> xs = drop (length ys - length xs) ys"
  by (auto simp: suffix_def)

lemma filter_seq_drop:
  assumes "k \<le> length h"
  shows "filter (\<lambda>r. seq (start r) \<ge> seq p + k) (history_records p h) = drop k (history_records p h)"
  using assms
proof (induction h arbitrary: p k)
  case Nil
  then show ?case by simp
next
  case (Cons c h)
  obtain ch bs where c: "c = (ch, bs)" by force
  show ?case
  proof (cases k)
    case 0
    with Cons.IH [of 0 "advance p ch (length bs)"] show ?thesis
      by (auto simp: c intro!: filter_True dest!: in_set_conv_nth [THEN iffD1]
          simp: history_records_nth)
  next
    case (Suc k')
    with Cons.IH [of k' "advance p ch (length bs)"] Cons.prems show ?thesis by (simp add: c)
  qed
qed

text \<open>
  Reading with the cursor that a reader holds after the first \<open>k\<close> chunks never loses a
  record silently: either every record from \<open>k\<close> on is returned and no gap is reported, or the
  reported gap runs from the cursor to the position of the first returned record \<open>j > k\<close> and
  every record from \<open>j\<close> on is returned.
\<close>

theorem read_from_exact_gap:
  assumes "record_all (new_capture b) h = Some lc" and "h' = nonempty_chunks h" and "k \<le> length h'"
  shows "\<exists>j rd. read_from lc (history_end position_default (take k h')) = Some rd \<and>
     k \<le> j \<and> j \<le> length h' \<and>
     read_records rd = drop j (history_records position_default h') \<and>
     read_next rd = history_end position_default h' \<and>
     read_gap rd = (if k = j then None
        else Some \<lparr>gap_from = history_end position_default (take k h'),
                   gap_to = history_end position_default (take j h')\<rparr>)"
proof -
  let ?p = position_default
  let ?all = "history_records ?p h'"
  have cap: "captures lc h'" using record_all_captures [OF captures_new, of b h] assms by simp
  define m where "m = length h' - length (records lc)"
  have m: "records lc = drop m ?all" "m \<le> length h'"
    using suffix_is_drop [OF fitting_tail_suffix [of "budget lc" ?all]] cap
    by (auto simp: captures_def m_def)
  have first: "first_pos lc = history_end ?p (take m h')"
  proof (cases "m < length h'")
    case True
    then have "records lc = ?all ! m # drop (Suc m) ?all" using m by (simp add: Cons_nth_drop_Suc)
    with True show ?thesis by (simp add: first_pos_def history_records_nth)
  next
    case False
    with m cap show ?thesis by (simp add: first_pos_def captures_def)
  qed
  have seqs: "seq (history_end ?p (take i h')) = i" if "i \<le> length h'" for i
    using that by (simp add: position_default_def)
  have "filter (\<lambda>r. seq (start r) \<ge> k) (drop m ?all) = drop (max k m) ?all"
  proof (cases "k \<le> m")
    case True
    have "filter (\<lambda>r. seq (start r) \<ge> k) (drop m ?all) = drop m ?all"
    proof (rule filter_True, rule ballI)
      fix r
      assume "r \<in> set (drop m ?all)"
      then obtain n where "n < length h' - m" "r = drop m ?all ! n"
        by (auto simp: in_set_conv_nth)
      then obtain i where i: "m \<le> i" "i < length h'" "r = ?all ! i"
        by (intro that [of "m + n"]) auto
      then show "k \<le> seq (start r)" using True by (simp add: history_records_nth seqs)
    qed
    with True show ?thesis by (simp add: max_def)
  next
    case False
    define q where "q = history_end ?p (take m h')"
    have "drop m ?all = history_records q (drop m h')"
      using history_records_append [of ?p "take m h'" "drop m h'"] m(2) by (simp add: q_def)
    moreover have "seq q = m" using m(2) by (simp add: q_def seqs)
    ultimately have "filter (\<lambda>r. seq (start r) \<ge> k) (drop m ?all) = drop (k - m) (drop m ?all)"
      using filter_seq_drop [of "k - m" "drop m h'" q] False assms(3) m(2) by simp
    with False show ?thesis by (simp add: max_def)
  qed
  then have filt: "filter (\<lambda>r. seq (start r) \<ge> k) (records lc) = drop (max k m) ?all"
    using m(1) by simp
  have nxt: "next_pos lc = history_end ?p h'" using cap by (simp add: captures_def)
  have "seq (next_pos lc) = length h'" using nxt by (simp add: position_default_def)
  then have "read_from lc (history_end ?p (take k h')) =
     Some \<lparr>read_gap = (if k < m then Some \<lparr>gap_from = history_end ?p (take k h'),
                                          gap_to = history_end ?p (take m h')\<rparr> else None),
           read_records = drop (max k m) ?all, read_next = history_end ?p h'\<rparr>"
    using filt nxt first seqs [OF assms(3)] seqs [OF m(2)] assms(3)
    by (simp add: read_from_def Let_def)
  then show ?thesis
    using assms(3) m(2) by (intro exI [of _ "max k m"]) (simp add: max_def)
qed

theorem read_from_exact_gap_witness:
  "\<exists>lc. record_all (new_capture 66) [(Stdout, ''ab''), (Stderr, ''c'')] = Some lc \<and>
     (\<exists>rd. read_from lc position_default = Some rd \<and> read_gap rd \<noteq> None)"
proof -
  have r: "record_all (new_capture 66) [(Stdout, ''ab''), (Stderr, ''c'')] =
     Some \<lparr>budget = 66, charged = 65,
       records = [\<lparr>start = \<lparr>seq = 1, stdout_bytes = 2, stderr_bytes = 0\<rparr>, channel = Stderr,
                   payload = ''c''\<rparr>],
       next_pos = \<lparr>seq = 2, stdout_bytes = 2, stderr_bytes = 1\<rparr>\<rparr>" (is "_ = Some ?lc")
    by (simp add: record_live_def new_capture_def Let_def RECORD_CHARGE_def advance_def
        position_default_def)
  have n: "nonempty_chunks [(Stdout, ''ab''), (Stderr, ''c'')] = [(Stdout, ''ab''), (Stderr, ''c'')]"
    by (simp add: nonempty_chunks_def)
  obtain j rd where rd: "read_from ?lc (history_end position_default (take 0 (nonempty_chunks
       [(Stdout, ''ab''), (Stderr, ''c'')]))) = Some rd"
    "read_records rd = drop j (history_records position_default (nonempty_chunks
       [(Stdout, ''ab''), (Stderr, ''c'')]))"
    using read_from_exact_gap [OF r refl, of 0] by auto
  then have "read_gap rd \<noteq> None"
    by (auto simp: n read_from_def Let_def first_pos_def position_default_def)
  with r rd show ?thesis by (auto simp: n)
qed

end
