(* ===== verification/Sentinel.thy ===== *)
theory Sentinel
  imports Rolling_Window
begin

section \<open>Readiness sentinel over workload output\<close>

text \<open>
  The sentinel part of \<^verbatim>\<open>src/src/supervisor.rs\<close>: a matcher that searches the workload's
  standard output for a pattern in a bounded window, and that after a failed search for a
  plain word literal rescans only the bytes where a new occurrence can end.

  The \<^verbatim>\<open>regex\<close> crate is not part of the repository. A compiled expression is a value of
  \<open>regex\<close>: its source text and its match function. Where a property needs the crate's
  documented meaning of a plain literal, it has \<open>literal_regex\<close> as its hypothesis.
\<close>

record regex =
  as_str :: bytes
  is_match :: "bytes \<Rightarrow> bool"

definition literal_regex :: "regex \<Rightarrow> bool" where
  "literal_regex rx \<longleftrightarrow> (\<forall>hay. is_match rx hay \<longleftrightarrow> sublist (as_str rx) hay)"

definition ONE_MIB :: nat where
  "ONE_MIB = 1024 * 1024"

definition is_ascii_word :: "char \<Rightarrow> bool" where
  "is_ascii_word c =
     (let b = of_char c :: nat
      in (48 \<le> b \<and> b \<le> 57) \<or> (65 \<le> b \<and> b \<le> 90) \<or> (97 \<le> b \<and> b \<le> 122) \<or> b = 95)"

record sentinel_matcher =
  sm_regex :: regex
  buffer :: bytes
  limit :: nat
  literal_len :: "nat option"
  previous_match :: bool

definition new_matcher :: "regex \<Rightarrow> nat \<Rightarrow> sentinel_matcher" where
  "new_matcher rx pattern_len =
     \<lparr>sm_regex = rx, buffer = [], limit = max ONE_MIB (saturating_mul_u64 pattern_len 4),
      literal_len = (if as_str rx \<noteq> [] \<and> list_all is_ascii_word (as_str rx)
                     then Some (length (as_str rx)) else None),
      previous_match = False\<rparr>"

definition search_start :: "sentinel_matcher \<Rightarrow> nat \<Rightarrow> nat" where
  "search_start m retained_old_len =
     (case (literal_len m, previous_match m) of
        (Some len, False) \<Rightarrow> retained_old_len - (len - 1)
      | _ \<Rightarrow> 0)"

definition append_stdout :: "sentinel_matcher \<Rightarrow> bytes \<Rightarrow> sentinel_matcher" where
  "append_stdout m bs = m\<lparr>buffer := buffer m @ bs\<rparr>"

definition trim_buffer :: "sentinel_matcher \<Rightarrow> sentinel_matcher" where
  "trim_buffer m =
     (if length (buffer m) > limit m
      then m\<lparr>buffer := drop (length (buffer m) - limit m) (buffer m)\<rparr> else m)"

definition push_stdout :: "sentinel_matcher \<Rightarrow> bytes \<Rightarrow> bool \<times> sentinel_matcher" where
  "push_stdout m bs =
     (let old_len = length (buffer m);
          m = append_stdout m bs;
          removed = length (buffer m) - limit m;
          m = trim_buffer m;
          start = search_start m (old_len - removed);
          hit = is_match (sm_regex m) (drop start (buffer m))
      in (hit, m\<lparr>previous_match := hit\<rparr>))"

text \<open>
  \<^verbatim>\<open>sentinel_matcher\<close> of the source; \<open>compile\<close> stands for the crate's \<^verbatim>\<open>Regex::new\<close>.
\<close>

definition sentinel_matcher_of ::
  "(bytes \<Rightarrow> 'e + regex) \<Rightarrow> bytes option \<Rightarrow> 'e + sentinel_matcher option" where
  "sentinel_matcher_of compile pattern =
     (case pattern of
        None \<Rightarrow> Inr None
      | Some p \<Rightarrow>
          (case compile p of Inl e \<Rightarrow> Inl e | Inr rx \<Rightarrow> Inr (Some (new_matcher rx (length p)))))"

text \<open>Feeding drained chunks until the sentinel is reached, as the event loop does.\<close>

fun reaches_sentinel :: "sentinel_matcher \<Rightarrow> bytes list \<Rightarrow> bool" where
  "reaches_sentinel m [] = False"
| "reaches_sentinel m (c # cs) =
     (case push_stdout m c of (hit, m') \<Rightarrow> hit \<or> reaches_sentinel m' cs)"

definition push_all :: "sentinel_matcher \<Rightarrow> bytes list \<Rightarrow> sentinel_matcher" where
  "push_all m cs = fold (\<lambda>c m. snd (push_stdout m c)) cs m"

subsection \<open>Shape of a push\<close>

definition last_bytes :: "nat \<Rightarrow> 'a list \<Rightarrow> 'a list" where
  "last_bytes n xs = drop (length xs - n) xs"

lemma push_stdout_fields [simp]:
  "buffer (snd (push_stdout m bs)) = last_bytes (limit m) (buffer m @ bs)"
  "limit (snd (push_stdout m bs)) = limit m"
  "sm_regex (snd (push_stdout m bs)) = sm_regex m"
  "literal_len (snd (push_stdout m bs)) = literal_len m"
  "previous_match (snd (push_stdout m bs)) = fst (push_stdout m bs)"
  by (auto simp: push_stdout_def Let_def append_stdout_def trim_buffer_def last_bytes_def)

lemma search_start_buffer [simp]: "search_start (m\<lparr>buffer := b\<rparr>) n = search_start m n"
  by (simp add: search_start_def)

lemma push_stdout_result:
  "fst (push_stdout m bs) =
     is_match (sm_regex m)
       (drop (search_start m (length (buffer m) - (length (buffer m @ bs) - limit m)))
         (last_bytes (limit m) (buffer m @ bs)))"
  by (simp add: push_stdout_def Let_def append_stdout_def trim_buffer_def last_bytes_def)

lemma push_all_limit [simp]: "limit (push_all m cs) = limit m"
  by (induction cs arbitrary: m) (auto simp: push_all_def)

interpretation sentinel_window: rolling_window buffer "\<lambda>c m. snd (push_stdout m c)" "\<lambda>c _. c"
  by unfold_locales (simp only: push_stdout_fields last_bytes_def suffix_drop)

subsection \<open>Where a new occurrence can lie\<close>

text \<open>An occurrence in \<open>xs @ ys\<close> that is not one in \<open>xs\<close> ends in \<open>ys\<close>.\<close>

lemma sublist_append_new:
  assumes "pat \<noteq> []" and "\<not> sublist pat xs"
  shows "sublist pat (xs @ ys) \<longleftrightarrow> sublist pat (drop (length xs - (length pat - 1)) (xs @ ys))"
proof
  assume "sublist pat (xs @ ys)"
  then obtain ps ss where eq: "xs @ ys = ps @ pat @ ss" by (auto simp: sublist_def)
  have "length xs < length ps + length pat"
  proof (rule ccontr)
    assume "\<not> ?thesis"
    then have "take (length xs) (ps @ pat @ ss) = ps @ pat @ take (length xs - length ps - length pat) ss"
      by simp
    moreover have "take (length xs) (xs @ ys) = xs" by simp
    ultimately have "sublist pat xs" using eq by (metis sublist_def)
    with assms(2) show False by contradiction
  qed
  then have le: "length xs - (length pat - 1) \<le> length ps" by linarith
  then have "drop (length xs - (length pat - 1)) (xs @ ys) =
     drop (length xs - (length pat - 1)) ps @ pat @ ss" using eq by simp
  then show "sublist pat (drop (length xs - (length pat - 1)) (xs @ ys))" by (metis sublist_def)
next
  assume "sublist pat (drop (length xs - (length pat - 1)) (xs @ ys))"
  then show "sublist pat (xs @ ys)" by (metis sublist_drop sublist_order.order_trans)
qed

lemma sublist_last_bytes: "sublist pat (last_bytes n xs) \<Longrightarrow> sublist pat xs"
  by (metis last_bytes_def sublist_drop sublist_order.order_trans)

lemma sublist_drop_mono: "i \<le> j \<Longrightarrow> sublist pat (drop j xs) \<Longrightarrow> sublist pat (drop i xs)"
  by (metis drop_drop le_add_diff_inverse2 sublist_drop sublist_order.order_trans)

lemma last_bytes_append_parts:
  assumes "removed = length (old @ new) - n"
  shows "last_bytes n (old @ new) = drop removed old @ drop (removed - length old) new"
  using assms by (simp add: last_bytes_def)

definition window_inv :: "sentinel_matcher \<Rightarrow> bool" where
  "window_inv m \<longleftrightarrow>
     (case literal_len m of
        None \<Rightarrow> True
      | Some len \<Rightarrow> as_str (sm_regex m) \<noteq> [] \<and> len = length (as_str (sm_regex m)) \<and>
          (previous_match m \<longleftrightarrow> is_match (sm_regex m) (buffer m)))"

lemma new_matcher_fields [simp]:
  "sm_regex (new_matcher rx n) = rx" "buffer (new_matcher rx n) = []"
  "previous_match (new_matcher rx n) = False"
  by (simp_all add: new_matcher_def)

lemma window_inv_new: "literal_regex rx \<Longrightarrow> window_inv (new_matcher rx n)"
  by (auto simp: window_inv_def new_matcher_def literal_regex_def)

text \<open>
  The narrowed search of a literal gives the answer of a search of the whole window.
\<close>

lemma push_stdout_full_search:
  assumes "literal_regex (sm_regex m)" and "window_inv m"
  shows "fst (push_stdout m bs) \<longleftrightarrow> is_match (sm_regex m) (last_bytes (limit m) (buffer m @ bs))"
proof (cases "literal_len m")
  case None
  then show ?thesis by (simp add: push_stdout_result search_start_def)
next
  case (Some len)
  show ?thesis
  proof (cases "previous_match m")
    case True
    then show ?thesis using Some by (simp add: push_stdout_result search_start_def)
  next
    case False
    let ?pat = "as_str (sm_regex m)"
    let ?removed = "length (buffer m @ bs) - limit m"
    let ?old = "drop ?removed (buffer m)"
    let ?new = "drop (?removed - length (buffer m)) bs"
    have pat: "?pat \<noteq> []" "len = length ?pat" using assms(2) Some by (auto simp: window_inv_def)
    have "\<not> sublist ?pat (buffer m)"
      using assms False Some by (auto simp: window_inv_def literal_regex_def)
    then have "\<not> sublist ?pat ?old" by (metis sublist_drop sublist_order.order_trans)
    note sublist_append_new [OF pat(1) this, of ?new]
    moreover have "last_bytes (limit m) (buffer m @ bs) = ?old @ ?new"
      by (rule last_bytes_append_parts) simp
    moreover have "search_start m (length (buffer m) - ?removed) = length ?old - (length ?pat - 1)"
      using Some False pat(2) by (simp add: search_start_def)
    ultimately show ?thesis
      using assms(1) unfolding push_stdout_result literal_regex_def by simp
  qed
qed

lemma window_inv_push:
  assumes "literal_regex (sm_regex m)" and "window_inv m"
  shows "window_inv (snd (push_stdout m bs))"
  using assms push_stdout_full_search [OF assms, of bs]
  by (auto simp: window_inv_def split: option.splits)

lemma window_inv_push_all:
  assumes "literal_regex (sm_regex m)" and "window_inv m"
  shows "window_inv (push_all m cs) \<and> sm_regex (push_all m cs) = sm_regex m"
  using assms
proof (induction cs arbitrary: m)
  case Nil
  then show ?case by (simp add: push_all_def)
next
  case (Cons c cs)
  from Cons.IH [of "snd (push_stdout m c)"] Cons.prems window_inv_push [OF Cons.prems, of c]
  show ?case by (simp add: push_all_def)
qed

subsection \<open>The whole stream\<close>

lemma last_bytes_last_bytes:
  "last_bytes n (last_bytes n xs @ ys) = last_bytes n (xs @ ys)"
proof (cases "length xs \<le> n")
  case True
  then show ?thesis by (simp add: last_bytes_def)
next
  case False
  then have "length xs + length ys - n = (length xs - n) + length ys" by simp
  with False show ?thesis by (simp add: last_bytes_def add.commute)
qed

lemma window_limit_enough:
  assumes "length pat \<le> 9223372036854775807" and "n \<le> 8192"
  shows "n + (length pat - 1) \<le> limit (new_matcher rx (length pat))"
  using assms by (auto simp: new_matcher_def ONE_MIB_def saturating_mul_u64_def)

lemma new_occurrence_in_window:
  assumes "pat \<noteq> []" and "\<not> sublist pat stream" and "length c + (length pat - 1) \<le> n"
  shows "sublist pat (last_bytes n (stream @ c)) \<longleftrightarrow> sublist pat (stream @ c)"
proof
  assume "sublist pat (stream @ c)"
  then have "sublist pat (drop (length stream - (length pat - 1)) (stream @ c))"
    using sublist_append_new [OF assms(1,2)] by blast
  then show "sublist pat (last_bytes n (stream @ c))"
    unfolding last_bytes_def
  proof (rule sublist_drop_mono [rotated])
    show "length (stream @ c) - n \<le> length stream - (length pat - 1)" using assms(3) by simp
  qed
qed (rule sublist_last_bytes)

lemma reaches_sentinel_stream:
  assumes "literal_regex (sm_regex m)" and "window_inv m" and "as_str (sm_regex m) \<noteq> []"
    and "buffer m = last_bytes (limit m) stream" and "\<not> sublist (as_str (sm_regex m)) stream"
    and "\<forall>c \<in> set cs. length c + (length (as_str (sm_regex m)) - 1) \<le> limit m"
  shows "reaches_sentinel m cs \<longleftrightarrow> sublist (as_str (sm_regex m)) (stream @ concat cs)"
  using assms
proof (induction cs arbitrary: m stream)
  case Nil
  then show ?case by simp
next
  case (Cons c cs)
  let ?pat = "as_str (sm_regex m)" and ?m = "snd (push_stdout m c)"
  have hit: "fst (push_stdout m c) \<longleftrightarrow> sublist ?pat (stream @ c)"
    using push_stdout_full_search [OF Cons.prems(1,2), of c] Cons.prems
      new_occurrence_in_window [of ?pat stream c "limit m"]
    by (simp add: last_bytes_last_bytes literal_regex_def)
  show ?case
  proof (cases "fst (push_stdout m c)")
    case True
    with hit have "sublist ?pat ((stream @ c) @ concat cs)" by (metis sublist_appendI sublist_def
          append.assoc)
    with True show ?thesis by (simp add: split_beta)
  next
    case False
    then have "reaches_sentinel ?m cs \<longleftrightarrow> sublist (as_str (sm_regex ?m)) ((stream @ c) @ concat cs)"
      using Cons.prems hit window_inv_push [OF Cons.prems(1,2), of c]
      by (intro Cons.IH) (simp_all add: last_bytes_last_bytes)
    with False show ?thesis by (simp add: split_beta)
  qed
qed

subsection \<open>Properties\<close>

text \<open>
  C38. After any sequence of chunks, the narrowed search that a plain word literal allows
  returns exactly what a search of the whole retained window would return, and the window
  is the last \<open>limit\<close> bytes of what was appended to it.
\<close>

theorem narrowed_search_equivalent:
  assumes "literal_regex rx" and "m = push_all (new_matcher rx n) cs"
  shows "fst (push_stdout m c) \<longleftrightarrow> is_match rx (last_bytes (limit m) (buffer m @ c))"
  using push_stdout_full_search [of m c] window_inv_push_all [of "new_matcher rx n" cs]
    window_inv_new [OF assms(1), of n] assms
  by simp

definition ready_regex :: regex where
  "ready_regex = \<lparr>as_str = ''ready'', is_match = sublist ''ready''\<rparr>"

theorem narrowed_search_equivalent_witness:
  "fst (push_stdout (push_all (new_matcher ready_regex 5) [''xxre'']) ''ady'') \<longleftrightarrow>
     is_match ready_regex (last_bytes (limit (push_all (new_matcher ready_regex 5) [''xxre'']))
       (buffer (push_all (new_matcher ready_regex 5) [''xxre'']) @ ''ady''))"
  by (rule narrowed_search_equivalent) (simp_all add: literal_regex_def ready_regex_def)

text \<open>
  C39. For a word literal and chunks no larger than the supervisor's 8 KiB reads, feeding the
  chunks one by one reaches the sentinel exactly when the literal occurs in the whole output
  stream, however the chunks split it and however long the stream is.
\<close>

theorem sentinel_reached_iff_in_stream:
  assumes "literal_regex rx" and "as_str rx \<noteq> []" and "length (as_str rx) \<le> 9223372036854775807"
    and "\<forall>c \<in> set cs. length c \<le> 8192"
  shows "reaches_sentinel (new_matcher rx (length (as_str rx))) cs \<longleftrightarrow>
     sublist (as_str rx) (concat cs)"
proof -
  let ?m = "new_matcher rx (length (as_str rx))"
  have "reaches_sentinel ?m cs \<longleftrightarrow> sublist (as_str (sm_regex ?m)) ([] @ concat cs)"
  proof (rule reaches_sentinel_stream)
    show "\<forall>c \<in> set cs. length c + (length (as_str (sm_regex ?m)) - 1) \<le> limit ?m"
      using window_limit_enough [OF assms(3)] assms(4) by simp
  qed (use assms window_inv_new in \<open>simp_all add: last_bytes_def\<close>)
  then show ?thesis by simp
qed

theorem sentinel_reached_iff_in_stream_witness:
  "reaches_sentinel (new_matcher ready_regex 5) [''xxre'', ''ady''] \<longleftrightarrow> sublist ''ready'' ''xxready''"
proof -
  have len: "length (as_str ready_regex) = 5" by (simp add: ready_regex_def)
  have "reaches_sentinel (new_matcher ready_regex (length (as_str ready_regex))) [''xxre'', ''ady''] \<longleftrightarrow>
     sublist (as_str ready_regex) (concat [''xxre'', ''ady''])"
    by (rule sentinel_reached_iff_in_stream) (simp_all add: literal_regex_def ready_regex_def)
  then show ?thesis unfolding len by (simp add: ready_regex_def)
qed

end
