(* ===== verification/Rust_Numbers.thy ===== *)
theory Rust_Numbers
  imports Prelude
begin

section \<open>Decimal and hexadecimal text of Rust integers\<close>

text \<open>
  Rust's \<^verbatim>\<open>Display\<close> for integers, its \<^verbatim>\<open>parse\<close> for \<^verbatim>\<open>i32\<close>, \<^verbatim>\<open>u64\<close> and \<^verbatim>\<open>usize\<close> (an optional
  sign, then at least one digit, then a range check) and the \<^verbatim>\<open>{:02x}\<close> form of a byte, as
  \<^verbatim>\<open>state.rs\<close> and \<^verbatim>\<open>retained_output.rs\<close> use them; the round trips between them.
\<close>

definition digit_char :: "nat \<Rightarrow> char" where
  "digit_char n = char_of (48 + n)"

definition digit_val :: "char \<Rightarrow> nat option" where
  "digit_val c =
     (let b = of_char c :: nat in if 48 \<le> b \<and> b \<le> 57 then Some (b - 48) else None)"

fun nat_dec :: "nat \<Rightarrow> string" where
  "nat_dec n = (if n < 10 then [digit_char n] else nat_dec (n div 10) @ [digit_char (n mod 10)])"

declare nat_dec.simps [simp del]

definition int_dec :: "int \<Rightarrow> string" where
  "int_dec i = (if i < 0 then CHR ''-'' # nat_dec (nat (- i)) else nat_dec (nat i))"

fun digits_acc :: "nat \<Rightarrow> string \<Rightarrow> nat option" where
  "digits_acc acc [] = Some acc"
| "digits_acc acc (c # cs) =
     (case digit_val c of None \<Rightarrow> None | Some d \<Rightarrow> digits_acc (10 * acc + d) cs)"

definition digits_val :: "string \<Rightarrow> nat option" where
  "digits_val s = (if s = [] then None else digits_acc 0 s)"

definition parse_unsigned :: "nat \<Rightarrow> string \<Rightarrow> nat option" where
  "parse_unsigned maximum s =
     (case digits_val (case s of c # cs \<Rightarrow> if c = CHR ''+'' then cs else s | [] \<Rightarrow> s) of
        Some n \<Rightarrow> if n \<le> maximum then Some n else None
      | None \<Rightarrow> None)"

definition parse_u64 :: "string \<Rightarrow> nat option" where
  "parse_u64 = parse_unsigned u64_max"

definition i32_range :: "int \<Rightarrow> bool" where
  "i32_range i \<longleftrightarrow> - 2147483648 \<le> i \<and> i \<le> 2147483647"

definition parse_i32 :: "string \<Rightarrow> int option" where
  "parse_i32 s =
     (let v = (case s of
                 c # cs \<Rightarrow>
                   if c = CHR ''-'' then map_option (\<lambda>n. - int n) (digits_val cs)
                   else map_option int (digits_val (if c = CHR ''+'' then cs else s))
               | [] \<Rightarrow> None)
      in case v of Some i \<Rightarrow> if i32_range i then Some i else None | None \<Rightarrow> None)"

definition hex_digit :: "nat \<Rightarrow> char" where
  "hex_digit n = (if n < 10 then char_of (48 + n) else char_of (87 + n))"

definition hex_byte :: "char \<Rightarrow> string" where
  "hex_byte c = (let b = of_char c :: nat in [hex_digit (b div 16), hex_digit (b mod 16)])"

subsection \<open>Round trips\<close>

lemma digit_char_code: "n < 10 \<Longrightarrow> (of_char (digit_char n) :: nat) = 48 + n"
  by (simp add: digit_char_def)

lemma digit_val_char [simp]: "n < 10 \<Longrightarrow> digit_val (digit_char n) = Some n"
  by (simp add: digit_val_def digit_char_code)

lemma digits_acc_append:
  "digits_acc acc (xs @ ys) =
     (case digits_acc acc xs of None \<Rightarrow> None | Some v \<Rightarrow> digits_acc v ys)"
  by (induction xs arbitrary: acc) (auto split: option.splits)

lemma nat_dec_nonempty [simp]: "nat_dec n \<noteq> []"
  by (subst nat_dec.simps) simp

lemma digits_acc_nat_dec: "digits_acc 0 (nat_dec n) = Some n"
proof (induction n rule: nat_dec.induct)
  case (1 n)
  show ?case
  proof (cases "n < 10")
    case True
    then show ?thesis by (subst nat_dec.simps) simp
  next
    case False
    then have "digits_acc 0 (nat_dec (n div 10)) = Some (n div 10)" by (rule 1)
    with False show ?thesis by (subst nat_dec.simps) (simp add: digits_acc_append)
  qed
qed

lemma digits_val_nat_dec [simp]: "digits_val (nat_dec n) = Some n"
  by (simp add: digits_val_def digits_acc_nat_dec)

lemma nat_dec_digits: "c \<in> set (nat_dec n) \<Longrightarrow> 48 \<le> (of_char c :: nat) \<and> (of_char c :: nat) \<le> 57"
proof (induction n rule: nat_dec.induct)
  case (1 n)
  show ?case
  proof (cases "n < 10")
    case True
    with 1(2) show ?thesis by (simp add: nat_dec.simps [of n] digit_char_code)
  next
    case False
    with 1(2) have "c \<in> set (nat_dec (n div 10)) \<or> c = digit_char (n mod 10)"
      by (simp add: nat_dec.simps [of n]) blast
    then show ?thesis using 1(1) [OF False] digit_char_code [of "n mod 10"] by auto
  qed
qed

lemma token_nat_dec [simp]: "token (nat_dec n)"
  using nat_dec_digits [of _ n] by (fastforce simp: token_def list_all_iff graphic_def)

lemma nat_dec_Cons_digit:
  "nat_dec n = c # cs \<Longrightarrow> c \<noteq> CHR ''+'' \<and> c \<noteq> CHR ''-'' \<and> c \<noteq> CHR '' ''"
  using nat_dec_digits [of c n] by auto

lemma parse_unsigned_nat_dec: "n \<le> m \<Longrightarrow> parse_unsigned m (nat_dec n) = Some n"
proof -
  assume "n \<le> m"
  obtain c cs where eq: "nat_dec n = c # cs" by (cases "nat_dec n") auto
  with nat_dec_Cons_digit [OF this] digits_val_nat_dec [of n] \<open>n \<le> m\<close> show ?thesis
    by (simp add: parse_unsigned_def)
qed

lemma parse_i32_int_dec:
  assumes "i32_range i"
  shows "parse_i32 (int_dec i) = Some i"
proof (cases "i < 0")
  case True
  with assms show ?thesis by (simp add: parse_i32_def int_dec_def)
next
  case False
  obtain c cs where "nat_dec (nat i) = c # cs" by (cases "nat_dec (nat i)") auto
  with nat_dec_Cons_digit [OF this] digits_val_nat_dec [of "nat i"] False assms show ?thesis
    by (simp add: parse_i32_def int_dec_def)
qed

lemma token_int_dec [simp]: "token (int_dec i)"
  using token_nat_dec by (auto simp: int_dec_def token_def graphic_def)

lemma int_dec_no_newline: "CHR ''\<newline>'' \<notin> set (int_dec i)"
  using token_int_dec [of i] by (fastforce simp: token_def list_all_iff graphic_def)

lemma hex_digit_inj: "m < 16 \<Longrightarrow> n < 16 \<Longrightarrow> hex_digit m = hex_digit n \<Longrightarrow> m = n"
proof -
  assume "m < 16" "n < 16" "hex_digit m = hex_digit n"
  then have "(of_char (hex_digit m) :: nat) = of_char (hex_digit n)" by simp
  with \<open>m < 16\<close> \<open>n < 16\<close> show "m = n" by (auto simp: hex_digit_def split: if_splits)
qed

lemma hex_byte_inj: "hex_byte c = hex_byte d \<Longrightarrow> c = d"
proof -
  assume "hex_byte c = hex_byte d"
  moreover have "(of_char c :: nat) div 16 < 16" "(of_char d :: nat) div 16 < 16"
    using nat_of_char_less_256 [of c] nat_of_char_less_256 [of d] by (simp_all add: less_mult_imp_div_less)
  ultimately have "(of_char c :: nat) div 16 = of_char d div 16" "(of_char c :: nat) mod 16 = of_char d mod 16"
    by (auto simp: hex_byte_def Let_def intro!: hex_digit_inj)
  then have "(of_char c :: nat) = of_char d" by (metis div_mult_mod_eq)
  then show "c = d" by simp
qed

lemma length_hex: "length (concat (map hex_byte bs)) = 2 * length bs"
  by (induction bs) (auto simp: hex_byte_def Let_def)

lemma hex_inj: "concat (map hex_byte as) = concat (map hex_byte bs) \<Longrightarrow> as = bs"
proof (induction as arbitrary: bs)
  case Nil
  then show ?case by (cases bs) (auto simp: hex_byte_def Let_def)
next
  case (Cons a as)
  then obtain b bs' where bs: "bs = b # bs'" by (cases bs) (auto simp: hex_byte_def Let_def)
  have "length (hex_byte a) = length (hex_byte b)" by (simp add: hex_byte_def Let_def)
  with Cons.prems bs have "hex_byte a = hex_byte b" "concat (map hex_byte as) = concat (map hex_byte bs')"
    by auto
  with Cons.IH hex_byte_inj bs show ?case by blast
qed

end
