(* ===== verification/State_Data.thy ===== *)
theory State_Data
  imports Rust_Numbers
begin

section \<open>The data of a handle\<close>

text \<open>
  The types of \<^verbatim>\<open>src/src/state.rs\<close> and the functions on them that do no I/O: the files of a
  handle directory, the delivery mode and its text, the completion-delivery record and its
  lifecycle, the handle metadata, the return code file, the choice of the state root.

  JSON documents (\<^verbatim>\<open>meta.json\<close>) are kept as the record they encode: the encoder is the
  \<^verbatim>\<open>serde_json\<close> crate, which is not part of the repository.
\<close>

subsection \<open>Files of a handle directory\<close>

datatype state_file =
    Log | Rc | MetaFile | Owner | Consumed | OutputLock | DeliveryModeFile | DeliveryHelperFile
  | DeliveryHelperInterpreter | DeliveryHelperEnvironment | ActivationAttempted | ActivationOutcome
  | DeliveryLock | CustodyLock | AcceptedCancel | CancellationDrained | PhysicalCustody
  | ExternalTransferCustody | CompletionLock | ReconciliationLock

fun file_name :: "state_file \<Rightarrow> string" where
  "file_name Log = ''log''"
| "file_name Rc = ''rc''"
| "file_name MetaFile = ''meta.json''"
| "file_name Owner = ''owner.json''"
| "file_name Consumed = ''consumed''"
| "file_name OutputLock = ''output.lock''"
| "file_name DeliveryModeFile = ''delivery-mode''"
| "file_name DeliveryHelperFile = ''delivery-helper''"
| "file_name DeliveryHelperInterpreter = ''delivery-helper-interpreter''"
| "file_name DeliveryHelperEnvironment = ''delivery-helper-environment.json''"
| "file_name ActivationAttempted = ''activation-attempted''"
| "file_name ActivationOutcome = ''activation-outcome''"
| "file_name DeliveryLock = ''delivery.lock''"
| "file_name CustodyLock = ''custody.lock''"
| "file_name AcceptedCancel = ''cancel-requested''"
| "file_name CancellationDrained = ''cancel-workload-drained''"
| "file_name PhysicalCustody = ''physical-custody''"
| "file_name ExternalTransferCustody = ''external-transfer-custody''"
| "file_name CompletionLock = ''completion.lock''"
| "file_name ReconciliationLock = ''reconciliation.lock''"

text \<open>\<^verbatim>\<open>Path::join\<close> and the path that \<^verbatim>\<open>StatePaths::new\<close> gives a field.\<close>

definition path_join :: "string \<Rightarrow> string \<Rightarrow> string" where
  "path_join a b =
     (if prefix ''/'' b then b
      else if a = [] then b
      else if suffix ''/'' a then a @ b
      else a @ ''/'' @ b)"

definition state_path :: "string \<Rightarrow> string \<Rightarrow> state_file \<Rightarrow> string" where
  "state_path root handle f = path_join (path_join root handle) (file_name f)"

lemma inj_file_name: "file_name f = file_name g \<Longrightarrow> f = g"
  by (cases f; cases g) simp_all

lemma file_name_not_hidden: "file_name f \<noteq> [] \<and> hd (file_name f) \<noteq> CHR ''.'' \<and> hd (file_name f) \<noteq> CHR ''/''"
  by (cases f) simp_all

lemma file_name_no_slash: "\<not> prefix ''/'' (file_name f)"
  by (cases f) simp_all

lemma state_path_inj:
  assumes "state_path root handle f = state_path root handle g"
  shows "f = g"
  using assms inj_file_name file_name_no_slash
  by (auto simp: state_path_def path_join_def split: if_splits)

subsection \<open>Delivery mode\<close>

datatype delivery_mode = Sync | Async

fun delivery_mode_as_str :: "delivery_mode \<Rightarrow> string" where
  "delivery_mode_as_str Sync = ''sync''"
| "delivery_mode_as_str Async = ''async''"

definition parse_delivery_mode :: "string \<Rightarrow> delivery_mode option" where
  "parse_delivery_mode value =
     (let t = trim value
      in if t = ''sync'' then Some Sync else if t = ''async'' then Some Async else None)"

subsection \<open>Completion delivery\<close>

definition DELIVERY_ATTEMPT_IN_PROGRESS :: string where
  "DELIVERY_ATTEMPT_IN_PROGRESS = ''delivery_attempt_in_progress''"

definition DELIVERY_TRANSFER_OUTCOME_UNKNOWN :: string where
  "DELIVERY_TRANSFER_OUTCOME_UNKNOWN = ''transfer_outcome_unknown''"

datatype completion_lifecycle =
    Unclaimed
  | ProvisionalTransfer
  | RetryablePreAdmissionFailure
  | ClosedPreAdmissionFailure
  | NonReplayableUnknownTransfer
  | AdmittedOutcome
  | LegacySkipped
  | Invalid

definition permits_attempt :: "completion_lifecycle \<Rightarrow> bool" where
  "permits_attempt l \<longleftrightarrow> (l = Unclaimed \<or> l = RetryablePreAdmissionFailure)"

definition needs_progress :: "completion_lifecycle \<Rightarrow> bool" where
  "needs_progress l \<longleftrightarrow>
     (l = Unclaimed \<or> l = ProvisionalTransfer \<or> l = RetryablePreAdmissionFailure)"

record completion_delivery =
  attempted :: bool
  dm_exit_code :: "int option"
  dm_error :: "string option"
  error_code :: "string option"
  retryable :: "bool option"
  retry_count :: nat
  skipped :: "string option"

definition completion_delivery_default :: completion_delivery where
  "completion_delivery_default =
     \<lparr>attempted = False, dm_exit_code = None, dm_error = None, error_code = None,
      retryable = None, retry_count = 0, skipped = None\<rparr>"

definition completion_lifecycle :: "completion_delivery \<Rightarrow> completion_lifecycle" where
  "completion_lifecycle d =
     (if skipped d \<noteq> None then
        (if \<not> attempted d \<and> error_code d = None then LegacySkipped else Invalid)
      else if attempted d then
        (if error_code d = Some DELIVERY_ATTEMPT_IN_PROGRESS then ProvisionalTransfer
         else if error_code d = Some DELIVERY_TRANSFER_OUTCOME_UNKNOWN then NonReplayableUnknownTransfer
         else AdmittedOutcome)
      else
        (case (error_code d \<noteq> None, retryable d) of
           (False, _) \<Rightarrow> Unclaimed
         | (True, Some True) \<Rightarrow> RetryablePreAdmissionFailure
         | (True, _) \<Rightarrow> ClosedPreAdmissionFailure))"

lemma lifecycle_default [simp]: "completion_lifecycle completion_delivery_default = Unclaimed"
  by (simp add: completion_lifecycle_def completion_delivery_default_def)

subsection \<open>Activation of asynchronous delivery\<close>

datatype activation_outcome =
    ActUnclaimed
  | ClaimedWithoutOutcome
  | Pending
  | Succeeded
  | PreAdmissionFailed string
  | Failed string
  | TransferOutcomeUnknown

record activation_state =
  act_mode :: delivery_mode
  act_outcome :: activation_outcome

abbreviation newline :: string where "newline \<equiv> [CHR 0x0A]"

definition ACTIVATION_PENDING :: string where
  "ACTIVATION_PENDING = ''pending'' @ newline"

definition ACTIVATION_SUCCEEDED :: string where
  "ACTIVATION_SUCCEEDED = ''succeeded'' @ newline"

definition ACTIVATION_PRE_ADMISSION_FAILED_PREFIX :: string where
  "ACTIVATION_PRE_ADMISSION_FAILED_PREFIX = ''pre_admission_failed: ''"

definition ACTIVATION_TRANSFER_OUTCOME_UNKNOWN :: string where
  "ACTIVATION_TRANSFER_OUTCOME_UNKNOWN = ''transfer_outcome_unknown'' @ newline"

text \<open>The reading of the \<^verbatim>\<open>activation-outcome\<close> file; \<open>claimed\<close> is the attempt marker.\<close>

definition parse_activation_outcome :: "string option \<Rightarrow> bool \<Rightarrow> activation_outcome" where
  "parse_activation_outcome text claimed =
     (case text of
        None \<Rightarrow> if claimed then ClaimedWithoutOutcome else ActUnclaimed
      | Some outcome \<Rightarrow>
          if outcome = ACTIVATION_PENDING then Pending
          else if outcome = ACTIVATION_SUCCEEDED then Succeeded
          else if prefix ACTIVATION_PRE_ADMISSION_FAILED_PREFIX outcome
          then PreAdmissionFailed
                 (trim (drop (length ACTIVATION_PRE_ADMISSION_FAILED_PREFIX) outcome))
          else if outcome = ACTIVATION_TRANSFER_OUTCOME_UNKNOWN then TransferOutcomeUnknown
          else Failed (trim outcome))"

definition activation_failed_text :: "string \<Rightarrow> string" where
  "activation_failed_text err = ''failed: '' @ err @ newline"

definition activation_pre_admission_failed_text :: "string \<Rightarrow> string" where
  "activation_pre_admission_failed_text err =
     ACTIVATION_PRE_ADMISSION_FAILED_PREFIX @ err @ newline"

lemmas activation_text_defs =
  ACTIVATION_PENDING_def ACTIVATION_SUCCEEDED_def ACTIVATION_PRE_ADMISSION_FAILED_PREFIX_def
  ACTIVATION_TRANSFER_OUTCOME_UNKNOWN_def activation_failed_text_def
  activation_pre_admission_failed_text_def

lemma parse_activation_outcome_simps [simp]:
  "parse_activation_outcome None c = (if c then ClaimedWithoutOutcome else ActUnclaimed)"
  "parse_activation_outcome (Some ACTIVATION_PENDING) c = Pending"
  "parse_activation_outcome (Some ACTIVATION_SUCCEEDED) c = Succeeded"
  "parse_activation_outcome (Some ACTIVATION_TRANSFER_OUTCOME_UNKNOWN) c = TransferOutcomeUnknown"
  "parse_activation_outcome (Some (activation_pre_admission_failed_text e)) c =
     PreAdmissionFailed (trim (e @ newline))"
  "parse_activation_outcome (Some (activation_failed_text e)) c =
     Failed (trim (''failed: '' @ e @ newline))"
  by (auto simp: parse_activation_outcome_def activation_text_defs)

subsection \<open>Handle metadata\<close>

record helper_interpreter =
  int_path :: string
  int_sha256 :: string

record helper_provenance =
  prov_schema_version :: nat
  prov_path :: string
  device :: nat
  inode :: nat
  size_bytes :: nat
  modified_seconds :: int
  modified_nanoseconds :: int
  file_mode :: nat
  sha256 :: string
  environment :: "(string \<times> string) list"
  environment_sha256 :: "string option"
  interpreter :: "helper_interpreter option"

record caller_entry =
  ce_pid :: pid
  starttime_ticks :: nat
  ce_boot_id :: string

record cgroup_meta =
  cg_mode :: string
  cg_path :: "string option"
  delegated :: bool
  events_watch :: bool
  degraded_reason :: "string option"

definition subreaper_only :: cgroup_meta where
  "subreaper_only =
     \<lparr>cg_mode = ''subreaper-only'', cg_path = None, delegated = False, events_watch = False,
      degraded_reason = None\<rparr>"

record meta =
  schema_version :: nat
  handle :: string
  created_at_unix_ms :: nat
  updated_at_unix_ms :: nat
  state :: string
  completion_reason :: "string option"
  caller_ppid :: pid
  caller_chain :: "caller_entry list"
  cancel_owner :: "caller_entry option"
  owner_session_id :: "string option"
  owner_invocation_uuid :: "string option"
  launcher_pid :: pid
  supervisor_pid :: "pid option"
  supervisor_pid_starttime_ticks :: "nat option"
  workload_pid :: "pid option"
  workload_pid_starttime_ticks :: "nat option"
  process_boot_id :: "string option"
  workload_pgid :: "pid option"
  workload_pidfd :: bool
  argv :: "string list"
  cwd :: string
  run_mode :: string
  delivery_mode :: delivery_mode
  delivery_helper :: "helper_provenance option"
  ready_sentinel :: "string option"
  ready_at_unix_ms :: "nat option"
  completed_at_unix_ms :: "nat option"
  rc :: "int option"
  signal :: "int option"
  workload_rc :: "int option"
  workload_signal :: "int option"
  delivery :: completion_delivery
  cgroup :: cgroup_meta
  error :: "string option"

text \<open>\<^verbatim>\<open>Meta::new\<close>; the time it reads is the argument \<open>now\<close>.\<close>

definition meta_new ::
  "nat \<Rightarrow> string \<Rightarrow> pid \<Rightarrow> pid \<Rightarrow> string list \<Rightarrow> string \<Rightarrow> string \<Rightarrow> delivery_mode \<Rightarrow> string option \<Rightarrow>
   caller_entry list \<Rightarrow> caller_entry option \<Rightarrow> meta" where
  "meta_new now hdl ppid lpid args wd md dmode sentinel chain owner =
     \<lparr>schema_version = 1, handle = hdl, created_at_unix_ms = now, updated_at_unix_ms = now,
      state = ''RUNNING'', completion_reason = None, caller_ppid = ppid, caller_chain = chain,
      cancel_owner = owner, owner_session_id = None, owner_invocation_uuid = None,
      launcher_pid = lpid, supervisor_pid = None, supervisor_pid_starttime_ticks = None,
      workload_pid = None, workload_pid_starttime_ticks = None, process_boot_id = None,
      workload_pgid = None, workload_pidfd = False, argv = args, cwd = wd, run_mode = md,
      delivery_mode = dmode, delivery_helper = None, ready_sentinel = sentinel,
      ready_at_unix_ms = None, completed_at_unix_ms = None, rc = None, signal = None,
      workload_rc = None, workload_signal = None, delivery = completion_delivery_default,
      cgroup = subreaper_only, error = None\<rparr>"

definition touch :: "nat \<Rightarrow> meta \<Rightarrow> meta" where
  "touch now m = m\<lparr>updated_at_unix_ms := now\<rparr>"

definition with_owner_context :: "meta \<Rightarrow> string option \<Rightarrow> string option \<Rightarrow> meta" where
  "with_owner_context m session invocation =
     m\<lparr>owner_session_id := session, owner_invocation_uuid := invocation\<rparr>"

definition with_delivery_helper :: "meta \<Rightarrow> helper_provenance \<Rightarrow> meta" where
  "with_delivery_helper m helper = m\<lparr>delivery_helper := Some helper\<rparr>"

definition running_exit_mode :: "meta \<Rightarrow> bool" where
  "running_exit_mode m \<longleftrightarrow> state m = ''RUNNING'' \<and> run_mode m = ''exit''"

definition terminal :: "meta \<Rightarrow> bool" where
  "terminal m \<longleftrightarrow> (state m = ''DONE'' \<or> state m = ''ERROR'') \<and> completed_at_unix_ms m \<noteq> None"

record owner_meta =
  om_session_id :: "string option"
  om_invocation_uuid :: "string option"

definition owner_from_meta :: "meta \<Rightarrow> owner_meta" where
  "owner_from_meta m =
     \<lparr>om_session_id = owner_session_id m, om_invocation_uuid = owner_invocation_uuid m\<rparr>"

subsection \<open>What \<^verbatim>\<open>run\<close> and \<^verbatim>\<open>list\<close> print\<close>

record run_output =
  ro_schema_version :: nat
  ro_handle :: string
  ro_state_dir :: string
  ro_log :: string
  ro_rc :: string
  ro_meta :: string
  ro_caller_ppid :: pid
  ro_mode :: string
  ro_delivery_mode :: delivery_mode
  ro_ready_sentinel :: "string option"
  dispatch_state :: string
  retry_safe :: bool
  effects_possible :: bool

definition run_output_new ::
  "string \<Rightarrow> string \<Rightarrow> pid \<Rightarrow> string \<Rightarrow> delivery_mode \<Rightarrow> string option \<Rightarrow> string \<Rightarrow> run_output" where
  "run_output_new root hdl ppid md dmode sentinel dispatch =
     \<lparr>ro_schema_version = 1, ro_handle = hdl, ro_state_dir = path_join root hdl,
      ro_log = state_path root hdl Log, ro_rc = state_path root hdl Rc,
      ro_meta = state_path root hdl MetaFile, ro_caller_ppid = ppid, ro_mode = md,
      ro_delivery_mode = dmode, ro_ready_sentinel = sentinel, dispatch_state = dispatch,
      retry_safe = (dispatch = ''rejected-preaccept''),
      effects_possible = (dispatch = ''root-accepted'' \<or> dispatch = ''effects-possible-no-replay''
        \<or> dispatch = ''registration-outcome-unknown'')\<rparr>"

record list_summary =
  ls_handle :: string
  ls_state :: string
  ls_rc :: "int option"
  ls_mode :: string
  ls_delivery_mode :: "delivery_mode option"
  ls_delivery_mode_error :: "string option"
  ls_created_at_unix_ms :: nat
  ls_state_dir :: string

definition list_summary_from_meta :: "meta \<Rightarrow> string \<Rightarrow> string + delivery_mode \<Rightarrow> list_summary" where
  "list_summary_from_meta m dir mode =
     \<lparr>ls_handle = handle m, ls_state = state m, ls_rc = rc m, ls_mode = run_mode m,
      ls_delivery_mode = (case mode of Inr d \<Rightarrow> Some d | Inl _ \<Rightarrow> None),
      ls_delivery_mode_error = (case mode of Inr _ \<Rightarrow> None | Inl e \<Rightarrow> Some e),
      ls_created_at_unix_ms = created_at_unix_ms m, ls_state_dir = dir\<rparr>"

subsection \<open>The state root\<close>

datatype state_root_env = Xdg string | Home string

definition non_empty_env_value :: "string option \<Rightarrow> string option" where
  "non_empty_env_value v = (case v of Some s \<Rightarrow> if s \<noteq> [] then Some s else None | None \<Rightarrow> None)"

definition select_state_root_env :: "string option \<Rightarrow> string option \<Rightarrow> state_root_env option" where
  "select_state_root_env xdg home =
     (case non_empty_env_value xdg of
        Some x \<Rightarrow> Some (Xdg x)
      | None \<Rightarrow> (case non_empty_env_value home of Some h \<Rightarrow> Some (Home h) | None \<Rightarrow> None))"

fun state_root_path :: "state_root_env \<Rightarrow> string" where
  "state_root_path (Xdg x) = path_join x ''agent-bash''"
| "state_root_path (Home h) = path_join h ''.local/state/agent-bash''"

text \<open>\<open>None\<close> is the \<^verbatim>\<open>MissingHome\<close> error.\<close>

definition state_root_from_env_values :: "string option \<Rightarrow> string option \<Rightarrow> string option" where
  "state_root_from_env_values xdg home = map_option state_root_path (select_state_root_env xdg home)"

subsection \<open>The return-code file\<close>

definition format_rc_bytes :: "int \<Rightarrow> string" where
  "format_rc_bytes r = int_dec r @ newline"

definition trim_end_newlines :: "string \<Rightarrow> string" where
  "trim_end_newlines s = rev (dropWhile (\<lambda>c. c = CHR 0x0A) (rev s))"

definition parse_rc_text :: "string \<Rightarrow> int option" where
  "parse_rc_text contents = parse_i32 (trim_end_newlines contents)"

lemma trim_end_newlines_snoc:
  "CHR 0x0A \<notin> set s \<Longrightarrow> trim_end_newlines (s @ newline) = s"
  by (cases s rule: rev_cases) (auto simp: trim_end_newlines_def dropWhile_eq_self_iff)

subsection \<open>Properties\<close>

text \<open>
  The return-code file round-trips: what is written for any exit code that fits an
  \<^verbatim>\<open>i32\<close>, negative ones included, parses back to that code.
\<close>

theorem rc_file_roundtrip: "i32_range r \<Longrightarrow> parse_rc_text (format_rc_bytes r) = Some r"
  by (simp add: parse_rc_text_def format_rc_bytes_def trim_end_newlines_snoc
      int_dec_no_newline parse_i32_int_dec)

theorem rc_file_roundtrip_witness: "parse_rc_text (format_rc_bytes (- 143)) = Some (- 143)"
  by (rule rc_file_roundtrip) (simp add: i32_range_def)

end
