(* ===== verification/Process_Identity.thy ===== *)
theory Process_Identity
  imports State_Data
begin

section \<open>Process identities observed through procfs\<close>

text \<open>
  The procfs part of \<^verbatim>\<open>src/src/state.rs\<close> and \<^verbatim>\<open>src/src/guard.rs\<close>: parsing \<^verbatim>\<open>/proc/<pid>/stat\<close>, comparing
  a recorded identity (pid, start ticks, boot id) with what procfs shows now, walking the
  caller chain, parsing the direct-child list, and the boot id a custody marker carries.
  The contents of procfs are arguments: \<open>rd\<close> gives the text of a process's stat file, or the
  error of reading it.
\<close>

subsection \<open>The stat line\<close>

record proc_stat =
  ps_pid :: pid
  ps_ppid :: pid
  ps_state :: char
  ps_starttime_ticks :: nat

definition parse_proc_stat :: "string \<Rightarrow> proc_stat option" where
  "parse_proc_stat contents =
     (case rfind '') '' contents of
        None \<Rightarrow> None
      | Some end_comm \<Rightarrow>
          (case split_whitespace contents of
             [] \<Rightarrow> None
           | first # _ \<Rightarrow>
               (case parse_i32 first of
                  None \<Rightarrow> None
                | Some p \<Rightarrow>
                    (let fields = split_whitespace (drop (end_comm + 2) contents)
                     in case fields of
                          [] \<Rightarrow> None
                        | st # _ \<Rightarrow>
                            if st = [] \<or> length fields \<le> 1 then None
                            else
                              (case parse_i32 (fields ! 1) of
                                 None \<Rightarrow> None
                               | Some pp \<Rightarrow>
                                   if length fields \<le> 19 then None
                                   else
                                     (case parse_u64 (fields ! 19) of
                                        None \<Rightarrow> None
                                      | Some t \<Rightarrow>
                                          Some \<lparr>ps_pid = p, ps_ppid = pp, ps_state = hd st,
                                                ps_starttime_ticks = t\<rparr>))))))"

type_synonym stat_reader = "pid \<Rightarrow> io_error + string"

definition read_proc_stat_result :: "stat_reader \<Rightarrow> pid \<Rightarrow> io_error + proc_stat" where
  "read_proc_stat_result rd p =
     (case rd p of
        Inl e \<Rightarrow> Inl e
      | Inr contents \<Rightarrow>
          (case parse_proc_stat contents of
             Some st \<Rightarrow> if ps_pid st = p then Inr st else Inl (io_invalid ''invalid /proc stat'')
           | None \<Rightarrow> Inl (io_invalid ''invalid /proc stat'')))"

definition read_proc_stat :: "stat_reader \<Rightarrow> pid \<Rightarrow> proc_stat option" where
  "read_proc_stat rd p = (case read_proc_stat_result rd p of Inl _ \<Rightarrow> None | Inr st \<Rightarrow> Some st)"

definition process_starttime_ticks :: "stat_reader \<Rightarrow> pid \<Rightarrow> nat option" where
  "process_starttime_ticks rd p = map_option ps_starttime_ticks (read_proc_stat rd p)"

definition process_parent_pid :: "stat_reader \<Rightarrow> pid \<Rightarrow> pid option" where
  "process_parent_pid rd p = map_option ps_ppid (read_proc_stat rd p)"

definition read_boot_id_from :: "io_error + string \<Rightarrow> string" where
  "read_boot_id_from contents = (case contents of Inl _ \<Rightarrow> [] | Inr v \<Rightarrow> trim v)"

subsection \<open>Identity evidence\<close>

datatype identity_evidence = Live | Gone | Mismatch | Unavailable

definition inspect_process_identity ::
  "stat_reader \<Rightarrow> pid option \<Rightarrow> nat option \<Rightarrow> string option \<Rightarrow> string \<Rightarrow> identity_evidence" where
  "inspect_process_identity rd p ticks expected_boot current_boot =
     (case (p, ticks, expected_boot) of
        (Some p, Some t, Some b) \<Rightarrow>
          if p \<le> 1 \<or> t = 0 \<or> b = [] \<or> current_boot = [] then Unavailable
          else if b \<noteq> current_boot then Mismatch
          else
            (case read_proc_stat_result rd p of
               Inr actual \<Rightarrow> if ps_starttime_ticks actual = t then Live else Mismatch
             | Inl e \<Rightarrow> if kind e = NotFound then Gone else Unavailable)
      | _ \<Rightarrow> Unavailable)"

definition process_is_gone_or_reused ::
  "stat_reader \<Rightarrow> pid option \<Rightarrow> nat option \<Rightarrow> string option \<Rightarrow> string \<Rightarrow> bool" where
  "process_is_gone_or_reused rd p ticks b current =
     (case inspect_process_identity rd p ticks b current of
        Gone \<Rightarrow> True | Mismatch \<Rightarrow> True | _ \<Rightarrow> False)"

definition process_identity_evidence :: "stat_reader \<Rightarrow> string \<Rightarrow> caller_entry \<Rightarrow> identity_evidence" where
  "process_identity_evidence rd current e =
     inspect_process_identity rd (Some (ce_pid e)) (Some (starttime_ticks e)) (Some (ce_boot_id e)) current"

definition process_identity_is_live :: "stat_reader \<Rightarrow> string \<Rightarrow> caller_entry \<Rightarrow> bool" where
  "process_identity_is_live rd current e \<longleftrightarrow> process_identity_evidence rd current e = Live"

definition exact_supervisor_and_workload_are_gone :: "stat_reader \<Rightarrow> string \<Rightarrow> meta \<Rightarrow> bool" where
  "exact_supervisor_and_workload_are_gone rd current m =
     (if \<not> running_exit_mode m then False
      else if current = [] then False
      else
        inspect_process_identity rd (supervisor_pid m) (supervisor_pid_starttime_ticks m)
          (process_boot_id m) current = Gone \<and>
        inspect_process_identity rd (workload_pid m) (workload_pid_starttime_ticks m)
          (process_boot_id m) current = Gone)"

definition supervisor_identity :: "meta \<Rightarrow> caller_entry option" where
  "supervisor_identity m =
     (case (supervisor_pid m, supervisor_pid_starttime_ticks m, process_boot_id m) of
        (Some p, Some t, Some b) \<Rightarrow> Some \<lparr>ce_pid = p, starttime_ticks = t, ce_boot_id = b\<rparr>
      | _ \<Rightarrow> None)"

subsection \<open>The caller chain\<close>

definition caller_entry_of_stat :: "pid \<Rightarrow> proc_stat \<Rightarrow> string \<Rightarrow> caller_entry" where
  "caller_entry_of_stat p st b =
     \<lparr>ce_pid = p, starttime_ticks = ps_starttime_ticks st, ce_boot_id = b\<rparr>"

definition invalid_caller_chain_pid :: "pid \<Rightarrow> bool" where
  "invalid_caller_chain_pid p \<longleftrightarrow> p \<le> 0"

definition terminal_caller_chain_pid :: "pid \<Rightarrow> bool" where
  "terminal_caller_chain_pid p \<longleftrightarrow> p = 1"

text \<open>The loop body of \<^verbatim>\<open>capture_caller_chain\<close>, with the iterations it may still make.\<close>

fun caller_chain_loop :: "stat_reader \<Rightarrow> string \<Rightarrow> nat \<Rightarrow> pid \<Rightarrow> caller_entry list" where
  "caller_chain_loop rd b 0 p = []"
| "caller_chain_loop rd b (Suc n) p =
     (if invalid_caller_chain_pid p then []
      else
        (case read_proc_stat rd p of
           None \<Rightarrow> []
         | Some st \<Rightarrow>
             caller_entry_of_stat p st b #
               (if terminal_caller_chain_pid p then [] else caller_chain_loop rd b n (ps_ppid st))))"

definition capture_caller_chain :: "stat_reader \<Rightarrow> string \<Rightarrow> pid \<Rightarrow> caller_entry list" where
  "capture_caller_chain rd b start_pid = caller_chain_loop rd b 128 start_pid"

subsection \<open>Direct children and the attached parent\<close>

fun parse_children_loop :: "nat \<Rightarrow> pid list \<Rightarrow> string list \<Rightarrow> pid list option" where
  "parse_children_loop max_children children [] = Some children"
| "parse_children_loop max_children children (w # ws) =
     (if length children = max_children then None
      else
        (case parse_i32 w of
           None \<Rightarrow> None
         | Some p \<Rightarrow>
             if p \<le> 0 \<or> p \<in> set children then None
             else parse_children_loop max_children (children @ [p]) ws))"

definition parse_observer_thread_children :: "string \<Rightarrow> nat \<Rightarrow> pid list option" where
  "parse_observer_thread_children data max_children =
     parse_children_loop max_children [] (split_whitespace data)"

definition observer_thread_children :: "string \<Rightarrow> pid list option" where
  "observer_thread_children data =
     (if length data > 65536 then None else parse_observer_thread_children data 4096)"

definition validate_parent_pair :: "pid \<Rightarrow> pid \<Rightarrow> bool" where
  "validate_parent_pair expected current \<longleftrightarrow> \<not> (expected \<le> 1 \<or> current \<noteq> expected)"

text \<open>
  \<^verbatim>\<open>AttachedGuard\<close>: the parent captured at start, re-validated against a later observation. The
  observed identity is what \<^verbatim>\<open>attached_parent_identity\<close> returned at that moment.
\<close>

record attached_guard =
  local_parent_pid :: pid
  observer_parent :: "caller_entry option"

definition guard_validate :: "attached_guard \<Rightarrow> pid \<Rightarrow> caller_entry option \<Rightarrow> bool" where
  "guard_validate g current observed \<longleftrightarrow>
     validate_parent_pair (local_parent_pid g) current \<and>
     \<not> (observed \<noteq> observer_parent g \<or> observer_parent g = None)"

definition guard_caller_chain ::
  "attached_guard \<Rightarrow> pid \<Rightarrow> caller_entry option \<Rightarrow> stat_reader \<Rightarrow> string \<Rightarrow> pid \<Rightarrow> caller_entry option \<Rightarrow>
   caller_entry list option" where
  "guard_caller_chain g current observed rd b current' observed' =
     (if \<not> guard_validate g current observed then None
      else
        (case observer_parent g of
           None \<Rightarrow> None
         | Some parent \<Rightarrow>
             let chain = capture_caller_chain rd b (ce_pid parent)
             in if (case chain of [] \<Rightarrow> None | e # _ \<Rightarrow> Some e) \<noteq> observer_parent g then None
                else if \<not> guard_validate g current' observed' then None
                else Some chain))"

subsection \<open>Boot identities in custody markers\<close>

definition is_ascii_hexdigit :: "char \<Rightarrow> bool" where
  "is_ascii_hexdigit c =
     (let b = of_char c :: nat
      in (48 \<le> b \<and> b \<le> 57) \<or> (65 \<le> b \<and> b \<le> 70) \<or> (97 \<le> b \<and> b \<le> 102))"

definition valid_boot_id :: "string \<Rightarrow> bool" where
  "valid_boot_id i \<longleftrightarrow>
     length i = 36 \<and>
     list_all (\<lambda>(k, c). if k \<in> {8, 13, 18, 23} then c = CHR ''-'' else is_ascii_hexdigit c)
       (enumerate 0 i)"

definition boot_text_may_remain :: "io_error + string \<Rightarrow> string \<Rightarrow> bool" where
  "boot_text_may_remain recorded boot_id =
     (case recorded of
        Inr r \<Rightarrow> \<not> valid_boot_id r \<or> \<not> valid_boot_id boot_id \<or> r = boot_id
      | Inl e \<Rightarrow> kind e \<noteq> NotFound)"

subsection \<open>Lemmas\<close>

lemma length_caller_chain_loop: "length (caller_chain_loop rd b n p) \<le> n"
  by (induction rd b n p rule: caller_chain_loop.induct) (auto split: option.splits)

lemma caller_chain_loop_link:
  assumes "i + 1 < length (caller_chain_loop rd b n p)"
  shows "process_parent_pid rd (ce_pid (caller_chain_loop rd b n p ! i)) =
     Some (ce_pid (caller_chain_loop rd b n p ! (i + 1)))"
  using assms
proof (induction rd b n p arbitrary: i rule: caller_chain_loop.induct)
  case (1 rd b p)
  then show ?case by simp
next
  case (2 rd b n p)
  obtain st where st: "read_proc_stat rd p = Some st" "\<not> invalid_caller_chain_pid p"
    using 2(2) by (auto split: if_splits option.splits)
  have nt: "\<not> terminal_caller_chain_pid p" using 2(2) st by (auto split: if_splits)
  let ?tl = "caller_chain_loop rd b n (ps_ppid st)"
  have eq: "caller_chain_loop rd b (Suc n) p = caller_entry_of_stat p st b # ?tl"
    using st nt by simp
  show ?case
  proof (cases i)
    case 0
    with 2(2) eq have ne: "?tl \<noteq> []" by auto
    then have "ce_pid (?tl ! 0) = ps_ppid st"
      by (cases n) (auto simp: caller_entry_of_stat_def split: if_splits option.splits)
    with 0 eq st show ?thesis by (simp add: process_parent_pid_def caller_entry_of_stat_def)
  next
    case (Suc j)
    with 2(1) [OF st(2) st(1) nt, of j] 2(2) eq show ?thesis by simp
  qed
qed

lemma parse_children_loop_sound:
  assumes "parse_children_loop mx cs ws = Some r" and "distinct cs" and "\<forall>p \<in> set cs. 0 < p"
    and "length cs \<le> mx"
  shows "distinct r \<and> (\<forall>p \<in> set r. 0 < p) \<and> length r \<le> mx \<and> length r = length cs + length ws"
  using assms
proof (induction mx cs ws rule: parse_children_loop.induct)
  case (2 mx cs w ws)
  then obtain p where "parse_i32 w = Some p" "0 < p" "p \<notin> set cs" "length cs \<noteq> mx"
    by (auto split: if_splits option.splits)
  with 2 show ?case by auto
qed simp

lemma parse_children_loop_complete:
  assumes "distinct (cs @ ps)" and "\<forall>p \<in> set ps. 0 < p \<and> i32_range p" and "length (cs @ ps) \<le> mx"
  shows "parse_children_loop mx cs (map int_dec ps) = Some (cs @ ps)"
  using assms by (induction ps arbitrary: cs) (auto simp: parse_i32_int_dec)

lemma occurs_pair_Cons: "occurs [a, b] (c # d # cs) \<longleftrightarrow> c = a \<and> d = b \<or> occurs [a, b] (d # cs)"
  by (auto simp: occurs_sublist sublist_Cons_right)

lemma occurs_in_set: "occurs pat s \<Longrightarrow> set pat \<subseteq> set s"
  by (auto simp: occurs_sublist dest: set_mono_sublist)

lemma set_join_space: "set (join_space ts) \<subseteq> insert (CHR '' '') (\<Union> (set ` set ts))"
  by (induction ts rule: join_space.induct) auto

lemma parse_proc_stat_line:
  assumes "i32_range p" and "i32_range pp" and "t \<le> u64_max" and "length mid = 17"
    and "list_all token (st # mid @ rest)" and "CHR '')'' \<notin> \<Union> (set ` set (st # mid @ rest))"
  shows "parse_proc_stat (int_dec p @ '' ('' @ comm @ '') '' @
       join_space (st # int_dec pp # mid @ nat_dec t # rest)) =
     Some \<lparr>ps_pid = p, ps_ppid = pp, ps_state = hd st, ps_starttime_ticks = t\<rparr>"
proof -
  let ?fields = "st # int_dec pp # mid @ nat_dec t # rest"
  let ?tail = "join_space ?fields"
  let ?pre = "int_dec p @ '' ('' @ comm"
  have toks: "list_all token ?fields" using assms(5) by simp
  have graphic_paren: "CHR '')'' \<notin> set (int_dec i)" "CHR '')'' \<notin> set (nat_dec n)" for i n
    using nat_dec_digits [of "CHR '')''"] by (auto simp: int_dec_def)
  have "CHR '')'' \<notin> set ?tail" using set_join_space [of ?fields] assms(6) graphic_paren by auto
  then have "\<not> occurs '') '' (CHR '' '' # ?tail)" using occurs_in_set by fastforce
  then have rf: "rfind '') '' (?pre @ '') '' @ ?tail) = Some (length ?pre)"
    using rfind_last_pair [of "CHR '')''" "CHR '' ''" ?tail ?pre] by simp
  have first: "\<exists>more. split_whitespace (int_dec p @ '' ('' @ comm @ '') '' @ ?tail) = int_dec p # more"
  proof -
    have tk: "token (int_dec p)" by simp
    let ?more = "'' ('' @ comm @ '') '' @ ?tail"
    have "span_token (int_dec p @ ?more) = (int_dec p, ?more)"
      using tk by (intro span_token_graphic) (simp_all add: token_def)
    moreover have "trim_start (int_dec p @ ?more) = int_dec p @ ?more"
      using tk by (cases "int_dec p") (auto simp: token_def trim_start_graphic)
    moreover have "int_dec p @ ?more \<noteq> []" by simp
    ultimately show ?thesis by (subst split_whitespace.simps) (simp add: Let_def)
  qed
  have tl: "split_whitespace (drop (length ?pre + 2) (?pre @ '') '' @ ?tail)) = ?fields"
  proof -
    have drop_two: "drop (length xs + length ys) (xs @ ys @ zs) = zs" for xs ys zs :: string by simp
    from drop_two [of ?pre "'') ''" ?tail] have "drop (length ?pre + 2) (?pre @ '') '' @ ?tail) = ?tail"
      by (simp only: list.size numeral_2_eq_2 add_0 add_Suc)
    then show ?thesis using split_whitespace_tokens [OF toks] by (simp only:)
  qed
  have "?fields ! 19 = nat_dec t" using assms(4) by (simp add: nth_append)
  moreover have "st \<noteq> []" using assms(5) by (simp add: token_def)
  ultimately show ?thesis
    using rf first tl assms(1-4)
    by (auto simp: parse_proc_stat_def parse_i32_int_dec parse_u64_def parse_unsigned_nat_dec Let_def)
qed

subsection \<open>Properties\<close>

text \<open>
  The kernel's stat line is read correctly whatever the command name contains, spaces,
  closing parentheses and further \<^verbatim>\<open>) \<close> pairs included: the fields after the last such pair
  decide, and pid, parent, state and start ticks come from their positions.
\<close>

theorem parse_proc_stat_any_comm:
  assumes "i32_range p" and "i32_range pp" and "t \<le> u64_max" and "length mid = 17"
    and "list_all token (st # mid @ rest)" and "CHR '')'' \<notin> \<Union> (set ` set (st # mid @ rest))"
  shows "parse_proc_stat (int_dec p @ '' ('' @ comm @ '') '' @
       join_space (st # int_dec pp # mid @ nat_dec t # rest)) =
     Some \<lparr>ps_pid = p, ps_ppid = pp, ps_state = hd st, ps_starttime_ticks = t\<rparr>"
  using assms by (rule parse_proc_stat_line)

theorem parse_proc_stat_any_comm_witness:
  "parse_proc_stat (int_dec 42 @ '' ('' @ ''a) S 7 (b'' @ '') '' @
       join_space (''Z'' # int_dec 7 # replicate 17 ''0'' @ nat_dec 99 # [])) =
     Some \<lparr>ps_pid = 42, ps_ppid = 7, ps_state = CHR ''Z'', ps_starttime_ticks = 99\<rparr>"
  using parse_proc_stat_any_comm [of 42 7 99 "replicate 17 ''0''" "''Z''" "[]" "''a) S 7 (b''"]
  by (simp add: i32_range_def token_def graphic_def list_all_iff)

text \<open>
  Identity evidence fails closed: a process counts as live only with the recorded boot,
  pid and start ticks all confirmed, as gone only if procfs itself reports that the pid does
  not exist in the recorded boot, and any unreadable or incomplete identity is neither.
\<close>

theorem identity_evidence_exact:
  "(inspect_process_identity rd p ticks b current = Live \<longleftrightarrow>
     (\<exists>q t st. p = Some q \<and> ticks = Some t \<and> b = Some current \<and> q > 1 \<and> t \<noteq> 0 \<and> current \<noteq> [] \<and>
        read_proc_stat_result rd q = Inr st \<and> ps_pid st = q \<and> ps_starttime_ticks st = t)) \<and>
   (inspect_process_identity rd p ticks b current = Gone \<longleftrightarrow>
     (\<exists>q t e. p = Some q \<and> ticks = Some t \<and> b = Some current \<and> q > 1 \<and> t \<noteq> 0 \<and> current \<noteq> [] \<and>
        read_proc_stat_result rd q = Inl e \<and> kind e = NotFound))"
  by (auto simp: inspect_process_identity_def read_proc_stat_result_def
      split: option.splits sum.splits if_splits)

text \<open>
  The captured caller chain has at most 128 entries, starts at the requested pid when it
  is not empty, and each entry's successor is that entry's parent as procfs showed it.
\<close>

theorem caller_chain_linked:
  "length (capture_caller_chain rd b p) \<le> 128 \<and>
   (capture_caller_chain rd b p \<noteq> [] \<longrightarrow> ce_pid (capture_caller_chain rd b p ! 0) = p) \<and>
   (\<forall>i. i + 1 < length (capture_caller_chain rd b p) \<longrightarrow>
      process_parent_pid rd (ce_pid (capture_caller_chain rd b p ! i)) =
        Some (ce_pid (capture_caller_chain rd b p ! (i + 1))))"
proof -
  have "caller_chain_loop rd b (Suc n) p \<noteq> [] \<Longrightarrow> ce_pid (caller_chain_loop rd b (Suc n) p ! 0) = p"
    for n by (auto simp: caller_entry_of_stat_def split: if_splits option.splits)
  from this [of 127] show ?thesis
    unfolding capture_caller_chain_def
    using length_caller_chain_loop [of rd b 128 p] caller_chain_loop_link [of _ rd b 128 p]
    by simp
qed

definition stat_line :: "pid \<Rightarrow> pid \<Rightarrow> nat \<Rightarrow> string" where
  "stat_line p pp t =
     int_dec p @ '' ('' @ ''sh'' @ '') '' @ join_space (''S'' # int_dec pp # replicate 17 ''0'' @ nat_dec t # [])"

definition two_process_reader :: stat_reader where
  "two_process_reader p = Inr (if p = 9 then stat_line 9 1 50 else stat_line 1 0 3)"

lemma parse_stat_line:
  assumes "i32_range p" and "i32_range pp" and "t \<le> u64_max"
  shows "parse_proc_stat (stat_line p pp t) =
     Some \<lparr>ps_pid = p, ps_ppid = pp, ps_state = CHR ''S'', ps_starttime_ticks = t\<rparr>"
  unfolding stat_line_def
  by (subst parse_proc_stat_line)
    (use assms in \<open>simp_all add: token_def graphic_def list_all_iff\<close>)

lemma two_process_stats:
  "read_proc_stat two_process_reader 9 =
     Some \<lparr>ps_pid = 9, ps_ppid = 1, ps_state = CHR ''S'', ps_starttime_ticks = 50\<rparr>"
  "read_proc_stat two_process_reader 1 =
     Some \<lparr>ps_pid = 1, ps_ppid = 0, ps_state = CHR ''S'', ps_starttime_ticks = 3\<rparr>"
  by (simp_all add: read_proc_stat_def read_proc_stat_result_def two_process_reader_def
      parse_stat_line i32_range_def)

lemma two_process_chain:
  "capture_caller_chain two_process_reader ''b'' 9 =
     [\<lparr>ce_pid = 9, starttime_ticks = 50, ce_boot_id = ''b''\<rparr>,
      \<lparr>ce_pid = 1, starttime_ticks = 3, ce_boot_id = ''b''\<rparr>]"
proof -
  have "caller_chain_loop two_process_reader ''b'' (Suc (Suc 126)) 9 =
     [\<lparr>ce_pid = 9, starttime_ticks = 50, ce_boot_id = ''b''\<rparr>,
      \<lparr>ce_pid = 1, starttime_ticks = 3, ce_boot_id = ''b''\<rparr>]"
    by (simp only: caller_chain_loop.simps)
      (simp add: two_process_stats invalid_caller_chain_pid_def terminal_caller_chain_pid_def
        caller_entry_of_stat_def)
  then show ?thesis by (simp add: capture_caller_chain_def)
qed

theorem caller_chain_linked_witness: "process_parent_pid two_process_reader 9 = Some 1"
  using caller_chain_linked [of two_process_reader "''b''" 9]
  by (auto simp: two_process_chain)

text \<open>
  The direct-child list is decoded exactly: distinct positive pids up to the bound are
  read back in order, and whatever is accepted is distinct, positive and within the bound.
\<close>

theorem observer_children_exact:
  assumes "distinct ps" and "\<forall>p \<in> set ps. 0 < p \<and> i32_range p" and "length ps \<le> mx"
  shows "parse_observer_thread_children (join_space (map int_dec ps)) mx = Some ps \<and>
    (\<forall>data r. parse_observer_thread_children data mx = Some r \<longrightarrow>
       distinct r \<and> (\<forall>p \<in> set r. 0 < p) \<and> length r \<le> mx \<and> length r = length (split_whitespace data))"
proof -
  have "split_whitespace (join_space (map int_dec ps)) = map int_dec ps"
    by (rule split_whitespace_tokens) (simp add: list_all_iff)
  then have "parse_observer_thread_children (join_space (map int_dec ps)) mx = Some ps"
    using parse_children_loop_complete [of "[]" ps mx] assms
    by (simp add: parse_observer_thread_children_def)
  moreover have "distinct r \<and> (\<forall>p \<in> set r. 0 < p) \<and> length r \<le> mx \<and>
      length r = length (split_whitespace data)"
    if "parse_observer_thread_children data mx = Some r" for data r
    using parse_children_loop_sound [of mx "[]" "split_whitespace data" r] that
    by (simp add: parse_observer_thread_children_def)
  ultimately show ?thesis by blast
qed

theorem observer_children_exact_witness:
  "parse_observer_thread_children (join_space (map int_dec [17, 4])) 4096 = Some [17, 4]"
proof -
  have "distinct [17, 4 :: pid]" "\<forall>p \<in> set [17, 4 :: pid]. 0 < p \<and> i32_range p"
    "length [17, 4 :: pid] \<le> 4096" by (simp_all add: i32_range_def)
  from observer_children_exact [OF this] show ?thesis by (rule conjunct1)
qed

end
