(* ===== verification/Json.thy ===== *)
theory Json
  imports Rust_Numbers
begin

section \<open>JSON values\<close>

text \<open>
  The values of \<^verbatim>\<open>serde_json::Value\<close> and the accessors the source applies to them. Parsing bytes is
  the crate's work: where the source parses, the model takes the parser as an argument.
\<close>

datatype json =
    JNull
  | JBool bool
  | JNum int
  | JFloat string
  | JStr string
  | JArr "json list"
  | JObj "(string \<times> json) list"

text \<open>\<^verbatim>\<open>value[key]\<close>: \<^verbatim>\<open>Null\<close> for a missing key and for a value that is not an object.\<close>

fun jindex :: "json \<Rightarrow> string \<Rightarrow> json" where
  "jindex (JObj kvs) k = (case map_of kvs k of Some v \<Rightarrow> v | None \<Rightarrow> JNull)"
| "jindex _ k = JNull"

fun as_str :: "json \<Rightarrow> string option" where
  "as_str (JStr s) = Some s"
| "as_str _ = None"

definition as_u64 :: "json \<Rightarrow> nat option" where
  "as_u64 v = (case v of JNum i \<Rightarrow> if 0 \<le> i \<and> i \<le> int u64_max then Some (nat i) else None | _ \<Rightarrow> None)"

text \<open>\<^verbatim>\<open>value.as_str().is_none_or(str::is_empty)\<close>\<close>

definition no_text :: "json \<Rightarrow> bool" where
  "no_text v = (case as_str v of None \<Rightarrow> True | Some s \<Rightarrow> s = [])"

definition is_object :: "json \<Rightarrow> bool" where
  "is_object v = (case v of JObj _ \<Rightarrow> True | _ \<Rightarrow> False)"

lemma jindex_not_null: "jindex v k \<noteq> JNull \<Longrightarrow> \<exists>kvs. v = JObj kvs \<and> map_of kvs k = Some (jindex v k)"
  by (cases v) (auto split: option.splits)

lemma no_text_JStr [simp]: "no_text (JStr s) \<longleftrightarrow> s = []"
  by (simp add: no_text_def)

lemma not_no_text: "\<not> no_text v \<longleftrightarrow> (\<exists>s. v = JStr s \<and> s \<noteq> [])"
  by (cases v) (auto simp: no_text_def)

end
