(* ===== verification/Reaper.thy ===== *)
theory Reaper
  imports Process_Identity Json
begin

section \<open>Retention and reaping of handle directories\<close>

text \<open>
  The reaper of \<^verbatim>\<open>src/src/state.rs\<close>: its configuration, the rotating shard cursor, the limits of a
  pass, the order of locks it takes on a handle, and the decision that a directory may be
  removed. The answers of the file system and of procfs that a decision reads are fields of a
  record, each the answer to the call the source makes; an answer can be an error wherever the
  call can fail. The two JSON decoders of \<^verbatim>\<open>serde_json\<close> are arguments, and so is the answer of
  \<^verbatim>\<open>continuation::retention_released\<close>.
\<close>

subsection \<open>Configuration\<close>

record reap_config =
  ttl_secs :: nat
  max_dirs :: nat
  max_scan :: nat
  shards :: nat
  now_unix_ms :: nat

definition env_u64 :: "string option \<Rightarrow> nat \<Rightarrow> nat" where
  "env_u64 v dflt =
     (case v of None \<Rightarrow> dflt | Some t \<Rightarrow> (case parse_u64 t of Some n \<Rightarrow> n | None \<Rightarrow> dflt))"

definition secs_to_ms :: "nat \<Rightarrow> nat" where
  "secs_to_ms s = saturating_mul_u64 s 1000"

text \<open>\<^verbatim>\<open>ReapConfig::from_env\<close>, from the four variables and the time.\<close>

definition DEFAULT_STATE_TTL_SECS :: nat where "DEFAULT_STATE_TTL_SECS = 48 * 60 * 60"
definition DEFAULT_REAP_MAX_DIRS :: nat where "DEFAULT_REAP_MAX_DIRS = 128"
definition DEFAULT_REAP_MAX_SCAN :: nat where "DEFAULT_REAP_MAX_SCAN = 4096"
definition DEFAULT_REAP_SHARDS :: nat where "DEFAULT_REAP_SHARDS = 16"

definition reap_config_from_env ::
  "string option \<Rightarrow> string option \<Rightarrow> string option \<Rightarrow> string option \<Rightarrow> nat \<Rightarrow> reap_config" where
  "reap_config_from_env ttl dirs scan sh now =
     \<lparr>ttl_secs = env_u64 ttl DEFAULT_STATE_TTL_SECS,
      max_dirs = env_u64 dirs DEFAULT_REAP_MAX_DIRS,
      max_scan = env_u64 scan DEFAULT_REAP_MAX_SCAN,
      shards = max (env_u64 sh DEFAULT_REAP_SHARDS) 1,
      now_unix_ms = now\<rparr>"

definition ttl_ms :: "reap_config \<Rightarrow> nat" where
  "ttl_ms c = secs_to_ms (ttl_secs c)"

subsection \<open>Shards\<close>

text \<open>
  The cursor file holds the next shard; an unreadable or malformed cursor counts as 0. The
  function returns the shard of this pass and the text it writes back.
\<close>

definition next_reap_shard :: "io_error + string \<Rightarrow> nat \<Rightarrow> nat \<times> string option" where
  "next_reap_shard cursor n =
     (if n \<le> 1 then (0, None)
      else
        let current =
          (case cursor of
             Inl _ \<Rightarrow> 0
           | Inr t \<Rightarrow> (case parse_u64 (trim t) of Some v \<Rightarrow> v | None \<Rightarrow> 0)) mod n
        in (current, Some (nat_dec ((current + 1) mod n) @ [CHR 0x0A])))"

unbundle bit_operations_syntax

definition handle_reap_shard :: "string \<Rightarrow> nat \<Rightarrow> nat" where
  "handle_reap_shard name n =
     unat (foldl (\<lambda>hash b. (hash * 16777619) XOR of_nat (of_char b)) (2166136261 :: 64 word) name) mod max n 1"

subsection \<open>What holds a handle directory\<close>

datatype reap_registration = RegRoot | RegNested string

record serde =
  value_from_slice :: "bytes \<Rightarrow> json option"
  acceptance_from_slice :: "bytes \<Rightarrow> reap_registration option"

record reap_evidence =
  re_handle :: string
  re_accepted_exists :: "io_error + bool"
  re_accepted_fs_read :: "io_error + bytes"
  re_accepted_read :: "io_error + bytes"
  re_result_exists :: "io_error + bool"
  re_result_read :: "io_error + bytes"
  re_symlink_is_dir :: "string \<Rightarrow> io_error + bool"
  re_v2_enabled :: bool
  re_v2_released :: "io_error + bool"
  re_meta :: "io_error + meta"
  re_physical_custody :: "io_error + string"
  re_external_custody :: "io_error + string"
  re_stat :: stat_reader
  re_dir_mtime :: "nat option"

fun split_slash :: "string \<Rightarrow> string list" where
  "split_slash [] = [[]]"
| "split_slash (c # cs) =
     (if c = CHR ''/'' then [] # split_slash cs
      else (case split_slash cs of s # ss \<Rightarrow> (c # s) # ss | [] \<Rightarrow> [[c]]))"

text \<open>\<^verbatim>\<open>Path::components().count()\<close>: empty and inner \<^verbatim>\<open>.\<close> segments do not count.\<close>

definition path_component_count :: "string \<Rightarrow> nat" where
  "path_component_count p =
     (let segs = split_slash p; rooted = prefix ''/'' p
      in (if rooted then 1 else 0) +
         (if \<not> rooted \<and> hd segs = ''.'' then 1 else 0) +
         length (filter (\<lambda>s. s \<noteq> [] \<and> s \<noteq> ''.'') segs))"

definition ROOT_WORK_PROTOCOL :: string where
  "ROOT_WORK_PROTOCOL = ''original-work-v1''"

definition causal_parent_retains :: "serde \<Rightarrow> reap_evidence \<Rightarrow> io_error + bool" where
  "causal_parent_retains sd ev =
     (case re_accepted_exists ev of
        Inl e \<Rightarrow> Inl e
      | Inr False \<Rightarrow> Inr False
      | Inr True \<Rightarrow>
          (case re_accepted_fs_read ev of
             Inl e \<Rightarrow> Inl e
           | Inr b \<Rightarrow>
               if length b > 1024 * 1024
               then Inl (io_invalid ''root acceptance exceeds retention bound'')
               else
                 (case acceptance_from_slice sd b of
                    None \<Rightarrow> Inl (io_invalid ''invalid acceptance document'')
                  | Some RegRoot \<Rightarrow> Inr False
                  | Some (RegNested parent) \<Rightarrow>
                      if path_component_count parent \<noteq> 1 \<or> \<not> prefix ''ab_'' parent
                      then Inl (io_invalid ''invalid causal parent handle'')
                      else
                        (case re_symlink_is_dir ev parent of
                           Inr d \<Rightarrow> Inr d
                         | Inl e \<Rightarrow> if kind e = NotFound then Inr False else Inl e))))"

definition accepted_root_result_pending :: "serde \<Rightarrow> reap_evidence \<Rightarrow> io_error + bool" where
  "accepted_root_result_pending sd ev =
     (case re_accepted_exists ev of
        Inl e \<Rightarrow> Inl e
      | Inr False \<Rightarrow> Inr False
      | Inr True \<Rightarrow>
          (case re_accepted_read ev of
             Inl e \<Rightarrow> Inl e
           | Inr b \<Rightarrow>
               (case value_from_slice sd b of
                  None \<Rightarrow> Inl (io_invalid ''invalid acceptance document'')
                | Some acceptance \<Rightarrow>
                    if jindex acceptance ''protocol'' \<noteq> JStr ROOT_WORK_PROTOCOL
                       \<or> jindex acceptance ''work_id'' \<noteq> JStr (re_handle ev)
                       \<or> no_text (jindex acceptance ''root_id'')
                       \<or> as_str (jindex (jindex acceptance ''registration'') ''kind'') = None
                    then Inr True
                    else if jindex (jindex acceptance ''registration'') ''kind'' \<noteq> JStr ''root''
                    then Inr False
                    else
                      (case re_result_exists ev of
                         Inl e \<Rightarrow> Inl e
                       | Inr False \<Rightarrow> Inr True
                       | Inr True \<Rightarrow>
                           (case re_result_read ev of
                              Inl e \<Rightarrow> Inl e
                            | Inr rb \<Rightarrow>
                                (case value_from_slice sd rb of
                                   None \<Rightarrow> Inl (io_invalid ''invalid result document'')
                                 | Some result \<Rightarrow>
                                     Inr (jindex result ''protocol'' \<noteq> JStr ROOT_WORK_PROTOCOL
                                        \<or> jindex result ''work_id'' \<noteq> JStr (re_handle ev)
                                        \<or> jindex result ''root_id'' \<noteq> jindex acceptance ''root_id''
                                        \<or> no_text (jindex result ''result_nonce'')
                                        \<or> jindex result ''physical_tree_drained'' \<noteq> JBool True
                                        \<or> no_text (jindex result ''outcome'')))))))) "

definition unwrap_or :: "'e + 'a \<Rightarrow> 'a \<Rightarrow> 'a" where
  "unwrap_or r d = (case r of Inl _ \<Rightarrow> d | Inr a \<Rightarrow> a)"

definition custody_may_remain_evidence :: "reap_evidence \<Rightarrow> string \<Rightarrow> bool" where
  "custody_may_remain_evidence ev boot \<longleftrightarrow>
     boot_text_may_remain (re_physical_custody ev) boot \<or>
     boot_text_may_remain (re_external_custody ev) boot"

definition ready_sentinel_workload_may_be_running :: "stat_reader \<Rightarrow> meta \<Rightarrow> string \<Rightarrow> bool" where
  "ready_sentinel_workload_may_be_running rd m boot =
     (if completion_reason m \<noteq> Some ''ready-sentinel'' \<or> workload_rc m \<noteq> None \<or> workload_signal m \<noteq> None
      then False
      else \<not> (case inspect_process_identity rd (workload_pid m) (workload_pid_starttime_ticks m)
                  (process_boot_id m) boot of Gone \<Rightarrow> True | Mismatch \<Rightarrow> True | _ \<Rightarrow> False))"

definition meta_is_reap_terminal :: "stat_reader \<Rightarrow> meta \<Rightarrow> string \<Rightarrow> bool" where
  "meta_is_reap_terminal rd m boot \<longleftrightarrow>
     (state m = ''DONE'' \<or> state m = ''ERROR'') \<and> completed_at_unix_ms m \<noteq> None \<and>
     \<not> ready_sentinel_workload_may_be_running rd m boot"

definition meta_processes_are_gone_or_reused :: "stat_reader \<Rightarrow> meta \<Rightarrow> string \<Rightarrow> bool" where
  "meta_processes_are_gone_or_reused rd m boot \<longleftrightarrow>
     process_is_gone_or_reused rd (supervisor_pid m) (supervisor_pid_starttime_ticks m) (process_boot_id m) boot \<and>
     process_is_gone_or_reused rd (workload_pid m) (workload_pid_starttime_ticks m) (process_boot_id m) boot"

text \<open>Subtraction on \<^typ>\<open>nat\<close> saturates at 0, as \<^verbatim>\<open>saturating_sub\<close> does.\<close>

definition state_dir_reap_age_ms :: "reap_evidence \<Rightarrow> meta \<Rightarrow> nat \<Rightarrow> nat" where
  "state_dir_reap_age_ms ev m now =
     (let reference = max (case completed_at_unix_ms m of Some t \<Rightarrow> t | None \<Rightarrow> 0) (updated_at_unix_ms m)
      in if reference > 0 then now - reference
         else (case re_dir_mtime ev of Some t \<Rightarrow> now - t | None \<Rightarrow> 0))"

definition state_dir_reap_eligible :: "serde \<Rightarrow> reap_evidence \<Rightarrow> reap_config \<Rightarrow> string \<Rightarrow> bool" where
  "state_dir_reap_eligible sd ev config boot =
     (if unwrap_or (causal_parent_retains sd ev) True then False
      else if re_v2_enabled ev \<and> \<not> unwrap_or (re_v2_released ev) False then False
      else if unwrap_or (accepted_root_result_pending sd ev) True then False
      else
        (case re_meta ev of
           Inl _ \<Rightarrow> False
         | Inr m \<Rightarrow>
             if custody_may_remain_evidence ev boot then False
             else if supervisor_pid m \<noteq> None
               \<and> \<not> process_is_gone_or_reused (re_stat ev) (supervisor_pid m)
                     (supervisor_pid_starttime_ticks m) (process_boot_id m) boot
             then False
             else if state_dir_reap_age_ms ev m (now_unix_ms config) < ttl_ms config then False
             else if meta_is_reap_terminal (re_stat ev) m boot
             then \<not> needs_progress (completion_lifecycle (delivery m))
             else state m = ''RUNNING'' \<and> meta_processes_are_gone_or_reused (re_stat ev) m boot))"

subsection \<open>One entry and one pass\<close>

record reap_stats =
  scanned :: nat
  reaped :: nat
  errors :: nat

definition reap_stats_default :: reap_stats where
  "reap_stats_default = \<lparr>scanned = 0, reaped = 0, errors = 0\<rparr>"

text \<open>
  What a pass meets at one directory entry: its name and type, the outcomes of the three lock
  attempts, the evidence read under them, and the outcome of the removal.
\<close>

record reap_entry =
  en_name :: string
  en_is_dir :: "io_error + bool"
  en_delivery_lock :: "io_error + bool"
  en_custody_lock :: "io_error + unit"
  en_output_lock :: "io_error + bool"
  en_evidence :: reap_evidence
  en_removal :: "io_error + unit"

definition reap_limits_reached :: "reap_stats \<Rightarrow> reap_config \<Rightarrow> bool" where
  "reap_limits_reached st c \<longleftrightarrow> scanned st \<ge> max_scan c \<or> reaped st \<ge> max_dirs c"

definition reap_entry_is_handle_dir :: "reap_entry \<Rightarrow> bool" where
  "reap_entry_is_handle_dir en \<longleftrightarrow> unwrap_or (en_is_dir en) False \<and> prefix ''ab_'' (en_name en)"

text \<open>The second component is whether \<^verbatim>\<open>remove_dir_all\<close> was called on the entry.\<close>

definition reap_state_entry ::
  "serde \<Rightarrow> reap_config \<Rightarrow> string \<Rightarrow> reap_entry \<Rightarrow> reap_stats \<Rightarrow> reap_stats \<times> bool" where
  "reap_state_entry sd c boot en st =
     (case en_delivery_lock en of
        Inl _ \<Rightarrow> (st\<lparr>errors := errors st + 1\<rparr>, False)
      | Inr False \<Rightarrow> (st, False)
      | Inr True \<Rightarrow>
          (case en_custody_lock en of
             Inl _ \<Rightarrow> (st, False)
           | Inr _ \<Rightarrow>
               (case en_output_lock en of
                  Inl _ \<Rightarrow> (st\<lparr>errors := errors st + 1\<rparr>, False)
                | Inr False \<Rightarrow> (st, False)
                | Inr True \<Rightarrow>
                    if \<not> state_dir_reap_eligible sd (en_evidence en) c boot then (st, False)
                    else
                      (case en_removal en of
                         Inr _ \<Rightarrow> (st\<lparr>reaped := reaped st + 1\<rparr>, True)
                       | Inl e \<Rightarrow>
                           if kind e = NotFound then (st, True)
                           else (st\<lparr>errors := errors st + 1\<rparr>, True)))))"

text \<open>The loop of \<^verbatim>\<open>reap_state_dirs\<close>; the list collects the entries it tried to remove.\<close>

fun reap_entries ::
  "serde \<Rightarrow> reap_config \<Rightarrow> string \<Rightarrow> nat \<Rightarrow> (io_error + reap_entry) list \<Rightarrow> reap_stats \<Rightarrow> reap_stats \<times> reap_entry list" where
  "reap_entries sd c boot shard [] st = (st, [])"
| "reap_entries sd c boot shard (r # rs) st =
     (if reap_limits_reached st c then (st, [])
      else
        (case r of
           Inl _ \<Rightarrow> reap_entries sd c boot shard rs (st\<lparr>errors := errors st + 1\<rparr>)
         | Inr en \<Rightarrow>
             if \<not> reap_entry_is_handle_dir en \<or> handle_reap_shard (en_name en) (shards c) \<noteq> shard
             then reap_entries sd c boot shard rs st
             else
               (case reap_state_entry sd c boot en (st\<lparr>scanned := scanned st + 1\<rparr>) of
                  (st', rm) \<Rightarrow>
                    (case reap_entries sd c boot shard rs st' of
                       (st'', removed) \<Rightarrow> (st'', (if rm then en # removed else removed))))))"

definition reap_state_dirs ::
  "serde \<Rightarrow> reap_config \<Rightarrow> string \<Rightarrow> io_error + string \<Rightarrow> io_error + (io_error + reap_entry) list \<Rightarrow>
   reap_stats \<times> reap_entry list \<times> string option" where
  "reap_state_dirs sd c boot cursor listing =
     (if max_dirs c = 0 \<or> max_scan c = 0 then (reap_stats_default, [], None)
      else
        (case listing of
           Inl e \<Rightarrow>
             if kind e = NotFound then (reap_stats_default, [], None)
             else (reap_stats_default\<lparr>errors := 1\<rparr>, [], None)
         | Inr entries \<Rightarrow>
             (case next_reap_shard cursor (shards c) of
                (shard, written) \<Rightarrow>
                  (case reap_entries sd c boot shard entries reap_stats_default of
                     (st, removed) \<Rightarrow> (st, removed, written)))))"

subsection \<open>Lemmas\<close>

lemma trim_token_newline:
  assumes "token t"
  shows "trim (t @ [CHR 0x0A]) = t"
proof -
  have nl: "ws_len [CHR 0x0A] = 1" by (simp add: ws_len_def byte_at_def)
  then have one: "ws_end_len (t @ [CHR 0x0A]) = 1" by (simp add: ws_end_len_def)
  have "ws_end_len t = 0" using assms by (intro ws_end_len_graphic) (simp add: token_def)
  then have "trim_end t = t" by (subst trim_end.simps) simp
  moreover have "trim_end (t @ [CHR 0x0A]) = trim_end t"
    by (subst trim_end.simps) (simp add: one)
  moreover have "trim_start (t @ [CHR 0x0A]) = t @ [CHR 0x0A]"
    using assms by (cases t) (auto simp: token_def trim_start_graphic)
  ultimately show ?thesis by (simp add: trim_def)
qed

lemma next_reap_shard_cursor:
  assumes "1 < n" and "k < n" and "n \<le> u64_max"
  shows "next_reap_shard (Inr (nat_dec k @ [CHR 0x0A])) n =
     (k, Some (nat_dec ((k + 1) mod n) @ [CHR 0x0A]))"
proof -
  have "parse_u64 (nat_dec k) = Some k"
    using assms by (simp add: parse_u64_def parse_unsigned_nat_dec)
  then show ?thesis using assms by (simp add: next_reap_shard_def trim_token_newline)
qed

text \<open>The shards of consecutive passes, when every pass finds what the last one wrote.\<close>

fun shard_sequence :: "io_error + string \<Rightarrow> nat \<Rightarrow> nat \<Rightarrow> nat list" where
  "shard_sequence cursor n 0 = []"
| "shard_sequence cursor n (Suc k) =
     (case next_reap_shard cursor n of
        (shard, written) \<Rightarrow>
          shard # shard_sequence (case written of Some t \<Rightarrow> Inr t | None \<Rightarrow> cursor) n k)"

lemma shard_sequence_written:
  assumes "1 < n" and "j < n" and "n \<le> u64_max"
  shows "shard_sequence (Inr (nat_dec j @ [CHR 0x0A])) n k = map (\<lambda>i. (j + i) mod n) [0..<k]"
  using assms(2)
proof (induction k arbitrary: j)
  case (Suc k)
  have "map (\<lambda>i. (j + i) mod n) [0..<Suc k] = j # map (\<lambda>i. ((j + 1) mod n + i) mod n) [0..<k]"
    using Suc.prems by (simp add: upt_conv_Cons map_Suc_upt [symmetric] mod_add_left_eq del: upt_Suc)
  with Suc assms show ?case by (simp add: next_reap_shard_cursor del: upt_Suc)
qed simp

lemma reap_state_entry_stats:
  assumes "reap_state_entry sd c boot en st = (st', rm)"
  shows "scanned st' = scanned st" "reaped st \<le> reaped st'" "reaped st' \<le> reaped st + 1"
    "reaped st' = reaped st + 1 \<longrightarrow> rm" "rm \<longrightarrow> state_dir_reap_eligible sd (en_evidence en) c boot"
    "rm \<longrightarrow> en_delivery_lock en = Inr True \<and> en_custody_lock en = Inr () \<and> en_output_lock en = Inr True"
  using assms by (auto simp: reap_state_entry_def split: sum.splits bool.splits if_splits)

lemma reap_entries_bounds:
  assumes "reap_entries sd c boot shard rs st = (st', removed)"
    and "scanned st \<le> max_scan c" and "reaped st \<le> max_dirs c" and "reaped st \<le> scanned st"
  shows "scanned st' \<le> max_scan c \<and> reaped st' \<le> max_dirs c \<and> reaped st' \<le> scanned st' \<and>
     reaped st' \<le> reaped st + length removed \<and> length removed \<le> scanned st' - scanned st \<and> scanned st \<le> scanned st'"
  using assms
proof (induction rs arbitrary: st st' removed)
  case (Cons r rs)
  show ?case
  proof (cases "reap_limits_reached st c")
    case True
    with Cons.prems show ?thesis by simp
  next
    case open_limits: False
    show ?thesis
    proof (cases r)
      case (Inl e)
      with Cons.prems open_limits Cons.IH [of "st\<lparr>errors := errors st + 1\<rparr>" st' removed] show ?thesis by simp
    next
      case (Inr en)
      show ?thesis
      proof (cases "\<not> reap_entry_is_handle_dir en \<or> handle_reap_shard (en_name en) (shards c) \<noteq> shard")
        case True
        with Cons.prems open_limits Inr Cons.IH [of st st' removed] show ?thesis by (auto split: if_splits)
      next
        case False
        obtain st1 rm where one: "reap_state_entry sd c boot en (st\<lparr>scanned := scanned st + 1\<rparr>) = (st1, rm)"
          by fastforce
        obtain removed1 where two: "reap_entries sd c boot shard rs st1 = (st', removed1)"
          and rem: "removed = (if rm then en # removed1 else removed1)"
          using Cons.prems(1) open_limits Inr False one by (auto split: prod.splits)
        note facts = reap_state_entry_stats [OF one]
        have "scanned st1 \<le> max_scan c" "reaped st1 \<le> max_dirs c" "reaped st1 \<le> scanned st1"
          using facts open_limits Cons.prems by (auto simp: reap_limits_reached_def)
        from Cons.IH [OF two this] facts(1-4) rem show ?thesis by (cases rm) auto
      qed
    qed
  qed
qed auto

lemma reap_entries_removed:
  assumes "reap_entries sd c boot shard rs st = (st', removed)" and "en \<in> set removed"
  shows "Inr en \<in> set rs \<and> reap_entry_is_handle_dir en \<and> handle_reap_shard (en_name en) (shards c) = shard \<and>
     state_dir_reap_eligible sd (en_evidence en) c boot \<and>
     en_delivery_lock en = Inr True \<and> en_custody_lock en = Inr () \<and> en_output_lock en = Inr True"
  using assms
proof (induction rs arbitrary: st st' removed)
  case (Cons r rs)
  show ?case
  proof (cases r)
    case (Inl e)
    with Cons.prems Cons.IH [of "st\<lparr>errors := errors st + 1\<rparr>"] show ?thesis by (auto split: if_splits)
  next
    case (Inr x)
    obtain st1 rm where one: "reap_state_entry sd c boot x (st\<lparr>scanned := scanned st + 1\<rparr>) = (st1, rm)"
      by fastforce
    obtain st2 removed1 where two: "reap_entries sd c boot shard rs st1 = (st2, removed1)" by fastforce
    note facts = reap_state_entry_stats(5,6) [OF one]
    consider (limit) "removed = []" | (skipped) "reap_entries sd c boot shard rs st = (st', removed)"
      | (visited) "reap_entry_is_handle_dir x" "handle_reap_shard (en_name x) (shards c) = shard"
          "removed = (if rm then x # removed1 else removed1)"
      using Cons.prems(1) Inr one two by (auto split: if_splits)
    then show ?thesis
    proof cases
      case visited
      then consider "en = x" "rm" | "en \<in> set removed1" using Cons.prems(2) by (auto split: if_splits)
      then show ?thesis using visited facts Inr Cons.IH [OF two] by cases auto
    qed (use Cons.prems(2) Cons.IH in auto)
  qed
qed simp

lemma shard_sequence_any_cursor:
  assumes "1 < n" and "n \<le> u64_max"
  obtains j where "j < n" and "shard_sequence cursor n n = map (\<lambda>i. (j + i) mod n) [0..<n]"
proof -
  obtain j where j: "j < n" and first: "next_reap_shard cursor n = (j, Some (nat_dec ((j + 1) mod n) @ [CHR 0x0A]))"
    using assms(1) by (force simp: next_reap_shard_def Let_def)
  have "shard_sequence cursor n (Suc k) = shard_sequence (Inr (nat_dec j @ [CHR 0x0A])) n (Suc k)" for k
    using first next_reap_shard_cursor [OF assms(1) j assms(2)] by simp
  then have "shard_sequence cursor n n = shard_sequence (Inr (nat_dec j @ [CHR 0x0A])) n n"
    using assms(1) by (cases n) auto
  with j shard_sequence_written [OF assms(1) j assms(2)] that show ?thesis by simp
qed

lemma rotation_inj: "inj_on (\<lambda>i. (j + i) mod n) {0..<n :: nat}"
proof (rule linorder_inj_onI)
  fix i k :: nat
  assume "i < k" "i \<in> {0..<n}" "k \<in> {0..<n}"
  moreover have "\<not> n dvd k - i" if "i < k" "k < n" using that by (auto dest: dvd_imp_le)
  ultimately show "(j + i) mod n \<noteq> (j + k) mod n"
    using mod_eq_dvd_iff_nat [of "j + i" "j + k" n] by auto
qed auto

subsection \<open>Properties\<close>

text \<open>A custody marker that is absent, or that was read and belongs to another boot.\<close>

definition marker_gone :: "io_error + string \<Rightarrow> string \<Rightarrow> bool" where
  "marker_gone marker boot \<longleftrightarrow>
     (\<exists>e. marker = Inl e \<and> kind e = NotFound) \<or>
     (\<exists>t. marker = Inr t \<and> valid_boot_id t \<and> valid_boot_id boot \<and> t \<noteq> boot)"

text \<open>No acceptance, or one that was read whole and names no parent or a parent that is not there.\<close>

definition no_parent_holds :: "serde \<Rightarrow> reap_evidence \<Rightarrow> bool" where
  "no_parent_holds sd ev \<longleftrightarrow>
     re_accepted_exists ev = Inr False \<or>
     (\<exists>b. re_accepted_exists ev = Inr True \<and> re_accepted_fs_read ev = Inr b \<and> length b \<le> 1024 * 1024 \<and>
        (acceptance_from_slice sd b = Some RegRoot \<or>
         (\<exists>parent. acceptance_from_slice sd b = Some (RegNested parent) \<and> path_component_count parent = 1 \<and> prefix ''ab_'' parent \<and>
            (re_symlink_is_dir ev parent = Inr False \<or> (\<exists>e. re_symlink_is_dir ev parent = Inl e \<and> kind e = NotFound)))))"

text \<open>The root's result for this work under this root: drained, with a nonce and an outcome.\<close>

definition result_settles :: "json \<Rightarrow> string \<Rightarrow> json \<Rightarrow> bool" where
  "result_settles acceptance work result \<longleftrightarrow>
     jindex result ''protocol'' = JStr ROOT_WORK_PROTOCOL \<and> jindex result ''work_id'' = JStr work \<and>
     jindex result ''root_id'' = jindex acceptance ''root_id'' \<and> \<not> no_text (jindex result ''result_nonce'') \<and>
     jindex result ''physical_tree_drained'' = JBool True \<and> \<not> no_text (jindex result ''outcome'')"

text \<open>
  No acceptance, or one that was read and is of this work and a root; if it registers root work, the
  result was read too and settles it.
\<close>

definition root_result_settled :: "serde \<Rightarrow> reap_evidence \<Rightarrow> bool" where
  "root_result_settled sd ev \<longleftrightarrow>
     re_accepted_exists ev = Inr False \<or>
     (\<exists>b acceptance. re_accepted_exists ev = Inr True \<and> re_accepted_read ev = Inr b \<and> value_from_slice sd b = Some acceptance \<and>
        jindex acceptance ''protocol'' = JStr ROOT_WORK_PROTOCOL \<and> jindex acceptance ''work_id'' = JStr (re_handle ev) \<and>
        \<not> no_text (jindex acceptance ''root_id'') \<and> as_str (jindex (jindex acceptance ''registration'') ''kind'') \<noteq> None \<and>
        (jindex (jindex acceptance ''registration'') ''kind'' = JStr ''root'' \<longrightarrow>
           (\<exists>rb result. re_result_exists ev = Inr True \<and> re_result_read ev = Inr rb \<and> value_from_slice sd rb = Some result \<and>
              result_settles acceptance (re_handle ev) result)))"

lemma causal_parent_released: "causal_parent_retains sd ev = Inr False \<Longrightarrow> no_parent_holds sd ev"
  by (auto simp: causal_parent_retains_def no_parent_holds_def not_less
      split: sum.splits bool.splits if_splits option.splits reap_registration.splits)

lemma root_result_not_pending: "accepted_root_result_pending sd ev = Inr False \<Longrightarrow> root_result_settled sd ev"
  by (auto simp: accepted_root_result_pending_def root_result_settled_def result_settles_def
      split: sum.splits bool.splits if_splits option.splits)

lemma custody_markers_gone:
  "\<not> custody_may_remain_evidence ev boot \<Longrightarrow> marker_gone (re_physical_custody ev) boot \<and> marker_gone (re_external_custody ev) boot"
  by (auto simp: custody_may_remain_evidence_def boot_text_may_remain_def marker_gone_def split: sum.splits)

lemma gone_or_reused_iff:
  "process_is_gone_or_reused rd p ticks b boot \<longleftrightarrow> inspect_process_identity rd p ticks b boot \<in> {Gone, Mismatch}"
  by (auto simp: process_is_gone_or_reused_def split: identity_evidence.splits)

text \<open>
  C32. Reaping is safe, and what cannot be read makes a directory stay. A directory found eligible has
  readable metadata and an age of at least the retention time. Each custody marker is absent or was
  read and belongs to another boot. The acceptance of a root is absent or was read, within its bound,
  and decoded both times: it names no causal parent, or one whose directory is not there, and, if it
  registers root work, the root's result was read and settles this very work under the same root, with
  its tree drained. A v2 source is recorded as released. A recorded supervisor is shown gone or
  replaced by procfs. And the handle is terminal with a recorded completion time, a delivery that needs
  no further progress and, after a ready sentinel without a recorded exit, a workload shown gone or
  replaced; or it is running and both its processes are shown gone or replaced.
\<close>

theorem reap_eligible_is_safe:
  assumes "state_dir_reap_eligible sd ev c boot"
  shows "\<exists>m. re_meta ev = Inr m \<and> ttl_ms c \<le> state_dir_reap_age_ms ev m (now_unix_ms c) \<and>
     marker_gone (re_physical_custody ev) boot \<and> marker_gone (re_external_custody ev) boot \<and>
     no_parent_holds sd ev \<and> root_result_settled sd ev \<and>
     (re_v2_enabled ev \<longrightarrow> re_v2_released ev = Inr True) \<and>
     (supervisor_pid m \<noteq> None \<longrightarrow>
        inspect_process_identity (re_stat ev) (supervisor_pid m) (supervisor_pid_starttime_ticks m)
          (process_boot_id m) boot \<in> {Gone, Mismatch}) \<and>
     (terminal m \<and> completed_at_unix_ms m \<noteq> None \<and> \<not> needs_progress (completion_lifecycle (delivery m)) \<and>
        (completion_reason m = Some ''ready-sentinel'' \<and> workload_rc m = None \<and> workload_signal m = None \<longrightarrow>
           inspect_process_identity (re_stat ev) (workload_pid m) (workload_pid_starttime_ticks m)
             (process_boot_id m) boot \<in> {Gone, Mismatch}) \<or>
      state m = ''RUNNING'' \<and>
        inspect_process_identity (re_stat ev) (supervisor_pid m) (supervisor_pid_starttime_ticks m)
          (process_boot_id m) boot \<in> {Gone, Mismatch} \<and>
        inspect_process_identity (re_stat ev) (workload_pid m) (workload_pid_starttime_ticks m)
          (process_boot_id m) boot \<in> {Gone, Mismatch})"
proof -
  obtain m where meta: "re_meta ev = Inr m"
    using assms by (auto simp: state_dir_reap_eligible_def split: if_splits sum.splits)
  have "causal_parent_retains sd ev = Inr False" and result: "accepted_root_result_pending sd ev = Inr False"
    and v2: "re_v2_enabled ev \<longrightarrow> re_v2_released ev = Inr True"
    and custody: "\<not> custody_may_remain_evidence ev boot"
    and sup: "supervisor_pid m \<noteq> None \<longrightarrow> process_is_gone_or_reused (re_stat ev) (supervisor_pid m)
       (supervisor_pid_starttime_ticks m) (process_boot_id m) boot"
    and age: "ttl_ms c \<le> state_dir_reap_age_ms ev m (now_unix_ms c)"
    and final: "meta_is_reap_terminal (re_stat ev) m boot \<and> \<not> needs_progress (completion_lifecycle (delivery m)) \<or>
      state m = ''RUNNING'' \<and> meta_processes_are_gone_or_reused (re_stat ev) m boot"
    using assms meta by (auto simp: state_dir_reap_eligible_def unwrap_or_def not_less split: if_splits sum.splits)
  then show ?thesis
    using meta causal_parent_released root_result_not_pending custody_markers_gone [OF custody]
    by (intro exI [of _ m])
      (auto simp: gone_or_reused_iff meta_is_reap_terminal_def meta_processes_are_gone_or_reused_def terminal_def
        ready_sentinel_workload_may_be_running_def split: identity_evidence.splits if_splits)
qed

text \<open>
  C33. One pass is bounded and removes only what it may: it scans at most the configured number
  of entries, removes at most the configured number of directories, and every directory it
  tried to remove is a handle directory of this pass's shard, eligible by the evidence read
  while the delivery, custody and output locks were all held.
\<close>

theorem reap_pass_bounded:
  assumes "reap_state_dirs sd c boot cursor listing = (st, removed, written)"
  shows "scanned st \<le> max_scan c \<and> reaped st \<le> max_dirs c \<and>
     reaped st \<le> length removed \<and> length removed \<le> scanned st \<and>
     (\<forall>en \<in> set removed.
        reap_entry_is_handle_dir en \<and>
        handle_reap_shard (en_name en) (shards c) = fst (next_reap_shard cursor (shards c)) \<and>
        state_dir_reap_eligible sd (en_evidence en) c boot \<and>
        en_delivery_lock en = Inr True \<and> en_custody_lock en = Inr () \<and> en_output_lock en = Inr True)"
proof (cases "removed = [] \<and> scanned st = 0 \<and> reaped st = 0")
  case True
  then show ?thesis by simp
next
  case False
  then obtain entries where
    run: "reap_entries sd c boot (fst (next_reap_shard cursor (shards c))) entries reap_stats_default = (st, removed)"
    using assms
    by (auto simp: reap_state_dirs_def reap_stats_default_def split: if_splits sum.splits prod.splits)
  from reap_entries_bounds [OF run] reap_entries_removed [OF run] show ?thesis
    by (simp add: reap_stats_default_def)
qed

text \<open>
  C34. The rotation is fair. From any content of the cursor file, and with each pass finding what
  the one before wrote, as many consecutive passes as there are shards visit every shard exactly
  once; so every handle's shard has its turn.
\<close>

theorem shard_rotation_fair:
  assumes "1 \<le> n" and "n \<le> u64_max"
  shows "distinct (shard_sequence cursor n n) \<and> set (shard_sequence cursor n n) = {0..<n} \<and>
     handle_reap_shard name n \<in> set (shard_sequence cursor n n)"
proof (cases "n = 1")
  case True
  then show ?thesis by (simp add: next_reap_shard_def handle_reap_shard_def)
next
  case False
  then obtain j where j: "j < n" "shard_sequence cursor n n = map (\<lambda>i. (j + i) mod n) [0..<n]"
    using assms shard_sequence_any_cursor [of n cursor] by (metis le_neq_implies_less)
  then have "distinct (shard_sequence cursor n n)" using rotation_inj by (simp add: distinct_map)
  moreover have "set (shard_sequence cursor n n) = {0..<n}"
  proof (rule card_subset_eq)
    show "set (shard_sequence cursor n n) \<subseteq> {0..<n}" using j by auto
    show "card (set (shard_sequence cursor n n)) = card {0..<n}"
      using j(2) card_image [OF rotation_inj [of j n]] by simp
  qed simp
  moreover have "handle_reap_shard name n < n" using assms(1) by (simp add: handle_reap_shard_def max_def)
  ultimately show ?thesis by simp
qed

theorem shard_rotation_fair_witness:
  "handle_reap_shard ''ab_1'' 16 \<in> set (shard_sequence (Inr ''garbage'') 16 16)"
  by (rule shard_rotation_fair [THEN conjunct2, THEN conjunct2]) simp_all

definition bare_evidence :: "meta \<Rightarrow> reap_evidence" where
  "bare_evidence m =
     \<lparr>re_handle = ''ab_1'', re_accepted_exists = Inr False, re_accepted_fs_read = Inl (io_other []),
      re_accepted_read = Inl (io_other []), re_result_exists = Inr False, re_result_read = Inl (io_other []),
      re_symlink_is_dir = (\<lambda>_. Inr True), re_v2_enabled = False, re_v2_released = Inl (io_other []),
      re_meta = Inr m, re_physical_custody = Inl (io_new NotFound []),
      re_external_custody = Inl (io_new NotFound []), re_stat = (\<lambda>_. Inl (io_new NotFound [])),
      re_dir_mtime = None\<rparr>"

definition settled_meta :: meta where
  "settled_meta =
     (meta_new 5 ''ab_1'' 7 8 [''true''] ''/'' ''exit'' Sync None [] None)
       \<lparr>state := ''DONE'', completed_at_unix_ms := Some 5,
        delivery := completion_delivery_default\<lparr>attempted := True, dm_exit_code := Some 0\<rparr>\<rparr>"

definition plain_serde :: serde where
  "plain_serde = \<lparr>value_from_slice = (\<lambda>_. None), acceptance_from_slice = (\<lambda>_. None)\<rparr>"

definition late_config :: reap_config where
  "late_config = reap_config_from_env None None None None 200000000"

lemmas reap_witness_simps =
  bare_evidence_def settled_meta_def plain_serde_def late_config_def reap_config_from_env_def meta_new_def
  state_dir_reap_eligible_def unwrap_or_def causal_parent_retains_def accepted_root_result_pending_def
  custody_may_remain_evidence_def boot_text_may_remain_def io_new_def io_other_def state_dir_reap_age_ms_def ttl_ms_def
  secs_to_ms_def saturating_mul_u64_def env_u64_def DEFAULT_STATE_TTL_SECS_def DEFAULT_REAP_MAX_DIRS_def
  DEFAULT_REAP_MAX_SCAN_def DEFAULT_REAP_SHARDS_def meta_is_reap_terminal_def
  ready_sentinel_workload_may_be_running_def needs_progress_def completion_lifecycle_def
  completion_delivery_default_def

lemma settled_eligible: "state_dir_reap_eligible plain_serde (bare_evidence settled_meta) late_config ''b''"
  by (simp add: reap_witness_simps)

text \<open>Evidence of root work: an acceptance of this handle as root work, and the root's result for it.\<close>

definition root_serde :: serde where
  "root_serde = \<lparr>value_from_slice = (\<lambda>b.
       if b = ''a'' then Some (JObj [(''protocol'', JStr ROOT_WORK_PROTOCOL), (''work_id'', JStr ''ab_1''), (''root_id'', JStr ''r''),
         (''registration'', JObj [(''kind'', JStr ''root'')])])
       else if b = ''z'' then Some (JObj [(''protocol'', JStr ROOT_WORK_PROTOCOL), (''work_id'', JStr ''ab_1''), (''root_id'', JStr ''r''),
         (''result_nonce'', JStr ''n''), (''physical_tree_drained'', JBool True), (''outcome'', JStr ''exit'')])
       else None),
     acceptance_from_slice = (\<lambda>_. Some RegRoot)\<rparr>"

definition root_evidence :: reap_evidence where
  "root_evidence = (bare_evidence settled_meta)\<lparr>re_accepted_exists := Inr True, re_accepted_fs_read := Inr ''a'', re_accepted_read := Inr ''a'',
     re_result_exists := Inr True, re_result_read := Inr ''z''\<rparr>"

lemma root_eligible: "state_dir_reap_eligible root_serde root_evidence late_config ''b''"
  by (simp add: reap_witness_simps root_serde_def root_evidence_def no_text_def)

theorem reap_eligible_is_safe_witness:
  "root_result_settled root_serde root_evidence \<and>
   ttl_ms late_config \<le> state_dir_reap_age_ms root_evidence settled_meta (now_unix_ms late_config)"
  using reap_eligible_is_safe [OF root_eligible] by (auto simp: root_evidence_def bare_evidence_def)

definition settled_entry :: reap_entry where
  "settled_entry =
     \<lparr>en_name = ''ab_1'', en_is_dir = Inr True, en_delivery_lock = Inr True, en_custody_lock = Inr (),
      en_output_lock = Inr True, en_evidence = bare_evidence settled_meta, en_removal = Inr ()\<rparr>"

theorem reap_pass_bounded_witness:
  "let r = reap_state_dirs plain_serde (late_config\<lparr>shards := 1\<rparr>) ''b'' (Inr []) (Inr [Inr settled_entry])
   in reaped (fst r) = 1 \<and> length (fst (snd r)) \<le> scanned (fst r)"
proof -
  let ?r = "reap_state_dirs plain_serde (late_config\<lparr>shards := 1\<rparr>) ''b'' (Inr []) (Inr [Inr settled_entry])"
  have "state_dir_reap_eligible plain_serde (bare_evidence settled_meta) (late_config\<lparr>shards := 1\<rparr>) ''b''"
    by (simp add: reap_witness_simps)
  then have "reaped (fst ?r) = 1"
    by (simp add: reap_state_dirs_def reap_state_entry_def settled_entry_def next_reap_shard_def
        handle_reap_shard_def reap_entry_is_handle_dir_def reap_limits_reached_def reap_stats_default_def
        unwrap_or_def late_config_def reap_config_from_env_def env_u64_def DEFAULT_REAP_MAX_DIRS_def
        DEFAULT_REAP_MAX_SCAN_def)
  moreover have "length (fst (snd ?r)) \<le> scanned (fst ?r)"
    using reap_pass_bounded [of plain_serde "late_config\<lparr>shards := 1\<rparr>" "''b''" "Inr []" "Inr [Inr settled_entry]"
        "fst ?r" "fst (snd ?r)" "snd (snd ?r)"] by simp
  ultimately show ?thesis by (simp add: Let_def)
qed

end
