(* ===== verification/Effects.thy ===== *)
theory Effects
  imports Process_Identity
begin

section \<open>Effects: system calls over a handle directory, faults and process death\<close>

text \<open>
  The operations of \<^verbatim>\<open>state.rs\<close>, \<^verbatim>\<open>delivery.rs\<close> and \<^verbatim>\<open>supervisor.rs\<close> that do I/O are functions
  from a world to an outcome and a world. The world holds the files of one handle directory,
  the delivery-helper processes started so far, the bytes sent to a root's socket and read from it, and the environment: what each later system
  call meets. Every system call takes one tick of the environment's schedule, which lets it
  proceed, makes it fail with an error of the environment's choice, or ends the process
  there. The last case, \<open>Halted\<close>, is the death of the process (or a wait that never ends)
  between two system calls: no handler of the program can intercept it, and the files stay
  as the calls made so far left them. A theorem over all worlds therefore covers every
  placement of I/O errors and of a crash.

  Two error kinds are not the environment's to choose: that a file does not exist and that it
  already exists are answers the kernel gives about the directory, so they come from the
  modelled files alone.

  File contents are text, or the record a JSON document encodes. A temporary file of an
  interrupted write keeps whatever it held; no operation reads one.
\<close>

datatype content = Text string | Doc meta | OwnerDoc owner_meta

datatype node = Regular content | Symlink | Directory

datatype fname = F state_file | Extra string | Tmp fname pid nat

fun is_tmp :: "fname \<Rightarrow> bool" where
  "is_tmp (Tmp _ _ _) = True"
| "is_tmp _ = False"

datatype fault = Proceed | Fail io_error | Stop

datatype helper_reply =
    SpawnFails io_error
  | WaitFails io_error
  | Exits int bytes bytes

record helper_error =
  he_code :: string
  he_detail :: string

text \<open>
  What the supervisor's event loop meets at one instant: the descriptors that \<^verbatim>\<open>poll\<close> finds ready, one
  read of a descriptor and of the control channel, one write to the log and to the channel, the
  child \<^verbatim>\<open>waitid\<close> reports, whether the image service is the only child left, its recovery, a wake-up
  signal, the pid of a forked custodian, whether missing source output could be recorded, whether the
  delivery role is held, and one \<^verbatim>\<open>waitpid\<close> for the supervisor.
\<close>

datatype poll_key =
  PollStdout | PollStderr | PollExecErr | PollSigchld | PollPidfd | PollOwnerPidfd | PollCgroup | PollRootControl

record loop_answer =
  ready_keys :: "io_error + poll_key list"
  descriptor_read :: "io_error + bytes"
  control_read :: "io_error + bytes"
  log_error :: "io_error option"
  control_error :: "io_error option"
  waitable :: "io_error + (pid \<times> int) option"
  only_child :: bool
  image_error :: "io_error option"
  usr1_seen :: bool
  forked_pid :: pid
  missing_recorded :: bool
  role_pending :: bool
  child_wait :: "io_error + int"

text \<open>
  One call on a socket: its error if it fails, the credentials of the peer, how many bytes a write
  took before it failed, and what a read yields.
\<close>

record socket_answer =
  sock_error :: "io_error option"
  peer_creds :: "(nat \<times> int) option"
  bytes_taken :: nat
  sock_read :: "io_error + bytes"

record environment =
  faults :: "nat \<Rightarrow> fault"
  lookup_faults :: "nat \<Rightarrow> fault"
  clock :: "nat \<Rightarrow> nat"
  boot_file :: "nat \<Rightarrow> io_error + string"
  stat_files :: "nat \<Rightarrow> stat_reader"
  helper_verdict :: "nat \<Rightarrow> helper_error option"
  helper_answer :: "nat \<Rightarrow> helper_reply"
  v2_answer :: "nat \<Rightarrow> io_error + bool"
  pidfd_answer :: "nat \<Rightarrow> (io_error + unit) \<times> identity_evidence \<times> (io_error + nat)"
  wake_answer :: "nat \<Rightarrow> io_error + unit"
  loop_answers :: "nat \<Rightarrow> loop_answer"
  socket_answers :: "nat \<Rightarrow> socket_answer"
  patience :: nat
  self_pid :: pid

record world =
  env :: environment
  tick :: nat
  temp_counter :: nat
  dir_exists :: bool
  files :: "fname \<rightharpoonup> node"
  spawned :: "string list"
  wire :: bytes
  heard :: bytes

datatype 'a outcome = Done 'a | Raise io_error | Halted

type_synonym 'a io = "world \<Rightarrow> 'a outcome \<times> world"

subsection \<open>The monad\<close>

definition ret :: "'a \<Rightarrow> 'a io" where
  "ret a w = (Done a, w)"

definition raise :: "io_error \<Rightarrow> 'a io" where
  "raise e w = (Raise e, w)"

definition bind :: "'a io \<Rightarrow> ('a \<Rightarrow> 'b io) \<Rightarrow> 'b io" where
  "bind m f w =
     (case m w of
        (Done a, w') \<Rightarrow> f a w'
      | (Raise e, w') \<Rightarrow> (Raise e, w')
      | (Halted, w') \<Rightarrow> (Halted, w'))"

abbreviation seq :: "'a io \<Rightarrow> 'b io \<Rightarrow> 'b io" where
  "seq m n \<equiv> bind m (\<lambda>_. n)"

text \<open>A \<^verbatim>\<open>match\<close> on a \<^verbatim>\<open>Result\<close>: errors are handled, the death of the process is not.\<close>

definition handle_err :: "'a io \<Rightarrow> (io_error \<Rightarrow> 'b io) \<Rightarrow> ('a \<Rightarrow> 'b io) \<Rightarrow> 'b io" where
  "handle_err m h f w =
     (case m w of
        (Done a, w') \<Rightarrow> f a w'
      | (Raise e, w') \<Rightarrow> h e w'
      | (Halted, w') \<Rightarrow> (Halted, w'))"

definition catch :: "'a io \<Rightarrow> (io_error \<Rightarrow> 'a io) \<Rightarrow> 'a io" where
  "catch m h = handle_err m h ret"

text \<open>\<^verbatim>\<open>let _ = op;\<close>\<close>

definition ignore_err :: "'a io \<Rightarrow> unit io" where
  "ignore_err m = handle_err m (\<lambda>_. ret ()) (\<lambda>_. ret ())"

text \<open>
  A forked worker runs an operation while its parent waits. The worker's death is one more
  failed wait status for the parent; both keep running on the same files.
\<close>

definition in_worker :: "'a io \<Rightarrow> bool io" where
  "in_worker m w =
     (case m w of
        (Done _, w') \<Rightarrow> (Done True, w')
      | (Raise _, w') \<Rightarrow> (Done False, w')
      | (Halted, w') \<Rightarrow> (Done False, w'))"

subsection \<open>System calls\<close>

definition next_tick :: "world \<Rightarrow> world" where
  "next_tick w = w\<lparr>tick := Suc (tick w)\<rparr>"

definition hard :: "io_error \<Rightarrow> bool" where
  "hard e \<longleftrightarrow> kind e \<noteq> NotFound \<and> kind e \<noteq> AlreadyExists"

definition sys_by :: "(environment \<Rightarrow> nat \<Rightarrow> fault) \<Rightarrow> 'a io \<Rightarrow> 'a io" where
  "sys_by schedule call w =
     (case schedule (env w) (tick w) of
        Proceed \<Rightarrow> call (next_tick w)
      | Fail e \<Rightarrow> if hard e then (Raise e, next_tick w) else call (next_tick w)
      | Stop \<Rightarrow> (Halted, next_tick w))"

definition sys :: "'a io \<Rightarrow> 'a io" where
  "sys = sys_by faults"

text \<open>A reading of the environment that cannot fail, and one that reports an error.\<close>

definition ask :: "(environment \<Rightarrow> nat \<Rightarrow> 'a) \<Rightarrow> 'a io" where
  "ask q w = (Done (q (env w) (tick w)), next_tick w)"

definition set_file :: "fname \<Rightarrow> node option \<Rightarrow> unit io" where
  "set_file f n w = (Done (), w\<lparr>files := (files w)(f := n)\<rparr>)"

definition lookup_file :: "fname \<Rightarrow> node option io" where
  "lookup_file f w = (Done (files w f), w)"

definition in_dir :: "'a io \<Rightarrow> 'a io" where
  "in_dir m w =
     (if dir_exists w then m w
      else (Raise \<lparr>kind = NotFound, raw_os_error = Some 2, to_string = ''No such file or directory''\<rparr>, w))"

definition err_not_found :: io_error where
  "err_not_found = \<lparr>kind = NotFound, raw_os_error = Some 2, to_string = ''No such file or directory''\<rparr>"

definition err_exists :: io_error where
  "err_exists = \<lparr>kind = AlreadyExists, raw_os_error = Some 17, to_string = ''File exists''\<rparr>"

definition err_loop :: io_error where
  "err_loop = \<lparr>kind = OtherKind, raw_os_error = Some 40, to_string = ''Too many levels of symbolic links''\<rparr>"

definition err_is_dir :: io_error where
  "err_is_dir = \<lparr>kind = OtherKind, raw_os_error = Some 21, to_string = ''Is a directory''\<rparr>"

text \<open>
  \<^verbatim>\<open>lstat\<close> has a schedule of its own: some results hold only while looking a name up does not
  itself fail.
\<close>

definition sys_lstat :: "fname \<Rightarrow> node io" where
  "sys_lstat f = sys_by lookup_faults (bind (lookup_file f) (\<lambda>n. case n of None \<Rightarrow> raise err_not_found | Some n \<Rightarrow> ret n))"

definition sys_create_new :: "fname \<Rightarrow> unit io" where
  "sys_create_new f =
     sys (in_dir (bind (lookup_file f)
       (\<lambda>n. case n of None \<Rightarrow> set_file f (Some (Regular (Text []))) | Some _ \<Rightarrow> raise err_exists)))"

definition sys_open_create :: "fname \<Rightarrow> unit io" where
  "sys_open_create f =
     sys (in_dir (bind (lookup_file f)
       (\<lambda>n. case n of
          None \<Rightarrow> set_file f (Some (Regular (Text [])))
        | Some (Regular _) \<Rightarrow> ret ()
        | Some Symlink \<Rightarrow> raise err_loop
        | Some Directory \<Rightarrow> raise err_is_dir)))"

definition sys_open_read :: "fname \<Rightarrow> content io" where
  "sys_open_read f =
     sys (bind (lookup_file f)
       (\<lambda>n. case n of
          None \<Rightarrow> raise err_not_found
        | Some (Regular c) \<Rightarrow> ret c
        | Some Symlink \<Rightarrow> raise err_loop
        | Some Directory \<Rightarrow> raise err_is_dir))"

definition sys_write :: "fname \<Rightarrow> content \<Rightarrow> unit io" where
  "sys_write f c = sys (set_file f (Some (Regular c)))"

definition sys_rename :: "fname \<Rightarrow> fname \<Rightarrow> unit io" where
  "sys_rename a b =
     sys (bind (lookup_file a)
       (\<lambda>n. case n of
          None \<Rightarrow> raise err_not_found
        | Some node \<Rightarrow>
            bind (lookup_file b)
              (\<lambda>m. if m = Some Directory then raise err_is_dir
                   else seq (set_file a None) (set_file b (Some node)))))"

definition sys_unlink :: "fname \<Rightarrow> unit io" where
  "sys_unlink f =
     sys (bind (lookup_file f)
       (\<lambda>n. case n of
          None \<Rightarrow> raise err_not_found
        | Some Directory \<Rightarrow> raise err_is_dir
        | Some _ \<Rightarrow> set_file f None))"

text \<open>Opening the handle directory, and calls whose effect is durability only.\<close>

definition sys_open_dir :: "unit io" where
  "sys_open_dir = sys (in_dir (ret ()))"

definition sys_sync :: "unit io" where
  "sys_sync = sys (ret ())"

text \<open>\<^verbatim>\<open>unix_ms\<close> and \<^verbatim>\<open>current_boot_id\<close>.\<close>

definition unix_ms :: "nat io" where
  "unix_ms = ask (\<lambda>e t. min u64_max (clock e t))"

definition current_boot_id :: "string io" where
  "current_boot_id = ask (\<lambda>e t. read_boot_id_from (boot_file e t))"

subsection \<open>Reasoning: what an operation may leave behind\<close>

text \<open>
  The visible part of a world: the files other than temporaries, the helpers started,
  whether name lookups are free of errors of their own, and what was sent to a root and heard from it.
  \<open>spec m s Q E H\<close> says that from every world that shows \<open>s\<close>, whatever the environment
  does, \<open>m\<close> ends in a value satisfying \<open>Q\<close>, an error satisfying \<open>E\<close>, or the death of the
  process with \<open>H\<close> true of what is then visible.
\<close>

record view =
  vdir :: bool
  vfiles :: "fname \<rightharpoonup> node"
  vspawned :: "string list"
  vlookup :: bool
  vwire :: bytes
  vheard :: bytes

definition lookups_reliable :: "environment \<Rightarrow> bool" where
  "lookups_reliable en \<longleftrightarrow> (\<forall>t e. lookup_faults en t \<noteq> Fail e)"

definition visible :: "(fname \<rightharpoonup> node) \<Rightarrow> (fname \<rightharpoonup> node)" where
  "visible m f = (if is_tmp f then None else m f)"

definition view_of :: "world \<Rightarrow> view" where
  "view_of w = \<lparr>vdir = dir_exists w, vfiles = visible (files w), vspawned = spawned w,
     vlookup = lookups_reliable (env w), vwire = wire w, vheard = heard w\<rparr>"

definition spec ::
  "'a io \<Rightarrow> view \<Rightarrow> ('a \<Rightarrow> view \<Rightarrow> bool) \<Rightarrow> (io_error \<Rightarrow> view \<Rightarrow> bool) \<Rightarrow> (view \<Rightarrow> bool) \<Rightarrow> bool" where
  "spec m s Q E H \<longleftrightarrow>
     (\<forall>w. view_of w = s \<longrightarrow>
        (case m w of
           (Done a, w') \<Rightarrow> Q a (view_of w')
         | (Raise e, w') \<Rightarrow> E e (view_of w')
         | (Halted, w') \<Rightarrow> H (view_of w')))"

lemma view_next_tick [simp]: "view_of (next_tick w) = view_of w"
  by (simp add: view_of_def next_tick_def)

lemma view_files: "\<not> is_tmp f \<Longrightarrow> vfiles (view_of w) f = files w f"
  by (simp add: view_of_def visible_def)

lemma view_dir: "vdir (view_of w) = dir_exists w"
  by (simp add: view_of_def)

lemma view_spawned: "vspawned (view_of w) = spawned w"
  by (simp add: view_of_def)

lemma lookup_fails: "lookup_faults (env w) t = Fail e \<Longrightarrow> \<not> vlookup (view_of w)"
  by (auto simp: view_of_def lookups_reliable_def)

lemma view_set_file:
  "\<not> is_tmp f \<Longrightarrow>
     view_of (w\<lparr>files := (files w)(f := n)\<rparr>) = view_of w\<lparr>vfiles := (vfiles (view_of w))(f := n)\<rparr>"
  "is_tmp f \<Longrightarrow> view_of (w\<lparr>files := (files w)(f := n)\<rparr>) = view_of w"
  by (auto simp: view_of_def visible_def fun_eq_iff)

lemma spec_mono:
  assumes "spec m s Q E H" and "\<And>a t. Q a t \<Longrightarrow> Q' a t" and "\<And>e t. E e t \<Longrightarrow> E' e t"
    and "\<And>t. H t \<Longrightarrow> H' t"
  shows "spec m s Q' E' H'"
  unfolding spec_def
proof (intro allI impI)
  fix w assume "view_of w = s"
  with assms(1) show "case m w of (Done a, w') \<Rightarrow> Q' a (view_of w') | (Raise e, w') \<Rightarrow> E' e (view_of w')
     | (Halted, w') \<Rightarrow> H' (view_of w')"
    using assms(2-4) unfolding spec_def by (fastforce split: prod.splits outcome.splits)
qed

lemma spec_ret [wp_rules]: "Q a s \<Longrightarrow> spec (ret a) s Q E H"
  by (simp add: spec_def ret_def)

lemma spec_raise [wp_rules]: "E e s \<Longrightarrow> spec (raise e) s Q E H"
  by (simp add: spec_def raise_def)

lemma spec_bind [wp_rules]:
  "spec m s (\<lambda>a t. spec (f a) t Q E H) E H \<Longrightarrow> spec (bind m f) s Q E H"
  by (fastforce simp: spec_def bind_def split: prod.splits outcome.splits)

lemma spec_handle_err [wp_rules]:
  "spec m s (\<lambda>a t. spec (f a) t Q E H) (\<lambda>e t. spec (h e) t Q E H) H \<Longrightarrow> spec (handle_err m h f) s Q E H"
  by (fastforce simp: spec_def handle_err_def split: prod.splits outcome.splits)

lemma spec_catch [wp_rules]:
  "spec m s Q (\<lambda>e t. spec (h e) t Q E H) H \<Longrightarrow> spec (catch m h) s Q E H"
  unfolding catch_def by (rule spec_handle_err, erule spec_mono) (auto intro: spec_ret)

lemma spec_ignore_err [wp_rules]:
  "spec m s (\<lambda>_ t. Q () t) (\<lambda>_ t. Q () t) H \<Longrightarrow> spec (ignore_err m) s Q E H"
  unfolding ignore_err_def by (rule spec_handle_err, erule spec_mono) (auto intro: spec_ret)

lemma spec_in_worker [wp_rules]:
  "spec m s (\<lambda>_ t. Q True t) (\<lambda>_ t. Q False t) (\<lambda>t. Q False t) \<Longrightarrow> spec (in_worker m) s Q E H"
  by (fastforce simp: spec_def in_worker_def split: prod.splits outcome.splits)

lemma spec_sys [wp_rules]:
  "spec m s Q E H \<Longrightarrow> (\<And>e. hard e \<Longrightarrow> E e s) \<Longrightarrow> H s \<Longrightarrow> spec (sys m) s Q E H"
  by (auto simp: spec_def sys_def sys_by_def split: fault.splits)

lemma spec_sys_lookup:
  "spec m s Q E H \<Longrightarrow> (\<And>e. hard e \<Longrightarrow> \<not> vlookup s \<Longrightarrow> E e s) \<Longrightarrow> H s \<Longrightarrow> spec (sys_by lookup_faults m) s Q E H"
  by (auto simp: spec_def sys_by_def dest: lookup_fails split: fault.splits)

lemma spec_in_dir:
  "(vdir s \<Longrightarrow> spec m s Q E H) \<Longrightarrow> (\<not> vdir s \<Longrightarrow> E err_not_found s) \<Longrightarrow> spec (in_dir m) s Q E H"
  by (cases "vdir s")
    (auto simp: spec_def in_dir_def err_not_found_def view_dir split: prod.splits)

lemma spec_ask [wp_rules]: "(\<And>a. Q a s) \<Longrightarrow> spec (ask q) s Q E H"
  by (simp add: spec_def ask_def)

lemma spec_set_file [wp_rules]:
  "(if is_tmp f then Q () s else Q () (s\<lparr>vfiles := (vfiles s)(f := n)\<rparr>)) \<Longrightarrow> spec (set_file f n) s Q E H"
  by (auto simp: spec_def set_file_def view_set_file split: if_splits)

lemma spec_lookup_tmp: "is_tmp f \<Longrightarrow> (\<And>n. Q n s) \<Longrightarrow> spec (lookup_file f) s Q E H"
  by (simp add: spec_def lookup_file_def)

lemma spec_lookup: "\<not> is_tmp f \<Longrightarrow> Q (vfiles s f) s \<Longrightarrow> spec (lookup_file f) s Q E H"
  by (auto simp: spec_def lookup_file_def view_files)

lemma spec_if [wp_rules]:
  "(b \<Longrightarrow> spec m s Q E H) \<Longrightarrow> (\<not> b \<Longrightarrow> spec n s Q E H) \<Longrightarrow> spec (if b then m else n) s Q E H"
  by simp

lemma spec_option [wp_rules]:
  "(x = None \<Longrightarrow> spec m s Q E H) \<Longrightarrow> (\<And>y. x = Some y \<Longrightarrow> spec (f y) s Q E H) \<Longrightarrow>
   spec (case x of None \<Rightarrow> m | Some y \<Rightarrow> f y) s Q E H"
  by (cases x) auto

lemma spec_run:
  assumes "spec m (view_of w) Q E H"
  shows "m w = (Done a, w') \<Longrightarrow> Q a (view_of w')"
    and "m w = (Raise e, w') \<Longrightarrow> E e (view_of w')"
    and "m w = (Halted, w') \<Longrightarrow> H (view_of w')"
  using assms by (auto simp: spec_def)

text \<open>The same postcondition for every way an operation ends.\<close>

definition keeps :: "(view \<Rightarrow> bool) \<Rightarrow> 'a io \<Rightarrow> bool" where
  "keeps I m \<longleftrightarrow> (\<forall>s. I s \<longrightarrow> spec m s (\<lambda>_. I) (\<lambda>_. I) I)"

lemma keeps_run: "keeps I m \<Longrightarrow> I (view_of w) \<Longrightarrow> I (view_of (snd (m w)))"
  unfolding keeps_def spec_def by (cases "m w"; cases "fst (m w)") fastforce+

lemma keepsI: "(\<And>s. I s \<Longrightarrow> spec m s (\<lambda>_. I) (\<lambda>_. I) I) \<Longrightarrow> keeps I m"
  by (simp add: keeps_def)

lemma keepsD: "keeps I m \<Longrightarrow> I s \<Longrightarrow> spec m s (\<lambda>_. I) (\<lambda>_. I) I"
  by (simp add: keeps_def)

subsection \<open>Rules of the system calls\<close>

lemma hard_errs [simp]: "hard err_loop" "hard err_is_dir" "\<not> hard err_not_found" "\<not> hard err_exists"
  by (simp_all add: hard_def err_loop_def err_is_dir_def err_not_found_def err_exists_def)

lemma kind_errs [simp]: "kind err_not_found = NotFound" "kind err_exists = AlreadyExists"
  by (simp_all add: err_not_found_def err_exists_def)

lemma spec_lstat [wp_rules]:
  assumes "\<not> is_tmp f" and "\<And>n. vfiles s f = Some n \<Longrightarrow> Q n s"
    and "vfiles s f = None \<Longrightarrow> E err_not_found s" and "\<And>e. hard e \<Longrightarrow> \<not> vlookup s \<Longrightarrow> E e s" and "H s"
  shows "spec (sys_lstat f) s Q E H"
  unfolding sys_lstat_def
  by (intro spec_sys_lookup spec_bind spec_lookup spec_option spec_raise spec_ret) (use assms in auto)

lemma spec_create_new [wp_rules]:
  assumes "\<not> is_tmp f"
    and "vdir s \<Longrightarrow> vfiles s f = None \<Longrightarrow> Q () (s\<lparr>vfiles := (vfiles s)(f \<mapsto> Regular (Text []))\<rparr>)"
    and "\<And>n. vfiles s f = Some n \<Longrightarrow> E err_exists s"
    and "\<not> vdir s \<Longrightarrow> E err_not_found s" and "\<And>e. hard e \<Longrightarrow> E e s" and "H s"
  shows "spec (sys_create_new f) s Q E H"
  unfolding sys_create_new_def
  by (intro spec_sys spec_in_dir spec_bind spec_lookup spec_option spec_raise spec_set_file)
    (use assms in auto)

lemma spec_open_create [wp_rules]:
  assumes "\<not> is_tmp f"
    and "vdir s \<Longrightarrow> vfiles s f = None \<Longrightarrow> Q () (s\<lparr>vfiles := (vfiles s)(f \<mapsto> Regular (Text []))\<rparr>)"
    and "\<And>c. vdir s \<Longrightarrow> vfiles s f = Some (Regular c) \<Longrightarrow> Q () s"
    and "\<not> vdir s \<Longrightarrow> E err_not_found s" and "\<And>e. hard e \<Longrightarrow> E e s" and "H s"
  shows "spec (sys_open_create f) s Q E H"
  unfolding sys_open_create_def
  by (intro spec_sys spec_in_dir spec_bind spec_lookup)
    (use assms in \<open>auto split: option.splits node.splits intro!: spec_raise spec_ret spec_set_file\<close>)

lemma spec_open_read [wp_rules]:
  assumes "\<not> is_tmp f" and "\<And>c. vfiles s f = Some (Regular c) \<Longrightarrow> Q c s"
    and "vfiles s f = None \<Longrightarrow> E err_not_found s" and "\<And>e. hard e \<Longrightarrow> E e s" and "H s"
  shows "spec (sys_open_read f) s Q E H"
  unfolding sys_open_read_def
  by (intro spec_sys spec_bind spec_lookup)
    (use assms in \<open>auto split: option.splits node.splits intro!: spec_raise spec_ret\<close>)

lemma spec_unlink [wp_rules]:
  assumes "\<not> is_tmp f" and "Q () (s\<lparr>vfiles := (vfiles s)(f := None)\<rparr>)"
    and "vfiles s f = None \<Longrightarrow> E err_not_found s" and "\<And>e. hard e \<Longrightarrow> E e s" and "H s"
  shows "spec (sys_unlink f) s Q E H"
  unfolding sys_unlink_def
  by (intro spec_sys spec_bind spec_lookup)
    (use assms in \<open>auto split: option.splits node.splits intro!: spec_raise spec_set_file\<close>)

lemma spec_open_dir [wp_rules]:
  assumes "vdir s \<Longrightarrow> Q () s" and "\<not> vdir s \<Longrightarrow> E err_not_found s" and "\<And>e. hard e \<Longrightarrow> E e s" and "H s"
  shows "spec sys_open_dir s Q E H"
  unfolding sys_open_dir_def by (intro spec_sys spec_in_dir spec_ret) (use assms in auto)

lemma spec_sync [wp_rules]:
  "Q () s \<Longrightarrow> (\<And>e. hard e \<Longrightarrow> E e s) \<Longrightarrow> H s \<Longrightarrow> spec sys_sync s Q E H"
  unfolding sys_sync_def by (intro spec_sys spec_ret)

lemma spec_unix_ms [wp_rules]: "(\<And>n. Q n s) \<Longrightarrow> spec unix_ms s Q E H"
  unfolding unix_ms_def by (rule spec_ask)

lemma spec_current_boot_id [wp_rules]: "(\<And>b. Q b s) \<Longrightarrow> spec current_boot_id s Q E H"
  unfolding current_boot_id_def by (rule spec_ask)

subsection \<open>Keeping an invariant\<close>

text \<open>An invariant that a write to \<open>f\<close> cannot disturb.\<close>

definition ignores :: "(view \<Rightarrow> bool) \<Rightarrow> fname \<Rightarrow> bool" where
  "ignores I f \<longleftrightarrow> (\<forall>s n. I (s\<lparr>vfiles := (vfiles s)(f := n)\<rparr>) = I s)"

lemma ignoresD: "ignores I f \<Longrightarrow> I s \<Longrightarrow> I (s\<lparr>vfiles := (vfiles s)(f := n)\<rparr>)"
  by (simp add: ignores_def)

lemma keeps_ret [keeps_rules]: "keeps I (ret a)"
  by (auto intro!: keepsI spec_ret)

lemma keeps_raise [keeps_rules]: "keeps I (raise e)"
  by (auto intro!: keepsI spec_raise)

lemma keeps_bind [keeps_rules]:
  assumes "keeps I m" and "\<And>a. keeps I (f a)"
  shows "keeps I (bind m f)"
  by (rule keepsI, rule spec_bind, rule spec_mono [OF keepsD [OF assms(1)]])
    (auto intro: keepsD [OF assms(2)])

lemma keeps_handle_err [keeps_rules]:
  assumes "keeps I m" and "\<And>e. keeps I (h e)" and "\<And>a. keeps I (f a)"
  shows "keeps I (handle_err m h f)"
  by (rule keepsI, rule spec_handle_err, rule spec_mono [OF keepsD [OF assms(1)]])
    (auto intro: keepsD [OF assms(2)] keepsD [OF assms(3)])

lemma keeps_catch [keeps_rules]: "keeps I m \<Longrightarrow> (\<And>e. keeps I (h e)) \<Longrightarrow> keeps I (catch m h)"
  unfolding catch_def by (intro keeps_rules)

lemma keeps_ignore_err [keeps_rules]: "keeps I m \<Longrightarrow> keeps I (ignore_err m)"
  unfolding ignore_err_def by (intro keeps_rules)

lemma keeps_in_worker [keeps_rules]: "keeps I m \<Longrightarrow> keeps I (in_worker m)"
  by (auto intro!: keepsI spec_in_worker intro: keepsD)

lemma keeps_if [keeps_rules]: "keeps I m \<Longrightarrow> keeps I n \<Longrightarrow> keeps I (if b then m else n)"
  by simp

lemma keeps_option [keeps_rules]:
  "keeps I m \<Longrightarrow> (\<And>y. keeps I (f y)) \<Longrightarrow> keeps I (case x of None \<Rightarrow> m | Some y \<Rightarrow> f y)"
  by (cases x) auto

lemma keeps_sum [keeps_rules]:
  "(\<And>y. keeps I (f y)) \<Longrightarrow> (\<And>y. keeps I (g y)) \<Longrightarrow> keeps I (case x of Inl y \<Rightarrow> f y | Inr y \<Rightarrow> g y)"
  by (cases x) auto

lemma keeps_prod [keeps_rules]: "(\<And>a b. keeps I (f a b)) \<Longrightarrow> keeps I (case x of (a, b) \<Rightarrow> f a b)"
  by (cases x) auto

lemma keeps_content [keeps_rules]:
  "(\<And>y. keeps I (f y)) \<Longrightarrow> (\<And>y. keeps I (g y)) \<Longrightarrow> (\<And>y. keeps I (h y)) \<Longrightarrow>
   keeps I (case x of Text y \<Rightarrow> f y | Doc y \<Rightarrow> g y | OwnerDoc y \<Rightarrow> h y)"
  by (cases x) auto

lemma keeps_sys [keeps_rules]: "keeps I m \<Longrightarrow> keeps I (sys m)"
  by (auto intro!: keepsI spec_sys intro: keepsD)

lemma keeps_ask [keeps_rules]: "keeps I (ask q)"
  by (auto intro!: keepsI spec_ask)

lemma keeps_lstat [keeps_rules]: "\<not> is_tmp f \<Longrightarrow> keeps I (sys_lstat f)"
  by (auto intro!: keepsI spec_lstat)

lemma keeps_open_read [keeps_rules]: "\<not> is_tmp f \<Longrightarrow> keeps I (sys_open_read f)"
  by (auto intro!: keepsI spec_open_read)

lemma keeps_open_dir [keeps_rules]: "keeps I sys_open_dir"
  by (auto intro!: keepsI spec_open_dir)

lemma keeps_sync [keeps_rules]: "keeps I sys_sync"
  by (auto intro!: keepsI spec_sync)

lemma keeps_unix_ms [keeps_rules]: "keeps I unix_ms"
  by (auto intro!: keepsI spec_unix_ms)

lemma keeps_current_boot_id [keeps_rules]: "keeps I current_boot_id"
  by (auto intro!: keepsI spec_current_boot_id)

lemma keeps_open_create [keeps_rules]: "ignores I f \<Longrightarrow> \<not> is_tmp f \<Longrightarrow> keeps I (sys_open_create f)"
  by (auto intro!: keepsI spec_open_create dest: ignoresD)

lemma keeps_create_new [keeps_rules]: "ignores I f \<Longrightarrow> \<not> is_tmp f \<Longrightarrow> keeps I (sys_create_new f)"
  by (auto intro!: keepsI spec_create_new dest: ignoresD)

lemma keeps_unlink [keeps_rules]: "ignores I f \<Longrightarrow> \<not> is_tmp f \<Longrightarrow> keeps I (sys_unlink f)"
  by (auto intro!: keepsI spec_unlink dest: ignoresD)

lemma keeps_write [keeps_rules]: "ignores I f \<Longrightarrow> \<not> is_tmp f \<Longrightarrow> keeps I (sys_write f c)"
  unfolding sys_write_def by (auto intro!: keepsI spec_sys spec_set_file dest: ignoresD)

text \<open>From an invariant to a postcondition, when the operation is used inside a larger proof.\<close>

lemma keeps_spec:
  "keeps I m \<Longrightarrow> I s \<Longrightarrow> (\<And>a t. I t \<Longrightarrow> Q a t) \<Longrightarrow> (\<And>e t. I t \<Longrightarrow> E e t) \<Longrightarrow> (\<And>t. I t \<Longrightarrow> H t) \<Longrightarrow> spec m s Q E H"
  by (erule (1) spec_mono [OF keepsD]) auto

lemma spec_conj:
  assumes "spec m s Q E H" and "spec m s Q' E' H'"
  shows "spec m s (\<lambda>a t. Q a t \<and> Q' a t) (\<lambda>e t. E e t \<and> E' e t) (\<lambda>t. H t \<and> H' t)"
  unfolding spec_def
proof (intro allI impI)
  fix w assume "view_of w = s"
  with assms have "case m w of (Done a, w') \<Rightarrow> Q a (view_of w') | (Raise e, w') \<Rightarrow> E e (view_of w') | (Halted, w') \<Rightarrow> H (view_of w')"
    "case m w of (Done a, w') \<Rightarrow> Q' a (view_of w') | (Raise e, w') \<Rightarrow> E' e (view_of w') | (Halted, w') \<Rightarrow> H' (view_of w')"
    by (simp_all add: spec_def)
  then show "case m w of (Done a, w') \<Rightarrow> Q a (view_of w') \<and> Q' a (view_of w')
      | (Raise e, w') \<Rightarrow> E e (view_of w') \<and> E' e (view_of w') | (Halted, w') \<Rightarrow> H (view_of w') \<and> H' (view_of w')"
    by (cases "m w"; cases "fst (m w)") auto
qed

lemma keeps_conj: "keeps I m \<Longrightarrow> keeps J m \<Longrightarrow> keeps (\<lambda>s. I s \<and> J s) m"
  by (rule keepsI, elim conjE, rule spec_mono [OF spec_conj [OF keepsD keepsD]])

lemma keeps_const: "keeps (\<lambda>_. c) m"
  by (auto simp: keeps_def spec_def split: prod.split outcome.split)

lemma keeps_disj: "keeps I m \<Longrightarrow> keeps (\<lambda>s. c \<or> I s) m"
  by (cases c) (simp_all add: keeps_const)

subsection \<open>Keeping an invariant and returning a good value\<close>

definition gives :: "(view \<Rightarrow> bool) \<Rightarrow> ('a \<Rightarrow> bool) \<Rightarrow> 'a io \<Rightarrow> bool" where
  "gives I P m \<longleftrightarrow> (\<forall>s. I s \<longrightarrow> spec m s (\<lambda>a t. I t \<and> P a) (\<lambda>_. I) I)"

lemma givesD: "gives I P m \<Longrightarrow> I s \<Longrightarrow> spec m s (\<lambda>a t. I t \<and> P a) (\<lambda>_. I) I"
  by (simp add: gives_def)

lemma givesI: "(\<And>s. I s \<Longrightarrow> spec m s (\<lambda>a t. I t \<and> P a) (\<lambda>_. I) I) \<Longrightarrow> gives I P m"
  by (simp add: gives_def)

lemma gives_keeps: "gives I P m \<Longrightarrow> keeps I m"
  by (rule keepsI, drule (1) givesD, erule spec_mono) auto

lemma keeps_gives: "keeps I m \<Longrightarrow> (\<And>a. P a) \<Longrightarrow> gives I P m"
  by (rule givesI, drule (1) keepsD, erule spec_mono) auto

lemma gives_ret: "P a \<Longrightarrow> gives I P (ret a)"
  by (auto intro!: givesI spec_ret)

lemma gives_raise: "gives I P (raise e)"
  by (auto intro!: givesI spec_raise)

lemma gives_bind:
  assumes "gives I P m" and "\<And>a. P a \<Longrightarrow> gives I R (f a)"
  shows "gives I R (bind m f)"
  by (rule givesI, rule spec_bind, rule spec_mono [OF givesD [OF assms(1)]]) (auto intro: givesD [OF assms(2)])

lemma gives_bind_keeps:
  assumes "keeps I m" and "\<And>a. gives I R (f a)"
  shows "gives I R (bind m f)"
  using keeps_gives [OF assms(1), of "\<lambda>_. True"] assms(2) by (auto intro: gives_bind)

lemma keeps_bind_gives:
  assumes "gives I P m" and "\<And>a. P a \<Longrightarrow> keeps I (f a)"
  shows "keeps I (bind m f)"
  by (rule keepsI, rule spec_bind, rule spec_mono [OF givesD [OF assms(1)]]) (auto intro: keepsD [OF assms(2)])

lemma gives_if: "(b \<Longrightarrow> gives I P m) \<Longrightarrow> (\<not> b \<Longrightarrow> gives I P n) \<Longrightarrow> gives I P (if b then m else n)"
  by simp

end
