(* ===== verification/Handle_Store.thy ===== *)
theory Handle_Store
  imports Effects
begin

section \<open>Durable operations of a handle directory\<close>

text \<open>
  The I/O of \<^verbatim>\<open>src/src/state.rs\<close>: locks, the atomic write, create-once markers, physical and
  external-transfer custody, the delivery-mode and activation files, metadata and return
  code. Each definition makes the system calls of its source in the same order, with the
  source's early returns.
\<close>

subsection \<open>Locks\<close>

text \<open>
  \<^verbatim>\<open>lock_file_exclusive\<close> retries an interrupted \<^verbatim>\<open>flock\<close>. \<open>patience\<close> bounds the retries: a
  wait that is interrupted for ever is one that never returns, \<open>Halted\<close>. A lock attempt
  that would block fails with \<open>WouldBlock\<close>, by the environment's schedule.
\<close>

fun flock_wait :: "nat \<Rightarrow> unit io" where
  "flock_wait 0 w = (Halted, w)"
| "flock_wait (Suc n) w =
     handle_err sys_sync (\<lambda>e. if kind e = Interrupted then flock_wait n else raise e) ret w"

definition lock_file_exclusive :: "unit io" where
  "lock_file_exclusive w = flock_wait (patience (env w)) w"

definition lock_reconciliation :: "unit io" where
  "lock_reconciliation = seq (sys_open_create (F ReconciliationLock)) lock_file_exclusive"

definition lock_output :: "unit io" where
  "lock_output = seq (sys_open_create (F OutputLock)) lock_file_exclusive"

definition lock_delivery :: "unit io" where
  "lock_delivery = seq (sys_open_create (F DeliveryLock)) lock_file_exclusive"

definition lock_completion :: "unit io" where
  "lock_completion = seq (sys_open_create (F CompletionLock)) lock_file_exclusive"

definition try_lock_completion :: "bool io" where
  "try_lock_completion =
     seq (sys_open_create (F CompletionLock))
       (handle_err sys_sync (\<lambda>e. if kind e = WouldBlock then ret False else raise e) (\<lambda>_. ret True))"

fun try_flock :: "nat \<Rightarrow> bool io" where
  "try_flock 0 w = (Halted, w)"
| "try_flock (Suc n) w =
     handle_err sys_sync
       (\<lambda>e. if kind e = Interrupted then try_flock n
            else if kind e = WouldBlock then ret False else raise e)
       (\<lambda>_. ret True) w"

definition try_lock_file :: "fname \<Rightarrow> bool io" where
  "try_lock_file f = seq (sys_open_create f) (\<lambda>w. try_flock (patience (env w)) w)"

definition try_lock_delivery :: "bool io" where
  "try_lock_delivery = try_lock_file (F DeliveryLock)"

definition try_lock_reconciliation :: "bool io" where
  "try_lock_reconciliation = try_lock_file (F ReconciliationLock)"

text \<open>
  \<^verbatim>\<open>lock_custody\<close> polls for 250 ms and then reports that the lock is busy; the environment's
  clock gives the time of each poll.
\<close>

fun custody_poll :: "nat \<Rightarrow> nat \<Rightarrow> unit io" where
  "custody_poll 0 deadline w = (Halted, w)"
| "custody_poll (Suc n) deadline w =
     handle_err sys_sync
       (\<lambda>e. if kind e \<noteq> WouldBlock \<and> kind e \<noteq> Interrupted then raise e
            else bind (ask (\<lambda>en t. clock en t))
              (\<lambda>now. if now \<ge> deadline
                     then raise (io_new WouldBlock ''custody serialization busy; retry'')
                     else custody_poll n deadline))
       ret w"

definition lock_custody :: "unit io" where
  "lock_custody =
     seq (sys_open_create (F CustodyLock))
       (bind (ask (\<lambda>en t. clock en t))
          (\<lambda>t0 w. custody_poll (patience (env w)) (t0 + 250) w))"

subsection \<open>Reading files\<close>

text \<open>
  The names of a handle's directory, which only this user can write and in which the program makes no
  symbolic link. The source reads some of them with \<^verbatim>\<open>fs::read_to_string\<close>, which would follow a link put
  there by hand; what lies outside the directory is not part of the model, and reading such a link fails.
\<close>

definition text_of :: "content \<Rightarrow> string io" where
  "text_of c = (case c of Text t \<Rightarrow> ret t | _ \<Rightarrow> raise (io_invalid ''stream did not contain valid UTF-8''))"

definition read_file_text :: "fname \<Rightarrow> string io" where
  "read_file_text f = bind (sys_open_read f) (\<lambda>c. sys (text_of c))"

definition read_meta :: "meta io" where
  "read_meta =
     bind (sys_open_read (F MetaFile))
       (\<lambda>c. sys (case c of Doc m \<Rightarrow> ret m | _ \<Rightarrow> raise (io_other ''invalid metadata document'')))"

definition read_owner :: "owner_meta io" where
  "read_owner =
     bind (sys_open_read (F Owner))
       (\<lambda>c. sys (case c of OwnerDoc m \<Rightarrow> ret m | _ \<Rightarrow> raise (io_other ''invalid owner document'')))"

definition read_rc :: "int io" where
  "read_rc =
     bind (read_file_text (F Rc))
       (\<lambda>t. case parse_rc_text t of Some r \<Rightarrow> ret r | None \<Rightarrow> raise (io_other ''invalid digit found in string''))"

definition read_delivery_mode :: "delivery_mode io" where
  "read_delivery_mode =
     handle_err (read_file_text (F DeliveryModeFile))
       (\<lambda>e. if kind e = NotFound then ret Async else raise e)
       (\<lambda>t. case parse_delivery_mode t of
              Some m \<Rightarrow> ret m | None \<Rightarrow> raise (io_invalid ''invalid delivery mode''))"

subsection \<open>The atomic write\<close>

definition atomic_temp_path :: "fname \<Rightarrow> fname io" where
  "atomic_temp_path f w =
     (Done (Tmp f (self_pid (env w)) (temp_counter w)), w\<lparr>temp_counter := Suc (temp_counter w)\<rparr>)"

definition atomic_write :: "fname \<Rightarrow> content \<Rightarrow> unit io" where
  "atomic_write f c =
     bind (atomic_temp_path f) (\<lambda>tmp.
       seq (sys_create_new tmp)
      (seq (sys_write tmp c)
      (seq sys_sync
      (seq (sys_rename tmp f)
      (seq sys_open_dir sys_sync)))))"

definition write_meta_atomic :: "meta \<Rightarrow> unit io" where
  "write_meta_atomic m =
     handle_err read_delivery_mode
       (\<lambda>_. atomic_write (F MetaFile) (Doc m))
       (\<lambda>d. atomic_write (F MetaFile) (Doc (m\<lparr>delivery_mode := d\<rparr>)))"

definition write_owner_atomic :: "owner_meta \<Rightarrow> unit io" where
  "write_owner_atomic om = atomic_write (F Owner) (OwnerDoc om)"

definition write_delivery_mode_atomic :: "delivery_mode \<Rightarrow> unit io" where
  "write_delivery_mode_atomic d = atomic_write (F DeliveryModeFile) (Text (delivery_mode_as_str d))"

definition write_rc_atomic :: "int \<Rightarrow> unit io" where
  "write_rc_atomic r = atomic_write (F Rc) (Text (format_rc_bytes r))"

subsection \<open>Create-once markers\<close>

definition durable_marker_exists :: "fname \<Rightarrow> bool io" where
  "durable_marker_exists f =
     handle_err (sys_lstat f)
       (\<lambda>e. if kind e = NotFound then ret False else raise e)
       (\<lambda>n. case n of Regular _ \<Rightarrow> ret True
                    | _ \<Rightarrow> raise (io_invalid ''durable marker is not a regular file''))"

definition rollback_created_marker :: "fname \<Rightarrow> unit io" where
  "rollback_created_marker f =
     handle_err (sys_unlink f) (\<lambda>e. if kind e = NotFound then ret () else raise e) (\<lambda>_. sys_sync)"

definition record_durable_create_once_marker :: "fname \<Rightarrow> bool io" where
  "record_durable_create_once_marker f =
     seq sys_open_dir
       (handle_err (sys_create_new f)
          (\<lambda>e. if kind e = AlreadyExists then ret False else raise e)
          (\<lambda>_. handle_err (seq sys_sync sys_sync)
             (\<lambda>publication.
                handle_err (rollback_created_marker f)
                  (\<lambda>rollback. raise (io_new (kind publication)
                     (''failed to publish durable marker: '' @ to_string publication @
                      ''; rollback failed: '' @ to_string rollback)))
                  (\<lambda>_. raise publication))
             (\<lambda>_. ret True)))"

definition record_explicit_cancel_acceptance :: "bool io" where
  "record_explicit_cancel_acceptance = record_durable_create_once_marker (F AcceptedCancel)"

definition record_cancellation_drained :: "unit io" where
  "record_cancellation_drained =
     bind (record_durable_create_once_marker (F CancellationDrained)) (\<lambda>_. ret ())"

definition record_activation_attempt :: "bool io" where
  "record_activation_attempt = record_durable_create_once_marker (F ActivationAttempted)"

definition rollback_activation_attempt :: "unit io" where
  "rollback_activation_attempt =
     seq sys_open_dir (rollback_created_marker (F ActivationAttempted))"

definition explicit_cancel_accepted :: "bool io" where
  "explicit_cancel_accepted = durable_marker_exists (F AcceptedCancel)"

subsection \<open>Physical and external-transfer custody\<close>

definition boot_custody_may_remain :: "fname \<Rightarrow> string \<Rightarrow> bool io" where
  "boot_custody_may_remain f b =
     handle_err (read_file_text f)
       (\<lambda>e. ret (boot_text_may_remain (Inl e) b)) (\<lambda>r. ret (boot_text_may_remain (Inr r) b))"

definition physical_custody_may_remain :: "string \<Rightarrow> bool io" where
  "physical_custody_may_remain b =
     bind (boot_custody_may_remain (F PhysicalCustody) b)
       (\<lambda>r. if r then ret True else boot_custody_may_remain (F ExternalTransferCustody) b)"

definition begin_physical_custody :: "unit io" where
  "begin_physical_custody = bind current_boot_id (\<lambda>b. atomic_write (F PhysicalCustody) (Text b))"

definition accept_terminal_custody_cancel :: "bool io" where
  "accept_terminal_custody_cancel =
     seq lock_custody
       (handle_err (read_file_text (F PhysicalCustody))
          (\<lambda>e. if kind e = NotFound then ret False else raise e)
          (\<lambda>recorded.
             bind current_boot_id (\<lambda>b.
               if \<not> valid_boot_id recorded \<or> \<not> valid_boot_id b
               then raise (io_other ''physical custody boot identity unavailable'')
               else if recorded \<noteq> b then ret False
               else bind (durable_marker_exists (F CancellationDrained))
                 (\<lambda>drained. if drained then ret False else record_explicit_cancel_acceptance))))"

definition end_physical_custody :: "unit io" where
  "end_physical_custody =
     handle_err lock_custody
       (\<lambda>e. if kind e = NotFound then ret () else raise e)
       (\<lambda>_. bind (durable_marker_exists (F AcceptedCancel))
          (\<lambda>accepted. seq (if accepted then record_cancellation_drained else ret ())
             (seq sys_open_dir (rollback_created_marker (F PhysicalCustody)))))"

definition begin_external_transfer_custody :: "bool io" where
  "begin_external_transfer_custody =
     bind current_boot_id (\<lambda>b.
       bind (durable_marker_exists (F ExternalTransferCustody)) (\<lambda>exists.
         bind (if exists then boot_custody_may_remain (F ExternalTransferCustody) b else ret False)
           (\<lambda>remains. if remains then ret False
              else seq (atomic_write (F ExternalTransferCustody) (Text b)) (ret True))))"

definition end_external_transfer_custody :: "unit io" where
  "end_external_transfer_custody =
     handle_err sys_open_dir
       (\<lambda>e. raise (io_other (''open custody directory before unlink: '' @ to_string e)))
       (\<lambda>_. handle_err (sys_unlink (F ExternalTransferCustody))
          (\<lambda>e. if kind e = NotFound then ret ()
               else raise (io_other (''custody marker unlink failed: '' @ to_string e)))
          (\<lambda>_. handle_err sys_sync
             (\<lambda>e. raise (io_other (''custody marker unlinked; directory sync failed; crash durability uncertain: ''
                @ to_string e)))
             ret))"

text \<open>\<^verbatim>\<open>chars().take(n)\<close> on UTF-8 bytes: a byte outside \<^verbatim>\<open>0x80..0xBF\<close> starts a character.\<close>

fun take_chars :: "nat \<Rightarrow> string \<Rightarrow> string" where
  "take_chars n [] = []"
| "take_chars n (c # cs) =
     (if 128 \<le> (of_char c :: nat) \<and> (of_char c :: nat) < 192 then c # take_chars n cs
      else (case n of 0 \<Rightarrow> [] | Suc k \<Rightarrow> c # take_chars k cs))"

definition cleanup_error_file :: fname where
  "cleanup_error_file = Extra ''external-transfer-cleanup-error''"

definition record_external_custody_cleanup_error :: "io_error \<Rightarrow> unit io" where
  "record_external_custody_cleanup_error err =
     seq (sys_open_create cleanup_error_file)
    (seq (sys_write cleanup_error_file (Text (''external custody cleanup failed; helper result unchanged: ''
            @ take_chars 512 (to_string err) @ newline)))
    (seq sys_sync (seq sys_open_dir sys_sync)))"

subsection \<open>Activation files\<close>

definition write_activation_outcome :: "string \<Rightarrow> unit io" where
  "write_activation_outcome t = atomic_write (F ActivationOutcome) (Text t)"

definition read_activation_outcome :: "string option io" where
  "read_activation_outcome =
     handle_err (read_file_text (F ActivationOutcome))
       (\<lambda>e. if kind e = NotFound then ret None else raise e) (\<lambda>t. ret (Some t))"

definition write_activation_pending :: "unit io" where
  "write_activation_pending = write_activation_outcome ACTIVATION_PENDING"

definition write_activation_succeeded :: "unit io" where
  "write_activation_succeeded = write_activation_outcome ACTIVATION_SUCCEEDED"

definition write_activation_failed :: "string \<Rightarrow> unit io" where
  "write_activation_failed err = write_activation_outcome (activation_failed_text err)"

definition write_activation_pre_admission_failed :: "string \<Rightarrow> unit io" where
  "write_activation_pre_admission_failed err =
     write_activation_outcome (activation_pre_admission_failed_text err)"

definition write_activation_transfer_outcome_unknown :: "unit io" where
  "write_activation_transfer_outcome_unknown =
     write_activation_outcome ACTIVATION_TRANSFER_OUTCOME_UNKNOWN"

definition activation_transfer_state :: "activation_state io" where
  "activation_transfer_state =
     bind read_delivery_mode (\<lambda>mode.
       bind read_activation_outcome (\<lambda>text.
         bind (if text = None then durable_marker_exists (F ActivationAttempted) else ret False)
           (\<lambda>claimed. ret \<lparr>act_mode = mode, act_outcome = parse_activation_outcome text claimed\<rparr>)))"

definition remove_activation_outcome :: "unit io" where
  "remove_activation_outcome =
     handle_err (sys_unlink (F ActivationOutcome))
       (\<lambda>e. if kind e = NotFound then ret () else raise e)
       (\<lambda>_. seq sys_open_dir sys_sync)"

subsection \<open>Rules of the store operations\<close>

abbreviation put :: "fname \<Rightarrow> node option \<Rightarrow> view \<Rightarrow> view" where
  "put f n s \<equiv> s\<lparr>vfiles := (vfiles s)(f := n)\<rparr>"

lemma spec_halt: "H s \<Longrightarrow> spec (\<lambda>w. (Halted, w)) s Q E H"
  by (simp add: spec_def)

lemma spec_patience: "(\<And>n. spec (m n) s Q E H) \<Longrightarrow> spec (\<lambda>w. m (patience (env w)) w) s Q E H"
  by (simp add: spec_def)

lemma spec_flock_wait: "Q () s \<Longrightarrow> (\<And>e. hard e \<Longrightarrow> E e s) \<Longrightarrow> H s \<Longrightarrow> spec (flock_wait n) s Q E H"
proof (induction n)
  case 0
  then show ?case by (simp add: spec_def)
next
  case (Suc n)
  then show ?case
    unfolding flock_wait.simps(2) [abs_def]
    by (intro spec_handle_err spec_sync spec_if spec_ret spec_raise) auto
qed

lemma spec_try_flock:
  "Q True s \<Longrightarrow> Q False s \<Longrightarrow> (\<And>e. hard e \<Longrightarrow> E e s) \<Longrightarrow> H s \<Longrightarrow> spec (try_flock n) s Q E H"
proof (induction n)
  case 0
  then show ?case by (simp add: spec_def)
next
  case (Suc n)
  then show ?case
    unfolding try_flock.simps(2) [abs_def]
    by (intro spec_handle_err spec_sync spec_if spec_ret spec_raise) auto
qed

lemma spec_custody_poll:
  "Q () s \<Longrightarrow> (\<And>e. hard e \<Longrightarrow> E e s) \<Longrightarrow> H s \<Longrightarrow> spec (custody_poll n d) s Q E H"
proof (induction n)
  case 0
  then show ?case by (simp add: spec_def)
next
  case (Suc n)
  have "hard (io_new WouldBlock m)" for m by (simp add: hard_def io_new_def)
  with Suc show ?case
    unfolding custody_poll.simps(2) [abs_def]
    by (intro spec_handle_err spec_sync spec_if spec_ret spec_raise spec_bind spec_ask) auto
qed

text \<open>Lock files appear, nothing else changes; a missing directory is reported.\<close>

definition lock_opened :: "fname \<Rightarrow> view \<Rightarrow> view" where
  "lock_opened f s = (if vfiles s f = None then put f (Some (Regular (Text []))) s else s)"

lemma spec_lock:
  assumes "\<not> is_tmp f" and "vdir s \<Longrightarrow> Q () (lock_opened f s)" and "\<not> vdir s \<Longrightarrow> E err_not_found s"
    and "\<And>e. hard e \<Longrightarrow> E e s \<and> E e (lock_opened f s)" and "H s" and "H (lock_opened f s)"
  shows "spec (seq (sys_open_create f) lock_file_exclusive) s Q E H"
proof -
  have "spec lock_file_exclusive t Q E H"
    if "Q () t" "\<And>e. hard e \<Longrightarrow> E e t" "H t" for t
    unfolding lock_file_exclusive_def [abs_def]
    by (rule spec_patience) (intro spec_flock_wait that)
  then show ?thesis
    by (intro spec_bind spec_open_create) (use assms in \<open>auto simp: lock_opened_def split: if_splits\<close>)
qed

lemmas spec_lock_completion = spec_lock [of "F CompletionLock", folded lock_completion_def, simplified]
lemmas spec_lock_delivery = spec_lock [of "F DeliveryLock", folded lock_delivery_def, simplified]
lemmas spec_lock_reconciliation =
  spec_lock [of "F ReconciliationLock", folded lock_reconciliation_def, simplified]

lemma spec_try_flock_patience:
  "Q True s \<Longrightarrow> Q False s \<Longrightarrow> (\<And>e. hard e \<Longrightarrow> E e s) \<Longrightarrow> H s \<Longrightarrow>
     spec (\<lambda>w. try_flock (patience (env w)) w) s Q E H"
  by (rule spec_patience) (rule spec_try_flock)

lemma spec_custody_poll_patience:
  "Q () s \<Longrightarrow> (\<And>e. hard e \<Longrightarrow> E e s) \<Longrightarrow> H s \<Longrightarrow>
     spec (\<lambda>w. custody_poll (patience (env w)) d w) s Q E H"
  by (rule spec_patience [where m = "\<lambda>n. custody_poll n d"]) (rule spec_custody_poll)

lemma spec_try_lock:
  assumes "\<not> is_tmp f" and "vdir s \<Longrightarrow> Q True (lock_opened f s) \<and> Q False (lock_opened f s)"
    and "\<not> vdir s \<Longrightarrow> E err_not_found s"
    and "\<And>e. hard e \<Longrightarrow> E e s \<and> E e (lock_opened f s)" and "H s" and "H (lock_opened f s)"
  shows "spec (try_lock_file f) s Q E H"
  unfolding try_lock_file_def
  by (intro spec_bind spec_open_create spec_try_flock_patience)
    (use assms in \<open>auto simp: lock_opened_def split: if_splits\<close>)

lemma spec_lock_custody:
  assumes "vdir s \<Longrightarrow> Q () (lock_opened (F CustodyLock) s)" and "\<not> vdir s \<Longrightarrow> E err_not_found s"
    and "\<And>e. hard e \<Longrightarrow> E e s \<and> E e (lock_opened (F CustodyLock) s)" and "H s"
    and "H (lock_opened (F CustodyLock) s)"
  shows "spec lock_custody s Q E H"
  unfolding lock_custody_def
  by (intro spec_bind spec_open_create spec_ask spec_custody_poll_patience)
    (use assms in \<open>auto simp: lock_opened_def split: if_splits\<close>)

lemma lock_opened_other [simp]: "g \<noteq> f \<Longrightarrow> vfiles (lock_opened f s) g = vfiles s g"
  and lock_opened_fields [simp]: "vspawned (lock_opened f s) = vspawned s" "vdir (lock_opened f s) = vdir s"
  by (simp_all add: lock_opened_def)

subsection \<open>The atomic write, at the level of worlds\<close>

text \<open>
  The temporary file is invisible to \<^const>\<open>view_of\<close>, so this one operation is followed world by
  world: what the temporary holds when it is renamed decides what becomes visible.
\<close>

definition wrun :: "'a io \<Rightarrow> world \<Rightarrow> ('a outcome \<Rightarrow> world \<Rightarrow> bool) \<Rightarrow> bool" where
  "wrun m w P \<longleftrightarrow> (case m w of (r, w') \<Rightarrow> P r w')"

lemma wrun_bind:
  "wrun m w (\<lambda>r w'. case r of Done a \<Rightarrow> wrun (f a) w' P | Raise e \<Rightarrow> P (Raise e) w' | Halted \<Rightarrow> P Halted w')
   \<Longrightarrow> wrun (bind m f) w P"
  by (auto simp: wrun_def bind_def split: prod.splits outcome.splits)

lemma wrun_sys:
  "wrun m (next_tick w) P \<Longrightarrow> (\<And>e. P (Raise e) (next_tick w)) \<Longrightarrow> P Halted (next_tick w) \<Longrightarrow> wrun (sys m) w P"
  by (auto simp: wrun_def sys_def sys_by_def split: fault.splits)

lemma wrun_sync:
  "P (Done ()) (next_tick w) \<Longrightarrow> (\<And>e. P (Raise e) (next_tick w)) \<Longrightarrow> P Halted (next_tick w) \<Longrightarrow>
   wrun sys_sync w P"
  unfolding sys_sync_def by (rule wrun_sys) (auto simp: wrun_def ret_def)

lemma wrun_open_dir:
  "P (Done ()) (next_tick w) \<Longrightarrow> (\<And>e. P (Raise e) (next_tick w)) \<Longrightarrow> P Halted (next_tick w) \<Longrightarrow>
   wrun sys_open_dir w P"
  unfolding sys_open_dir_def by (rule wrun_sys) (auto simp: wrun_def ret_def in_dir_def)

lemma wrun_create_new:
  "P (Done ()) (next_tick w\<lparr>files := (files w)(f \<mapsto> Regular (Text []))\<rparr>) \<Longrightarrow>
   (\<And>e. P (Raise e) (next_tick w)) \<Longrightarrow> P Halted (next_tick w) \<Longrightarrow> wrun (sys_create_new f) w P"
  unfolding sys_create_new_def
  by (rule wrun_sys)
    (auto simp: wrun_def in_dir_def bind_def lookup_file_def set_file_def raise_def next_tick_def
      split: option.splits)

lemma wrun_write:
  "P (Done ()) (next_tick w\<lparr>files := (files w)(f \<mapsto> Regular c)\<rparr>) \<Longrightarrow>
   (\<And>e. P (Raise e) (next_tick w)) \<Longrightarrow> P Halted (next_tick w) \<Longrightarrow> wrun (sys_write f c) w P"
  unfolding sys_write_def
  by (rule wrun_sys) (auto simp: wrun_def set_file_def next_tick_def)

lemma wrun_rename:
  "files w a = Some n \<Longrightarrow> P (Done ()) (next_tick w\<lparr>files := (files w)(a := None, b \<mapsto> n)\<rparr>) \<Longrightarrow>
   (\<And>e. P (Raise e) (next_tick w)) \<Longrightarrow> P Halted (next_tick w) \<Longrightarrow> wrun (sys_rename a b) w P"
  unfolding sys_rename_def
  by (rule wrun_sys)
    (auto simp: wrun_def bind_def lookup_file_def set_file_def raise_def next_tick_def)

definition replaced :: "fname \<Rightarrow> content \<Rightarrow> world \<Rightarrow> 'a outcome \<Rightarrow> world \<Rightarrow> bool" where
  "replaced f c w0 r w \<longleftrightarrow>
     view_of w = put f (Some (Regular c)) (view_of w0) \<or> view_of w = view_of w0 \<and> (\<forall>a. r \<noteq> Done a)"

lemma wrun_atomic_write:
  assumes "\<not> is_tmp f"
  shows "wrun (atomic_write f c) w (replaced f c w)"
proof -
  have vis: "visible (m(Tmp f p n := x)) = visible m" "visible (m(f := x)) = (visible m)(f := x)"
    for m :: "fname \<rightharpoonup> node" and p n x
    using assms by (auto simp: visible_def fun_eq_iff)
  note view = replaced_def view_of_def next_tick_def vis
  have start: "wrun (atomic_temp_path f) w P"
    if "P (Done (Tmp f (self_pid (env w)) (temp_counter w))) (w\<lparr>temp_counter := Suc (temp_counter w)\<rparr>)" for P
    using that by (simp add: wrun_def atomic_temp_path_def)
  show ?thesis
    unfolding atomic_write_def
    apply (rule wrun_bind, rule start, simp)
    apply (rule wrun_bind, rule wrun_create_new; simp add: view)
    apply (rule wrun_bind, rule wrun_write; simp add: view)
    apply (rule wrun_bind, rule wrun_sync; simp add: view)
    apply (rule wrun_bind, rule wrun_rename, simp; simp add: view)
    apply (rule wrun_bind, rule wrun_open_dir; simp add: view)
    apply (rule wrun_sync; simp add: view)
    done
qed

lemma spec_atomic_write [wp_rules]:
  assumes "\<not> is_tmp f" and "Q () (put f (Some (Regular c)) s)"
    and "\<And>e. E e s" and "\<And>e. E e (put f (Some (Regular c)) s)"
    and "H s" and "H (put f (Some (Regular c)) s)"
  shows "spec (atomic_write f c) s Q E H"
  unfolding spec_def
proof (intro allI impI)
  fix w assume "view_of w = s"
  with wrun_atomic_write [OF assms(1), of c w] assms(2-)
  show "case atomic_write f c w of (Done a, w') \<Rightarrow> Q a (view_of w') | (Raise e, w') \<Rightarrow> E e (view_of w')
     | (Halted, w') \<Rightarrow> H (view_of w')"
    by (auto simp: wrun_def replaced_def split: prod.splits outcome.splits)
qed

subsection \<open>Rules of reads and markers\<close>

lemma hard_simps [simp]:
  "hard (io_other m)" "hard (io_invalid m)" "kind e \<noteq> NotFound \<Longrightarrow> kind e \<noteq> AlreadyExists \<Longrightarrow> hard e"
  "hard (io_new (kind e) m) \<longleftrightarrow> hard e"
  by (simp_all add: hard_def io_other_def io_invalid_def io_new_def)

lemma hardD: "hard e \<Longrightarrow> kind e \<noteq> NotFound" "hard e \<Longrightarrow> kind e \<noteq> AlreadyExists"
  by (simp_all add: hard_def)

lemma put_same: "vfiles s f = n \<Longrightarrow> put f n s = s"
  by (cases s) auto

lemma spec_read_file_text [wp_rules]:
  assumes "\<not> is_tmp f" and "\<And>t. vfiles s f = Some (Regular (Text t)) \<Longrightarrow> Q t s"
    and "vfiles s f = None \<Longrightarrow> E err_not_found s" and "\<And>e. hard e \<Longrightarrow> E e s" and "H s"
  shows "spec (read_file_text f) s Q E H"
  unfolding read_file_text_def text_of_def
  by (intro spec_bind spec_open_read spec_sys)
    (use assms in \<open>auto split: content.splits intro!: spec_raise spec_ret\<close>)

lemma spec_read_meta [wp_rules]:
  assumes "\<And>m. vfiles s (F MetaFile) = Some (Regular (Doc m)) \<Longrightarrow> Q m s"
    and "vfiles s (F MetaFile) = None \<Longrightarrow> E err_not_found s" and "\<And>e. hard e \<Longrightarrow> E e s" and "H s"
  shows "spec read_meta s Q E H"
  unfolding read_meta_def
  by (intro spec_bind spec_open_read spec_sys)
    (use assms in \<open>auto split: content.splits intro!: spec_raise spec_ret\<close>)

lemma spec_read_delivery_mode [wp_rules]:
  assumes "vfiles s (F DeliveryModeFile) = None \<Longrightarrow> Q Async s"
    and "\<And>t d. vfiles s (F DeliveryModeFile) = Some (Regular (Text t)) \<Longrightarrow> parse_delivery_mode t = Some d \<Longrightarrow> Q d s"
    and "\<And>e. hard e \<Longrightarrow> E e s" and "H s"
  shows "spec read_delivery_mode s Q E H"
  unfolding read_delivery_mode_def
  by (intro spec_handle_err spec_read_file_text)
    (use assms in \<open>auto dest: hardD split: option.splits intro!: spec_raise spec_ret\<close>)

lemma spec_durable_marker_exists [wp_rules]:
  assumes "\<not> is_tmp f" and "\<And>c. vfiles s f = Some (Regular c) \<Longrightarrow> Q True s"
    and "vfiles s f = None \<Longrightarrow> Q False s" and "\<And>e. hard e \<Longrightarrow> E e s" and "H s"
  shows "spec (durable_marker_exists f) s Q E H"
  unfolding durable_marker_exists_def
  by (intro spec_handle_err spec_lstat)
    (use assms in \<open>auto dest: hardD split: node.splits intro!: spec_raise spec_ret\<close>)

lemma spec_rollback [wp_rules]:
  assumes "\<not> is_tmp f" and "Q () (put f None s)"
    and "\<And>e. hard e \<Longrightarrow> E e s" and "\<And>e. hard e \<Longrightarrow> E e (put f None s)"
    and "H s" and "H (put f None s)"
  shows "spec (rollback_created_marker f) s Q E H"
proof -
  have "vfiles s f = None \<Longrightarrow> Q () s" using assms(2) put_same [of s f None] by simp
  then show ?thesis
    unfolding rollback_created_marker_def
    by (intro spec_handle_err spec_unlink spec_sync)
      (use assms in \<open>auto dest: hardD intro!: spec_raise spec_ret\<close>)
qed

lemma spec_record_marker [wp_rules]:
  assumes "\<not> is_tmp f"
    and "vfiles s f = None \<Longrightarrow> Q True (put f (Some (Regular (Text []))) s)"
    and "\<And>n. vfiles s f = Some n \<Longrightarrow> Q False s"
    and "\<not> vdir s \<Longrightarrow> E err_not_found s" and "\<And>e. hard e \<Longrightarrow> E e s"
    and "\<And>e. hard e \<Longrightarrow> vfiles s f = None \<Longrightarrow> E e (put f (Some (Regular (Text []))) s)"
    and "H s" and "vfiles s f = None \<Longrightarrow> H (put f (Some (Regular (Text []))) s)"
  shows "spec (record_durable_create_once_marker f) s Q E H"
proof -
  have "vfiles s f = None \<Longrightarrow> put f None (put f (Some (Regular (Text []))) s) = s"
    using put_same [of s f None] by simp
  then show ?thesis
    unfolding record_durable_create_once_marker_def
    by (intro spec_bind spec_open_dir spec_handle_err spec_create_new spec_sync spec_rollback)
      (use assms in \<open>auto dest: hardD intro!: spec_raise spec_ret spec_bind spec_sync\<close>)
qed

subsection \<open>Properties\<close>

text \<open>
  C35. The atomic write is all or nothing under every placement of I/O errors and process
  death: the target keeps its old node or holds exactly the new content, success means the new
  content, and no other file of the handle directory changes except temporaries.
\<close>

theorem atomic_write_all_or_nothing:
  assumes "\<not> is_tmp f" and "atomic_write f c w = (r, w')"
  shows "(files w' f = files w f \<or> files w' f = Some (Regular c)) \<and>
     (\<forall>a. r = Done a \<longrightarrow> files w' f = Some (Regular c)) \<and>
     (\<forall>g. \<not> is_tmp g \<and> g \<noteq> f \<longrightarrow> files w' g = files w g) \<and> spawned w' = spawned w"
proof -
  have "replaced f c w r w'" using wrun_atomic_write [OF assms(1), of c w] assms(2) by (simp add: wrun_def)
  then have eq: "view_of w' = put f (Some (Regular c)) (view_of w) \<or> view_of w' = view_of w \<and> (\<forall>a. r \<noteq> Done a)"
    by (simp add: replaced_def)
  have vis: "files w' g = vfiles (view_of w') g" "files w g = vfiles (view_of w) g" if "\<not> is_tmp g" for g
    using that by (simp_all add: view_files)
  have "spawned w' = spawned w" using eq by (auto simp: view_spawned [symmetric])
  with eq assms(1) show ?thesis by (auto simp: vis)
qed

definition quiet_answer :: loop_answer where
  "quiet_answer =
     \<lparr>ready_keys = Inr [], descriptor_read = Inr [], control_read = Inr [], log_error = None, control_error = None,
      waitable = Inl \<lparr>kind = OtherKind, raw_os_error = Some 10, to_string = ''No child processes''\<rparr>, only_child = False,
      image_error = None, usr1_seen = False, forked_pid = 200, missing_recorded = False, role_pending = False, child_wait = Inr 0\<rparr>"

definition quiet_env :: environment where
  "quiet_env =
     \<lparr>faults = (\<lambda>_. Proceed), lookup_faults = (\<lambda>_. Proceed), clock = (\<lambda>t. t), boot_file = (\<lambda>_. Inl (io_other [])),
      stat_files = (\<lambda>_ _. Inl (io_other [])), helper_verdict = (\<lambda>_. None),
      helper_answer = (\<lambda>_. Exits 0 [] []), v2_answer = (\<lambda>_. Inr False),
      pidfd_answer = (\<lambda>_. (Inr (), Live, Inr 0)), wake_answer = (\<lambda>_. Inr ()),
      loop_answers = (\<lambda>_. quiet_answer),
      socket_answers = (\<lambda>_. \<lparr>sock_error = None, peer_creds = None, bytes_taken = 0, sock_read = Inr []\<rparr>), patience = 1, self_pid = 100\<rparr>"

definition quiet_world :: world where
  "quiet_world = \<lparr>env = quiet_env, tick = 0, temp_counter = 0, dir_exists = True, files = Map.empty, spawned = [], wire = [], heard = []\<rparr>"

text \<open>The same world with one system call, the \<open>n\<close>-th, failing.\<close>

definition faulty_world :: "nat \<Rightarrow> fault \<Rightarrow> world" where
  "faulty_world n flt = quiet_world\<lparr>env := quiet_env\<lparr>faults := (\<lambda>t. if t = n then flt else Proceed)\<rparr>\<rparr>"

lemmas run_simps =
  atomic_write_def atomic_temp_path_def bind_def handle_err_def ret_def raise_def sys_def sys_by_def next_tick_def
  sys_create_new_def sys_write_def sys_sync_def sys_rename_def sys_open_dir_def in_dir_def
  set_file_def lookup_file_def quiet_world_def quiet_env_def faulty_world_def

theorem atomic_write_all_or_nothing_witness:
  "snd (atomic_write (F Rc) (Text ''0'') (faulty_world 4 Stop)) \<noteq> faulty_world 4 Stop \<and>
   files (snd (atomic_write (F Rc) (Text ''0'') (faulty_world 4 Stop))) (F Log) = None"
proof -
  let ?x = "atomic_write (F Rc) (Text ''0'') (faulty_world 4 Stop)"
  have "\<forall>g. \<not> is_tmp g \<and> g \<noteq> F Rc \<longrightarrow> files (snd ?x) g = files (faulty_world 4 Stop) g"
    using atomic_write_all_or_nothing [of "F Rc" "Text ''0''" "faulty_world 4 Stop" "fst ?x" "snd ?x"]
    by simp
  then have "files (snd ?x) (F Log) = None" by (simp add: faulty_world_def quiet_world_def)
  moreover have "tick (snd ?x) = 5" by (simp add: run_simps)
  then have "snd ?x \<noteq> faulty_world 4 Stop" by (auto simp: faulty_world_def quiet_world_def)
  ultimately show ?thesis by simp
qed

text \<open>
  A create-once marker is claimed by at most one caller: an attempt reports \<open>True\<close> only if
  the marker was absent and is now present, reports \<open>False\<close> only if it was there already and
  changes nothing, and a failed or interrupted attempt never removes a marker that was there.
\<close>

theorem create_once_marker_exclusive:
  assumes "\<not> is_tmp f" and "record_durable_create_once_marker f w = (r, w')"
  shows "(r = Done True \<longrightarrow> files w f = None \<and> files w' f = Some (Regular (Text []))) \<and>
     (r = Done False \<longrightarrow> files w f \<noteq> None \<and> files w' f = files w f) \<and>
     (files w f \<noteq> None \<longrightarrow> files w' f = files w f)"
proof -
  let ?new = "put f (Some (Regular (Text []))) (view_of w)"
  have "spec (record_durable_create_once_marker f) (view_of w)
     (\<lambda>b t. if b then vfiles (view_of w) f = None \<and> t = ?new
           else vfiles (view_of w) f \<noteq> None \<and> t = view_of w)
     (\<lambda>_ t. t = view_of w \<or> vfiles (view_of w) f = None)
     (\<lambda>t. t = view_of w \<or> vfiles (view_of w) f = None)"
    by (rule spec_record_marker) (use assms(1) in auto)
  note run = spec_run [OF this]
  have vis: "files v f = vfiles (view_of v) f" for v using assms(1) by (simp add: view_files)
  show ?thesis
  proof (cases r)
    case (Done b)
    with assms(2) run(1) [of b w'] show ?thesis by (cases b) (auto simp: vis)
  next
    case (Raise e)
    with assms(2) run(2) [of e w'] show ?thesis by (auto simp: vis)
  next
    case Halted
    with assms(2) run(3) [of w'] show ?thesis by (auto simp: vis)
  qed
qed

theorem create_once_marker_exclusive_witness:
  "fst (record_durable_create_once_marker (F AcceptedCancel) quiet_world) = Done True \<and>
   files (snd (record_durable_create_once_marker (F AcceptedCancel) quiet_world)) (F AcceptedCancel)
     = Some (Regular (Text []))"
proof -
  let ?x = "record_durable_create_once_marker (F AcceptedCancel) quiet_world"
  have ok: "fst ?x = Done True" by (simp add: record_durable_create_once_marker_def run_simps)
  then have "?x = (Done True, snd ?x)" by (metis prod.collapse)
  then show ?thesis
    using ok create_once_marker_exclusive [of "F AcceptedCancel" quiet_world "Done True" "snd ?x"]
    by simp
qed

lemma view_env [simp]:
  "view_of (w\<lparr>env := en, tick := n\<rparr>) = view_of w\<lparr>vlookup := lookups_reliable en\<rparr>"
  by (simp add: view_of_def)

text \<open>Discharged custody: the custody file is gone and the acceptance file is as \<open>a\<close> says.\<close>

definition custody_closed :: "node option \<Rightarrow> view \<Rightarrow> bool" where
  "custody_closed a s \<longleftrightarrow> vdir s \<and> vfiles s (F PhysicalCustody) = None \<and> vfiles s (F AcceptedCancel) = a"

lemma keeps_admit_discharged: "keeps (custody_closed a) accept_terminal_custody_cancel"
  unfolding accept_terminal_custody_cancel_def
  by (rule keepsI, intro spec_bind spec_lock_custody spec_handle_err spec_read_file_text)
    (auto simp: custody_closed_def dest: hardD intro!: spec_ret spec_raise)

lemma keeps_end_discharged: "keeps (custody_closed a) end_physical_custody"
  unfolding end_physical_custody_def record_cancellation_drained_def
  by (rule keepsI, intro spec_bind spec_handle_err spec_lock_custody spec_durable_marker_exists spec_if
      spec_record_marker spec_open_dir spec_rollback spec_ret spec_raise)
    (auto simp: custody_closed_def dest: hardD intro!: spec_raise spec_ret)

lemma spec_end_physical_custody:
  assumes "vdir s"
  shows "spec end_physical_custody s
     (\<lambda>_ t. custody_closed (vfiles s (F AcceptedCancel)) t \<and>
        (vfiles t (F AcceptedCancel) \<noteq> None \<longrightarrow> vfiles t (F CancellationDrained) \<noteq> None))
     (\<lambda>_ _. True) (\<lambda>_. True)"
  using assms unfolding end_physical_custody_def record_cancellation_drained_def
  by (intro spec_bind spec_handle_err spec_lock_custody spec_durable_marker_exists spec_if
      spec_record_marker spec_open_dir spec_rollback spec_ret spec_raise)
    (auto simp: custody_closed_def dest: hardD intro!: spec_raise spec_ret)

lemmas custody_run_simps =
  end_physical_custody_def lock_custody_def sys_open_create_def ask_def custody_poll.simps
  durable_marker_exists_def sys_lstat_def rollback_created_marker_def sys_unlink_def err_not_found_def

end
