(* ===== verification/Delivery.thy ===== *)
theory Delivery
  imports Handle_Store
begin

section \<open>Delivery of completions and activation of asynchronous delivery\<close>

text \<open>
  The transfer protocol of \<^verbatim>\<open>src/src/delivery.rs\<close>: running the delivery helper under external-transfer
  custody, recording what an attempt came to, the completion transfer with its worker and
  custodian, the integration of a worker's result, and the detach operation with the recovery of
  interrupted activations.

  The helper process is the environment's: starting it may fail, waiting for it may fail, and it
  exits with a status and output; every start is logged in \<^const>\<open>spawned\<close>. Validation of the pinned
  helper image (\<^verbatim>\<open>HandleBoundDeliveryHelper::from_provenance\<close> after its schema check) and the owner
  witness are one answer of the environment, \<^const>\<open>helper_verdict\<close>. For sources of the v2 protocol the
  receipt written by \<^verbatim>\<open>continuation::accept\<close> and the predicates \<^verbatim>\<open>handed_off\<close> and
  \<^verbatim>\<open>activation_committed\<close> are answers too, \<^const>\<open>v2_answer\<close>. Diagnostic datagrams are left out: they
  touch no file and their result is ignored by the source.
\<close>

subsection \<open>Wait statuses\<close>

definition wifexited :: "int \<Rightarrow> bool" where
  "wifexited st \<longleftrightarrow> st mod 128 = 0"

definition wexitstatus :: "int \<Rightarrow> int" where
  "wexitstatus st = (st div 256) mod 256"

definition wifsignaled :: "int \<Rightarrow> bool" where
  "wifsignaled st \<longleftrightarrow> st mod 128 \<noteq> 0 \<and> st mod 128 \<noteq> 127"

definition wtermsig :: "int \<Rightarrow> int" where
  "wtermsig st = st mod 128"

definition status_code :: "int \<Rightarrow> int option" where
  "status_code st = (if wifexited st then Some (wexitstatus st) else None)"

definition transfer_status :: "int \<Rightarrow> io_error + unit" where
  "transfer_status st =
     (if wifexited st \<and> wexitstatus st = 0 then Inr ()
      else Inl (io_other ''delivery transfer worker failed''))"

text \<open>The raw status of a worker that ran to the end (\<^verbatim>\<open>_exit(0)\<close>) or not (\<^verbatim>\<open>_exit(70)\<close>).\<close>

definition worker_status :: "bool \<Rightarrow> int" where
  "worker_status ok = (if ok then 0 else 70 * 256)"

lemma transfer_worker_status: "transfer_status (worker_status ok) =
   (if ok then Inr () else Inl (io_other ''delivery transfer worker failed''))"
  by (simp add: transfer_status_def worker_status_def wifexited_def wexitstatus_def)

subsection \<open>What an attempt is recorded as\<close>

definition DELIVERY_HELPER_LEGACY_UNSUPPORTED :: string where
  "DELIVERY_HELPER_LEGACY_UNSUPPORTED = ''delivery_helper_legacy_unsupported''"
definition DELIVERY_HELPER_UNAVAILABLE :: string where
  "DELIVERY_HELPER_UNAVAILABLE = ''delivery_helper_unavailable''"
definition DELIVERY_HELPER_CHANGED :: string where
  "DELIVERY_HELPER_CHANGED = ''delivery_helper_changed''"

definition helper_error_text :: "helper_error \<Rightarrow> string" where
  "helper_error_text e = he_code e @ '': '' @ he_detail e"

definition admitted_completion_delivery_meta :: completion_delivery where
  "admitted_completion_delivery_meta =
     \<lparr>attempted = True, dm_exit_code = None, dm_error = None, error_code = None, retryable = None,
      retry_count = 0, skipped = None\<rparr>"

definition provisional_completion_delivery_transfer_meta :: completion_delivery where
  "provisional_completion_delivery_transfer_meta =
     \<lparr>attempted = True, dm_exit_code = None,
      dm_error = Some ''delivery helper outcome is unknown until the admitted attempt exits'',
      error_code = Some DELIVERY_ATTEMPT_IN_PROGRESS, retryable = Some False, retry_count = 0,
      skipped = None\<rparr>"

definition delivery_signal_error :: "int \<Rightarrow> string" where
  "delivery_signal_error st =
     (if wifsignaled st then ''terminated by signal '' @ int_dec (wtermsig st)
      else ''terminated without exit status'')"

definition completion_delivery_meta_from_status :: "int \<Rightarrow> completion_delivery" where
  "completion_delivery_meta_from_status st =
     (case status_code st of
        Some code \<Rightarrow> admitted_completion_delivery_meta\<lparr>dm_exit_code := Some code\<rparr>
      | None \<Rightarrow> admitted_completion_delivery_meta\<lparr>dm_error := Some (delivery_signal_error st)\<rparr>)"

definition completion_delivery_meta_from_error :: "io_error \<Rightarrow> completion_delivery" where
  "completion_delivery_meta_from_error e = admitted_completion_delivery_meta\<lparr>dm_error := Some (to_string e)\<rparr>"

definition completion_delivery_meta_from_launch_error :: "io_error \<Rightarrow> nat \<Rightarrow> completion_delivery" where
  "completion_delivery_meta_from_launch_error e n =
     \<lparr>attempted = False, dm_exit_code = None, dm_error = Some (to_string e),
      error_code = Some ''delivery_helper_launch_failed'', retryable = Some (n = 0), retry_count = n,
      skipped = None\<rparr>"

definition completion_delivery_meta_from_owner_launch_error :: "io_error \<Rightarrow> nat \<Rightarrow> completion_delivery" where
  "completion_delivery_meta_from_owner_launch_error e n =
     \<lparr>attempted = False, dm_exit_code = None, dm_error = Some (to_string e),
      error_code = Some ''delivery_transfer_worker_launch_failed'', retryable = Some (n = 0),
      retry_count = n, skipped = None\<rparr>"

definition completion_delivery_meta_from_helper_error :: "helper_error \<Rightarrow> nat \<Rightarrow> completion_delivery" where
  "completion_delivery_meta_from_helper_error e n =
     (let transient = (he_code e = DELIVERY_HELPER_UNAVAILABLE \<or> he_code e = DELIVERY_HELPER_CHANGED)
      in \<lparr>attempted = False, dm_exit_code = None, dm_error = Some (helper_error_text e),
          error_code = Some (he_code e), retryable = Some (transient \<and> n = 0), retry_count = n,
          skipped = None\<rparr>)"

definition completion_delivery_meta_from_unknown_transfer :: "io_error \<Rightarrow> nat \<Rightarrow> completion_delivery" where
  "completion_delivery_meta_from_unknown_transfer e n =
     \<lparr>attempted = True, dm_exit_code = None,
      dm_error = Some (''delivery helper outcome is unknown: '' @ to_string e),
      error_code = Some DELIVERY_TRANSFER_OUTCOME_UNKNOWN, retryable = Some False, retry_count = n,
      skipped = None\<rparr>"

definition completion_delivery_pending :: "meta \<Rightarrow> bool" where
  "completion_delivery_pending m \<longleftrightarrow> terminal m \<and> needs_progress (completion_lifecycle (delivery m))"

subsection \<open>Running the helper\<close>

datatype helper_command_error = NotStarted io_error | Admitted io_error

text \<open>The process may die at this point; nothing else happens.\<close>

definition may_stop :: "unit io" where
  "may_stop w = (case faults (env w) (tick w) of Stop \<Rightarrow> (Halted, next_tick w) | _ \<Rightarrow> (Done (), next_tick w))"

definition log_spawn :: "string \<Rightarrow> unit io" where
  "log_spawn op w = (Done (), w\<lparr>spawned := spawned w @ [op]\<rparr>)"

definition spawn_helper :: "string \<Rightarrow> helper_reply io" where
  "spawn_helper op =
     seq may_stop
       (bind (ask helper_answer)
          (\<lambda>r. case r of
             SpawnFails e \<Rightarrow> ret (SpawnFails e)
           | _ \<Rightarrow> seq (log_spawn op) (seq may_stop (ret r))))"

definition wait_delivery_helper :: "string \<Rightarrow> (helper_command_error + int \<times> bytes \<times> bytes) io" where
  "wait_delivery_helper op =
     bind (spawn_helper op)
       (\<lambda>r. case r of
          SpawnFails e \<Rightarrow>
            ret (Inl (NotStarted (io_new (kind e) (''spawn delivery helper for '' @ op @ '': '' @ to_string e))))
        | WaitFails e \<Rightarrow>
            ret (Inl (Admitted (io_new (kind e) (''wait delivery helper for '' @ op @ '': '' @ to_string e))))
        | Exits st out err \<Rightarrow> ret (Inr (st, out, err)))"

definition report_external_custody_cleanup :: "unit io \<Rightarrow> unit io" where
  "report_external_custody_cleanup cleanup =
     handle_err cleanup (\<lambda>e. ignore_err (record_external_custody_cleanup_error e)) ret"

fun is_admitted_error :: "helper_command_error + 'a \<Rightarrow> bool" where
  "is_admitted_error (Inl (Admitted _)) = True"
| "is_admitted_error _ = False"

definition with_external_transfer_custody ::
  "bool \<Rightarrow> (helper_command_error + 'a) io \<Rightarrow> (helper_command_error + 'a) io" where
  "with_external_transfer_custody custody operation =
     (if \<not> custody then operation
      else
        handle_err begin_external_transfer_custody
          (\<lambda>e. ret (Inl (NotStarted e)))
          (\<lambda>owned. bind operation
             (\<lambda>result.
                seq (if owned \<and> \<not> is_admitted_error result
                     then report_external_custody_cleanup end_external_transfer_custody else ret ())
                  (ret result))))"

definition run_delivery_helper_command :: "string \<Rightarrow> bool \<Rightarrow> (helper_command_error + int \<times> bytes \<times> bytes) io" where
  "run_delivery_helper_command op custody = with_external_transfer_custody custody (wait_delivery_helper op)"

definition command_failure_detail :: "bytes \<Rightarrow> bytes \<Rightarrow> string option" where
  "command_failure_detail stderr_bytes stdout_bytes =
     (if trim stderr_bytes \<noteq> [] then Some (trim stderr_bytes)
      else if trim stdout_bytes \<noteq> [] then Some (trim stdout_bytes)
      else None)"

definition require_helper_success :: "int \<times> bytes \<times> bytes \<Rightarrow> helper_command_error + unit" where
  "require_helper_success output =
     (case output of
        (st, out, err) \<Rightarrow>
          if st = 0 then Inr ()
          else
            Inl (Admitted (io_other (''delivery helper exited with '' @
              (case status_code st of None \<Rightarrow> ''no exit code'' | Some code \<Rightarrow> int_dec code) @
              (case command_failure_detail err out of None \<Rightarrow> [] | Some d \<Rightarrow> '': '' @ d)))))"

definition run_required_delivery_helper_command_detailed :: "string \<Rightarrow> bool \<Rightarrow> (helper_command_error + unit) io" where
  "run_required_delivery_helper_command_detailed op custody =
     bind (with_external_transfer_custody custody (wait_delivery_helper op))
       (\<lambda>r. case r of Inl e \<Rightarrow> ret (Inl e) | Inr output \<Rightarrow> ret (require_helper_success output))"

subsection \<open>The pinned helper and the v2 protocol\<close>

definition REGISTRATION :: fname where
  "REGISTRATION = Extra ''source-registration-v2.json''"

definition SNAPSHOT :: fname where
  "SNAPSHOT = Extra ''completion-snapshot-v2.json''"

text \<open>\<^verbatim>\<open>continuation::enabled\<close>: anything but a clean absence counts as a v2 source.\<close>

definition v2_enabled :: "bool io" where
  "v2_enabled = handle_err (sys_lstat REGISTRATION) (\<lambda>e. ret (kind e \<noteq> NotFound)) (\<lambda>_. ret True)"

definition try_exists :: "fname \<Rightarrow> bool io" where
  "try_exists f = handle_err (sys_lstat f) (\<lambda>e. if kind e = NotFound then ret False else raise e) (\<lambda>_. ret True)"

definition ask_v2 :: "bool io" where
  "ask_v2 = bind (ask v2_answer) (\<lambda>r. case r of Inl e \<Rightarrow> raise e | Inr b \<Rightarrow> ret b)"

definition DELIVERY_HELPER_SCHEMA_VERSION :: nat where
  "DELIVERY_HELPER_SCHEMA_VERSION = 5"
definition LEGACY_INLINE_ENVIRONMENT_SCHEMA_VERSION :: nat where
  "LEGACY_INLINE_ENVIRONMENT_SCHEMA_VERSION = 4"

definition from_provenance :: "string \<Rightarrow> helper_provenance option \<Rightarrow> (helper_error + unit) io" where
  "from_provenance hdl provenance =
     (case provenance of
        None \<Rightarrow>
          ret (Inl \<lparr>he_code = DELIVERY_HELPER_LEGACY_UNSUPPORTED,
                    he_detail = ''registered delivery helper snapshot is missing for '' @ hdl\<rparr>)
      | Some p \<Rightarrow>
          if prov_schema_version p \<noteq> DELIVERY_HELPER_SCHEMA_VERSION \<and>
             prov_schema_version p \<noteq> LEGACY_INLINE_ENVIRONMENT_SCHEMA_VERSION
          then ret (Inl \<lparr>he_code = DELIVERY_HELPER_LEGACY_UNSUPPORTED,
                    he_detail = ''registered delivery helper for '' @ hdl @
                      '' has unsupported schema version '' @ nat_dec (prov_schema_version p)\<rparr>)
          else bind (ask helper_verdict)
            (\<lambda>v. case v of None \<Rightarrow> ret (Inr ()) | Some e \<Rightarrow> ret (Inl e)))"

text \<open>\<^verbatim>\<open>activate_request\<close> and \<^verbatim>\<open>completion_request\<close>: the helper must validate before either exists.\<close>

definition delivery_request :: "meta \<Rightarrow> (helper_error + unit) io" where
  "delivery_request m = from_provenance (handle m) (delivery_helper m)"

definition touch_now :: "meta \<Rightarrow> meta io" where
  "touch_now m = bind unix_ms (\<lambda>now. ret (touch now m))"

subsection \<open>The completion transfer\<close>

definition integrate_completion_transfer :: "io_error + unit \<Rightarrow> nat \<Rightarrow> meta io" where
  "integrate_completion_transfer worker_result n =
     bind read_meta (\<lambda>observed.
       case worker_result of
         Inr _ \<Rightarrow> ret observed
       | Inl err \<Rightarrow>
           (let life = completion_lifecycle (delivery observed);
                store = (\<lambda>d. bind (touch_now (observed\<lparr>delivery := d\<rparr>))
                           (\<lambda>m. seq (write_meta_atomic m) (ret m)))
            in if life = Unclaimed \<or> life = RetryablePreAdmissionFailure
               then store (completion_delivery_meta_from_owner_launch_error err n)
               else if life = ProvisionalTransfer
               then store (completion_delivery_meta_from_unknown_transfer err n)
               else ret observed))"

text \<open>
  The v2 transfer: the helper's structured reply and the receipt it yields are one answer of the
  environment, after the helper was started.
\<close>

definition continuation_record :: "helper_command_error + int \<times> bytes \<times> bytes \<Rightarrow> completion_delivery io" where
  "continuation_record r =
     (case r of
        Inl (NotStarted e) \<Rightarrow> ret (completion_delivery_meta_from_error e)
      | Inl (Admitted e) \<Rightarrow> ret (completion_delivery_meta_from_error e)
      | Inr _ \<Rightarrow>
          handle_err ask_v2
            (\<lambda>e. ret (completion_delivery_meta_from_error e))
            (\<lambda>_. ret (completion_delivery_meta_from_status 0)))"

definition execute_continuation_transfer :: "meta \<Rightarrow> bool \<Rightarrow> unit io" where
  "execute_continuation_transfer m external =
     bind (delivery_request m) (\<lambda>request.
       case request of
         Inl e \<Rightarrow> raise (io_other (helper_error_text e))
       | Inr _ \<Rightarrow>
           (let m1 = m\<lparr>delivery := provisional_completion_delivery_transfer_meta\<rparr>
            in seq (write_meta_atomic m1)
              (bind (run_delivery_helper_command ''complete'' external) (\<lambda>r.
                bind (continuation_record r)
                  (\<lambda>d. bind (touch_now (m1\<lparr>delivery := d\<rparr>)) write_meta_atomic)))))"

definition completion_record :: "helper_command_error + int \<times> bytes \<times> bytes \<Rightarrow> nat \<Rightarrow> completion_delivery" where
  "completion_record r n =
     (case r of
        Inr (st, _, _) \<Rightarrow> completion_delivery_meta_from_status st
      | Inl (NotStarted err) \<Rightarrow> completion_delivery_meta_from_launch_error err n
      | Inl (Admitted err) \<Rightarrow> completion_delivery_meta_from_error err)"

definition execute_completion_transfer :: "meta \<Rightarrow> nat \<Rightarrow> bool \<Rightarrow> unit io" where
  "execute_completion_transfer persisted n external =
     bind v2_enabled (\<lambda>v2.
       if v2 then execute_continuation_transfer persisted external
       else
         bind (delivery_request persisted) (\<lambda>request.
           case request of
             Inl err \<Rightarrow>
               bind (touch_now (persisted\<lparr>delivery := completion_delivery_meta_from_helper_error err n\<rparr>))
                 write_meta_atomic
           | Inr _ \<Rightarrow>
               bind (touch_now (persisted\<lparr>delivery := provisional_completion_delivery_transfer_meta\<rparr>)) (\<lambda>m1.
                 seq (write_meta_atomic m1)
                   (bind (run_delivery_helper_command ''complete'' external) (\<lambda>r.
                      bind (touch_now (m1\<lparr>delivery := completion_record r n\<rparr>)) write_meta_atomic)))))"

text \<open>
  The forked child: it waits at the gate, closes what it must not hold, and then executes the
  transfer, directly or below a custodian that also integrates the worker's result. The result
  is the child's exit status.
\<close>

definition run_custodian :: "unit io \<Rightarrow> (int \<Rightarrow> unit io) \<Rightarrow> unit io" where
  "run_custodian work outcome =
     seq sys_sync (seq sys_sync (bind (in_worker work) (\<lambda>ok. outcome (worker_status ok))))"

definition completion_child :: "meta \<Rightarrow> nat \<Rightarrow> bool \<Rightarrow> bool \<Rightarrow> unit io" where
  "completion_child persisted n external role =
     seq sys_sync
       (seq sys_sync
          (if role
           then run_custodian (execute_completion_transfer persisted n external)
                  (\<lambda>st. bind (integrate_completion_transfer (transfer_status st) n) (\<lambda>_. ret ()))
           else execute_completion_transfer persisted n external))"

datatype completion_start = Busy | Settled | Running nat meta

text \<open>
  \<^verbatim>\<open>start_completion_delivery\<close> in its four stages: a provisional record left by a dead owner becomes an
  unknown outcome; a v2 source whose transfer was handed off is settled; otherwise, if the record
  permits an attempt, the child is forked. A failed fork is integrated at once.
\<close>

definition settle_provisional :: "meta \<Rightarrow> meta io" where
  "settle_provisional persisted =
     (if completion_lifecycle (delivery persisted) = ProvisionalTransfer
      then bind (touch_now (persisted\<lparr>delivery :=
               completion_delivery_meta_from_unknown_transfer
                 (io_other ''delivery transfer owner is gone'') (retry_count (delivery persisted))\<rparr>))
             (\<lambda>m. seq (write_meta_atomic m) (ret m))
      else ret persisted)"

definition already_handed_off :: "meta \<Rightarrow> bool io" where
  "already_handed_off persisted =
     bind v2_enabled (\<lambda>v. if v \<and> attempted (delivery persisted) then ask_v2 else ret False)"

definition fork_transfer :: "bool \<Rightarrow> nat \<Rightarrow> meta \<Rightarrow> (completion_start \<times> meta option) io" where
  "fork_transfer role n persisted =
     seq sys_sync
       (handle_err sys_sync
          (\<lambda>e. bind (integrate_completion_transfer (Inl e) n) (\<lambda>m. ret (Settled, Some m)))
          (\<lambda>_. seq (if role then sys_sync else ret ()) (ret (Running n persisted, Some persisted))))"

definition attempt_number :: "completion_delivery \<Rightarrow> nat" where
  "attempt_number d =
     saturating_add_u8 (retry_count d)
       (if completion_lifecycle d = RetryablePreAdmissionFailure then 1 else 0)"

definition start_completion_delivery :: "bool \<Rightarrow> (completion_start \<times> meta option) io" where
  "start_completion_delivery role =
     bind read_meta (\<lambda>persisted0.
     bind read_delivery_mode (\<lambda>mode.
     bind v2_enabled (\<lambda>v2.
     bind (if v2 then try_exists SNAPSHOT else ret True) (\<lambda>snapshot.
       if \<not> snapshot then ret (Busy, None)
       else
         (let loaded = persisted0\<lparr>delivery_mode := mode\<rparr>
          in bind (settle_provisional loaded) (\<lambda>persisted.
             bind (already_handed_off persisted) (\<lambda>handed.
               if handed then ret (Settled, Some persisted)
               else if \<not> permits_attempt (completion_lifecycle (delivery loaded)) then ret (Settled, Some persisted)
               else fork_transfer role (attempt_number (delivery loaded)) persisted)))))))"

definition retry_interrupted :: "unit io" where
  "retry_interrupted w = flock_wait (patience (env w)) w"

text \<open>The child runs while the lock is held; the parent then waits and integrates.\<close>

definition reconcile_completion_delivery :: "bool \<Rightarrow> meta option io" where
  "reconcile_completion_delivery role =
     seq lock_delivery
       (bind (start_completion_delivery role) (\<lambda>(start, m).
          case start of
            Running n persisted \<Rightarrow>
              bind (in_worker (completion_child persisted n True role)) (\<lambda>ok.
                bind (handle_err (seq retry_interrupted retry_interrupted)
                        (\<lambda>e. ret (Inl e)) (\<lambda>_. ret (transfer_status (worker_status ok))))
                  (\<lambda>result. bind (integrate_completion_transfer result n) (\<lambda>m. ret (Some m))))
          | _ \<Rightarrow> ret m))"

text \<open>
  The supervisor's way: start without waiting for the lock, let the child run, and finish with
  the status its reaper observed.
\<close>

definition supervisor_completion_delivery :: "bool \<Rightarrow> (completion_start \<times> meta option) io" where
  "supervisor_completion_delivery role =
     bind try_lock_delivery (\<lambda>locked.
       if \<not> locked then ret (Busy, None)
       else bind (start_completion_delivery role) (\<lambda>(start, m).
          case start of
            Running n persisted \<Rightarrow>
              bind (in_worker (completion_child persisted n False role)) (\<lambda>ok.
                bind (integrate_completion_transfer (transfer_status (worker_status ok)) n)
                  (\<lambda>m. ret (Running n persisted, Some m)))
          | _ \<Rightarrow> ret (start, m)))"

subsection \<open>Activation\<close>

record detach_outcome =
  do_handle :: string
  do_delivery_mode :: delivery_mode
  do_state :: string
  transitioned :: bool
  terminal_activation_requests_notification :: bool

definition detach_outcome_of :: "meta \<Rightarrow> bool \<Rightarrow> bool \<Rightarrow> detach_outcome" where
  "detach_outcome_of m tr note =
     \<lparr>do_handle = handle m, do_delivery_mode = delivery_mode m, do_state = state m, transitioned = tr,
      terminal_activation_requests_notification = note\<rparr>"

definition repair_delivery_mode_mirror :: "delivery_mode \<Rightarrow> meta io" where
  "repair_delivery_mode_mirror mode =
     seq lock_completion
       (bind read_meta (\<lambda>m.
          if delivery_mode m \<noteq> mode
          then bind (touch_now (m\<lparr>delivery_mode := mode\<rparr>)) (\<lambda>m1. seq (write_meta_atomic m1) (ret m1))
          else ret m))"

definition require_settled_activation :: "unit io" where
  "require_settled_activation =
     bind activation_transfer_state (\<lambda>a.
       case act_outcome a of
         ActUnclaimed \<Rightarrow> ret ()
       | Succeeded \<Rightarrow> ret ()
       | ClaimedWithoutOutcome \<Rightarrow> raise (io_other ''delivery activation outcome is unknown'')
       | Pending \<Rightarrow> raise (io_other ''delivery activation outcome is unknown'')
       | PreAdmissionFailed e \<Rightarrow> raise (io_other e)
       | Failed e \<Rightarrow> raise (io_other e)
       | TransferOutcomeUnknown \<Rightarrow> raise (io_other ''transfer_outcome_unknown''))"

definition settle_orphaned_activation :: "unit io" where
  "settle_orphaned_activation =
     bind activation_transfer_state (\<lambda>a.
       (let reset =
          seq (write_delivery_mode_atomic Sync)
         (seq (repair_delivery_mode_mirror Sync)
         (seq remove_activation_outcome rollback_activation_attempt))
        in case act_outcome a of
             ClaimedWithoutOutcome \<Rightarrow> reset
           | PreAdmissionFailed _ \<Rightarrow> reset
           | Pending \<Rightarrow> write_activation_transfer_outcome_unknown
           | _ \<Rightarrow> ret ()))"

definition observed_delivery_mode :: "delivery_mode io" where
  "observed_delivery_mode =
     bind activation_transfer_state (\<lambda>a.
       seq (if act_mode a = Async then require_settled_activation else ret ()) (ret (act_mode a)))"

definition settled_delivery_mode :: "delivery_mode io" where
  "settled_delivery_mode = seq lock_delivery (seq settle_orphaned_activation observed_delivery_mode)"

text \<open>
  \<^verbatim>\<open>run_delivery_transfer_worker_holding_lock\<close>: fork, run the operation in the child, wait. The
  child keeps the lock if the parent dies, so no other locked operation comes between.
\<close>

definition run_delivery_transfer_worker_holding_lock :: "unit io \<Rightarrow> unit io" where
  "run_delivery_transfer_worker_holding_lock operation =
     seq sys_sync
       (bind (in_worker operation) (\<lambda>ok.
          seq retry_interrupted
            (case transfer_status (worker_status ok) of Inl e \<Rightarrow> raise e | Inr _ \<Rightarrow> ret ())))"

definition helper_command_io_error :: "helper_command_error \<Rightarrow> io_error" where
  "helper_command_io_error e = (case e of NotStarted x \<Rightarrow> x | Admitted x \<Rightarrow> x)"

text \<open>
  The v2 retry; the readback of a committed activation (\<^verbatim>\<open>readback_activation_committed\<close>) starts the
  helper once more and is answered by the environment.
\<close>

definition readback_activation_committed :: "meta \<Rightarrow> bool io" where
  "readback_activation_committed m =
     bind (delivery_request m) (\<lambda>request.
       case request of
         Inl e \<Rightarrow> raise (io_other (helper_error_text e))
       | Inr _ \<Rightarrow>
           bind (run_delivery_helper_command ''activation-readback'' True) (\<lambda>r.
             case r of Inl e \<Rightarrow> raise (helper_command_io_error e) | Inr _ \<Rightarrow> ask_v2))"

definition retry_uncertain_activation :: "unit io" where
  "retry_uncertain_activation =
     bind v2_enabled (\<lambda>v2.
       if \<not> v2 then ret ()
       else bind activation_transfer_state (\<lambda>a.
         if \<not> (case act_outcome a of Failed _ \<Rightarrow> True | TransferOutcomeUnknown \<Rightarrow> True | _ \<Rightarrow> False)
         then ret ()
         else bind read_meta (\<lambda>m.
           bind (delivery_request m) (\<lambda>request.
             case request of
               Inl e \<Rightarrow> raise (io_other (helper_error_text e))
             | Inr _ \<Rightarrow>
                 run_delivery_transfer_worker_holding_lock
                   (bind (run_required_delivery_helper_command_detailed ''activate'' True) (\<lambda>r.
                      case r of
                        Inl e \<Rightarrow>
                          bind (catch (readback_activation_committed m) (\<lambda>_. ret False)) (\<lambda>committed.
                            if \<not> committed then raise (helper_command_io_error e)
                            else write_activation_succeeded)
                      | Inr _ \<Rightarrow> write_activation_succeeded))))))"

text \<open>The activation attempt of a claimed marker, and what is done with its result.\<close>

definition claimed_run :: "bool \<Rightarrow> (helper_command_error + unit) io" where
  "claimed_run claimed =
     (if claimed
      then handle_err write_activation_pending
             (\<lambda>err. seq settle_orphaned_activation (raise err))
             (\<lambda>_. run_required_delivery_helper_command_detailed ''activate'' True)
      else seq require_settled_activation (ret (Inr ())))"

definition record_activation_result :: "helper_command_error + unit \<Rightarrow> unit io" where
  "record_activation_result result =
     (case result of
        Inl (NotStarted err) \<Rightarrow>
          seq (write_activation_pre_admission_failed (to_string err))
            (seq settle_orphaned_activation (raise err))
      | Inl (Admitted err) \<Rightarrow>
          seq (write_activation_failed (to_string err))
            (seq (repair_delivery_mode_mirror Async) (raise err))
      | Inr _ \<Rightarrow>
          seq write_activation_succeeded
            (seq (repair_delivery_mode_mirror Async) (ret ())))"

text \<open>The operation the detach worker runs: claim, switch the mode, record, start the helper.\<close>

definition activation_worker :: "unit io" where
  "activation_worker =
     bind record_activation_attempt (\<lambda>claimed.
     handle_err (write_delivery_mode_atomic Async)
       (\<lambda>err. seq (if claimed then ignore_err rollback_activation_attempt else ret ()) (raise err))
       (\<lambda>_. bind (claimed_run claimed) record_activation_result))"

definition detach :: "detach_outcome io" where
  "detach =
     seq lock_delivery
    (seq settle_orphaned_activation
    (bind activation_transfer_state (\<lambda>a.
       if act_mode a = Async
       then seq retry_uncertain_activation
           (seq require_settled_activation
           (bind (repair_delivery_mode_mirror Async) (\<lambda>m. ret (detach_outcome_of m False False))))
       else
         bind read_meta (\<lambda>m.
         bind (delivery_request m) (\<lambda>request.
           case request of
             Inl e \<Rightarrow> raise (io_other (helper_error_text e))
           | Inr _ \<Rightarrow>
               bind (handle_err (run_delivery_transfer_worker_holding_lock activation_worker)
                       (\<lambda>e. ret (Inl e)) (\<lambda>_. ret (Inr ()))) (\<lambda>worker_result.
                 seq settle_orphaned_activation
                (seq require_settled_activation
                (seq (case worker_result of Inl e \<Rightarrow> raise e | Inr _ \<Rightarrow> ret ())
                (bind read_meta (\<lambda>m1. ret (detach_outcome_of m1 True (terminal m1)))))))))))) "

end
