(* ===== verification/Publication.thy ===== *)
theory Publication
  imports Delivery
begin

section \<open>Terminal publication and cancellation\<close>

text \<open>
  The part of \<^verbatim>\<open>src/src/supervisor.rs\<close> that decides and records how a handle ended: cancellation
  causes and their precedence, exit reasons, the metadata of each terminal proposal, publication
  under the completion lock, reconciliation of a lost supervisor, registration failures, and the
  admission of an explicit cancellation.
\<close>

subsection \<open>Causes and reasons\<close>

definition EX_SOFTWARE :: int where "EX_SOFTWARE = 70"
definition SIGTERM :: int where "SIGTERM = 15"
definition SIGKILL :: int where "SIGKILL = 9"

datatype startup_outcome =
  StRunning | RegistrationOutcomeUnknown | RootAccepted | RootEffectsPossibleNoReplay

fun startup_outcome_as_str :: "startup_outcome \<Rightarrow> string" where
  "startup_outcome_as_str StRunning = ''running''"
| "startup_outcome_as_str RegistrationOutcomeUnknown = ''registration-outcome-unknown''"
| "startup_outcome_as_str RootAccepted = ''root-accepted''"
| "startup_outcome_as_str RootEffectsPossibleNoReplay = ''effects-possible-no-replay''"

datatype cancellation_cause =
  OwnerExit | ExplicitRequest | CausalParent | RootAuthorityLost | OutputCaptureFailure

fun cause_rank :: "cancellation_cause \<Rightarrow> nat" where
  "cause_rank RootAuthorityLost = 0"
| "cause_rank OutputCaptureFailure = 3"
| "cause_rank OwnerExit = 1"
| "cause_rank CausalParent = 2"
| "cause_rank ExplicitRequest = 4"

definition with_precedence_over :: "cancellation_cause \<Rightarrow> cancellation_cause \<Rightarrow> cancellation_cause" where
  "with_precedence_over c other = (if cause_rank c \<ge> cause_rank other then c else other)"

definition with_observed_explicit_cancel :: "cancellation_cause \<Rightarrow> bool \<Rightarrow> cancellation_cause" where
  "with_observed_explicit_cancel c accepted =
     (if accepted then with_precedence_over c ExplicitRequest else c)"

definition cause_from_completion_reason :: "string \<Rightarrow> cancellation_cause option" where
  "cause_from_completion_reason r =
     (if r = ''cancel-request'' then Some ExplicitRequest
      else if r = ''owner-exit'' then Some OwnerExit
      else if r = ''causal-parent-cancelled'' then Some CausalParent
      else if r = ''root-authority-lost'' then Some RootAuthorityLost
      else if r = ''output-capture-failed'' then Some OutputCaptureFailure
      else None)"

fun cause_completion_reason :: "cancellation_cause \<Rightarrow> string" where
  "cause_completion_reason ExplicitRequest = ''cancel-request''"
| "cause_completion_reason OwnerExit = ''owner-exit''"
| "cause_completion_reason CausalParent = ''causal-parent-cancelled''"
| "cause_completion_reason RootAuthorityLost = ''root-authority-lost''"
| "cause_completion_reason OutputCaptureFailure = ''output-capture-failed''"

text \<open>\<^verbatim>\<open>CancellationEscalation::signal\<close>, from the milliseconds since the escalation began.\<close>

definition CANCEL_GRACE_ms :: nat where "CANCEL_GRACE_ms = 2000"

definition escalation_signal :: "nat \<Rightarrow> int" where
  "escalation_signal elapsed = (if elapsed \<ge> CANCEL_GRACE_ms then SIGKILL else SIGTERM)"

record root_status =
  rs_raw :: int
  rs_rc :: int
  rs_signal :: "int option"

record terminal_status =
  ts_rc :: int
  ts_signal :: "int option"

datatype exit_completion_reason = ExitReason | ExitBeforeReady | Cancelled cancellation_cause

fun exit_reason_text :: "exit_completion_reason \<Rightarrow> string" where
  "exit_reason_text ExitReason = ''exit''"
| "exit_reason_text ExitBeforeReady = ''exit-before-ready''"
| "exit_reason_text (Cancelled c) = cause_completion_reason c"

definition signal_to_shell_rc :: "int \<Rightarrow> int" where
  "signal_to_shell_rc sig = 128 + sig"

definition cancellation_terminal_status :: terminal_status where
  "cancellation_terminal_status = \<lparr>ts_rc = signal_to_shell_rc SIGTERM, ts_signal = Some SIGTERM\<rparr>"

fun exit_terminal_status :: "exit_completion_reason \<Rightarrow> root_status \<Rightarrow> terminal_status" where
  "exit_terminal_status (Cancelled _) rs = cancellation_terminal_status"
| "exit_terminal_status _ rs = \<lparr>ts_rc = rs_rc rs, ts_signal = rs_signal rs\<rparr>"

definition status_to_root_status :: "int \<Rightarrow> root_status" where
  "status_to_root_status st =
     (if wifexited st then \<lparr>rs_raw = st, rs_rc = wexitstatus st, rs_signal = None\<rparr>
      else if wifsignaled st
      then \<lparr>rs_raw = st, rs_rc = signal_to_shell_rc (wtermsig st), rs_signal = Some (wtermsig st)\<rparr>
      else \<lparr>rs_raw = st, rs_rc = EX_SOFTWARE, rs_signal = None\<rparr>)"

subsection \<open>The metadata of a terminal state\<close>

text \<open>Each function reads the clock where the source does; the readings are its last arguments.\<close>

definition apply_root_status_metadata :: "root_status \<Rightarrow> nat \<Rightarrow> meta \<Rightarrow> meta" where
  "apply_root_status_metadata rs t m =
     touch t (m\<lparr>workload_rc := Some (rs_rc rs), workload_signal := rs_signal rs\<rparr>)"

definition apply_ready_sentinel_metadata :: "nat \<Rightarrow> nat \<Rightarrow> meta \<Rightarrow> meta" where
  "apply_ready_sentinel_metadata now t m =
     touch t (m\<lparr>state := ''DONE'', completion_reason := Some ''ready-sentinel'', rc := Some 0,
       signal := None, ready_at_unix_ms := Some now, completed_at_unix_ms := Some now\<rparr>)"

definition apply_terminal_metadata :: "terminal_status \<Rightarrow> string \<Rightarrow> nat \<Rightarrow> nat \<Rightarrow> meta \<Rightarrow> meta" where
  "apply_terminal_metadata st reason now t m =
     touch t (m\<lparr>state := ''DONE'', completion_reason := Some reason, rc := Some (ts_rc st),
       signal := ts_signal st, completed_at_unix_ms := Some now\<rparr>)"

definition apply_supervisor_error_metadata :: "string \<Rightarrow> nat \<Rightarrow> nat \<Rightarrow> meta \<Rightarrow> meta" where
  "apply_supervisor_error_metadata message now t m =
     touch t (m\<lparr>state := ''ERROR'', completion_reason := Some ''supervisor-error'',
       rc := Some EX_SOFTWARE, error := Some message, completed_at_unix_ms := Some now\<rparr>)"

definition apply_cancellation_metadata :: "cancellation_cause \<Rightarrow> nat \<Rightarrow> nat \<Rightarrow> meta \<Rightarrow> meta" where
  "apply_cancellation_metadata c now t m =
     (apply_terminal_metadata cancellation_terminal_status (cause_completion_reason c) now t m)\<lparr>error := None\<rparr>"

definition apply_lost_supervisor_metadata :: "nat \<Rightarrow> nat \<Rightarrow> meta \<Rightarrow> meta" where
  "apply_lost_supervisor_metadata now t m =
     touch t (m\<lparr>state := ''ERROR'', completion_reason := Some ''supervisor-lost'', rc := Some EX_SOFTWARE,
       signal := None, completed_at_unix_ms := Some now,
       error := Some ''supervisor and workload process identities are gone''\<rparr>)"

definition apply_registration_unknown_metadata :: "string \<Rightarrow> nat \<Rightarrow> nat \<Rightarrow> meta \<Rightarrow> meta" where
  "apply_registration_unknown_metadata detail now t m =
     touch t (m\<lparr>state := ''ERROR'', completion_reason := Some ''registration-outcome-unknown'',
       rc := Some EX_SOFTWARE, signal := None, completed_at_unix_ms := Some now,
       error := Some (''completion event registration outcome is unknown after helper admission: '' @ detail)\<rparr>)"

subsection \<open>Publication\<close>

datatype terminal_proposal =
    ReadySentinel nat
  | ExitProposal root_status exit_completion_reason
  | CancellationProposal cancellation_cause
  | SupervisorError string
  | SupervisorLost

datatype finalized_proposal = Publish terminal_proposal | DeferredForAcceptedCancel

definition finalize_terminal_proposal :: "terminal_proposal \<Rightarrow> bool \<Rightarrow> finalized_proposal" where
  "finalize_terminal_proposal proposal accepted =
     (if \<not> accepted then Publish proposal
      else (case proposal of
              ReadySentinel _ \<Rightarrow> DeferredForAcceptedCancel
            | _ \<Rightarrow> Publish (CancellationProposal ExplicitRequest)))"

datatype delivery_disposition = ClaimPending | LeavePending | LiveLoop bool

datatype publish_result = Published | PublicationDeferred

definition apply_proposal :: "terminal_proposal \<Rightarrow> nat \<Rightarrow> nat \<Rightarrow> meta \<Rightarrow> meta" where
  "apply_proposal p now t m =
     (case p of
        ReadySentinel ready \<Rightarrow> apply_ready_sentinel_metadata ready t m
      | ExitProposal rs reason \<Rightarrow>
          apply_terminal_metadata (exit_terminal_status reason rs) (exit_reason_text reason) now t m
      | CancellationProposal c \<Rightarrow> apply_cancellation_metadata c now t m
      | SupervisorError message \<Rightarrow> apply_supervisor_error_metadata message now t m
      | SupervisorLost \<Rightarrow> apply_lost_supervisor_metadata now t m)"

definition is_cancellation :: "terminal_proposal \<Rightarrow> bool" where
  "is_cancellation p =
     (case p of ExitProposal _ (Cancelled _) \<Rightarrow> True | CancellationProposal _ \<Rightarrow> True | _ \<Rightarrow> False)"

text \<open>The writes of a publication: the return code, then the metadata that makes it terminal.\<close>

definition write_terminal :: "meta \<Rightarrow> unit io" where
  "write_terminal m =
     seq (write_rc_atomic (case rc m of Some r \<Rightarrow> r | None \<Rightarrow> EX_SOFTWARE)) (write_meta_atomic m)"

definition claim_delivery :: "bool \<Rightarrow> delivery_disposition \<Rightarrow> meta \<Rightarrow> meta io" where
  "claim_delivery role disp m =
     (if disp = ClaimPending
      then bind (reconcile_completion_delivery role) (\<lambda>r. ret (case r of Some m' \<Rightarrow> m' | None \<Rightarrow> m))
      else ret m)"

definition SOURCE_BUNDLE :: fname where
  "SOURCE_BUNDLE = Extra ''completion-source-bundle-v2.json''"

definition publish_proposal :: "meta \<Rightarrow> bool \<Rightarrow> terminal_proposal \<Rightarrow> bool \<Rightarrow> bool \<Rightarrow> meta io" where
  "publish_proposal m log p accepted drained_tree =
     seq (if drained_tree \<and> (accepted \<or> is_cancellation p) then record_cancellation_drained else ret ())
    (seq (if log then sys_sync else ret ())
    (bind unix_ms (\<lambda>now. bind unix_ms (\<lambda>t.
       (let m' = apply_proposal p now t m in seq (write_terminal m') (ret m'))))))"

definition publish_terminal_with_delivery_disposition ::
  "bool \<Rightarrow> meta \<Rightarrow> bool \<Rightarrow> terminal_proposal \<Rightarrow> delivery_disposition \<Rightarrow> (publish_result \<times> meta) io" where
  "publish_terminal_with_delivery_disposition role m log proposal disp =
     seq lock_completion
       (bind read_meta (\<lambda>current.
        bind (if terminal current
              then bind v2_enabled (\<lambda>v2. if \<not> v2 then ret True else try_exists SOURCE_BUNDLE)
              else ret False) (\<lambda>stands.
          if stands
          then bind (claim_delivery role disp current) (\<lambda>m'. ret (Published, m'))
          else
            (let m1 = m\<lparr>delivery := delivery current\<rparr>
             in bind explicit_cancel_accepted (\<lambda>accepted.
                  if accepted \<and> disp = LiveLoop False then ret (PublicationDeferred, m1)
                  else
                    (case finalize_terminal_proposal proposal accepted of
                       DeferredForAcceptedCancel \<Rightarrow> ret (PublicationDeferred, m1)
                     | Publish p \<Rightarrow>
                         bind (publish_proposal m1 log p accepted (disp = LiveLoop True)) (\<lambda>m2.
                         bind (claim_delivery role disp m2) (\<lambda>m3. ret (Published, m3)))))))))"

definition record_supervisor_error :: "bool \<Rightarrow> meta \<Rightarrow> string \<Rightarrow> bool \<Rightarrow> meta io" where
  "record_supervisor_error role m message log =
     bind (publish_terminal_with_delivery_disposition role m log (SupervisorError message) ClaimPending)
       (\<lambda>r. ret (snd r))"

text \<open>The three registration failures share their shape: the first terminal state wins.\<close>

definition record_if_running :: "meta \<Rightarrow> (nat \<Rightarrow> nat \<Rightarrow> meta \<Rightarrow> meta) \<Rightarrow> unit io" where
  "record_if_running initial f =
     seq lock_completion
       (bind (catch read_meta (\<lambda>_. ret initial)) (\<lambda>m.
          if \<not> terminal m
          then bind unix_ms (\<lambda>now. bind unix_ms (\<lambda>t.
                 seq (write_rc_atomic EX_SOFTWARE) (write_meta_atomic (f now t m))))
          else ret ()))"

definition record_pre_admission_registration_error :: "meta \<Rightarrow> string \<Rightarrow> unit io" where
  "record_pre_admission_registration_error initial detail =
     record_if_running initial
       (apply_supervisor_error_metadata (''completion event registration failed: '' @ detail))"

definition record_root_preaccept_failure :: "meta \<Rightarrow> string \<Rightarrow> unit io" where
  "record_root_preaccept_failure initial detail =
     record_if_running initial
       (apply_supervisor_error_metadata (''root original-work failed before acceptance: '' @ detail))"

definition record_admitted_registration_unknown :: "meta \<Rightarrow> string \<Rightarrow> unit io" where
  "record_admitted_registration_unknown initial detail =
     record_if_running initial (apply_registration_unknown_metadata detail)"

subsection \<open>Reconciliation of a lost supervisor\<close>

definition processes_are_gone :: "meta \<Rightarrow> bool io" where
  "processes_are_gone m =
     bind current_boot_id (\<lambda>b. bind (ask stat_files)
       (\<lambda>rd. ret (exact_supervisor_and_workload_are_gone rd b m)))"

definition reconcile_lost_supervisor_locked :: "bool \<Rightarrow> delivery_disposition \<Rightarrow> bool \<Rightarrow> meta io" where
  "reconcile_lost_supervisor_locked role disp accepted_cancel_tree_empty =
     bind read_meta (\<lambda>m.
       if terminal m then claim_delivery role disp m
       else
         bind (if accepted_cancel_tree_empty then explicit_cancel_accepted else ret False) (\<lambda>settled_cancel.
         bind (if settled_cancel then ret True else processes_are_gone m) (\<lambda>proceed.
           if \<not> proceed then ret m
           else bind (publish_terminal_with_delivery_disposition role m False SupervisorLost disp)
                  (\<lambda>r. ret (snd r)))))"

definition reconcile_lost_supervisor_with_delivery :: "bool \<Rightarrow> delivery_disposition \<Rightarrow> bool \<Rightarrow> meta io" where
  "reconcile_lost_supervisor_with_delivery role disp tree_empty =
     seq lock_reconciliation (reconcile_lost_supervisor_locked role disp tree_empty)"

definition reconcile_lost_supervisor :: "bool \<Rightarrow> meta io" where
  "reconcile_lost_supervisor role = reconcile_lost_supervisor_with_delivery role ClaimPending False"

definition reconcile_lost_supervisor_for_list :: "bool \<Rightarrow> meta io" where
  "reconcile_lost_supervisor_for_list role = reconcile_lost_supervisor_with_delivery role LeavePending False"

definition reconcile_lost_supervisor_after_guardian :: "bool \<Rightarrow> bool \<Rightarrow> meta option io" where
  "reconcile_lost_supervisor_after_guardian role tree_empty =
     bind try_lock_reconciliation (\<lambda>locked.
       if \<not> locked then ret None
       else bind (reconcile_lost_supervisor_locked role LeavePending tree_empty) (\<lambda>m. ret (Some m)))"

subsection \<open>Explicit cancellation\<close>

datatype cancel_wake = WakeNotRequested | CustodyPolling | Sent | SupervisorGone | WakeFailed

record cancel_outcome =
  requested :: bool
  wake :: cancel_wake
  wake_error :: "string option"

definition cancel_not_requested :: cancel_outcome where
  "cancel_not_requested = \<lparr>requested = False, wake = WakeNotRequested, wake_error = None\<rparr>"

definition request_terminal_cancel :: "cancel_outcome io" where
  "request_terminal_cancel =
     bind accept_terminal_custody_cancel (\<lambda>accepted.
       ret (if \<not> accepted then cancel_not_requested
            else \<lparr>requested = True, wake = CustodyPolling, wake_error = None\<rparr>))"

definition ESRCH :: int where "ESRCH = 3"

definition poll_failed :: "nat \<Rightarrow> bool" where
  "poll_failed revents \<longleftrightarrow> odd (revents div 8) \<or> odd (revents div 32)"

text \<open>
  \<^verbatim>\<open>capture_cancel_supervisor_using\<close>: the pidfd is opened first, the identity inspected after it, and the
  pidfd polled last. The arguments are the three answers; the result says whether it was captured.
\<close>

definition capture_cancel_supervisor_using ::
  "io_error + unit \<Rightarrow> identity_evidence \<Rightarrow> io_error + nat \<Rightarrow> io_error + bool" where
  "capture_cancel_supervisor_using opened observed polled =
     (case opened of
        Inl e \<Rightarrow> if raw_os_error e = Some ESRCH then Inr False else Inl e
      | Inr _ \<Rightarrow>
          (case observed of
             Gone \<Rightarrow> Inr False
           | Mismatch \<Rightarrow> Inr False
           | Unavailable \<Rightarrow> Inl (io_other ''supervisor identity unavailable after pidfd capture'')
           | Live \<Rightarrow>
               (case polled of
                  Inl e \<Rightarrow> Inl e
                | Inr revents \<Rightarrow>
                    if poll_failed revents then Inl (io_other ''supervisor pidfd observation failed'')
                    else Inr (revents = 0))))"

definition capture_cancel_supervisor :: "caller_entry option \<Rightarrow> bool io" where
  "capture_cancel_supervisor identity =
     (case identity of
        None \<Rightarrow> ret False
      | Some _ \<Rightarrow>
          bind (ask pidfd_answer) (\<lambda>(opened, observed, polled).
            case capture_cancel_supervisor_using opened observed polled of Inl e \<Rightarrow> raise e | Inr b \<Rightarrow> ret b))"

definition SUPERVISOR_METADATA_WAIT_ms :: nat where "SUPERVISOR_METADATA_WAIT_ms = 5000"

fun wait_metadata_loop :: "nat \<Rightarrow> nat \<Rightarrow> meta io" where
  "wait_metadata_loop 0 deadline w = (Halted, w)"
| "wait_metadata_loop (Suc n) deadline w =
     bind read_meta (\<lambda>m.
       if supervisor_pid m \<noteq> None \<or> terminal m then ret m
       else bind (ask clock) (\<lambda>now. if now \<ge> deadline then ret m else wait_metadata_loop n deadline)) w"

definition wait_for_supervisor_metadata :: "meta io" where
  "wait_for_supervisor_metadata =
     bind (ask clock) (\<lambda>t0 w. wait_metadata_loop (patience (env w)) (t0 + SUPERVISOR_METADATA_WAIT_ms) w)"

definition wake_outcome :: "io_error + unit \<Rightarrow> cancel_wake \<times> string option" where
  "wake_outcome r =
     (case r of
        Inr _ \<Rightarrow> (Sent, None)
      | Inl e \<Rightarrow> if raw_os_error e = Some ESRCH then (SupervisorGone, Some (to_string e))
                  else (WakeFailed, Some (to_string e)))"

definition cancel_without_supervisor :: "bool \<Rightarrow> cancel_outcome io" where
  "cancel_without_supervisor role =
     bind (bind v2_enabled (\<lambda>v2. if v2 then request_terminal_cancel else ret cancel_not_requested)) (\<lambda>o1.
       if requested o1 then ret o1
       else seq (reconcile_lost_supervisor role) (ret cancel_not_requested))"

definition cancel_captured :: "bool \<Rightarrow> cancel_outcome io" where
  "cancel_captured role =
     seq record_explicit_cancel_acceptance
       (bind (ask wake_answer) (\<lambda>answer.
          case wake_outcome answer of
            (wk, err) \<Rightarrow>
              if wk = SupervisorGone
              then handle_err (reconcile_lost_supervisor role)
                     (\<lambda>e. ret \<lparr>requested = True, wake = wk,
                        wake_error = Some (''supervisor gone; reconciliation failed: '' @ to_string e)\<rparr>)
                     (\<lambda>_. ret \<lparr>requested = True, wake = wk, wake_error = err\<rparr>)
              else ret \<lparr>requested = True, wake = wk, wake_error = err\<rparr>))"

definition request_cancel :: "bool \<Rightarrow> cancel_outcome io" where
  "request_cancel role =
     bind wait_for_supervisor_metadata (\<lambda>m.
       if terminal m then request_terminal_cancel
       else
         seq lock_completion
           (bind read_meta (\<lambda>current.
              if terminal current then request_terminal_cancel
              else
                bind (capture_cancel_supervisor (supervisor_identity current)) (\<lambda>captured.
                  if captured then cancel_captured role else cancel_without_supervisor role))))"

end
