(* ===== verification/Event_Loop.thy ===== *)
theory Event_Loop
  imports Publication Sentinel
begin

section \<open>The supervisor's event loop\<close>

text \<open>
  \<^verbatim>\<open>EventLoop\<close> of \<^verbatim>\<open>src/src/supervisor.rs\<close>: reading the workload's output into the log, reaping, cancellation and its
  escalation, the hand-over with the root authority over the control channel, the decision when
  and how to finish, publication, and completion delivery. The loop's state is a record that each
  method takes and returns; a method that may fail or does I/O is an operation of the world.

  An open descriptor is a flag. What \<^verbatim>\<open>poll\<close>, \<^verbatim>\<open>read\<close>, \<^verbatim>\<open>waitid\<close> and the other calls on descriptors answer comes
  from the environment. Each call of \<^verbatim>\<open>signal_descendants\<close> is noted with its signal in \<open>signals\<close>, and what
  \<^verbatim>\<open>AppendLog::write_all\<close> has accepted in \<open>log_bytes\<close>. The child that delivers the completion runs, while it holds
  the delivery lock, at the point where it is forked: the loop touches nothing it reads until its
  exit is reaped. The default build holds no live capture, and the cgroup handler only reads.
\<close>

subsection \<open>State\<close>

datatype completion_scope = RootScope | TreeScope

record cancel_state =
  provisional_cause :: cancellation_cause
  started_at :: nat

record pending_event =
  retry_at :: nat
  source_kind :: string
  root_wait_status :: "int option"
  tree_drained_then :: bool
  output_closed_then :: bool

record event_loop =
  loop_meta :: meta
  root_pid :: pid
  root_pidfd :: bool
  owner_pidfd :: bool
  scope :: completion_scope
  stdout_fd :: bool
  stderr_fd :: bool
  exec_err_fd :: bool
  root_exit :: "root_status option"
  tree_empty :: bool
  completion_recorded :: bool
  pending_source :: "pending_event option"
  completion_transfer :: "(pid \<times> nat) option"
  reaped_completion_transfer :: "int option"
  completion_delivery_settled :: bool
  completion_tree_pending :: bool
  root_status_pending :: bool
  sentinel :: "sentinel_matcher option"
  spawn_error :: "string option"
  cancellation :: "cancel_state option"
  root_control :: bool
  root_local_ready_sent :: bool
  root_settlement_granted :: bool
  root_terminal_sent :: bool
  deferred_ready_at :: "nat option"
  capture_error :: "string option"
  log_bytes :: bytes
  signals :: "int list"

definition event_loop_state ::
  "meta \<Rightarrow> pid \<Rightarrow> bool \<Rightarrow> bool \<Rightarrow> completion_scope \<Rightarrow> sentinel_matcher option \<Rightarrow> bool \<Rightarrow> event_loop" where
  "event_loop_state m rp rpfd opfd sc sm control =
     \<lparr>loop_meta = m, root_pid = rp, root_pidfd = rpfd, owner_pidfd = opfd, scope = sc,
      stdout_fd = True, stderr_fd = True, exec_err_fd = True, root_exit = None, tree_empty = False,
      completion_recorded = False, pending_source = None, completion_transfer = None,
      reaped_completion_transfer = None, completion_delivery_settled = False, completion_tree_pending = False,
      root_status_pending = False, sentinel = sm, spawn_error = None, cancellation = None,
      root_control = control, root_local_ready_sent = False, root_settlement_granted = (\<not> control),
      root_terminal_sent = False, deferred_ready_at = None, capture_error = None, log_bytes = [], signals = []\<rparr>"

abbreviation ask_loop :: "(loop_answer \<Rightarrow> 'a) \<Rightarrow> 'a io" where
  "ask_loop q \<equiv> ask (\<lambda>e t. q (loop_answers e t))"

definition halt :: "'a io" where
  "halt w = (Halted, w)"

subsection \<open>Decisions\<close>

definition output_closed :: "event_loop \<Rightarrow> bool" where
  "output_closed l \<longleftrightarrow> \<not> stdout_fd l \<and> \<not> stderr_fd l \<and> \<not> exec_err_fd l"

definition is_complete :: "completion_scope \<Rightarrow> bool \<Rightarrow> bool" where
  "is_complete sc empty_tree \<longleftrightarrow> sc = RootScope \<or> empty_tree"

definition should_exit :: "event_loop \<Rightarrow> bool" where
  "should_exit l \<longleftrightarrow>
     completion_recorded l \<and> pending_source l = None \<and> completion_delivery_settled l \<and>
     (\<not> completion_tree_pending l \<or> tree_empty l) \<and> \<not> root_status_pending l \<and> root_exit l \<noteq> None \<and>
     is_complete (scope l) (tree_empty l) \<and> (\<not> root_control l \<or> tree_empty l) \<and>
     (\<not> root_control l \<or> root_terminal_sent l) \<and> output_closed l"

datatype finish_choice =
    NoFinish
  | FinishSpawnError string
  | FinishExit root_status exit_completion_reason

definition spawn_error_complete :: "event_loop \<Rightarrow> bool" where
  "spawn_error_complete l \<longleftrightarrow> spawn_error l \<noteq> None \<and> root_exit l \<noteq> None \<and> tree_empty l \<and> output_closed l"

definition spawn_error_message_for_completion :: "event_loop \<Rightarrow> string" where
  "spawn_error_message_for_completion l =
     ''workload spawn failed: '' @ (case spawn_error l of Some e \<Rightarrow> e | None \<Rightarrow> [])"

definition exit_completion_ready :: "event_loop \<Rightarrow> bool" where
  "exit_completion_ready l \<longleftrightarrow>
     (if cancellation l \<noteq> None then tree_empty l \<and> output_closed l
      else is_complete (scope l) (tree_empty l) \<and> output_closed l)"

definition loop_exit_reason :: "event_loop \<Rightarrow> exit_completion_reason" where
  "loop_exit_reason l =
     (case cancellation l of
        Some c \<Rightarrow> Cancelled (provisional_cause c)
      | None \<Rightarrow> if sentinel l \<noteq> None then ExitBeforeReady else ExitReason)"

definition finish_decision :: "event_loop \<Rightarrow> finish_choice" where
  "finish_decision l =
     (if completion_recorded l then NoFinish
      else if spawn_error_complete l then FinishSpawnError (spawn_error_message_for_completion l)
      else case root_exit l of
             None \<Rightarrow> NoFinish
           | Some rs \<Rightarrow>
               if \<not> exit_completion_ready l then NoFinish
               else FinishExit rs (loop_exit_reason l))"

definition CANCEL_POLL_ms :: nat where "CANCEL_POLL_ms = 100"
definition OWNER_POLL_ms :: nat where "OWNER_POLL_ms = 250"

definition poll_timeout :: "nat \<Rightarrow> event_loop \<Rightarrow> nat option" where
  "poll_timeout now l =
     (if (case pending_source l of Some p \<Rightarrow> now \<ge> retry_at p | None \<Rightarrow> False) then Some 0
      else if cancellation l \<noteq> None then Some CANCEL_POLL_ms
      else if cancel_owner (loop_meta l) \<noteq> None \<and> \<not> owner_pidfd l then Some OWNER_POLL_ms
      else Some OWNER_POLL_ms)"

definition poll_entries :: "event_loop \<Rightarrow> bool \<Rightarrow> poll_key list" where
  "poll_entries l cgroup_fd =
     (if stdout_fd l then [PollStdout] else []) @ (if stderr_fd l then [PollStderr] else []) @
     (if exec_err_fd l then [PollExecErr] else []) @ (if owner_pidfd l then [PollOwnerPidfd] else []) @
     [PollSigchld] @ (if root_pidfd l then [PollPidfd] else []) @ (if cgroup_fd then [PollCgroup] else []) @
     (if root_control l then [PollRootControl] else [])"

subsection \<open>Cancellation\<close>

text \<open>\<^verbatim>\<open>matches!(explicit_cancel_accepted(..), Ok(true))\<close>\<close>

definition observed_cancel :: "bool io" where
  "observed_cancel = catch explicit_cancel_accepted (\<lambda>_. ret False)"

definition published_cancellation :: "event_loop \<Rightarrow> bool" where
  "published_cancellation l \<longleftrightarrow>
     completion_recorded l \<and>
     (case completion_reason (loop_meta l) of None \<Rightarrow> False | Some r \<Rightarrow> cause_from_completion_reason r \<noteq> None)"

definition drive_cancellation :: "event_loop \<Rightarrow> event_loop io" where
  "drive_cancellation l =
     (if published_cancellation l then ret l
      else case cancellation l of
             None \<Rightarrow> ret l
           | Some c \<Rightarrow>
               bind observed_cancel (\<lambda>accepted. bind (ask clock) (\<lambda>now.
                 ret (l\<lparr>cancellation := Some (c\<lparr>provisional_cause :=
                          with_observed_explicit_cancel (provisional_cause c) accepted\<rparr>),
                        signals := signals l @ [escalation_signal (now - started_at c)]\<rparr>))))"

definition request_cancellation :: "cancellation_cause \<Rightarrow> event_loop \<Rightarrow> event_loop io" where
  "request_cancellation proposed l =
     bind observed_cancel (\<lambda>accepted.
       (let cause = with_observed_explicit_cancel proposed accepted
        in bind (case cancellation l of
                   Some c \<Rightarrow> ret (c\<lparr>provisional_cause := with_precedence_over (provisional_cause c) cause\<rparr>)
                 | None \<Rightarrow> bind (ask clock) (\<lambda>now. ret \<lparr>provisional_cause = cause, started_at = now\<rparr>))
             (\<lambda>c. drive_cancellation (l\<lparr>cancellation := Some c\<rparr>))))"

definition check_explicit_cancel :: "event_loop \<Rightarrow> event_loop io" where
  "check_explicit_cancel l =
     bind observed_cancel (\<lambda>accepted. if accepted then request_cancellation ExplicitRequest l else ret l)"

definition check_polled_owner :: "event_loop \<Rightarrow> event_loop io" where
  "check_polled_owner l =
     (if root_control l \<or> owner_pidfd l \<or> cancellation l \<noteq> None then ret l
      else case cancel_owner (loop_meta l) of
             None \<Rightarrow> ret l
           | Some owner \<Rightarrow>
               bind current_boot_id (\<lambda>b. bind (ask stat_files) (\<lambda>rd.
                 if process_identity_is_live rd b owner then ret l else request_cancellation OwnerExit l)))"

definition close_owner_pidfd :: "event_loop \<Rightarrow> event_loop" where
  "close_owner_pidfd l = l\<lparr>owner_pidfd := False\<rparr>"

definition record_capture_failure :: "io_error \<Rightarrow> event_loop \<Rightarrow> event_loop io" where
  "record_capture_failure e l =
     (let detail = ''output capture failed: '' @ to_string e @ ''; raw output incomplete and unconfirmed''
      in seq (ignore_err (atomic_write (Extra ''output-capture-error.txt'') (Text (detail @ [CHR 0x0A]))))
           (request_cancellation OutputCaptureFailure (l\<lparr>capture_error := Some detail\<rparr>)))"

subsection \<open>The control channel of the root authority\<close>

definition root_lost :: "event_loop \<Rightarrow> event_loop" where
  "root_lost l = l\<lparr>root_control := False, root_settlement_granted := True\<rparr>"

definition retry_root_terminal :: "event_loop \<Rightarrow> event_loop io" where
  "retry_root_terminal l =
     (if \<not> completion_recorded l \<or> root_terminal_sent l then ret l
      else if \<not> root_control l then ret l
      else bind (ask_loop control_error) (\<lambda>r.
        case r of
          None \<Rightarrow> ret (l\<lparr>root_terminal_sent := True\<rparr>)
        | Some e \<Rightarrow> if kind e = WouldBlock then ret l else ret (root_lost l)))"

definition announce_root_local_ready :: "event_loop \<Rightarrow> event_loop io" where
  "announce_root_local_ready l =
     (if root_local_ready_sent l then ret l
      else if \<not> root_control l then ret (l\<lparr>root_settlement_granted := True\<rparr>)
      else bind (ask_loop control_error) (\<lambda>r.
        case r of
          None \<Rightarrow> ret (l\<lparr>root_local_ready_sent := True\<rparr>)
        | Some e \<Rightarrow>
            if kind e = WouldBlock then ret l else request_cancellation RootAuthorityLost (root_lost l)))"

definition control_byte :: "char \<Rightarrow> event_loop \<Rightarrow> event_loop io" where
  "control_byte b l =
     (if b = CHR ''S'' then ret (l\<lparr>root_settlement_granted := True\<rparr>)
      else if b = CHR ''C'' then request_cancellation ExplicitRequest l
      else if b = CHR ''O'' then request_cancellation OwnerExit l
      else if b = CHR ''K'' then request_cancellation CausalParent l
      else if b = CHR ''F'' then request_cancellation RootAuthorityLost l
      else raise (io_other ''invalid root control phase''))"

fun control_bytes :: "bytes \<Rightarrow> event_loop \<Rightarrow> event_loop io" where
  "control_bytes [] l = ret l"
| "control_bytes (b # bs) l = bind (control_byte b l) (control_bytes bs)"

fun read_control_loop :: "nat \<Rightarrow> event_loop \<Rightarrow> event_loop io" where
  "read_control_loop 0 l = halt"
| "read_control_loop (Suc n) l =
     bind (ask_loop control_read) (\<lambda>r.
       case r of
         Inr bs \<Rightarrow>
           if bs \<noteq> [] then bind (control_bytes (take 32 bs) l) (read_control_loop n)
           else request_cancellation RootAuthorityLost (root_lost l)
       | Inl e \<Rightarrow>
           if kind e = Interrupted then read_control_loop n l
           else if kind e = WouldBlock then ret l else raise e)"

definition read_root_control :: "event_loop \<Rightarrow> event_loop io" where
  "read_root_control l =
     (if \<not> root_control l then ret l else (\<lambda>w. read_control_loop (patience (env w)) l w))"

subsection \<open>Completion delivery and the root's exit status\<close>

definition mark_completion_delivery_settled :: "event_loop \<Rightarrow> event_loop" where
  "mark_completion_delivery_settled l =
     l\<lparr>completion_tree_pending :=
         (completion_lifecycle (delivery (loop_meta l)) = NonReplayableUnknownTransfer),
       completion_delivery_settled := True\<rparr>"

definition retry_completion_integration :: "event_loop \<Rightarrow> event_loop io" where
  "retry_completion_integration l =
     (case (reaped_completion_transfer l, completion_transfer l) of
        (Some st, Some (_, n)) \<Rightarrow>
          handle_err (integrate_completion_transfer (transfer_status st) n)
            (\<lambda>_. ret l)
            (\<lambda>m. ret (mark_completion_delivery_settled
                (l\<lparr>loop_meta := m, reaped_completion_transfer := None, completion_transfer := None\<rparr>)))
      | _ \<Rightarrow> ret l)"

definition integrate_reaped_transfer :: "pid \<Rightarrow> int \<Rightarrow> event_loop \<Rightarrow> event_loop io" where
  "integrate_reaped_transfer p st l =
     (if map_option fst (completion_transfer l) \<noteq> Some p then ret l
      else retry_completion_integration (l\<lparr>reaped_completion_transfer := Some st\<rparr>))"

text \<open>\<^verbatim>\<open>try_start_completion_delivery\<close> once it holds the lock, with the child it forks.\<close>

definition start_and_fork :: "bool \<Rightarrow> (completion_start \<times> meta option) io" where
  "start_and_fork role =
     bind (start_completion_delivery role) (\<lambda>(started_as, m).
       case started_as of
         Running n persisted \<Rightarrow>
           seq (in_worker (completion_child persisted n False role)) (ret (started_as, m))
       | _ \<Rightarrow> ret (started_as, m))"

definition drive_completion_delivery :: "bool \<Rightarrow> event_loop \<Rightarrow> event_loop io" where
  "drive_completion_delivery role l =
     (if \<not> completion_recorded l \<or> pending_source l \<noteq> None \<or> completion_delivery_settled l \<or>
         completion_transfer l \<noteq> None
      then ret l
      else
        bind try_lock_delivery (\<lambda>locked.
          if \<not> locked then ret l
          else
            bind (start_and_fork role) (\<lambda>(started_as, m).
              (let l1 = (case m of Some m' \<Rightarrow> l\<lparr>loop_meta := m'\<rparr> | None \<Rightarrow> l)
               in case started_as of
                    Busy \<Rightarrow> ret l1
                  | Settled \<Rightarrow> ret (mark_completion_delivery_settled l1)
                  | Running n persisted \<Rightarrow>
                      bind (ask_loop forked_pid) (\<lambda>p.
                        ret (l1\<lparr>completion_transfer := Some (p, n), tree_empty := False\<rparr>))))))"

definition store_root_status :: "root_status option \<Rightarrow> meta io" where
  "store_root_status status =
     bind read_meta (\<lambda>m.
       case status of
         None \<Rightarrow> halt
       | Some rs \<Rightarrow>
           bind unix_ms (\<lambda>t.
             (let m' = apply_root_status_metadata rs t m in seq (write_meta_atomic m') (ret m'))))"

definition flush_root_status :: "event_loop \<Rightarrow> event_loop io" where
  "flush_root_status l =
     (if \<not> root_status_pending l \<or> completion_transfer l \<noteq> None then ret l
      else
        bind try_lock_delivery (\<lambda>locked.
          if \<not> locked then ret l
          else
            bind (store_root_status (root_exit l)) (\<lambda>m.
              ret (l\<lparr>loop_meta := m, root_status_pending := False\<rparr>))))"

definition record_root_status :: "int \<Rightarrow> event_loop \<Rightarrow> event_loop io" where
  "record_root_status st l =
     flush_root_status
       (l\<lparr>root_exit := Some (status_to_root_status st), root_status_pending := True, root_pidfd := False\<rparr>)"

definition ECHILD :: int where "ECHILD = 10"

fun reap_loop :: "nat \<Rightarrow> event_loop \<Rightarrow> event_loop io" where
  "reap_loop 0 l = halt"
| "reap_loop (Suc n) l =
     bind (ask_loop waitable) (\<lambda>r.
       case r of
         Inr (Some (p, st)) \<Rightarrow>
           bind (integrate_reaped_transfer p st l) (\<lambda>l1.
             bind (if p = root_pid l1 then record_root_status st l1 else ret l1) (reap_loop n))
       | Inr None \<Rightarrow> bind (ask_loop only_child) (\<lambda>b. ret (l\<lparr>tree_empty := b\<rparr>))
       | Inl e \<Rightarrow>
           if raw_os_error e = Some ECHILD then ret (l\<lparr>tree_empty := True\<rparr>)
           else if kind e = Interrupted then reap_loop n l
           else raise e)"

definition reap_children :: "event_loop \<Rightarrow> event_loop io" where
  "reap_children l w = reap_loop (patience (env w)) l w"

definition handle_sigchld :: "event_loop \<Rightarrow> event_loop io" where
  "handle_sigchld l =
     bind (ask_loop usr1_seen) (\<lambda>b.
       bind (if b then check_explicit_cancel l else ret l) reap_children)"

subsection \<open>Publication from the loop\<close>

text \<open>
  For a source of the v2 protocol the event is also selected and projected by \<^verbatim>\<open>continuation\<close>; what those
  calls answer is the environment's.
\<close>

definition select_initial_source_event :: "event_loop \<Rightarrow> unit io" where
  "select_initial_source_event l =
     (case pending_source l of
        None \<Rightarrow> ret ()
      | Some _ \<Rightarrow> seq lock_completion (bind ask_v2 (\<lambda>_. ret ())))"

definition retry_source_publication :: "event_loop \<Rightarrow> event_loop io" where
  "retry_source_publication l =
     (case pending_source l of
        None \<Rightarrow> ret l
      | Some p \<Rightarrow>
          bind (ask clock) (\<lambda>now.
            if now < retry_at p then ret l
            else
              handle_err (bind try_lock_completion (\<lambda>locked. if \<not> locked then ret False else ask_v2))
                (\<lambda>e. bind (ask_loop missing_recorded) (\<lambda>missing.
                   if missing then ret (mark_completion_delivery_settled (l\<lparr>pending_source := None\<rparr>))
                   else bind (ask clock) (\<lambda>later.
                     seq (ignore_err (atomic_write (Extra ''source-publication-error.txt'')
                            (Text (to_string e @ [CHR 0x0A]))))
                       (ret (l\<lparr>pending_source := Some (p\<lparr>retry_at := later + 1000\<rparr>)\<rparr>)))))
                (\<lambda>ok. ret (if ok then l\<lparr>pending_source := None\<rparr> else l))))"

definition begin_source :: "string \<Rightarrow> int option \<Rightarrow> bool \<Rightarrow> bool \<Rightarrow> event_loop \<Rightarrow> event_loop io" where
  "begin_source src_kind status drained_tree closed l =
     bind v2_enabled (\<lambda>v2. bind (ask clock) (\<lambda>now.
       (let l1 = l\<lparr>pending_source :=
              (if v2 then Some \<lparr>retry_at = now, source_kind = src_kind, root_wait_status = status,
                 tree_drained_then = drained_tree, output_closed_then = closed\<rparr> else None)\<rparr>
        in seq (select_initial_source_event l1) (retry_source_publication l1))))"

definition integrate_terminal_publication :: "publish_result \<Rightarrow> event_loop \<Rightarrow> event_loop io" where
  "integrate_terminal_publication result l =
     (case result of
        Published \<Rightarrow> retry_root_terminal (l\<lparr>completion_recorded := True\<rparr>)
      | PublicationDeferred \<Rightarrow> request_cancellation ExplicitRequest l)"

definition publish_in_loop :: "bool \<Rightarrow> event_loop \<Rightarrow> terminal_proposal \<Rightarrow> (publish_result \<times> event_loop) io" where
  "publish_in_loop role l proposal =
     bind (publish_terminal_with_delivery_disposition role (loop_meta l) True proposal (LiveLoop (tree_empty l)))
       (\<lambda>(result, m). ret (result, l\<lparr>loop_meta := m\<rparr>))"

definition publish_ready_sentinel :: "bool \<Rightarrow> nat \<Rightarrow> event_loop \<Rightarrow> event_loop io" where
  "publish_ready_sentinel role at l =
     bind (publish_in_loop role l (ReadySentinel at)) (\<lambda>(result, l1).
       bind (if result = Published \<and> completion_reason (loop_meta l1) = Some ''ready-sentinel''
             then begin_source ''ready'' None False False l1 else ret l1)
         (integrate_terminal_publication result))"

definition record_ready_sentinel :: "bool \<Rightarrow> event_loop \<Rightarrow> event_loop io" where
  "record_ready_sentinel role l =
     (if \<not> root_settlement_granted l
      then bind (case deferred_ready_at l of Some t \<Rightarrow> ret t | None \<Rightarrow> unix_ms) (\<lambda>t.
             announce_root_local_ready (l\<lparr>deferred_ready_at := Some t\<rparr>))
      else bind unix_ms (\<lambda>t. publish_ready_sentinel role t l))"

definition retry_deferred_ready :: "bool \<Rightarrow> event_loop \<Rightarrow> event_loop io" where
  "retry_deferred_ready role l =
     (case deferred_ready_at l of
        None \<Rightarrow> ret l
      | Some at \<Rightarrow>
          if \<not> root_settlement_granted l then ret l
          else publish_ready_sentinel role at (l\<lparr>deferred_ready_at := None\<rparr>))"

definition record_exit_completion :: "bool \<Rightarrow> root_status \<Rightarrow> exit_completion_reason \<Rightarrow> event_loop \<Rightarrow> event_loop io" where
  "record_exit_completion role rs reason l =
     bind (publish_in_loop role l (ExitProposal rs reason)) (\<lambda>(result, l1).
       bind (if result = Published
             then begin_source
                    (if (case completion_reason (loop_meta l1) of None \<Rightarrow> False
                         | Some r \<Rightarrow> cause_from_completion_reason r \<noteq> None) then ''cancelled''
                     else if scope l1 = RootScope then ''exit_root'' else ''exit_tree'')
                    (Some (rs_raw rs)) (tree_empty l1) (output_closed l1) l1
             else ret l1)
         (integrate_terminal_publication result))"

definition record_supervisor_error_in_loop :: "bool \<Rightarrow> string \<Rightarrow> event_loop \<Rightarrow> event_loop io" where
  "record_supervisor_error_in_loop role message l =
     bind (publish_in_loop role l (SupervisorError message)) (\<lambda>(result, l1).
       bind (if result = Published \<and> tree_empty l1 \<and> output_closed l1
             then begin_source ''ceased_status_unknown'' None True True l1 else ret l1)
         (integrate_terminal_publication result))"

definition maybe_finish :: "bool \<Rightarrow> event_loop \<Rightarrow> event_loop io" where
  "maybe_finish role l =
     (case finish_decision l of
        NoFinish \<Rightarrow> ret l
      | d \<Rightarrow>
          if \<not> root_settlement_granted l then announce_root_local_ready l
          else (case d of
                  NoFinish \<Rightarrow> ret l
                | FinishSpawnError message \<Rightarrow>
                    record_supervisor_error_in_loop role
                      (case capture_error l of Some e \<Rightarrow> e | None \<Rightarrow> message) l
                | FinishExit rs reason \<Rightarrow>
                    (case capture_error l of
                       Some message \<Rightarrow> record_supervisor_error_in_loop role message l
                     | None \<Rightarrow> record_exit_completion role rs reason l)))"

subsection \<open>Output\<close>

datatype fd_read = FdBytes bytes | FdClosed | FdPending

definition EAGAIN :: int where "EAGAIN = 11"

definition read_fd_chunk :: "fd_read io" where
  "read_fd_chunk =
     bind (ask_loop descriptor_read) (\<lambda>r.
       case r of
         Inr bs \<Rightarrow> ret (if bs \<noteq> [] then FdBytes (take 8192 bs) else FdClosed)
       | Inl e \<Rightarrow>
           if raw_os_error e = Some EAGAIN then ret FdPending
           else if kind e = Interrupted then ret FdPending
           else raise e)"

text \<open>The chunks read, and whether the descriptor was closed.\<close>

definition read_available :: "(bytes list \<times> bool) io" where
  "read_available =
     bind read_fd_chunk (\<lambda>r. ret (case r of FdBytes bs \<Rightarrow> ([bs], False) | FdClosed \<Rightarrow> ([], True) | FdPending \<Rightarrow> ([], False)))"

definition stdout_reaches_sentinel :: "bytes \<Rightarrow> event_loop \<Rightarrow> bool \<times> event_loop" where
  "stdout_reaches_sentinel bs l =
     (case sentinel l of
        None \<Rightarrow> (False, l)
      | Some matcher \<Rightarrow>
          if completion_recorded l then (False, l)
          else (case push_stdout matcher bs of (hit, matcher') \<Rightarrow> (hit, l\<lparr>sentinel := Some matcher'\<rparr>)))"

definition write_log :: "bytes \<Rightarrow> event_loop \<Rightarrow> (event_loop \<Rightarrow> event_loop io) \<Rightarrow> event_loop io" where
  "write_log bs l continue =
     bind (ask_loop log_error) (\<lambda>r.
       case r of
         None \<Rightarrow> continue (l\<lparr>log_bytes := log_bytes l @ bs\<rparr>)
       | Some e \<Rightarrow> record_capture_failure e l)"

definition handle_stdout_bytes :: "bool \<Rightarrow> bytes \<Rightarrow> event_loop \<Rightarrow> event_loop io" where
  "handle_stdout_bytes role bs l =
     (if capture_error l \<noteq> None then ret l
      else write_log bs l (\<lambda>l1.
        case stdout_reaches_sentinel bs l1 of
          (hit, l2) \<Rightarrow> if hit then record_ready_sentinel role l2 else ret l2))"

fun handle_stdout_chunks :: "bool \<Rightarrow> bytes list \<Rightarrow> event_loop \<Rightarrow> event_loop io" where
  "handle_stdout_chunks role [] l = ret l"
| "handle_stdout_chunks role (bs # rest) l = bind (handle_stdout_bytes role bs l) (handle_stdout_chunks role rest)"

definition read_stdout :: "bool \<Rightarrow> event_loop \<Rightarrow> event_loop io" where
  "read_stdout role l =
     (if \<not> stdout_fd l then ret l
      else bind read_available (\<lambda>(chunks, closed).
        bind (handle_stdout_chunks role chunks l) (\<lambda>l1. ret (if closed then l1\<lparr>stdout_fd := False\<rparr> else l1))))"

fun write_stderr_chunks :: "bytes list \<Rightarrow> event_loop \<Rightarrow> event_loop io" where
  "write_stderr_chunks [] l = ret l"
| "write_stderr_chunks (bs # rest) l =
     bind (if capture_error l = None then write_log bs l ret else ret l) (write_stderr_chunks rest)"

definition read_stderr :: "event_loop \<Rightarrow> event_loop io" where
  "read_stderr l =
     (if \<not> stderr_fd l then ret l
      else bind read_available (\<lambda>(chunks, closed).
        bind (write_stderr_chunks chunks l) (\<lambda>l1. ret (if closed then l1\<lparr>stderr_fd := False\<rparr> else l1))))"

text \<open>\<^verbatim>\<open>exec_error_errno\<close>: exactly four bytes, a native-endian \<^verbatim>\<open>i32\<close>; \<open>strerror\<close> is the system's text for it.\<close>

definition exec_error_errno :: "bytes \<Rightarrow> int option" where
  "exec_error_errno bs =
     (case map of_char bs :: int list of
        [a, b, c, d] \<Rightarrow>
          (let v = a + 256 * b + 65536 * c + 16777216 * d in Some (if v \<ge> 2147483648 then v - 4294967296 else v))
      | _ \<Rightarrow> None)"

definition exec_error_message :: "(int \<Rightarrow> string) \<Rightarrow> bytes \<Rightarrow> string" where
  "exec_error_message strerror bs =
     (case exec_error_errno bs of Some n \<Rightarrow> strerror n | None \<Rightarrow> ''exec setup failed'')"

definition read_exec_error :: "(int \<Rightarrow> string) \<Rightarrow> event_loop \<Rightarrow> event_loop io" where
  "read_exec_error strerror l =
     (if \<not> exec_err_fd l then ret l
      else handle_err read_available
        (\<lambda>e. ret (l\<lparr>spawn_error := Some (to_string e), exec_err_fd := False\<rparr>))
        (\<lambda>(chunks, closed).
           (let l1 = (case rev chunks of [] \<Rightarrow> l | bs # _ \<Rightarrow> l\<lparr>spawn_error := Some (exec_error_message strerror bs)\<rparr>)
            in ret (if closed then l1\<lparr>exec_err_fd := False\<rparr> else l1))))"

definition recover_image_service :: "event_loop \<Rightarrow> event_loop io" where
  "recover_image_service l =
     bind (ask_loop image_error) (\<lambda>r.
       case r of
         None \<Rightarrow> ret l
       | Some e \<Rightarrow>
           if capture_error l = None
           then write_log (''image custodian recovery spawn failed (will retry): '' @ to_string e @ [CHR 0x0A]) l ret
           else ret l)"

subsection \<open>The loop\<close>

definition dispatch_poll_key :: "(int \<Rightarrow> string) \<Rightarrow> bool \<Rightarrow> poll_key \<Rightarrow> event_loop \<Rightarrow> event_loop io" where
  "dispatch_poll_key strerror role k l =
     (case k of
        PollStdout \<Rightarrow> read_stdout role l
      | PollStderr \<Rightarrow> read_stderr l
      | PollExecErr \<Rightarrow> read_exec_error strerror l
      | PollSigchld \<Rightarrow> handle_sigchld l
      | PollPidfd \<Rightarrow> reap_children l
      | PollOwnerPidfd \<Rightarrow> request_cancellation OwnerExit (close_owner_pidfd l)
      | PollCgroup \<Rightarrow> ret l
      | PollRootControl \<Rightarrow> read_root_control l)"

fun dispatch_keys :: "(int \<Rightarrow> string) \<Rightarrow> bool \<Rightarrow> poll_key list \<Rightarrow> event_loop \<Rightarrow> event_loop io" where
  "dispatch_keys strerror role [] l = ret l"
| "dispatch_keys strerror role (k # ks) l =
     bind (dispatch_poll_key strerror role k l) (dispatch_keys strerror role ks)"

text \<open>The entries that \<^verbatim>\<open>poll\<close> reports, in the order of the entries.\<close>

definition poll_and_dispatch :: "(int \<Rightarrow> string) \<Rightarrow> bool \<Rightarrow> bool \<Rightarrow> event_loop \<Rightarrow> event_loop io" where
  "poll_and_dispatch strerror role cgroup_fd l =
     bind (ask_loop ready_keys) (\<lambda>r.
       case r of
         Inl e \<Rightarrow> raise e
       | Inr ready \<Rightarrow> dispatch_keys strerror role (filter (\<lambda>k. k \<in> set ready) (poll_entries l cgroup_fd)) l)"

definition loop_duties :: "bool \<Rightarrow> event_loop \<Rightarrow> event_loop io" where
  "loop_duties role l =
     bind (check_explicit_cancel l) (\<lambda>l.
     bind (check_polled_owner l) (\<lambda>l.
     bind (drive_cancellation l) (\<lambda>l.
     bind (recover_image_service l) (\<lambda>l.
     bind (retry_root_terminal l) (\<lambda>l.
     bind (retry_deferred_ready role l) (\<lambda>l.
     bind (maybe_finish role l) (\<lambda>l.
     seq (if tree_empty l \<and> output_closed l
          then bind explicit_cancel_accepted (\<lambda>a. if a then record_cancellation_drained else ret ())
          else ret ())
    (bind (retry_source_publication l) (\<lambda>l.
     bind (retry_completion_integration l) (\<lambda>l.
     bind (drive_completion_delivery role l)
       flush_root_status))))))))))"

text \<open>
  \<^verbatim>\<open>event_loop\<close>, with a bound on the iterations; running out of it stands for a loop that is still going.
\<close>

fun run_event_loop :: "(int \<Rightarrow> string) \<Rightarrow> bool \<Rightarrow> bool \<Rightarrow> nat \<Rightarrow> event_loop \<Rightarrow> event_loop io" where
  "run_event_loop strerror role cgroup_fd 0 l = halt"
| "run_event_loop strerror role cgroup_fd (Suc n) l =
     bind (loop_duties role l) (\<lambda>l.
       if should_exit l
       then
         if tree_empty l
         then handle_err end_physical_custody
                (\<lambda>e. if kind e = WouldBlock then run_event_loop strerror role cgroup_fd n l else raise e)
                (\<lambda>_. ret l)
         else ret l
       else bind (poll_and_dispatch strerror role cgroup_fd l) (run_event_loop strerror role cgroup_fd n))"

definition event_loop_exit_code :: "io_error + unit \<Rightarrow> int" where
  "event_loop_exit_code r = (case r of Inr _ \<Rightarrow> 0 | Inl _ \<Rightarrow> EX_SOFTWARE)"

end
