(* ===== verification/Delivery_Protocol.thy ===== *)
theory Delivery_Protocol
  imports Delivery
begin

section \<open>At-most-once delivery\<close>

text \<open>
  The guarantees of the transfer protocol over whole histories. Completion and activation
  operations run one after the other, because each holds the delivery lock from its first read to
  its last write; each may meet any I/O errors and any process may die anywhere. The invariants
  say how the durable files bound the number of helper processes started so far.
\<close>

subsection \<open>Operations that leave an invariant alone\<close>

lemma keeps_halt: "keeps I (\<lambda>w. (Halted, w))"
  by (auto intro!: keepsI spec_halt)

lemma keeps_flock_wait [keeps_rules]: "keeps I (flock_wait n)"
  by (auto intro!: keepsI spec_flock_wait)

lemma keeps_patience: "(\<And>n. keeps I (m n)) \<Longrightarrow> keeps I (\<lambda>w. m (patience (env w)) w)"
  unfolding keeps_def by (intro allI impI spec_patience [where m = m]) blast

lemma keeps_lock_file_exclusive [keeps_rules]: "keeps I lock_file_exclusive"
  unfolding lock_file_exclusive_def [abs_def]
  by (rule keeps_patience [where m = flock_wait]) (rule keeps_flock_wait)

lemma keeps_retry_interrupted [keeps_rules]: "keeps I retry_interrupted"
  unfolding retry_interrupted_def [abs_def]
  by (rule keeps_patience [where m = flock_wait]) (rule keeps_flock_wait)

lemma keeps_try_lock_file:
  assumes "ignores I f" and "\<not> is_tmp f"
  shows "keeps I (try_lock_file f)"
  unfolding try_lock_file_def
proof (intro keeps_bind keeps_open_create)
  show "keeps I (\<lambda>w. try_flock (patience (env w)) w)"
    by (rule keeps_patience [where m = try_flock]) (auto intro!: keepsI spec_try_flock)
qed (use assms in auto)

lemma keeps_read_file_text [keeps_rules]: "\<not> is_tmp f \<Longrightarrow> keeps I (read_file_text f)"
  unfolding read_file_text_def text_of_def by (intro keeps_rules)

lemma keeps_read_meta [keeps_rules]: "keeps I read_meta"
  unfolding read_meta_def by (intro keeps_rules) simp

lemma keeps_read_delivery_mode [keeps_rules]: "keeps I read_delivery_mode"
  unfolding read_delivery_mode_def by (intro keeps_rules) simp

lemma keeps_atomic_write [keeps_rules]: "ignores I f \<Longrightarrow> \<not> is_tmp f \<Longrightarrow> keeps I (atomic_write f c)"
  by (auto intro!: keepsI spec_atomic_write dest: ignoresD)

lemma keeps_durable_marker_exists [keeps_rules]: "\<not> is_tmp f \<Longrightarrow> keeps I (durable_marker_exists f)"
  by (auto intro!: keepsI spec_durable_marker_exists)

lemma keeps_rollback [keeps_rules]: "ignores I f \<Longrightarrow> \<not> is_tmp f \<Longrightarrow> keeps I (rollback_created_marker f)"
  by (auto intro!: keepsI spec_rollback dest: ignoresD)

lemma keeps_record_marker [keeps_rules]:
  "ignores I f \<Longrightarrow> \<not> is_tmp f \<Longrightarrow> keeps I (record_durable_create_once_marker f)"
  by (auto intro!: keepsI spec_record_marker dest: ignoresD)

lemma keeps_activation_transfer_state [keeps_rules]: "keeps I activation_transfer_state"
  unfolding activation_transfer_state_def read_activation_outcome_def by (intro keeps_rules) simp_all

lemma keeps_boot_custody [keeps_rules]: "\<not> is_tmp f \<Longrightarrow> keeps I (boot_custody_may_remain f b)"
  unfolding boot_custody_may_remain_def by (intro keeps_rules)

lemma keeps_touch_now [keeps_rules]: "keeps I (touch_now m)"
  unfolding touch_now_def by (intro keeps_rules)

lemma keeps_v2 [keeps_rules]: "keeps I v2_enabled" "keeps I ask_v2" "keeps I (try_exists SNAPSHOT)"
  unfolding v2_enabled_def ask_v2_def try_exists_def REGISTRATION_def SNAPSHOT_def
  by (intro keeps_rules; simp)+

lemma keeps_delivery_request [keeps_rules]: "keeps I (delivery_request m)"
  unfolding delivery_request_def from_provenance_def by (intro keeps_rules)

lemma keeps_require_settled [keeps_rules]: "keeps I require_settled_activation"
  unfolding require_settled_activation_def
  by (intro keeps_bind keeps_rules) (auto split: activation_outcome.splits intro: keeps_rules)

lemma keeps_observed_delivery_mode [keeps_rules]: "keeps I observed_delivery_mode"
  unfolding observed_delivery_mode_def by (intro keeps_rules)

text \<open>Invariants that ignore the bookkeeping files of external-transfer custody.\<close>

definition ignores_custody :: "(view \<Rightarrow> bool) \<Rightarrow> bool" where
  "ignores_custody I \<longleftrightarrow> ignores I (F ExternalTransferCustody) \<and> ignores I cleanup_error_file"

lemma keeps_begin_external [keeps_rules]:
  "ignores_custody I \<Longrightarrow> keeps I begin_external_transfer_custody"
  unfolding begin_external_transfer_custody_def ignores_custody_def by (intro keeps_rules) auto

lemma keeps_end_external [keeps_rules]: "ignores_custody I \<Longrightarrow> keeps I end_external_transfer_custody"
  unfolding end_external_transfer_custody_def ignores_custody_def by (intro keeps_rules) auto

lemma keeps_record_cleanup_error [keeps_rules]:
  "ignores_custody I \<Longrightarrow> keeps I (record_external_custody_cleanup_error e)"
  unfolding record_external_custody_cleanup_error_def ignores_custody_def
  by (intro keeps_rules) (auto simp: cleanup_error_file_def)

lemma keeps_report_cleanup [keeps_rules]:
  "ignores_custody I \<Longrightarrow> keeps I (report_external_custody_cleanup end_external_transfer_custody)"
  unfolding report_external_custody_cleanup_def by (intro keeps_rules)

subsection \<open>Starting the helper\<close>

abbreviation started :: "string \<Rightarrow> view \<Rightarrow> view" where
  "started op s \<equiv> s\<lparr>vspawned := vspawned s @ [op]\<rparr>"

lemma spec_may_stop: "Q () s \<Longrightarrow> H s \<Longrightarrow> spec may_stop s Q E H"
  by (simp add: spec_def may_stop_def split: fault.splits)

lemma spec_log_spawn: "Q () (started op s) \<Longrightarrow> spec (log_spawn op) s Q E H"
  by (auto simp: spec_def log_spawn_def view_of_def)

lemma spec_spawn_helper:
  assumes "\<And>e. Q (SpawnFails e) s" and "\<And>r. (\<forall>e. r \<noteq> SpawnFails e) \<Longrightarrow> Q r (started op s)"
    and "H s" and "H (started op s)"
  shows "spec (spawn_helper op) s Q E H"
  unfolding spawn_helper_def
  by (intro spec_bind spec_may_stop spec_ask)
    (auto split: helper_reply.splits intro!: spec_ret spec_bind spec_log_spawn spec_may_stop assms)

lemma spec_wait_delivery_helper:
  assumes "\<And>e. Q (Inl (NotStarted e)) s" and "\<And>e. Q (Inl (Admitted e)) (started op s)"
    and "\<And>x. Q (Inr x) (started op s)" and "H s" and "H (started op s)"
  shows "spec (wait_delivery_helper op) s Q E H"
  unfolding wait_delivery_helper_def
  by (intro spec_bind spec_spawn_helper)
    (auto split: helper_reply.splits intro!: spec_ret assms)

text \<open>
  The helper's result and the log of starts agree: \<open>NotStarted\<close> means no process was started by
  this run, everything else means exactly one was.
\<close>

lemma spec_with_custody:
  assumes keep: "ignores_custody P" "\<And>r. ignores_custody (R r)" and "P s"
    and op: "\<And>t. P t \<Longrightarrow> spec operation t R E H"
    and "\<And>e t. P t \<Longrightarrow> R (Inl (NotStarted e)) t"
    and pre: "\<And>t. P t \<Longrightarrow> H t" and post: "\<And>r t. R r t \<Longrightarrow> H t" "\<And>r e t. R r t \<Longrightarrow> E e t"
  shows "spec (with_external_transfer_custody c operation) s R E H"
proof (cases c)
  case False
  then show ?thesis using op assms(3) by (simp add: with_external_transfer_custody_def)
next
  case True
  have cleanup: "spec (seq (if b then report_external_custody_cleanup end_external_transfer_custody else ret ()) (ret r)) t R E H"
    if "R r t" for b r t
  proof -
    have "keeps (R r) (if b then report_external_custody_cleanup end_external_transfer_custody else ret ())"
      by (intro keeps_rules keep)
    from keepsD [OF this that] show ?thesis
      by (intro spec_bind, elim spec_mono) (auto intro: spec_ret post)
  qed
  have enter: "spec begin_external_transfer_custody s (\<lambda>_. P) (\<lambda>_. P) P"
    by (intro keepsD [OF keeps_begin_external] keep assms(3))
  have "spec (handle_err begin_external_transfer_custody (\<lambda>e. ret (Inl (NotStarted e)))
     (\<lambda>owned. bind operation (\<lambda>result.
        seq (if owned \<and> \<not> is_admitted_error result
             then report_external_custody_cleanup end_external_transfer_custody else ret ()) (ret result)))) s R E H"
    by (intro spec_handle_err spec_mono [OF enter])
      (auto intro!: spec_ret spec_bind cleanup assms(5) pre intro: spec_mono [OF op])
  with True show ?thesis by (simp add: with_external_transfer_custody_def)
qed

subsection \<open>The completion invariant\<close>

definition completes :: "view \<Rightarrow> nat" where
  "completes s = count_list (vspawned s) ''complete''"

text \<open>
  What a delivery record says about the number \<open>n\<close> of completion helpers started: a record that
  permits another attempt means none was started, and a failure that may be retried is the first.
\<close>

definition honest_record :: "nat \<Rightarrow> completion_delivery \<Rightarrow> bool" where
  "honest_record n d \<longleftrightarrow>
     retry_count d \<le> 1 \<and> (permits_attempt (completion_lifecycle d) \<longrightarrow> n = 0) \<and>
     (completion_lifecycle d = RetryablePreAdmissionFailure \<longrightarrow> retry_count d = 0)"

definition completion_inv :: "view \<Rightarrow> bool" where
  "completion_inv s \<longleftrightarrow>
     completes s \<le> 1 \<and>
     (\<forall>m. vfiles s (F MetaFile) = Some (Regular (Doc m)) \<longrightarrow> honest_record (completes s) (delivery m))"

lemma completes_put [simp]: "completes (put f n s) = completes s"
  by (simp add: completes_def)

lemma completes_started [simp]:
  "completes (started op s) = completes s + (if op = ''complete'' then 1 else 0)"
  by (simp add: completes_def)

lemma completion_inv_ignores [simp]: "f \<noteq> F MetaFile \<Longrightarrow> ignores completion_inv f"
  by (simp add: ignores_def completion_inv_def)

lemmas record_defs =
  completion_lifecycle_def permits_attempt_def admitted_completion_delivery_meta_def
  provisional_completion_delivery_transfer_meta_def completion_delivery_meta_from_status_def
  completion_delivery_meta_from_error_def completion_delivery_meta_from_launch_error_def
  completion_delivery_meta_from_owner_launch_error_def completion_delivery_meta_from_helper_error_def
  completion_delivery_meta_from_unknown_transfer_def DELIVERY_ATTEMPT_IN_PROGRESS_def
  DELIVERY_TRANSFER_OUTCOME_UNKNOWN_def

lemma lifecycle_of_records [simp]:
  "completion_lifecycle (completion_delivery_meta_from_status st) = AdmittedOutcome"
  "completion_lifecycle (completion_delivery_meta_from_error e) = AdmittedOutcome"
  "completion_lifecycle provisional_completion_delivery_transfer_meta = ProvisionalTransfer"
  "completion_lifecycle (completion_delivery_meta_from_unknown_transfer e n) = NonReplayableUnknownTransfer"
  "completion_lifecycle (completion_delivery_meta_from_launch_error e n) =
     (if n = 0 then RetryablePreAdmissionFailure else ClosedPreAdmissionFailure)"
  "completion_lifecycle (completion_delivery_meta_from_owner_launch_error e n) =
     (if n = 0 then RetryablePreAdmissionFailure else ClosedPreAdmissionFailure)"
  by (simp_all add: record_defs split: option.splits)

lemma lifecycle_of_helper_error:
  "completion_lifecycle (completion_delivery_meta_from_helper_error e n) =
     (if (he_code e = DELIVERY_HELPER_UNAVAILABLE \<or> he_code e = DELIVERY_HELPER_CHANGED) \<and> n = 0
      then RetryablePreAdmissionFailure else ClosedPreAdmissionFailure)"
  by (auto simp: record_defs Let_def)

lemma retry_count_of_records [simp]:
  "retry_count (completion_delivery_meta_from_status st) = 0"
  "retry_count (completion_delivery_meta_from_error e) = 0"
  "retry_count provisional_completion_delivery_transfer_meta = 0"
  "retry_count (completion_delivery_meta_from_unknown_transfer e n) = n"
  "retry_count (completion_delivery_meta_from_launch_error e n) = n"
  "retry_count (completion_delivery_meta_from_owner_launch_error e n) = n"
  "retry_count (completion_delivery_meta_from_helper_error err n) = n"
  by (simp_all add: record_defs Let_def split: option.splits)

lemma honest_records [simp]:
  "honest_record k (completion_delivery_meta_from_status st)"
  "honest_record k (completion_delivery_meta_from_error e)"
  "honest_record k provisional_completion_delivery_transfer_meta"
  "n \<le> 1 \<Longrightarrow> honest_record k (completion_delivery_meta_from_unknown_transfer e n)"
  "n \<le> 1 \<Longrightarrow> honest_record 0 (completion_delivery_meta_from_launch_error e n)"
  "n \<le> 1 \<Longrightarrow> honest_record 0 (completion_delivery_meta_from_owner_launch_error e n)"
  "n \<le> 1 \<Longrightarrow> honest_record 0 (completion_delivery_meta_from_helper_error err n)"
  by (auto simp: honest_record_def permits_attempt_def lifecycle_of_helper_error)

lemma spec_write_meta:
  assumes "\<And>d. Q () (put (F MetaFile) (Some (Regular (Doc (m\<lparr>delivery_mode := d\<rparr>)))) s)"
    and "\<And>e. E e s" and "\<And>e d. E e (put (F MetaFile) (Some (Regular (Doc (m\<lparr>delivery_mode := d\<rparr>)))) s)"
    and "H s" and "\<And>d. H (put (F MetaFile) (Some (Regular (Doc (m\<lparr>delivery_mode := d\<rparr>)))) s)"
  shows "spec (write_meta_atomic m) s Q E H"
proof -
  have "m\<lparr>delivery_mode := delivery_mode m\<rparr> = m" by simp
  then show ?thesis
    unfolding write_meta_atomic_def
    by (intro spec_handle_err spec_read_delivery_mode spec_atomic_write)
      (use assms in \<open>auto intro!: spec_atomic_write simp: assms(1) [of "delivery_mode m", simplified]
        assms(3) [of _ "delivery_mode m", simplified] assms(5) [of "delivery_mode m", simplified]\<close>)
qed

lemma completion_inv_written:
  "honest_record (completes s) (delivery m) \<Longrightarrow> completes s \<le> 1 \<Longrightarrow>
     completion_inv (put (F MetaFile) (Some (Regular (Doc (m\<lparr>delivery_mode := d\<rparr>)))) s)"
  by (simp add: completion_inv_def)

lemma keeps_completion_locks [keeps_rules]:
  "keeps completion_inv lock_delivery" "keeps completion_inv lock_completion" "keeps completion_inv try_lock_delivery"
  unfolding lock_delivery_def lock_completion_def try_lock_delivery_def
  by (intro keeps_rules keeps_try_lock_file; simp)+

text \<open>Storing a record keeps the invariant when it is honest about the helpers started.\<close>

lemma spec_store_record:
  assumes "completion_inv s" and "honest_record (completes s) (delivery m)"
  shows "spec (bind (touch_now m) write_meta_atomic) s (\<lambda>_. completion_inv) (\<lambda>_. completion_inv) completion_inv"
proof -
  have le: "completes s \<le> 1" using assms(1) by (simp add: completion_inv_def)
  have "delivery (touch now m) = delivery m" for now by (simp add: touch_def)
  then show ?thesis
    unfolding touch_now_def using assms le
    by (intro spec_bind spec_unix_ms spec_ret spec_write_meta)
      (auto intro: completion_inv_written)
qed

lemma spec_store_record_ret:
  assumes "completion_inv s" and "honest_record (completes s) (delivery m)"
  shows "spec (bind (touch_now m) (\<lambda>m. seq (write_meta_atomic m) (ret m))) s
     (\<lambda>_. completion_inv) (\<lambda>_. completion_inv) completion_inv"
proof -
  have le: "completes s \<le> 1" using assms(1) by (simp add: completion_inv_def)
  have "delivery (touch now m) = delivery m" for now by (simp add: touch_def)
  then show ?thesis
    unfolding touch_now_def using assms le
    by (intro spec_bind spec_unix_ms spec_ret spec_write_meta)
      (auto intro: completion_inv_written spec_ret)
qed

lemma keeps_integrate:
  assumes "n \<le> 1"
  shows "keeps completion_inv (integrate_completion_transfer r n)"
proof (rule keepsI)
  fix s assume inv: "completion_inv s"
  show "spec (integrate_completion_transfer r n) s (\<lambda>_. completion_inv) (\<lambda>_. completion_inv) completion_inv"
    unfolding integrate_completion_transfer_def Let_def
  proof (intro spec_bind spec_read_meta)
    fix m assume "vfiles s (F MetaFile) = Some (Regular (Doc m))"
    with inv have rec: "honest_record (completes s) (delivery m)" by (simp add: completion_inv_def)
    have "completion_lifecycle (delivery m) = Unclaimed \<or>
        completion_lifecycle (delivery m) = RetryablePreAdmissionFailure \<Longrightarrow> completes s = 0"
      using rec by (auto simp: honest_record_def permits_attempt_def)
    then show "spec (case r of Inl err \<Rightarrow>
          if completion_lifecycle (delivery m) = Unclaimed \<or>
             completion_lifecycle (delivery m) = RetryablePreAdmissionFailure
          then bind (touch_now (m\<lparr>delivery := completion_delivery_meta_from_owner_launch_error err n\<rparr>))
            (\<lambda>m. seq (write_meta_atomic m) (ret m))
          else if completion_lifecycle (delivery m) = ProvisionalTransfer
          then bind (touch_now (m\<lparr>delivery := completion_delivery_meta_from_unknown_transfer err n\<rparr>))
            (\<lambda>m. seq (write_meta_atomic m) (ret m))
          else ret m
        | Inr _ \<Rightarrow> ret m) s (\<lambda>_. completion_inv) (\<lambda>_. completion_inv) completion_inv"
      using inv assms by (auto split: sum.splits intro!: spec_store_record_ret spec_ret)
  qed (use inv in auto)
qed

text \<open>The window in which the helper runs: a provisional record stands in the metadata.\<close>

definition in_transfer :: "nat \<Rightarrow> view \<Rightarrow> bool" where
  "in_transfer k s \<longleftrightarrow>
     completes s = k \<and>
     (\<exists>m. vfiles s (F MetaFile) = Some (Regular (Doc m)) \<and>
          delivery m = provisional_completion_delivery_transfer_meta)"

lemma in_transfer_inv: "in_transfer k s \<Longrightarrow> k \<le> 1 \<Longrightarrow> completion_inv s"
  by (auto simp: in_transfer_def completion_inv_def)

lemma in_transfer_ignores: "ignores_custody (in_transfer k)"
  by (simp add: ignores_custody_def ignores_def in_transfer_def cleanup_error_file_def)

lemma in_transfer_started: "in_transfer 0 s \<Longrightarrow> in_transfer 1 (started ''complete'' s)"
  by (simp add: in_transfer_def)

definition starts_of :: "helper_command_error + 'a \<Rightarrow> nat" where
  "starts_of r = (case r of Inl (NotStarted _) \<Rightarrow> 0 | _ \<Rightarrow> 1)"

lemma starts_of_simps [simp]:
  "starts_of (Inl (NotStarted e)) = 0" "starts_of (Inl (Admitted e)) = 1" "starts_of (Inr x) = 1"
  by (simp_all add: starts_of_def)

lemma starts_of_le: "starts_of r \<le> 1"
  by (simp add: starts_of_def split: sum.splits helper_command_error.splits)

lemma spec_run_complete:
  assumes "in_transfer 0 s"
  shows "spec (run_delivery_helper_command ''complete'' c) s
     (\<lambda>r. in_transfer (starts_of r)) (\<lambda>_. completion_inv) completion_inv"
  unfolding run_delivery_helper_command_def
proof (rule spec_with_custody [where P = "in_transfer 0"])
  fix t assume "in_transfer 0 t"
  then show "spec (wait_delivery_helper ''complete'') t (\<lambda>r. in_transfer (starts_of r)) (\<lambda>_. completion_inv) completion_inv"
    using in_transfer_started [of t] in_transfer_inv [of 0 t] in_transfer_inv [of 1 "started ''complete'' t"]
    by (intro spec_wait_delivery_helper) auto
qed (use assms in \<open>auto intro: in_transfer_ignores in_transfer_inv starts_of_le\<close>)

lemma spec_write_provisional:
  assumes "completion_inv s" and "completes s = 0" and "delivery m = provisional_completion_delivery_transfer_meta"
  shows "spec (write_meta_atomic m) s (\<lambda>_. in_transfer 0) (\<lambda>_. completion_inv) completion_inv"
  using assms by (intro spec_write_meta) (auto simp: in_transfer_def intro: completion_inv_written)

lemma spec_final_record:
  assumes "in_transfer (starts_of r) s" and "honest_record (starts_of r) d"
  shows "spec (bind (touch_now (m\<lparr>delivery := d\<rparr>)) write_meta_atomic) s
     (\<lambda>_. completion_inv) (\<lambda>_. completion_inv) completion_inv"
proof (rule spec_store_record)
  show "completion_inv s" using assms(1) starts_of_le by (rule in_transfer_inv)
  show "honest_record (completes s) (delivery (m\<lparr>delivery := d\<rparr>))"
    using assms by (simp add: in_transfer_def)
qed

lemma spec_continuation_record:
  "spec (continuation_record r) t (\<lambda>d u. u = t \<and> honest_record k d) (\<lambda>_ u. u = t) (\<lambda>u. u = t)"
  unfolding continuation_record_def
  by (auto split: sum.splits helper_command_error.splits
      intro!: spec_ret spec_handle_err keeps_spec [OF keeps_v2(2), of "\<lambda>u. u = t"])

lemma honest_completion_record:
  "n \<le> 1 \<Longrightarrow> honest_record (starts_of r) (completion_record r n)"
  by (auto simp: completion_record_def split: sum.splits helper_command_error.splits)

text \<open>The common shape of both transfers: provisional record, helper, final record.\<close>

lemma spec_transfer_body:
  assumes "completion_inv s" and "completes s = 0" and "delivery m1 = provisional_completion_delivery_transfer_meta"
    and tail: "\<And>r t. in_transfer (starts_of r) t \<Longrightarrow>
      spec (f r) t (\<lambda>_. completion_inv) (\<lambda>_. completion_inv) completion_inv"
  shows "spec (seq (write_meta_atomic m1) (bind (run_delivery_helper_command ''complete'' external) f)) s
     (\<lambda>_. completion_inv) (\<lambda>_. completion_inv) completion_inv"
  by (intro spec_bind spec_mono [OF spec_write_provisional [OF assms(1-3)]] spec_bind)
    (auto intro!: tail intro: spec_mono [OF spec_run_complete])

lemma spec_continuation_transfer:
  assumes "completion_inv s" and "completes s = 0"
  shows "spec (execute_continuation_transfer m external) s (\<lambda>_. completion_inv) (\<lambda>_. completion_inv) completion_inv"
proof -
  have tail: "spec (bind (continuation_record r) (\<lambda>d. bind (touch_now (m1\<lparr>delivery := d\<rparr>)) write_meta_atomic)) t
      (\<lambda>_. completion_inv) (\<lambda>_. completion_inv) completion_inv"
    if "in_transfer (starts_of r) t" for r m1 t
    by (rule spec_bind, rule spec_mono [OF spec_continuation_record [of _ _ "starts_of r"]])
      (use spec_final_record [OF that] in_transfer_inv [OF that starts_of_le] in auto)
  show ?thesis
    unfolding execute_continuation_transfer_def Let_def
    by (intro spec_bind keeps_spec [OF keeps_delivery_request, of "\<lambda>t. t = s"])
      (use assms in \<open>auto split: sum.splits intro!: spec_raise spec_transfer_body tail\<close>)
qed

lemma spec_touched_transfer_body:
  assumes "completion_inv s" and "completes s = 0" and "delivery m0 = provisional_completion_delivery_transfer_meta"
    and tail: "\<And>m1 r t. in_transfer (starts_of r) t \<Longrightarrow>
      spec (f m1 r) t (\<lambda>_. completion_inv) (\<lambda>_. completion_inv) completion_inv"
  shows "spec (bind (touch_now m0) (\<lambda>m1.
      seq (write_meta_atomic m1) (bind (run_delivery_helper_command ''complete'' external) (f m1)))) s
     (\<lambda>_. completion_inv) (\<lambda>_. completion_inv) completion_inv"
proof -
  have "delivery (touch now m0) = provisional_completion_delivery_transfer_meta" for now
    using assms(3) by (simp add: touch_def)
  then have "spec (seq (write_meta_atomic (touch now m0))
      (bind (run_delivery_helper_command ''complete'' external) (f (touch now m0)))) s
     (\<lambda>_. completion_inv) (\<lambda>_. completion_inv) completion_inv" for now
    by (rule spec_transfer_body [OF assms(1,2)]) (rule tail)
  then show ?thesis
    unfolding touch_now_def by (intro spec_bind [of "bind _ _"] spec_bind [of unix_ms] spec_unix_ms spec_ret)
qed

lemma spec_completion_transfer:
  assumes "completion_inv s" and "completes s = 0" and "n \<le> 1"
  shows "spec (execute_completion_transfer m n external) s (\<lambda>_. completion_inv) (\<lambda>_. completion_inv) completion_inv"
proof -
  have failed: "spec (bind (touch_now (m\<lparr>delivery := completion_delivery_meta_from_helper_error err n\<rparr>)) write_meta_atomic)
      s (\<lambda>_. completion_inv) (\<lambda>_. completion_inv) completion_inv" for err
    using assms by (intro spec_store_record) simp_all
  have attempt: "spec (bind (touch_now (m\<lparr>delivery := provisional_completion_delivery_transfer_meta\<rparr>)) (\<lambda>m1.
          seq (write_meta_atomic m1) (bind (run_delivery_helper_command ''complete'' external) (\<lambda>r.
            bind (touch_now (m1\<lparr>delivery := completion_record r n\<rparr>)) write_meta_atomic)))) s
      (\<lambda>_. completion_inv) (\<lambda>_. completion_inv) completion_inv"
    using assms spec_final_record [OF _ honest_completion_record [OF assms(3)]]
    by (intro spec_touched_transfer_body) simp_all
  show ?thesis
    unfolding execute_completion_transfer_def
    by (rule spec_bind, rule keeps_spec [OF keeps_v2(1), of "\<lambda>t. t = s"],
        simp_all add: assms spec_continuation_transfer,
        intro impI spec_bind [of "delivery_request m"] keeps_spec [OF keeps_delivery_request, of "\<lambda>t. t = s"])
      (use assms failed attempt in \<open>simp_all split: sum.splits\<close>)
qed

abbreviation yields :: "'a io \<Rightarrow> view \<Rightarrow> (view \<Rightarrow> bool) \<Rightarrow> bool" where
  "yields m s I \<equiv> spec m s (\<lambda>_. I) (\<lambda>_. I) I"

text \<open>A state in which no completion helper was started and the record is honest.\<close>

definition untried :: "view \<Rightarrow> bool" where
  "untried s \<longleftrightarrow> completion_inv s \<and> completes s = 0"

lemma spec_completion_child:
  assumes "untried s" and "n \<le> 1"
  shows "yields (completion_child m n external role) s completion_inv"
proof -
  have inv: "completion_inv s" and none: "completes s = 0" using assms by (simp_all add: untried_def)
  have direct: "yields (execute_completion_transfer m n external) s completion_inv"
    using inv none assms(2) by (rule spec_completion_transfer)
  have "yields (in_worker (execute_completion_transfer m n external)) s completion_inv"
    using direct by (intro spec_in_worker)
  then have custodian: "yields (run_custodian (execute_completion_transfer m n external)
      (\<lambda>st. bind (integrate_completion_transfer (transfer_status st) n) (\<lambda>_. ret ()))) s completion_inv"
    unfolding run_custodian_def
    by (intro spec_bind spec_sync)
      (auto intro: inv intro!: keepsD [OF keeps_bind [OF keeps_integrate keeps_ret]] assms(2) elim!: spec_mono)
  show ?thesis
    unfolding completion_child_def by (intro spec_bind spec_sync spec_if direct custodian) (auto intro: inv)
qed

text \<open>A started transfer leaves the state untried and its retry count at most one.\<close>

definition start_post :: "completion_start \<times> meta option \<Rightarrow> view \<Rightarrow> bool" where
  "start_post r s \<longleftrightarrow>
     completion_inv s \<and> (case fst r of Running n _ \<Rightarrow> untried s \<and> n \<le> 1 | _ \<Rightarrow> True)"

lemma spec_settle_provisional:
  assumes "completion_inv s" and "retry_count (delivery m) \<le> 1"
  shows "spec (settle_provisional m) s
     (\<lambda>r t. completion_inv t \<and> (completion_lifecycle (delivery m) \<noteq> ProvisionalTransfer \<longrightarrow> t = s))
     (\<lambda>_. completion_inv) completion_inv"
proof (cases "completion_lifecycle (delivery m) = ProvisionalTransfer")
  case True
  then show ?thesis
    using spec_store_record_ret [OF assms(1), of "m\<lparr>delivery :=
        completion_delivery_meta_from_unknown_transfer (io_other ''delivery transfer owner is gone'') (retry_count (delivery m))\<rparr>"]
      assms(2)
    by (simp add: settle_provisional_def)
next
  case False
  then show ?thesis using assms by (auto intro: spec_ret simp: settle_provisional_def)
qed

lemma attempt_number_le:
  assumes "honest_record k d" and "permits_attempt (completion_lifecycle d)"
  shows "attempt_number d \<le> 1" and "k = 0"
  using assms by (auto simp: honest_record_def attempt_number_def saturating_add_u8_def)

lemma spec_fork_transfer:
  assumes "untried s" and "n \<le> 1"
  shows "spec (fork_transfer role n m) s start_post (\<lambda>_. completion_inv) completion_inv"
proof -
  have inv: "completion_inv s" using assms(1) by (simp add: untried_def)
  have "start_post (Running n m, Some m) s" using assms inv by (simp add: start_post_def)
  then show ?thesis
    unfolding fork_transfer_def using inv
    by (intro spec_bind spec_sync spec_handle_err keeps_spec [OF keeps_integrate [OF assms(2)] inv] spec_if spec_ret)
      (auto simp: start_post_def)
qed

lemma keeps_already_handed_off [keeps_rules]: "keeps I (already_handed_off m)"
  unfolding already_handed_off_def by (intro keeps_rules)

lemma spec_start:
  assumes inv: "completion_inv s"
  shows "spec (start_completion_delivery role) s start_post (\<lambda>_. completion_inv) completion_inv"
proof -
  have idle: "start_post (Busy, r) t" "start_post (Settled, r) t" if "completion_inv t" for r t
    using that by (simp_all add: start_post_def)
  have body: "spec (bind (settle_provisional m) (\<lambda>persisted. bind (already_handed_off persisted) (\<lambda>handed.
        if handed then ret (Settled, Some persisted)
        else if \<not> permits_attempt (completion_lifecycle (delivery m)) then ret (Settled, Some persisted)
        else fork_transfer role (attempt_number (delivery m)) persisted))) s
      start_post (\<lambda>_. completion_inv) completion_inv"
    if rec: "honest_record (completes s) (delivery m)" for m
  proof (rule spec_bind, rule spec_mono [OF spec_settle_provisional [OF inv]])
    show "retry_count (delivery m) \<le> 1" using rec by (simp add: honest_record_def)
  next
    fix p t
    assume t: "completion_inv t \<and> (completion_lifecycle (delivery m) \<noteq> ProvisionalTransfer \<longrightarrow> t = s)"
    have go: "untried t \<and> attempt_number (delivery m) \<le> 1" if "permits_attempt (completion_lifecycle (delivery m))"
      using attempt_number_le [OF rec that] that t by (auto simp: untried_def permits_attempt_def)
    show "spec (bind (already_handed_off p) (\<lambda>handed.
        if handed then ret (Settled, Some p)
        else if \<not> permits_attempt (completion_lifecycle (delivery m)) then ret (Settled, Some p)
        else fork_transfer role (attempt_number (delivery m)) p)) t start_post (\<lambda>_. completion_inv) completion_inv"
      by (rule spec_bind, rule keeps_spec [OF keeps_already_handed_off, of "\<lambda>u. u = t"])
        (use t go idle in \<open>auto intro!: spec_ret spec_fork_transfer\<close>)
  qed auto
  have snapshot: "keeps (\<lambda>t. t = s) (if v2 then try_exists SNAPSHOT else ret True)" for v2
    by (intro keeps_rules)
  show ?thesis
    unfolding start_completion_delivery_def Let_def
    apply (rule spec_bind, rule spec_read_meta)
       apply (rule spec_bind, rule keeps_spec [OF keeps_read_delivery_mode, of "\<lambda>t. t = s"])
           apply (rule refl)
          apply (rule spec_bind, rule keeps_spec [OF keeps_v2(1), of "\<lambda>t. t = s"])
              apply assumption
             apply (rule spec_bind, rule keeps_spec [OF snapshot])
                 apply assumption
    using inv by (auto intro!: spec_ret body idle simp: completion_inv_def)
qed

lemma yields_child_worker:
  "untried s \<Longrightarrow> n \<le> 1 \<Longrightarrow> yields (in_worker (completion_child m n external role)) s completion_inv"
  by (intro spec_in_worker spec_completion_child)

lemma keeps_yields: "keeps I m \<Longrightarrow> I s \<Longrightarrow> (\<And>t. I t \<Longrightarrow> J t) \<Longrightarrow> yields m s J"
  by (erule (1) keeps_spec)

lemma yields_then: "yields m s I \<Longrightarrow> (\<And>a. keeps I (f a)) \<Longrightarrow> yields (bind m f) s I"
  by (rule spec_bind, erule spec_mono) (auto dest: keepsD)

lemma keeps_supervisor_delivery: "keeps completion_inv (supervisor_completion_delivery role)"
proof (rule keepsI)
  fix s assume inv: "completion_inv s"
  have run: "yields (case start of
        Running n persisted \<Rightarrow>
          bind (in_worker (completion_child persisted n False role)) (\<lambda>ok.
            bind (integrate_completion_transfer (transfer_status (worker_status ok)) n)
              (\<lambda>m. ret (Running n persisted, Some m)))
      | _ \<Rightarrow> ret (start, m)) t completion_inv"
    if "start_post (start, m) t" for start m t
    using that
    by (auto simp: start_post_def split: prod.splits completion_start.splits
        intro!: spec_ret yields_then yields_child_worker keeps_bind keeps_integrate keeps_ret)
  show "yields (supervisor_completion_delivery role) s completion_inv"
    unfolding supervisor_completion_delivery_def
    by (rule spec_bind, rule keeps_spec [OF keeps_completion_locks(3) inv])
      (auto intro!: spec_ret spec_bind spec_mono [OF spec_start] run)
qed

lemma keeps_reconcile_delivery: "keeps completion_inv (reconcile_completion_delivery role)"
proof (rule keepsI)
  fix s assume inv: "completion_inv s"
  have run: "yields (case start of
        Running n persisted \<Rightarrow>
          bind (in_worker (completion_child persisted n True role)) (\<lambda>ok.
            bind (handle_err (seq retry_interrupted retry_interrupted)
                    (\<lambda>e. ret (Inl e)) (\<lambda>_. ret (transfer_status (worker_status ok))))
              (\<lambda>result. bind (integrate_completion_transfer result n) (\<lambda>m. ret (Some m))))
      | _ \<Rightarrow> ret m) t completion_inv"
    if "start_post (start, m) t" for start m t
    using that
    by (auto simp: start_post_def split: prod.splits completion_start.splits
        intro!: spec_ret yields_then yields_child_worker keeps_handle_err keeps_retry_interrupted
          keeps_bind keeps_integrate keeps_ret)
  show "yields (reconcile_completion_delivery role) s completion_inv"
    unfolding reconcile_completion_delivery_def
    by (rule spec_bind, rule keeps_spec [OF keeps_completion_locks(1) inv])
      (auto intro!: spec_bind spec_mono [OF spec_start] run)
qed

subsection \<open>The activation invariant\<close>

definition activates :: "view \<Rightarrow> nat" where
  "activates s = count_list (vspawned s) ''activate''"

text \<open>Outcome texts that can stand once an activation helper has been started.\<close>

definition started_text :: "string \<Rightarrow> bool" where
  "started_text t \<longleftrightarrow>
     (case parse_activation_outcome (Some t) False of
        Pending \<Rightarrow> True | Succeeded \<Rightarrow> True | Failed _ \<Rightarrow> True | TransferOutcomeUnknown \<Rightarrow> True | _ \<Rightarrow> False)"

definition activation_closed :: "view \<Rightarrow> bool" where
  "activation_closed s \<longleftrightarrow>
     vfiles s (F DeliveryModeFile) = Some (Regular (Text (delivery_mode_as_str Async))) \<and>
     (\<exists>t. vfiles s (F ActivationOutcome) = Some (Regular (Text t)) \<and> started_text t)"

text \<open>A source that is not of the v2 protocol, seen by lookups that do not fail.\<close>

definition plain_source :: "view \<Rightarrow> bool" where
  "plain_source s \<longleftrightarrow> vlookup s \<and> vfiles s REGISTRATION = None"

definition unactivated :: "view \<Rightarrow> bool" where
  "unactivated s \<longleftrightarrow> plain_source s \<and> activates s = 0"

definition activation_inv :: "view \<Rightarrow> bool" where
  "activation_inv s \<longleftrightarrow> unactivated s \<or> plain_source s \<and> activates s = 1 \<and> activation_closed s"

lemma activates_put [simp]: "activates (put f n s) = activates s"
  by (simp add: activates_def)

lemma activates_started [simp]:
  "activates (started op s) = activates s + (if op = ''activate'' then 1 else 0)"
  by (simp add: activates_def)

lemma unactivated_ignores [simp]: "f \<noteq> REGISTRATION \<Longrightarrow> ignores unactivated f"
  by (simp add: ignores_def unactivated_def plain_source_def)

lemma activation_inv_ignores [simp]:
  "f \<noteq> REGISTRATION \<Longrightarrow> f \<noteq> F DeliveryModeFile \<Longrightarrow> f \<noteq> F ActivationOutcome \<Longrightarrow> ignores activation_inv f"
  by (auto simp: ignores_def activation_inv_def unactivated_def plain_source_def activation_closed_def)

lemma started_texts [simp]:
  "started_text ACTIVATION_PENDING" "started_text ACTIVATION_SUCCEEDED"
  "started_text ACTIVATION_TRANSFER_OUTCOME_UNKNOWN" "started_text (activation_failed_text e)"
  by (simp_all add: started_text_def)

lemma registration_names [simp]:
  "F x \<noteq> REGISTRATION" "REGISTRATION \<noteq> F x" "cleanup_error_file \<noteq> REGISTRATION" "\<not> is_tmp REGISTRATION"
  by (simp_all add: REGISTRATION_def cleanup_error_file_def)

lemma unactivated_inv: "unactivated s \<Longrightarrow> activation_inv s"
  by (simp add: activation_inv_def)

text \<open>Writing an outcome that a started helper can leave keeps the invariant in both cases.\<close>

lemma activation_inv_outcome:
  "activation_inv s \<Longrightarrow> started_text t \<Longrightarrow> activation_inv (put (F ActivationOutcome) (Some (Regular (Text t))) s)"
  by (auto simp: activation_inv_def unactivated_def plain_source_def activation_closed_def)

lemma keeps_write_outcome [keeps_rules]: "started_text t \<Longrightarrow> keeps activation_inv (write_activation_outcome t)"
  unfolding write_activation_outcome_def
  by (auto intro!: keepsI spec_atomic_write intro: activation_inv_outcome)

lemma keeps_mirror:
  "ignores I (F MetaFile) \<Longrightarrow> ignores I (F CompletionLock) \<Longrightarrow> keeps I (repair_delivery_mode_mirror mode)"
  unfolding repair_delivery_mode_mirror_def lock_completion_def write_meta_atomic_def
  by (intro keeps_rules) simp_all

text \<open>Resetting an activation that never reached the helper.\<close>

lemma keeps_reset:
  "keeps unactivated (seq (write_delivery_mode_atomic Sync) (seq (repair_delivery_mode_mirror Sync)
     (seq remove_activation_outcome rollback_activation_attempt)))"
  unfolding write_delivery_mode_atomic_def remove_activation_outcome_def rollback_activation_attempt_def
  by (intro keeps_rules keeps_mirror) simp_all

text \<open>What a reading of the activation files can be.\<close>

definition activation_reading :: "view \<Rightarrow> activation_state \<Rightarrow> bool" where
  "activation_reading s a \<longleftrightarrow>
     (\<forall>t. vfiles s (F DeliveryModeFile) = Some (Regular (Text t)) \<longrightarrow> parse_delivery_mode t = Some (act_mode a)) \<and>
     (\<forall>t. vfiles s (F ActivationOutcome) = Some (Regular (Text t)) \<longrightarrow>
        act_outcome a = parse_activation_outcome (Some t) False)"

lemma spec_activation_state:
  assumes "\<And>a. activation_reading s a \<Longrightarrow> Q a s" and "\<And>e. E e s" and "H s"
  shows "spec activation_transfer_state s Q E H"
  unfolding activation_transfer_state_def read_activation_outcome_def
  by (intro spec_bind spec_read_delivery_mode spec_handle_err spec_read_file_text)
    (use assms in \<open>auto simp: activation_reading_def dest: hardD
       intro!: spec_bind spec_ret spec_raise spec_durable_marker_exists\<close>)

lemma parse_delivery_mode_as_str: "parse_delivery_mode (delivery_mode_as_str d) = Some d"
  by (cases d) (simp_all add: parse_delivery_mode_def trim_def trim_start_graphic graphic_def
      trim_end.simps ws_end_len_def ws_len_def byte_at_def)

lemma started_text_outcome:
  "started_text t \<Longrightarrow> parse_activation_outcome (Some t) False \<noteq> ClaimedWithoutOutcome"
  "started_text t \<Longrightarrow> parse_activation_outcome (Some t) False \<noteq> PreAdmissionFailed e"
  by (auto simp: started_text_def)

lemma closed_reading:
  assumes "activation_inv s" and "activation_reading s a" and "\<not> unactivated s"
  shows "act_mode a = Async \<and> act_outcome a \<noteq> ClaimedWithoutOutcome \<and>
     (\<forall>e. act_outcome a \<noteq> PreAdmissionFailed e)"
proof -
  obtain t where t: "vfiles s (F ActivationOutcome) = Some (Regular (Text t))" "started_text t"
    and mode: "vfiles s (F DeliveryModeFile) = Some (Regular (Text (delivery_mode_as_str Async)))"
    using assms(1,3) by (auto simp: activation_inv_def activation_closed_def)
  have "act_outcome a = parse_activation_outcome (Some t) False"
    using assms(2) t(1) by (simp add: activation_reading_def)
  moreover have "act_mode a = Async"
    using assms(2) mode parse_delivery_mode_as_str [of Async] by (simp add: activation_reading_def)
  ultimately show ?thesis using started_text_outcome [OF t(2)] by simp
qed

lemma keeps_settle: "keeps activation_inv settle_orphaned_activation"
proof (rule keepsI)
  fix s assume inv: "activation_inv s"
  have unknown: "yields write_activation_transfer_outcome_unknown s activation_inv"
    unfolding write_activation_transfer_outcome_unknown_def by (intro keepsD [OF keeps_write_outcome] inv) simp
  have reset: "yields (seq (write_delivery_mode_atomic Sync) (seq (repair_delivery_mode_mirror Sync)
     (seq remove_activation_outcome rollback_activation_attempt))) s activation_inv" if "unactivated s"
    by (rule keeps_yields [OF keeps_reset that unactivated_inv])
  have chosen: "yields (case act_outcome a of
        ClaimedWithoutOutcome \<Rightarrow> seq (write_delivery_mode_atomic Sync) (seq (repair_delivery_mode_mirror Sync)
          (seq remove_activation_outcome rollback_activation_attempt))
      | PreAdmissionFailed _ \<Rightarrow> seq (write_delivery_mode_atomic Sync) (seq (repair_delivery_mode_mirror Sync)
          (seq remove_activation_outcome rollback_activation_attempt))
      | Pending \<Rightarrow> write_activation_transfer_outcome_unknown
      | _ \<Rightarrow> ret ()) s activation_inv" if reading: "activation_reading s a" for a
  proof (cases "unactivated s")
    case True
    then show ?thesis using reset [OF True] unknown spec_ret [of "\<lambda>_. activation_inv", OF inv]
      by (cases "act_outcome a") simp_all
  next
    case False
    from closed_reading [OF inv reading False] unknown spec_ret [of "\<lambda>_. activation_inv", OF inv]
    show ?thesis by (cases "act_outcome a") simp_all
  qed
  show "yields settle_orphaned_activation s activation_inv"
    unfolding settle_orphaned_activation_def Let_def
    by (rule spec_bind, rule spec_activation_state) (use inv chosen in simp_all)
qed

text \<open>The window in which the activation helper runs.\<close>

definition in_activation :: "nat \<Rightarrow> view \<Rightarrow> bool" where
  "in_activation k s \<longleftrightarrow> plain_source s \<and> activates s = k \<and> activation_closed s"

lemma in_activation_inv: "in_activation k s \<Longrightarrow> k \<le> 1 \<Longrightarrow> activation_inv s"
  by (cases k) (auto simp: in_activation_def activation_inv_def unactivated_def)

lemma in_activation_ignores: "ignores_custody (in_activation k)"
  by (simp add: ignores_custody_def ignores_def in_activation_def plain_source_def activation_closed_def
      cleanup_error_file_def REGISTRATION_def)

lemma in_activation_started: "in_activation 0 s \<Longrightarrow> in_activation 1 (started ''activate'' s)"
  by (simp add: in_activation_def plain_source_def activation_closed_def)

lemma spec_run_activate:
  assumes "in_activation 0 s"
  shows "spec (run_required_delivery_helper_command_detailed ''activate'' c) s
     (\<lambda>r. in_activation (starts_of r)) (\<lambda>_. activation_inv) activation_inv"
proof -
  have "spec (with_external_transfer_custody c (wait_delivery_helper ''activate'')) s
      (\<lambda>r. in_activation (starts_of r)) (\<lambda>_. activation_inv) activation_inv"
  proof (rule spec_with_custody [where P = "in_activation 0"])
    fix t assume "in_activation 0 t"
    then show "spec (wait_delivery_helper ''activate'') t (\<lambda>r. in_activation (starts_of r)) (\<lambda>_. activation_inv) activation_inv"
      using in_activation_started [of t] in_activation_inv [of 0 t] in_activation_inv [of 1 "started ''activate'' t"]
      by (intro spec_wait_delivery_helper) auto
  qed (use assms in \<open>auto intro: in_activation_ignores in_activation_inv starts_of_le\<close>)
  then show ?thesis
    unfolding run_required_delivery_helper_command_detailed_def
    by (intro spec_bind) (erule spec_mono; auto split: sum.splits intro!: spec_ret simp: starts_of_def require_helper_success_def)
qed

lemma unactivated_claimed:
  "unactivated s \<Longrightarrow> vfiles s (F DeliveryModeFile) = Some (Regular (Text (delivery_mode_as_str Async))) \<Longrightarrow>
     in_activation 0 (put (F ActivationOutcome) (Some (Regular (Text ACTIVATION_PENDING))) s)"
  by (auto simp: unactivated_def in_activation_def plain_source_def activation_closed_def)

lemma spec_claimed_run:
  assumes un: "unactivated s"
    and mode: "vfiles s (F DeliveryModeFile) = Some (Regular (Text (delivery_mode_as_str Async)))"
  shows "spec (claimed_run claimed) s
     (\<lambda>r t. activation_inv t \<and> (\<forall>e. r = Inl (NotStarted e) \<longrightarrow> unactivated t))
     (\<lambda>_. activation_inv) activation_inv"
proof -
  note inv = unactivated_inv [OF un]
  let ?pending = "put (F ActivationOutcome) (Some (Regular (Text ACTIVATION_PENDING))) s"
  have p0: "in_activation 0 ?pending" using un mode by (rule unactivated_claimed)
  have settle: "spec (seq settle_orphaned_activation (raise err)) t
      (\<lambda>r t. activation_inv t \<and> (\<forall>e. r = Inl (NotStarted e) \<longrightarrow> unactivated t)) (\<lambda>_. activation_inv) activation_inv"
    if "activation_inv t" for err t
    by (rule spec_bind, rule keeps_spec [OF keeps_settle that]) (auto intro: spec_raise)
  have run: "spec (run_required_delivery_helper_command_detailed ''activate'' True) ?pending
      (\<lambda>r t. activation_inv t \<and> (\<forall>e. r = Inl (NotStarted e) \<longrightarrow> unactivated t)) (\<lambda>_. activation_inv) activation_inv"
    by (rule spec_mono [OF spec_run_activate [OF p0]])
      (auto intro: in_activation_inv [OF _ starts_of_le] simp: in_activation_def unactivated_def)
  have pending: "activation_inv ?pending" using p0 by (rule in_activation_inv) simp
  show ?thesis
  proof (cases claimed)
    case True
    then show ?thesis
      unfolding claimed_run_def write_activation_pending_def write_activation_outcome_def if_P [OF True]
      by (intro spec_handle_err spec_atomic_write settle run inv pending) simp_all
  next
    case False
    show ?thesis
      unfolding claimed_run_def if_not_P [OF False]
      by (rule spec_bind, rule keeps_spec [OF keeps_require_settled, of "\<lambda>t. t = s"])
        (use inv in \<open>auto intro: spec_ret\<close>)
  qed
qed

lemma spec_record_activation_result:
  assumes "activation_inv s" and "\<And>e. r = Inl (NotStarted e) \<Longrightarrow> unactivated s"
  shows "yields (record_activation_result r) s activation_inv"
proof -
  have mirror: "keeps activation_inv (repair_delivery_mode_mirror Async)" by (intro keeps_mirror) simp_all
  have pre: "yields (seq (write_activation_pre_admission_failed t) (seq settle_orphaned_activation (raise e))) s activation_inv"
    if un: "unactivated s" for t e
  proof (rule yields_then)
    have "keeps unactivated (write_activation_pre_admission_failed t)"
      unfolding write_activation_pre_admission_failed_def write_activation_outcome_def
      by (intro keeps_rules) simp_all
    from this un unactivated_inv show "yields (write_activation_pre_admission_failed t) s activation_inv"
      by (rule keeps_yields)
  qed (intro keeps_rules keeps_settle)
  have failed: "keeps activation_inv (seq (write_activation_failed t) (seq (repair_delivery_mode_mirror Async) (raise e)))" for t e
    unfolding write_activation_failed_def by (intro keeps_rules mirror) simp
  have ok: "keeps activation_inv (seq write_activation_succeeded (seq (repair_delivery_mode_mirror Async) (ret ())))"
    unfolding write_activation_succeeded_def by (intro keeps_rules mirror) simp
  show ?thesis
    unfolding record_activation_result_def
    using assms pre keepsD [OF failed assms(1)] keepsD [OF ok assms(1)]
    by (simp split: sum.split helper_command_error.split) blast
qed

lemma yields_activation_worker:
  assumes "unactivated s"
  shows "yields activation_worker s activation_inv"
proof -
  have roll: "keeps unactivated (seq (if c then ignore_err rollback_activation_attempt else ret ()) (raise err))" for c err
    unfolding rollback_activation_attempt_def by (intro keeps_rules) simp_all
  have rolled: "yields (seq (if c then ignore_err rollback_activation_attempt else ret ()) (raise err)) t activation_inv"
    if "unactivated t" for c err t
    by (rule keeps_yields [OF roll that unactivated_inv])
  have rest: "yields (bind (claimed_run c) record_activation_result)
      (put (F DeliveryModeFile) (Some (Regular (Text (delivery_mode_as_str Async)))) t) activation_inv"
    if "unactivated t" for c t
    by (rule spec_bind, rule spec_mono [OF spec_claimed_run])
      (use that in \<open>auto intro: spec_record_activation_result simp: unactivated_def plain_source_def\<close>)
  have moded: "yields (handle_err (write_delivery_mode_atomic Async)
       (\<lambda>err. seq (if c then ignore_err rollback_activation_attempt else ret ()) (raise err))
       (\<lambda>_. bind (claimed_run c) record_activation_result)) t activation_inv" if t: "unactivated t" for c t
  proof -
    have put: "unactivated (put (F DeliveryModeFile) n t)" for n
      using ignoresD [OF unactivated_ignores t] by simp
    show ?thesis
      unfolding write_delivery_mode_atomic_def
      by (intro spec_handle_err spec_atomic_write rest rolled t put unactivated_inv) simp
  qed
  have mark: "keeps unactivated record_activation_attempt"
    unfolding record_activation_attempt_def by (intro keeps_rules) simp_all
  show ?thesis
    unfolding activation_worker_def
    by (rule spec_bind, rule keeps_spec [OF mark assms]) ((rule moded | rule unactivated_inv), assumption)+
qed

lemma yields_worker_holding_lock:
  "I s \<Longrightarrow> yields m s I \<Longrightarrow> yields (run_delivery_transfer_worker_holding_lock m) s I"
  unfolding run_delivery_transfer_worker_holding_lock_def
  by (intro spec_bind [of sys_sync] spec_sync yields_then spec_in_worker keeps_rules) simp_all

lemma keeps_worker_holding_lock [keeps_rules]:
  "keeps I m \<Longrightarrow> keeps I (run_delivery_transfer_worker_holding_lock m)"
  by (rule keepsI) (intro yields_worker_holding_lock keepsD)

lemma spec_v2_plain: "plain_source s \<Longrightarrow> Q False s \<Longrightarrow> H s \<Longrightarrow> spec v2_enabled s Q E H"
  unfolding v2_enabled_def plain_source_def
  by (intro spec_handle_err spec_lstat) (auto intro!: spec_ret)

lemma activation_inv_plain: "activation_inv s \<Longrightarrow> plain_source s"
  by (auto simp: activation_inv_def unactivated_def)

lemma keeps_retry_uncertain: "keeps activation_inv retry_uncertain_activation"
proof (rule keepsI)
  fix s assume inv: "activation_inv s"
  show "yields retry_uncertain_activation s activation_inv"
    unfolding retry_uncertain_activation_def
    by (rule spec_bind, rule spec_v2_plain [OF activation_inv_plain [OF inv]])
      (use inv in \<open>auto intro: spec_ret\<close>)
qed

lemma keeps_activation_locks [keeps_rules]:
  "keeps activation_inv lock_delivery" "keeps activation_inv try_lock_delivery"
  unfolding lock_delivery_def try_lock_delivery_def
  by (intro keeps_rules keeps_try_lock_file; simp)+

text \<open>What \<^const>\<open>detach\<close> does when the mode it found was synchronous.\<close>

lemma yields_detach_sync:
  assumes "unactivated s"
  shows "yields (bind (handle_err (run_delivery_transfer_worker_holding_lock activation_worker)
        (\<lambda>e. ret (Inl e)) (\<lambda>_. ret (Inr ()))) (\<lambda>worker_result.
      seq settle_orphaned_activation
     (seq require_settled_activation
     (seq (case worker_result of Inl e \<Rightarrow> raise e | Inr _ \<Rightarrow> ret ())
     (bind read_meta (\<lambda>m1. ret (detach_outcome_of m1 True (terminal m1)))))))) s activation_inv"
proof (rule yields_then)
  have "yields (run_delivery_transfer_worker_holding_lock activation_worker) s activation_inv"
    using assms by (intro yields_worker_holding_lock yields_activation_worker unactivated_inv)
  then show "yields (handle_err (run_delivery_transfer_worker_holding_lock activation_worker)
        (\<lambda>e. ret (Inl e)) (\<lambda>_. ret (Inr ()))) s activation_inv"
    by (rule spec_handle_err [OF spec_mono]) (auto intro: spec_ret)
qed (intro keeps_rules keeps_settle)

lemma keeps_detach: "keeps activation_inv detach"
proof (rule keepsI)
  fix s assume inv: "activation_inv s"
  have async: "keeps activation_inv (seq retry_uncertain_activation (seq require_settled_activation
      (bind (repair_delivery_mode_mirror Async) (\<lambda>m. ret (detach_outcome_of m False False)))))"
    by (intro keeps_rules keeps_retry_uncertain keeps_mirror) simp_all
  have sync: "yields (bind read_meta (\<lambda>m. bind (delivery_request m) (\<lambda>request. case request of
        Inl e \<Rightarrow> raise (io_other (helper_error_text e))
      | Inr _ \<Rightarrow> bind (handle_err (run_delivery_transfer_worker_holding_lock activation_worker)
            (\<lambda>e. ret (Inl e)) (\<lambda>_. ret (Inr ()))) (\<lambda>worker_result.
          seq settle_orphaned_activation
         (seq require_settled_activation
         (seq (case worker_result of Inl e \<Rightarrow> raise e | Inr _ \<Rightarrow> ret ())
         (bind read_meta (\<lambda>m1. ret (detach_outcome_of m1 True (terminal m1)))))))))) t activation_inv"
    if un: "unactivated t" for t
    by (rule spec_bind, rule keeps_spec [OF keeps_read_meta [of unactivated] un],
        rule spec_bind, erule keeps_spec [OF keeps_delivery_request [of unactivated]])
      (auto split: sum.split intro!: spec_raise yields_detach_sync intro: unactivated_inv)
  have chosen: "yields (if act_mode a = Async then m1 else m2) t activation_inv"
    if "activation_inv t" "activation_reading t a" "keeps activation_inv m1"
      "unactivated t \<Longrightarrow> yields m2 t activation_inv" for a t and m1 m2 :: "detach_outcome io"
    using that closed_reading [of t a] keepsD [of activation_inv m1 t] by (cases "unactivated t") auto
  have rest: "yields (bind activation_transfer_state (\<lambda>a. if act_mode a = Async then m1 else m2)) t activation_inv"
    if "activation_inv t" "keeps activation_inv m1" "unactivated t \<Longrightarrow> yields m2 t activation_inv"
    for t and m1 m2 :: "detach_outcome io"
    by (rule spec_bind, rule spec_activation_state) (use that chosen in auto)
  show "yields detach s activation_inv"
    unfolding detach_def
    by (rule spec_bind, rule keeps_spec [OF keeps_activation_locks(1) inv],
        rule spec_bind, erule keeps_spec [OF keeps_settle], rule rest)
      (assumption | rule async | erule sync)+
qed

lemma keeps_settled_mode: "keeps activation_inv settled_delivery_mode"
  unfolding settled_delivery_mode_def by (intro keeps_rules keeps_settle)

subsection \<open>Each protocol leaves the other's invariant alone\<close>

lemma keeps_wait_helper:
  "(\<And>s. I s \<Longrightarrow> I (started op s)) \<Longrightarrow> keeps I (wait_delivery_helper op)"
  by (rule keepsI) (intro spec_wait_delivery_helper; simp)

lemma keeps_with_custody:
  "ignores_custody I \<Longrightarrow> keeps I m \<Longrightarrow> keeps I (with_external_transfer_custody c m)"
  unfolding with_external_transfer_custody_def by (intro keeps_rules)

lemma completion_inv_custody: "ignores_custody completion_inv"
  by (simp add: ignores_custody_def cleanup_error_file_def)

lemma activation_inv_custody: "ignores_custody activation_inv"
  by (simp add: ignores_custody_def cleanup_error_file_def REGISTRATION_def)

lemma completion_inv_started: "op \<noteq> ''complete'' \<Longrightarrow> completion_inv s \<Longrightarrow> completion_inv (started op s)"
  by (simp add: completion_inv_def)

lemma activation_inv_started: "op \<noteq> ''activate'' \<Longrightarrow> activation_inv s \<Longrightarrow> activation_inv (started op s)"
  by (simp add: activation_inv_def unactivated_def plain_source_def activation_closed_def)

lemma keeps_run_other [keeps_rules]:
  "op \<noteq> ''complete'' \<Longrightarrow> keeps completion_inv (run_delivery_helper_command op c)"
  "op \<noteq> ''activate'' \<Longrightarrow> keeps activation_inv (run_delivery_helper_command op c)"
  unfolding run_delivery_helper_command_def
  by (intro keeps_with_custody keeps_wait_helper completion_inv_custody activation_inv_custody
      completion_inv_started activation_inv_started; assumption)+

lemma keeps_required_other [keeps_rules]:
  "keeps completion_inv (run_required_delivery_helper_command_detailed ''activate'' c)"
  unfolding run_required_delivery_helper_command_detailed_def
  by (intro keeps_rules keeps_with_custody keeps_wait_helper completion_inv_custody completion_inv_started) simp_all

lemma keeps_completion_mirror: "keeps completion_inv (repair_delivery_mode_mirror mode)"
proof (rule keepsI)
  fix s assume inv: "completion_inv s"
  have "yields (bind read_meta (\<lambda>m. if delivery_mode m \<noteq> mode
       then bind (touch_now (m\<lparr>delivery_mode := mode\<rparr>)) (\<lambda>m1. seq (write_meta_atomic m1) (ret m1))
       else ret m)) t completion_inv" if "completion_inv t" for t
    by (intro spec_bind [of read_meta] spec_read_meta)
      (use that in \<open>auto simp: completion_inv_def intro!: spec_ret spec_store_record_ret\<close>)
  then show "yields (repair_delivery_mode_mirror mode) s completion_inv"
    unfolding repair_delivery_mode_mirror_def
    by (intro spec_bind [of lock_completion] keeps_spec [OF keeps_completion_locks(2) inv])
qed

lemma keeps_completion_settle: "keeps completion_inv settle_orphaned_activation"
  unfolding settle_orphaned_activation_def Let_def write_delivery_mode_atomic_def remove_activation_outcome_def
    rollback_activation_attempt_def write_activation_transfer_outcome_unknown_def write_activation_outcome_def
  by (intro keeps_bind [of _ activation_transfer_state] keeps_activation_transfer_state)
    (auto split: activation_outcome.split intro!: keeps_rules keeps_completion_mirror)

lemma keeps_completion_worker: "keeps completion_inv activation_worker"
  unfolding activation_worker_def claimed_run_def record_activation_result_def record_activation_attempt_def
    write_delivery_mode_atomic_def rollback_activation_attempt_def write_activation_pending_def
    write_activation_pre_admission_failed_def write_activation_failed_def write_activation_succeeded_def
    write_activation_outcome_def
  by (intro keeps_rules keeps_completion_settle keeps_completion_mirror)
    (auto split: helper_command_error.split intro!: keeps_rules keeps_completion_settle keeps_completion_mirror)

lemma keeps_completion_readback: "keeps completion_inv (readback_activation_committed m)"
  unfolding readback_activation_committed_def by (intro keeps_rules) simp

lemma keeps_completion_detach: "keeps completion_inv detach"
  unfolding detach_def retry_uncertain_activation_def write_activation_succeeded_def write_activation_outcome_def
  by (intro keeps_rules keeps_completion_settle keeps_completion_mirror keeps_completion_worker
      keeps_completion_readback) simp_all

lemma keeps_completion_settled_mode: "keeps completion_inv settled_delivery_mode"
  unfolding settled_delivery_mode_def by (intro keeps_rules keeps_completion_settle)

lemma keeps_activation_write_meta [keeps_rules]: "keeps activation_inv (write_meta_atomic m)"
  unfolding write_meta_atomic_def by (intro keeps_rules) simp_all

lemma keeps_activation_integrate [keeps_rules]: "keeps activation_inv (integrate_completion_transfer r n)"
  unfolding integrate_completion_transfer_def Let_def by (intro keeps_rules)

lemma keeps_activation_child [keeps_rules]: "keeps activation_inv (completion_child m n external role)"
  unfolding completion_child_def run_custodian_def execute_completion_transfer_def
    execute_continuation_transfer_def continuation_record_def Let_def
  by (intro keeps_rules) (auto split: helper_command_error.split intro: keeps_rules)

lemma keeps_activation_start [keeps_rules]: "keeps activation_inv (start_completion_delivery role)"
  unfolding start_completion_delivery_def settle_provisional_def fork_transfer_def Let_def
  by (intro keeps_rules)

lemma keeps_start_case [keeps_rules]:
  "keeps I a \<Longrightarrow> keeps I b \<Longrightarrow> (\<And>n m. x = Running n m \<Longrightarrow> keeps I (f n m)) \<Longrightarrow>
     keeps I (case x of Busy \<Rightarrow> a | Settled \<Rightarrow> b | Running n m \<Rightarrow> f n m)"
  by (cases x) auto

lemma keeps_activation_reconcile: "keeps activation_inv (reconcile_completion_delivery role)"
  unfolding reconcile_completion_delivery_def by (intro keeps_rules)

lemma keeps_activation_supervisor: "keeps activation_inv (supervisor_completion_delivery role)"
  unfolding supervisor_completion_delivery_def by (intro keeps_rules)

subsection \<open>Progress of a reconciliation\<close>

text \<open>
  How many more attempts a record can lead to, and the records an attempt numbered \<open>n\<close> may end
  in: a retryable failure only if it was the first attempt.
\<close>

fun delivery_rank :: "completion_lifecycle \<Rightarrow> nat" where
  "delivery_rank Unclaimed = 2"
| "delivery_rank RetryablePreAdmissionFailure = 1"
| "delivery_rank ProvisionalTransfer = 1"
| "delivery_rank _ = 0"

definition final_record :: "nat \<Rightarrow> completion_delivery \<Rightarrow> bool" where
  "final_record n d \<longleftrightarrow> delivery_rank (completion_lifecycle d) \<le> (if n = 0 then 1 else 0) \<and>
     completion_lifecycle d \<noteq> ProvisionalTransfer"

definition has_doc :: "view \<Rightarrow> bool" where
  "has_doc s \<longleftrightarrow> (\<exists>m. vfiles s (F MetaFile) = Some (Regular (Doc m)))"

definition has_final :: "nat \<Rightarrow> view \<Rightarrow> bool" where
  "has_final n s \<longleftrightarrow> (\<exists>m. vfiles s (F MetaFile) = Some (Regular (Doc m)) \<and> final_record n (delivery m))"

lemma has_final_doc: "has_final n s \<Longrightarrow> has_doc s"
  by (auto simp: has_final_def has_doc_def)

lemma final_records [simp]:
  "final_record n (completion_delivery_meta_from_status st)" "final_record n (completion_delivery_meta_from_error e)"
  "final_record n (completion_delivery_meta_from_unknown_transfer e k)"
  "final_record n (completion_delivery_meta_from_launch_error e n)"
  "final_record n (completion_delivery_meta_from_owner_launch_error e n)"
  "final_record n (completion_delivery_meta_from_helper_error err n)"
  by (simp_all add: final_record_def lifecycle_of_helper_error)

lemma final_completion_record [simp]: "final_record n (completion_record r n)"
  by (auto simp: completion_record_def split: sum.split helper_command_error.split)

lemma spec_write_final:
  assumes "final_record n (delivery m)" and "has_doc s"
  shows "spec (write_meta_atomic m) s (\<lambda>_. has_final n) (\<lambda>_. has_doc) has_doc"
  using assms by (intro spec_write_meta) (auto simp: has_final_def has_doc_def)

lemma spec_store_final:
  assumes "final_record n (delivery m)" and "has_doc s"
  shows "spec (bind (touch_now m) write_meta_atomic) s (\<lambda>_. has_final n) (\<lambda>_. has_doc) has_doc"
    and "spec (bind (touch_now m) (\<lambda>m. seq (write_meta_atomic m) (ret m))) s (\<lambda>_. has_final n) (\<lambda>_. has_doc) has_doc"
proof -
  have d: "final_record n (delivery (touch now m))" for now using assms(1) by (simp add: touch_def)
  show "spec (bind (touch_now m) write_meta_atomic) s (\<lambda>_. has_final n) (\<lambda>_. has_doc) has_doc"
    unfolding touch_now_def
    by (intro spec_bind spec_unix_ms spec_ret spec_write_final assms(2) d)
  show "spec (bind (touch_now m) (\<lambda>m. seq (write_meta_atomic m) (ret m))) s (\<lambda>_. has_final n) (\<lambda>_. has_doc) has_doc"
    unfolding touch_now_def
    by (intro spec_bind spec_unix_ms spec_ret spec_mono [OF spec_write_final [OF d assms(2)]])
qed

lemma spec_integrate_failure:
  assumes "has_doc s"
  shows "spec (integrate_completion_transfer (Inl e) n) s (\<lambda>_. has_final n) (\<lambda>_. has_doc) has_doc"
proof -
  have "final_record n d"
    if "completion_lifecycle d \<noteq> Unclaimed" "completion_lifecycle d \<noteq> RetryablePreAdmissionFailure"
      "completion_lifecycle d \<noteq> ProvisionalTransfer" for d
    using that by (cases "completion_lifecycle d") (simp_all add: final_record_def)
  then show ?thesis
    unfolding integrate_completion_transfer_def Let_def
    by (intro spec_bind [of read_meta] spec_read_meta)
      (use assms in \<open>auto intro!: spec_store_final(2) spec_ret simp: has_final_def has_doc_def\<close>)
qed

lemma spec_integrate_success:
  assumes "has_final n s"
  shows "spec (integrate_completion_transfer (Inr ()) n) s (\<lambda>_. has_final n) (\<lambda>_. has_doc) has_doc"
  unfolding integrate_completion_transfer_def
  by (intro spec_bind [of read_meta] spec_read_meta)
    (use assms has_final_doc [OF assms] in \<open>auto intro!: spec_ret simp: has_doc_def\<close>)

lemma keeps_doc_run [keeps_rules]: "keeps has_doc (run_delivery_helper_command op c)"
  unfolding run_delivery_helper_command_def
  by (intro keeps_with_custody keeps_wait_helper)
    (simp_all add: ignores_custody_def ignores_def has_doc_def cleanup_error_file_def)

lemma keeps_doc_write [keeps_rules]: "keeps has_doc (write_meta_atomic m)"
  by (auto intro!: keepsI spec_write_meta simp: has_doc_def)

lemma bind_keeps:
  assumes "keeps I m" and "I s" and "\<And>a t. I t \<Longrightarrow> spec (f a) t Q (\<lambda>_. I) I"
  shows "spec (bind m f) s Q (\<lambda>_. I) I"
  by (rule spec_bind, rule keeps_spec [OF assms(1,2)]) (use assms(3) in auto)

lemma spec_then_ret: "spec m s (\<lambda>_. I) E H \<Longrightarrow> spec (bind m (\<lambda>a. ret (f a))) s (\<lambda>_. I) E H"
  by (rule spec_bind, erule spec_mono) (auto intro: spec_ret)

lemma spec_sum:
  "(\<And>y. spec (f y) s Q E H) \<Longrightarrow> (\<And>y. spec (g y) s Q E H) \<Longrightarrow> spec (case x of Inl y \<Rightarrow> f y | Inr y \<Rightarrow> g y) s Q E H"
  by (cases x) auto

lemma spec_continuation_final:
  assumes "has_doc s"
  shows "spec (execute_continuation_transfer m external) s (\<lambda>_. has_final n) (\<lambda>_. has_doc) has_doc"
proof -
  have recorded: "spec (continuation_record r) u (\<lambda>d v. has_doc v \<and> final_record n d) (\<lambda>_. has_doc) has_doc"
    if "has_doc u" for r u
    unfolding continuation_record_def using that
    by (auto split: sum.split helper_command_error.split
        intro!: spec_ret spec_handle_err keeps_spec [OF keeps_v2(2) [of has_doc] that])
  have last: "spec (bind (continuation_record r) (\<lambda>d. bind (touch_now (m1\<lparr>delivery := d\<rparr>)) write_meta_atomic)) u
      (\<lambda>_. has_final n) (\<lambda>_. has_doc) has_doc" if "has_doc u" for r m1 u
    by (rule spec_bind, rule spec_mono [OF recorded [OF that]]) (auto intro: spec_store_final(1))
  show ?thesis
    unfolding execute_continuation_transfer_def Let_def
    by (rule bind_keeps [OF keeps_delivery_request [of has_doc] assms], rule spec_sum, erule spec_raise,
        erule bind_keeps [OF keeps_doc_write], erule bind_keeps [OF keeps_doc_run], erule last)
qed

lemma spec_execute_final:
  assumes "has_doc s"
  shows "spec (execute_completion_transfer m n external) s (\<lambda>_. has_final n) (\<lambda>_. has_doc) has_doc"
  unfolding execute_completion_transfer_def
  apply (rule bind_keeps [OF keeps_v2(1) [of has_doc] assms], rule spec_if, erule spec_continuation_final)
  apply (erule bind_keeps [OF keeps_delivery_request], rule spec_sum)
   apply (rule spec_store_final(1); simp)
  apply (erule bind_keeps [OF keeps_touch_now], erule bind_keeps [OF keeps_doc_write])
  apply (erule bind_keeps [OF keeps_doc_run], rule spec_store_final(1); simp)
  done

lemma spec_child_final:
  assumes "has_doc s"
  shows "spec (completion_child m n external role) s (\<lambda>_. has_final n) (\<lambda>_. has_doc) has_doc"
proof -
  note execute = spec_execute_final [of _ m n external]
  have outcome: "spec (bind (integrate_completion_transfer (transfer_status (worker_status ok)) n) (\<lambda>_. ret ())) t
      (\<lambda>_. has_final n) (\<lambda>_. has_doc) has_doc" if "if ok then has_final n t else has_doc t" for ok t
    using that spec_integrate_success [of n t] spec_integrate_failure [of t]
    by (cases ok) (simp_all add: transfer_worker_status spec_then_ret)
  have custodian: "spec (run_custodian (execute_completion_transfer m n external)
      (\<lambda>st. bind (integrate_completion_transfer (transfer_status st) n) (\<lambda>_. ret ()))) t
      (\<lambda>_. has_final n) (\<lambda>_. has_doc) has_doc" if "has_doc t" for t
    unfolding run_custodian_def
    apply (rule bind_keeps [OF keeps_sync [of has_doc] that], erule bind_keeps [OF keeps_sync])
    apply (rule spec_bind, rule spec_in_worker, rule spec_mono [OF execute], assumption)
      apply (rule outcome; simp)+
    done
  show ?thesis
    unfolding completion_child_def
    by (rule bind_keeps [OF keeps_sync [of has_doc] assms], erule bind_keeps [OF keeps_sync], rule spec_if)
      (erule custodian execute)+
qed

lemma spec_worker_integrate:
  assumes "has_doc s"
  shows "spec (bind (in_worker (completion_child m n external role)) (\<lambda>ok.
      bind (handle_err (seq retry_interrupted retry_interrupted)
             (\<lambda>e. ret (Inl e)) (\<lambda>_. ret (transfer_status (worker_status ok))))
        (\<lambda>result. bind (integrate_completion_transfer result n) (\<lambda>m. ret (Some m))))) s
     (\<lambda>_. has_final n) (\<lambda>_. has_doc) has_doc"
proof -
  have waited: "spec (handle_err (seq retry_interrupted retry_interrupted)
        (\<lambda>e. ret (Inl e)) (\<lambda>_. ret (transfer_status (worker_status ok)))) t
      (\<lambda>r u. u = t \<and> (r = Inr () \<longrightarrow> ok)) (\<lambda>_ u. u = t) (\<lambda>u. u = t)" for ok t
    by (rule spec_handle_err, rule keeps_spec [where I = "\<lambda>u. u = t"])
      (auto intro!: keeps_rules spec_ret simp: transfer_worker_status)
  have integrated: "spec (bind (integrate_completion_transfer r n) (\<lambda>m. ret (Some m))) t
      (\<lambda>_. has_final n) (\<lambda>_. has_doc) has_doc" if "has_doc t" "r = Inr () \<Longrightarrow> has_final n t" for r t
    using that spec_integrate_success [of n t] spec_integrate_failure [of t]
    by (cases r) (simp_all add: spec_then_ret)
  have after: "spec (bind (handle_err (seq retry_interrupted retry_interrupted)
             (\<lambda>e. ret (Inl e)) (\<lambda>_. ret (transfer_status (worker_status ok))))
        (\<lambda>result. bind (integrate_completion_transfer result n) (\<lambda>m. ret (Some m)))) t
      (\<lambda>_. has_final n) (\<lambda>_. has_doc) has_doc" if "has_doc t" "ok \<Longrightarrow> has_final n t" for ok t
    by (rule spec_bind, rule spec_mono [OF waited]) (use that integrated in auto)
  show ?thesis
    by (rule spec_bind, rule spec_in_worker, rule spec_mono [OF spec_child_final [OF assms]])
      (auto intro!: after intro: has_final_doc)
qed

definition advanced :: "completion_lifecycle \<Rightarrow> view \<Rightarrow> bool" where
  "advanced l s \<longleftrightarrow>
     (\<exists>m. vfiles s (F MetaFile) = Some (Regular (Doc m)) \<and>
        delivery_rank (completion_lifecycle (delivery m)) \<le> delivery_rank l \<and>
        (needs_progress l \<longrightarrow> delivery_rank (completion_lifecycle (delivery m)) < delivery_rank l))"

lemma final_advanced:
  assumes "permits_attempt (completion_lifecycle d)" and "has_final (attempt_number d) s"
  shows "advanced (completion_lifecycle d) s"
  using assms by (auto simp: has_final_def final_record_def advanced_def permits_attempt_def attempt_number_def
      saturating_add_u8_def split: if_splits intro: le_trans)

lemma idle_advanced:
  assumes "vfiles s (F MetaFile) = Some (Regular (Doc m))" and "delivery m = d"
    and "\<not> permits_attempt (completion_lifecycle d)" and "completion_lifecycle d \<noteq> ProvisionalTransfer"
  shows "advanced (completion_lifecycle d) s"
  using assms by (auto simp: advanced_def permits_attempt_def needs_progress_def)

lemma spec_settle_provisional_advances:
  assumes "vfiles s (F MetaFile) = Some (Regular (Doc m0))"
  shows "spec (settle_provisional m) s
     (\<lambda>_ t. has_doc t \<and> (if completion_lifecycle (delivery m) = ProvisionalTransfer
        then advanced ProvisionalTransfer t else t = s)) (\<lambda>_ _. True) (\<lambda>_. True)"
proof (cases "completion_lifecycle (delivery m) = ProvisionalTransfer")
  case True
  have doc: "has_doc s" using assms by (simp add: has_doc_def)
  have adv: "advanced ProvisionalTransfer t" if "has_final 1 t" for t
    using that by (auto simp: has_final_def final_record_def advanced_def)
  show ?thesis
    unfolding settle_provisional_def if_P [OF True]
    by (rule spec_mono [OF spec_store_final(2) [OF _ doc, of 1]]) (auto intro: adv has_final_doc)
next
  case False
  then show ?thesis using assms by (auto intro: spec_ret simp: settle_provisional_def has_doc_def)
qed

definition start_advanced :: "completion_delivery \<Rightarrow> completion_start \<times> meta option \<Rightarrow> view \<Rightarrow> bool" where
  "start_advanced d r s \<longleftrightarrow>
     (case fst r of
        Busy \<Rightarrow> False
      | Settled \<Rightarrow> advanced (completion_lifecycle d) s
      | Running n _ \<Rightarrow> n = attempt_number d \<and> permits_attempt (completion_lifecycle d) \<and> has_doc s)"

lemma spec_fork_advances:
  assumes "has_doc s" and "permits_attempt (completion_lifecycle d)"
  shows "spec (fork_transfer role (attempt_number d) m) s (start_advanced d) (\<lambda>_ _. True) (\<lambda>_. True)"
proof -
  have run: "start_advanced d (Running (attempt_number d) m, Some m) s"
    using assms by (simp add: start_advanced_def)
  have "spec (integrate_completion_transfer (Inl e) (attempt_number d)) s
      (\<lambda>_. advanced (completion_lifecycle d)) (\<lambda>_ _. True) (\<lambda>_. True)" for e
    by (rule spec_mono [OF spec_integrate_failure [OF assms(1)]]) (auto intro: final_advanced assms(2))
  then have "spec (bind (integrate_completion_transfer (Inl e) (attempt_number d)) (\<lambda>m. ret (Settled, Some m))) s
      (start_advanced d) (\<lambda>_ _. True) (\<lambda>_. True)" for e
    by (rule spec_bind [OF spec_mono]) (auto intro: spec_ret simp: start_advanced_def)
  with run show ?thesis
    unfolding fork_transfer_def
    by (intro spec_bind [of sys_sync] spec_sync spec_handle_err spec_bind [of "if role then _ else _"] spec_if spec_ret) simp_all
qed

lemma spec_start_advances:
  assumes "plain_source s" and doc: "vfiles s (F MetaFile) = Some (Regular (Doc m))"
  shows "spec (start_completion_delivery role) s (start_advanced (delivery m)) (\<lambda>_ _. True) (\<lambda>_. True)"
proof -
  let ?d = "delivery m" and ?same = "\<lambda>t. t = s"
  have body: "spec (bind (settle_provisional l) (\<lambda>p. bind (already_handed_off p) (\<lambda>handed.
        if handed then ret (Settled, Some p)
        else if \<not> permits_attempt (completion_lifecycle (delivery l)) then ret (Settled, Some p)
        else fork_transfer role (attempt_number (delivery l)) p))) s
      (start_advanced ?d) (\<lambda>_ _. True) (\<lambda>_. True)" if l: "delivery l = ?d" for l
  proof (rule spec_bind, rule spec_mono [OF spec_settle_provisional_advances [OF doc, of l]])
    fix p t
    assume t: "has_doc t \<and> (if completion_lifecycle (delivery l) = ProvisionalTransfer
        then advanced ProvisionalTransfer t else t = s)"
    have idle: "start_advanced ?d (Settled, Some p) t" if "\<not> permits_attempt (completion_lifecycle ?d)"
      using t idle_advanced [OF doc refl that] l by (auto simp: start_advanced_def split: if_splits)
    have none: "attempted ?d = False" "t = s" if "permits_attempt (completion_lifecycle ?d)"
      using that t l by (auto simp: permits_attempt_def completion_lifecycle_def split: if_splits)
    show "spec (bind (already_handed_off p) (\<lambda>handed.
        if handed then ret (Settled, Some p)
        else if \<not> permits_attempt (completion_lifecycle (delivery l)) then ret (Settled, Some p)
        else fork_transfer role (attempt_number (delivery l)) p)) t (start_advanced ?d) (\<lambda>_ _. True) (\<lambda>_. True)"
    proof (cases "permits_attempt (completion_lifecycle ?d)")
      case True
      have "spec (already_handed_off p) s (\<lambda>h u. \<not> h \<and> u = s) (\<lambda>_ _. True) (\<lambda>_. True)"
        unfolding already_handed_off_def
        by (intro spec_bind spec_v2_plain [OF assms(1)]) (simp_all add: spec_ret)
      then show ?thesis
        unfolding none(2) [OF True] l
        by (rule spec_bind [OF spec_mono])
          (use True doc in \<open>auto intro!: spec_fork_advances simp: has_doc_def\<close>)
    next
      case False
      then show ?thesis
        by (intro spec_bind keeps_spec [OF keeps_already_handed_off, of "\<lambda>u. u = t"])
          (auto intro!: spec_ret idle simp: l)
    qed
  qed auto
  show ?thesis
    unfolding start_completion_delivery_def Let_def
    apply (rule spec_bind, rule spec_read_meta)
       apply (rule spec_bind, rule keeps_spec [OF keeps_read_delivery_mode, of ?same])
           apply (rule refl)
          apply (rule spec_bind, simp, rule spec_v2_plain [OF assms(1)])
           apply (rule spec_bind, simp, rule spec_ret)
    using doc by (auto intro!: body)
qed

lemma spec_reconcile_advances:
  assumes "plain_source s" and "vfiles s (F MetaFile) = Some (Regular (Doc m))"
  shows "spec (reconcile_completion_delivery role) s
     (\<lambda>_. advanced (completion_lifecycle (delivery m))) (\<lambda>_ _. True) (\<lambda>_. True)"
proof -
  let ?d = "delivery m" and ?I = "\<lambda>t. plain_source t \<and> vfiles t (F MetaFile) = Some (Regular (Doc m))"
  have lock: "keeps ?I lock_delivery"
    unfolding lock_delivery_def by (intro keeps_rules) (simp_all add: ignores_def plain_source_def)
  have run: "spec (case start of
        Running n persisted \<Rightarrow>
          bind (in_worker (completion_child persisted n True role)) (\<lambda>ok.
            bind (handle_err (seq retry_interrupted retry_interrupted)
                    (\<lambda>e. ret (Inl e)) (\<lambda>_. ret (transfer_status (worker_status ok))))
              (\<lambda>result. bind (integrate_completion_transfer result n) (\<lambda>m. ret (Some m))))
      | _ \<Rightarrow> ret r) t (\<lambda>_. advanced (completion_lifecycle ?d)) (\<lambda>_ _. True) (\<lambda>_. True)"
    if "start_advanced ?d (start, x) t" for start x r t
  proof (cases start)
    case (Running n p)
    with that have n: "n = attempt_number ?d" "permits_attempt (completion_lifecycle ?d)" "has_doc t"
      by (simp_all add: start_advanced_def)
    then show ?thesis
      unfolding Running completion_start.case
      by (intro spec_mono [OF spec_worker_integrate [OF n(3)]]) (auto intro: final_advanced)
  qed (use that in \<open>auto simp: start_advanced_def intro: spec_ret\<close>)
  show ?thesis
    unfolding reconcile_completion_delivery_def
    by (rule spec_bind, rule keeps_spec [OF lock])
      (use assms in \<open>auto intro!: spec_bind spec_mono [OF spec_start_advances] run\<close>)
qed


subsection \<open>Histories\<close>

text \<open>
  One locked operation on the handle by some process, in any environment: \<open>en\<close> schedules its
  errors and its death. \<open>delivery_step ok\<close> admits the environments that satisfy \<open>ok\<close>.
\<close>

inductive delivery_step :: "(environment \<Rightarrow> bool) \<Rightarrow> world \<Rightarrow> world \<Rightarrow> bool" for ok where
  detaches: "ok en \<Longrightarrow> delivery_step ok w (snd (detach (w\<lparr>env := en, tick := n\<rparr>)))"
| settles: "ok en \<Longrightarrow> delivery_step ok w (snd (settled_delivery_mode (w\<lparr>env := en, tick := n\<rparr>)))"
| reconciles: "ok en \<Longrightarrow> delivery_step ok w (snd (reconcile_completion_delivery role (w\<lparr>env := en, tick := n\<rparr>)))"
| delivers: "ok en \<Longrightarrow> delivery_step ok w (snd (supervisor_completion_delivery role (w\<lparr>env := en, tick := n\<rparr>)))"

inductive_cases delivery_stepE: "delivery_step ok w w'"

text \<open>
  The contract of an invariant of the protocol: every locked operation keeps it, and it does not
  depend on the environment beyond what \<open>ok\<close> admits. It then holds throughout every history.
\<close>

locale delivery_invariant =
  fixes ok :: "environment \<Rightarrow> bool" and I :: "view \<Rightarrow> bool"
  assumes rebase: "ok en \<Longrightarrow> I (view_of v) \<Longrightarrow> I (view_of (v\<lparr>env := en, tick := n\<rparr>))"
    and detach_keeps: "keeps I detach"
    and settled_mode_keeps: "keeps I settled_delivery_mode"
    and reconcile_keeps: "keeps I (reconcile_completion_delivery role)"
    and supervisor_keeps: "keeps I (supervisor_completion_delivery role)"
begin

lemma step: "delivery_step ok w w' \<Longrightarrow> I (view_of w) \<Longrightarrow> I (view_of w')"
  by (erule delivery_stepE)
    (auto intro!: keeps_run rebase detach_keeps settled_mode_keeps reconcile_keeps supervisor_keeps)

lemma history: "(delivery_step ok)\<^sup>*\<^sup>* w w' \<Longrightarrow> I (view_of w) \<Longrightarrow> I (view_of w')"
  by (induction rule: rtranclp_induct) (auto intro: step)

end

lemma completion_inv_rebase: "completion_inv (view_of v) \<Longrightarrow> completion_inv (view_of (v\<lparr>env := en, tick := n\<rparr>))"
  by (simp add: completion_inv_def completes_def)

lemma activation_inv_rebase:
  "lookups_reliable en \<Longrightarrow> activation_inv (view_of v) \<Longrightarrow> activation_inv (view_of (v\<lparr>env := en, tick := n\<rparr>))"
  by (auto simp: activation_inv_def unactivated_def plain_source_def activation_closed_def activates_def)

interpretation completion_history: delivery_invariant "\<lambda>_. True" completion_inv
  by unfold_locales
    (rule completion_inv_rebase keeps_completion_detach keeps_completion_settled_mode
      keeps_reconcile_delivery keeps_supervisor_delivery, assumption?)+

interpretation activation_history: delivery_invariant lookups_reliable activation_inv
  by unfold_locales
    (rule activation_inv_rebase keeps_detach keeps_settled_mode keeps_activation_reconcile
      keeps_activation_supervisor, assumption?, assumption?)+

text \<open>A handle whose metadata is fresh and for which no helper was started.\<close>

definition fresh_handle :: "world \<Rightarrow> bool" where
  "fresh_handle w \<longleftrightarrow>
     spawned w = [] \<and> (\<exists>m. files w (F MetaFile) = Some (Regular (Doc m)) \<and> delivery m = completion_delivery_default)"

subsection \<open>Properties\<close>

text \<open>
  C1. A completion is handed to the delivery helper at most once. Over any history of completion
  transfers, reconciliations, detaches and recoveries, by any processes, with I/O errors and
  process deaths anywhere, at most one completion helper is ever started for a handle, a record
  that still permits an attempt means none was, and at most one retry is counted.
\<close>

theorem completion_at_most_once:
  assumes "fresh_handle w" and "(delivery_step (\<lambda>_. True))\<^sup>*\<^sup>* w w'"
  shows "count_list (spawned w') ''complete'' \<le> 1 \<and>
     (\<forall>m. files w' (F MetaFile) = Some (Regular (Doc m)) \<longrightarrow>
        retry_count (delivery m) \<le> 1 \<and>
        (permits_attempt (completion_lifecycle (delivery m)) \<longrightarrow> ''complete'' \<notin> set (spawned w')))"
proof -
  have "completion_inv (view_of w)"
    using assms(1) by (auto simp: fresh_handle_def completion_inv_def completes_def view_files view_spawned
        honest_record_def completion_delivery_default_def completion_lifecycle_def permits_attempt_def)
  with assms(2) have "completion_inv (view_of w')" by (rule completion_history.history)
  then show ?thesis
    by (auto simp: completion_inv_def completes_def honest_record_def view_files view_spawned count_list_0_iff)
qed

text \<open>
  C2. Asynchronous delivery is activated at most once. For a source without a v2 registration, and
  while no lookup of a file name fails (every other call may fail, and processes may die anywhere), any
  history of the same operations starts at most one activation helper; once one was started the mode
  stays asynchronous and a recorded outcome says so. A v2 source, and a lookup error, which is taken for
  a v2 registration, make the code start an uncertain activation again.
\<close>

theorem activation_at_most_once:
  assumes "fresh_handle w" and "lookups_reliable (env w)" and "files w REGISTRATION = None"
    and "(delivery_step lookups_reliable)\<^sup>*\<^sup>* w w'"
  shows "count_list (spawned w') ''activate'' \<le> 1 \<and>
     (''activate'' \<in> set (spawned w') \<longrightarrow>
        files w' (F DeliveryModeFile) = Some (Regular (Text (delivery_mode_as_str Async))) \<and>
        (\<exists>t. files w' (F ActivationOutcome) = Some (Regular (Text t)) \<and> started_text t))"
proof -
  have "activation_inv (view_of w)"
    using assms(1-3) by (simp add: fresh_handle_def activation_inv_def unactivated_def plain_source_def
        activates_def view_files view_spawned) (simp add: view_of_def)
  with assms(4) have "activation_inv (view_of w')" by (rule activation_history.history)
  then show ?thesis
    by (auto simp: activation_inv_def unactivated_def activation_closed_def activates_def view_files
        view_spawned count_list_0_iff)
qed

text \<open>
  C3. Reconciliation makes progress. For a source without a v2 registration whose metadata can be
  found, and while no lookup of a file name fails, a reconciliation that returns leaves a record of no
  higher rank, and a strictly lower one if the record needed progress: from unclaimed to at most one
  retryable failure, from there to a settled record. Two such reconciliations that return therefore
  settle any delivery.
\<close>

theorem reconcile_makes_progress:
  assumes "reconcile_completion_delivery role w = (Done r, w')"
    and "lookups_reliable (env w)" and "files w REGISTRATION = None"
    and "files w (F MetaFile) = Some (Regular (Doc m))"
  shows "\<exists>m'. files w' (F MetaFile) = Some (Regular (Doc m')) \<and>
     delivery_rank (completion_lifecycle (delivery m')) \<le> delivery_rank (completion_lifecycle (delivery m)) \<and>
     (needs_progress (completion_lifecycle (delivery m)) \<longrightarrow>
        delivery_rank (completion_lifecycle (delivery m')) < delivery_rank (completion_lifecycle (delivery m)))"
proof -
  have "plain_source (view_of w)"
    using assms(2,3) by (simp add: plain_source_def view_files) (simp add: view_of_def)
  moreover have "vfiles (view_of w) (F MetaFile) = Some (Regular (Doc m))"
    using assms(4) by (simp add: view_files)
  ultimately have "advanced (completion_lifecycle (delivery m)) (view_of w')"
    using spec_run(1) [OF spec_reconcile_advances assms(1)] by simp
  then show ?thesis by (simp add: advanced_def view_files)
qed

text \<open>A world with one finished handle, for the witnesses.\<close>

definition sample_provenance :: helper_provenance where
  "sample_provenance =
     \<lparr>prov_schema_version = 5, prov_path = ''/s/ab_1/delivery-helper'', device = 1, inode = 2, size_bytes = 3,
      modified_seconds = 4, modified_nanoseconds = 5, file_mode = 493, sha256 = [], environment = [],
      environment_sha256 = None, interpreter = None\<rparr>"

definition sample_meta :: meta where
  "sample_meta =
     with_delivery_helper (meta_new 5 ''ab_1'' 7 8 [''true''] ''/'' ''exit'' Sync None [] None) sample_provenance"

definition sample_world :: world where
  "sample_world = quiet_world\<lparr>files := [F MetaFile \<mapsto> Regular (Doc sample_meta),
     F DeliveryModeFile \<mapsto> Regular (Text ''sync'')]\<rparr>"

lemma sample_fresh: "fresh_handle sample_world"
  by (simp add: fresh_handle_def sample_world_def quiet_world_def sample_meta_def with_delivery_helper_def meta_new_def)

lemmas delivery_run_simps =
  reconcile_completion_delivery_def start_completion_delivery_def settle_provisional_def
  already_handed_off_def fork_transfer_def attempt_number_def completion_child_def
  execute_completion_transfer_def integrate_completion_transfer_def completion_record_def
  run_delivery_helper_command_def with_external_transfer_custody_def begin_external_transfer_custody_def
  wait_delivery_helper_def spawn_helper_def may_stop_def log_spawn_def delivery_request_def from_provenance_def
  touch_now_def touch_def write_meta_atomic_def read_delivery_mode_def read_file_text_def text_of_def
  read_meta_def v2_enabled_def lock_delivery_def lock_file_exclusive_def flock_wait.simps retry_interrupted_def
  in_worker_def unix_ms_def ask_def current_boot_id_def sys_open_create_def sys_open_read_def sys_lstat_def
  durable_marker_exists_def err_not_found_def report_external_custody_cleanup_def
  end_external_transfer_custody_def sys_unlink_def

lemmas sample_simps =
  sample_world_def sample_meta_def with_delivery_helper_def meta_new_def sample_provenance_def
  DELIVERY_HELPER_SCHEMA_VERSION_def completion_delivery_default_def completion_lifecycle_def permits_attempt_def
  REGISTRATION_def saturating_add_u8_def transfer_worker_status
  parse_delivery_mode_as_str [of Sync, simplified] parse_delivery_mode_as_str [of Async, simplified]

lemma sample_delivers:
  "count_list (spawned (snd (reconcile_completion_delivery False sample_world))) ''complete'' = 1"
  by (simp add: delivery_run_simps run_simps sample_simps Let_def)

lemma sample_step:
  "(delivery_step (\<lambda>_. True))\<^sup>*\<^sup>* sample_world (snd (reconcile_completion_delivery False sample_world))"
proof -
  have "sample_world\<lparr>env := quiet_env, tick := 0\<rparr> = sample_world"
    by (simp add: sample_world_def quiet_world_def)
  with delivery_step.reconciles [of "\<lambda>_. True" quiet_env sample_world False 0] show ?thesis
    by (simp add: r_into_rtranclp)
qed

theorem completion_at_most_once_witness:
  "let w' = snd (reconcile_completion_delivery False sample_world)
   in count_list (spawned w') ''complete'' = 1 \<and>
      (\<forall>m. files w' (F MetaFile) = Some (Regular (Doc m)) \<longrightarrow> \<not> permits_attempt (completion_lifecycle (delivery m)))"
  using completion_at_most_once [OF sample_fresh sample_step] sample_delivers
  by (auto simp: Let_def count_list_0_iff [symmetric])

theorem reconcile_makes_progress_witness:
  "\<exists>m'. files (snd (reconcile_completion_delivery False sample_world)) (F MetaFile) = Some (Regular (Doc m')) \<and>
     delivery_rank (completion_lifecycle (delivery m')) < 2"
proof -
  let ?x = "reconcile_completion_delivery False sample_world"
  have "\<exists>r. fst ?x = Done r" by (simp add: delivery_run_simps run_simps sample_simps Let_def)
  then obtain r where "fst ?x = Done r" by blast
  then have x: "?x = (Done r, snd ?x)" by (metis prod.collapse)
  have e: "lookups_reliable (env sample_world)" "files sample_world REGISTRATION = None"
    "files sample_world (F MetaFile) = Some (Regular (Doc sample_meta))"
    by (simp_all add: sample_world_def quiet_world_def quiet_env_def lookups_reliable_def REGISTRATION_def)
  have l: "completion_lifecycle (delivery sample_meta) = Unclaimed"
    by (simp add: sample_meta_def with_delivery_helper_def meta_new_def)
  from reconcile_makes_progress [OF x e] show ?thesis by (auto simp: l needs_progress_def)
qed

text \<open>The activation run on the same handle.\<close>

lemmas activation_run_simps =
  detach_def settle_orphaned_activation_def activation_transfer_state_def read_activation_outcome_def
  run_delivery_transfer_worker_holding_lock_def activation_worker_def record_activation_attempt_def
  record_durable_create_once_marker_def write_delivery_mode_atomic_def claimed_run_def write_activation_pending_def
  write_activation_outcome_def run_required_delivery_helper_command_detailed_def require_helper_success_def
  record_activation_result_def write_activation_succeeded_def repair_delivery_mode_mirror_def lock_completion_def
  require_settled_activation_def parse_activation_outcome_simps detach_outcome_of_def
  boot_custody_may_remain_def

lemma sample_activates: "count_list (spawned (snd (detach sample_world))) ''activate'' = 1"
  by (simp add: activation_run_simps delivery_run_simps run_simps sample_simps Let_def)

theorem activation_at_most_once_witness:
  "count_list (spawned (snd (detach sample_world))) ''activate'' = 1 \<and>
   files (snd (detach sample_world)) (F DeliveryModeFile) = Some (Regular (Text ''async''))"
proof -
  have e: "lookups_reliable (env sample_world)" "files sample_world REGISTRATION = None"
    by (simp_all add: sample_world_def quiet_world_def quiet_env_def lookups_reliable_def REGISTRATION_def)
  have "sample_world\<lparr>env := quiet_env, tick := 0\<rparr> = sample_world"
    by (simp add: sample_world_def quiet_world_def)
  moreover have "lookups_reliable quiet_env" by (simp add: quiet_env_def lookups_reliable_def)
  ultimately have "(delivery_step lookups_reliable)\<^sup>*\<^sup>* sample_world (snd (detach sample_world))"
    using delivery_step.detaches [of lookups_reliable quiet_env sample_world 0] by (simp add: r_into_rtranclp)
  from activation_at_most_once [OF sample_fresh e this] sample_activates show ?thesis
    by (auto simp: count_list_0_iff [symmetric])
qed

subsection \<open>Recovery of the delivery mode\<close>

definition outcome_texts :: "view \<Rightarrow> (activation_outcome \<Rightarrow> bool) \<Rightarrow> bool" where
  "outcome_texts s P \<longleftrightarrow>
     (\<forall>x. vfiles s (F ActivationOutcome) = Some (Regular (Text x)) \<longrightarrow> P (parse_activation_outcome (Some x) False))"

definition uninterrupted :: "activation_outcome \<Rightarrow> bool" where
  "uninterrupted oc \<longleftrightarrow> oc \<noteq> Pending \<and> (\<forall>e. oc \<noteq> PreAdmissionFailed e)"

lemma outcome_texts_ignores: "f \<noteq> F ActivationOutcome \<Longrightarrow> ignores (\<lambda>s. outcome_texts s P) f"
  by (simp add: ignores_def outcome_texts_def)

lemma parsed_outcome_claimed: "parse_activation_outcome (Some x) c \<noteq> ActUnclaimed"
  by (simp add: parse_activation_outcome_def)

lemma reading_outcome: "activation_reading s a \<Longrightarrow> outcome_texts s (\<lambda>oc. oc = act_outcome a)"
  by (simp add: activation_reading_def outcome_texts_def)

lemma spec_require_settled:
  "spec require_settled_activation s (\<lambda>_ t. t = s \<and> outcome_texts s (\<lambda>oc. oc = Succeeded)) (\<lambda>_ _. True) (\<lambda>_. True)"
proof -
  have "spec (case act_outcome a of
        ActUnclaimed \<Rightarrow> ret () | Succeeded \<Rightarrow> ret ()
      | ClaimedWithoutOutcome \<Rightarrow> raise (io_other ''delivery activation outcome is unknown'')
      | Pending \<Rightarrow> raise (io_other ''delivery activation outcome is unknown'')
      | PreAdmissionFailed e \<Rightarrow> raise (io_other e) | Failed e \<Rightarrow> raise (io_other e)
      | TransferOutcomeUnknown \<Rightarrow> raise (io_other ''transfer_outcome_unknown'')) s
      (\<lambda>_ t. t = s \<and> outcome_texts s (\<lambda>oc. oc = Succeeded)) (\<lambda>_ _. True) (\<lambda>_. True)"
    if "activation_reading s a" for a
    using reading_outcome [OF that] parsed_outcome_claimed
    by (cases "act_outcome a") (auto intro!: spec_ret spec_raise simp: outcome_texts_def)
  then show ?thesis
    unfolding require_settled_activation_def by (intro spec_bind spec_activation_state) auto
qed

lemma spec_observed_mode:
  "spec observed_delivery_mode s
     (\<lambda>d t. t = s \<and> (d = Async \<longrightarrow> outcome_texts s (\<lambda>oc. oc = Succeeded))) (\<lambda>_ _. True) (\<lambda>_. True)"
proof -
  have body: "spec (seq (if act_mode a = Async then require_settled_activation else ret ()) (ret (act_mode a))) s
      (\<lambda>d t. t = s \<and> (d = Async \<longrightarrow> outcome_texts s (\<lambda>oc. oc = Succeeded))) (\<lambda>_ _. True) (\<lambda>_. True)" for a
    by (rule spec_bind, rule spec_if, rule spec_mono [OF spec_require_settled]) (auto intro!: spec_ret)
  show ?thesis
    unfolding observed_delivery_mode_def by (rule spec_bind, rule spec_activation_state) (rule body TrueI)+
qed

lemma spec_reset_clean:
  "spec (seq (write_delivery_mode_atomic Sync) (seq (repair_delivery_mode_mirror Sync)
     (seq remove_activation_outcome rollback_activation_attempt))) s
   (\<lambda>_ t. outcome_texts t P) (\<lambda>_ _. True) (\<lambda>_. True)"
proof -
  let ?T = "\<lambda>_ :: view. True"
  have rollback: "keeps (\<lambda>t. outcome_texts t P) rollback_activation_attempt"
    unfolding rollback_activation_attempt_def by (intro keeps_rules outcome_texts_ignores) simp_all
  have remove: "spec remove_activation_outcome t (\<lambda>_ u. outcome_texts u P) (\<lambda>_ _. True) ?T" for t
    unfolding remove_activation_outcome_def
    by (intro spec_handle_err spec_unlink spec_bind spec_open_dir spec_sync)
      (auto intro!: spec_ret spec_raise dest: hardD simp: outcome_texts_def)
  have first: "keeps ?T (write_delivery_mode_atomic Sync)" "keeps ?T (repair_delivery_mode_mirror Sync)"
    unfolding write_delivery_mode_atomic_def by (intro keeps_rules keeps_mirror; simp add: ignores_def)+
  have tail: "spec (seq remove_activation_outcome rollback_activation_attempt) t (\<lambda>_ u. outcome_texts u P) (\<lambda>_ _. True) ?T" for t
    by (rule spec_bind, rule spec_mono [OF remove]) (auto intro: keeps_spec [OF rollback])
  show ?thesis by (rule bind_keeps [OF first(1)], simp, rule bind_keeps [OF first(2)], simp, rule tail)
qed

lemma spec_settle_clean:
  "spec settle_orphaned_activation s (\<lambda>_ t. outcome_texts t uninterrupted) (\<lambda>_ _. True) (\<lambda>_. True)"
proof -
  have unknown: "spec write_activation_transfer_outcome_unknown s (\<lambda>_ t. outcome_texts t uninterrupted) (\<lambda>_ _. True) (\<lambda>_. True)"
    unfolding write_activation_transfer_outcome_unknown_def write_activation_outcome_def
    by (intro spec_atomic_write) (simp_all add: outcome_texts_def uninterrupted_def)
  have "spec (case act_outcome a of
        ClaimedWithoutOutcome \<Rightarrow> seq (write_delivery_mode_atomic Sync) (seq (repair_delivery_mode_mirror Sync)
          (seq remove_activation_outcome rollback_activation_attempt))
      | PreAdmissionFailed _ \<Rightarrow> seq (write_delivery_mode_atomic Sync) (seq (repair_delivery_mode_mirror Sync)
          (seq remove_activation_outcome rollback_activation_attempt))
      | Pending \<Rightarrow> write_activation_transfer_outcome_unknown
      | _ \<Rightarrow> ret ()) s (\<lambda>_ t. outcome_texts t uninterrupted) (\<lambda>_ _. True) (\<lambda>_. True)"
    if "activation_reading s a" for a
  proof -
    have "spec (ret ()) s (\<lambda>_ t. outcome_texts t uninterrupted) (\<lambda>_ _. True) (\<lambda>_. True)" if "uninterrupted (act_outcome a)"
      using reading_outcome [OF \<open>activation_reading s a\<close>] that by (intro spec_ret) (simp add: outcome_texts_def)
    with unknown spec_reset_clean [of s uninterrupted] show ?thesis
      by (cases "act_outcome a") (simp_all add: uninterrupted_def)
  qed
  then show ?thesis
    unfolding settle_orphaned_activation_def Let_def by (intro spec_bind [of activation_transfer_state] spec_activation_state) auto
qed

text \<open>
  A recovered delivery mode is settled. When the recovery of the delivery mode returns, no
  activation is left pending or failed before admission, and it reports asynchronous delivery only
  if no outcome is recorded or the recorded one is success.
\<close>

theorem recovered_mode_settled:
  assumes "settled_delivery_mode w = (Done d, w')" and "files w' (F ActivationOutcome) = Some (Regular (Text x))"
  shows "uninterrupted (parse_activation_outcome (Some x) False) \<and>
     (d = Async \<longrightarrow> parse_activation_outcome (Some x) False = Succeeded)"
proof -
  let ?T = "\<lambda>_ :: view. True"
  have "spec settled_delivery_mode (view_of w)
      (\<lambda>d t. outcome_texts t uninterrupted \<and> (d = Async \<longrightarrow> outcome_texts t (\<lambda>oc. oc = Succeeded))) (\<lambda>_ _. True) ?T"
    unfolding settled_delivery_mode_def
  proof (rule bind_keeps [where I = ?T])
    show "keeps ?T lock_delivery" unfolding lock_delivery_def by (intro keeps_rules) (simp_all add: ignores_def)
    show "spec (seq settle_orphaned_activation observed_delivery_mode) t
        (\<lambda>d t. outcome_texts t uninterrupted \<and> (d = Async \<longrightarrow> outcome_texts t (\<lambda>oc. oc = Succeeded))) (\<lambda>_ _. True) ?T" for t
      by (rule spec_bind, rule spec_mono [OF spec_settle_clean]) (auto intro: spec_mono [OF spec_observed_mode])
  qed simp
  from spec_run(1) [OF this assms(1)] assms(2) show ?thesis by (simp add: outcome_texts_def view_files)
qed

theorem recovered_mode_settled_witness:
  "files (snd (settled_delivery_mode (snd (detach sample_world)))) (F ActivationOutcome)
     = Some (Regular (Text ACTIVATION_SUCCEEDED)) \<and>
   uninterrupted (parse_activation_outcome (Some ACTIVATION_SUCCEEDED) False)"
proof -
  let ?x = "settled_delivery_mode (snd (detach sample_world))"
  have run: "fst ?x = Done Async \<and> files (snd ?x) (F ActivationOutcome) = Some (Regular (Text ACTIVATION_SUCCEEDED))"
    by (simp add: settled_delivery_mode_def observed_delivery_mode_def activation_run_simps delivery_run_simps
        run_simps sample_simps Let_def)
  then have x: "?x = (Done Async, snd ?x)" by (metis prod.collapse)
  note f = conjunct2 [OF run]
  from recovered_mode_settled [OF x f] f show ?thesis by simp
qed

end
