(* ===== verification/Publication_Laws.thy ===== *)
theory Publication_Laws
  imports Publication Delivery_Protocol
begin

section \<open>What stands once a handle is terminal\<close>

text \<open>
  Guarantees of terminal publication over histories in which publications, recoveries of a lost
  supervisor, cancellations, completion deliveries and detaches follow one another in any order,
  each meeting any errors and possibly dying. A property of the metadata and the return-code file
  that does not depend on the delivery record, the delivery mode and the update time is kept by
  every delivery operation; that is the contract \<open>meta_stable\<close>.
\<close>

definition documented :: "(node option \<Rightarrow> meta \<Rightarrow> bool) \<Rightarrow> node option \<Rightarrow> view \<Rightarrow> bool" where
  "documented G c s \<longleftrightarrow>
     plain_source s \<and> vfiles s (F Rc) = c \<and> (\<exists>m. vfiles s (F MetaFile) = Some (Regular (Doc m)) \<and> G c m)"

lemma documented_ignores [simp]:
  "f \<noteq> F MetaFile \<Longrightarrow> f \<noteq> F Rc \<Longrightarrow> f \<noteq> REGISTRATION \<Longrightarrow> ignores (documented G c) f"
  by (simp add: ignores_def documented_def plain_source_def)

lemma documented_custody [simp]: "ignores_custody (documented G c)"
  by (simp add: ignores_custody_def cleanup_error_file_def REGISTRATION_def)

lemma documented_started [simp]: "documented G c (started op s) = documented G c s"
  by (simp add: documented_def plain_source_def)

locale meta_stable =
  fixes G :: "node option \<Rightarrow> meta \<Rightarrow> bool"
  assumes delivery_update: "G c m \<Longrightarrow> G c (m\<lparr>delivery := d\<rparr>)"
    and mode_update: "G c m \<Longrightarrow> G c (m\<lparr>delivery_mode := x\<rparr>)"
    and touch_update: "G c m \<Longrightarrow> G c (touch t m)"
    and workload_update: "G c m \<Longrightarrow> G c (m\<lparr>workload_rc := a, workload_signal := b\<rparr>)"
begin

abbreviation J :: "node option \<Rightarrow> view \<Rightarrow> bool" where
  "J c \<equiv> documented G c"

lemma gives_read: "gives (J c) (G c) read_meta"
  by (auto intro!: givesI spec_read_meta simp: documented_def)

lemma gives_touch: "G c m \<Longrightarrow> gives (J c) (G c) (touch_now m)"
  unfolding touch_now_def by (intro gives_bind_keeps keeps_unix_ms gives_ret touch_update)

lemma keeps_meta_write: "G c m \<Longrightarrow> keeps (J c) (write_meta_atomic m)"
  by (auto intro!: keepsI spec_write_meta intro: mode_update simp: documented_def plain_source_def)

lemma keeps_store: "G c m \<Longrightarrow> keeps (J c) (bind (touch_now m) write_meta_atomic)"
  by (rule keeps_bind_gives [OF gives_touch]) (auto intro: keeps_meta_write)

lemma gives_store: "G c m \<Longrightarrow> gives (J c) (G c) (bind (touch_now m) (\<lambda>m. seq (write_meta_atomic m) (ret m)))"
  by (rule gives_bind [OF gives_touch], assumption, rule gives_bind_keeps [OF keeps_meta_write], assumption, rule gives_ret)

lemma keeps_helper_run: "keeps (J c) (run_delivery_helper_command op custody)"
  unfolding run_delivery_helper_command_def by (intro keeps_with_custody keeps_wait_helper) simp_all

lemma keeps_run_required: "keeps (J c) (run_required_delivery_helper_command_detailed op custody)"
  unfolding run_required_delivery_helper_command_detailed_def
  by (intro keeps_rules keeps_with_custody keeps_wait_helper) simp_all

lemma gives_integrate: "gives (J c) (G c) (integrate_completion_transfer r n)"
  unfolding integrate_completion_transfer_def Let_def
  by (rule gives_bind [OF gives_read])
    (auto split: sum.split intro!: gives_if gives_store gives_ret delivery_update)

lemma keeps_continuation_record: "keeps I (continuation_record r)"
  unfolding continuation_record_def
  by (auto split: sum.split helper_command_error.split intro!: keeps_rules)

lemma keeps_continuation: "G c m \<Longrightarrow> keeps (J c) (execute_continuation_transfer m external)"
  unfolding execute_continuation_transfer_def Let_def
  by (intro keeps_bind [of _ "delivery_request m"] keeps_delivery_request keeps_sum keeps_raise
      keeps_bind [of _ "write_meta_atomic _"] keeps_meta_write delivery_update
      keeps_bind [of _ "run_delivery_helper_command _ _"] keeps_helper_run
      keeps_bind [of _ "continuation_record _"] keeps_continuation_record keeps_store)

lemma keeps_execute: "G c m \<Longrightarrow> keeps (J c) (execute_completion_transfer m n external)"
  unfolding execute_completion_transfer_def
  by (intro keeps_bind [of _ v2_enabled] keeps_v2 keeps_if keeps_continuation
      keeps_bind [of _ "delivery_request m"] keeps_delivery_request keeps_sum keeps_store delivery_update
      keeps_bind_gives [OF gives_touch] keeps_bind [of _ "write_meta_atomic _"] keeps_meta_write
      keeps_bind [of _ "run_delivery_helper_command _ _"] keeps_helper_run)

lemma keeps_child: "G c m \<Longrightarrow> keeps (J c) (completion_child m n external role)"
  unfolding completion_child_def run_custodian_def
  by (intro keeps_rules keeps_execute gives_keeps [OF gives_integrate])

lemma gives_settle_provisional: "G c m \<Longrightarrow> gives (J c) (G c) (settle_provisional m)"
  unfolding settle_provisional_def by (intro gives_if gives_store gives_ret delivery_update)

lemma gives_fork:
  "G c m \<Longrightarrow> gives (J c) (\<lambda>r. \<forall>k p. fst r = Running k p \<longrightarrow> G c p) (fork_transfer role n m)"
proof (rule givesI)
  fix s assume m: "G c m" and s: "J c s"
  have settled: "gives (J c) (\<lambda>r. \<forall>k p. fst r = Running k p \<longrightarrow> G c p)
      (bind (integrate_completion_transfer (Inl e) n) (\<lambda>m. ret (Settled, Some m)))" for e
    by (intro gives_bind_keeps gives_keeps [OF gives_integrate] gives_ret) simp
  show "spec (fork_transfer role n m) s (\<lambda>r t. J c t \<and> (\<forall>k p. fst r = Running k p \<longrightarrow> G c p)) (\<lambda>_. J c) (J c)"
    unfolding fork_transfer_def
    by (intro spec_bind [of sys_sync] spec_sync spec_handle_err givesD [OF settled] s
        spec_bind [of "if role then _ else _"] spec_if spec_ret) (use m s in simp_all)
qed

lemma gives_start: "gives (J c) (\<lambda>r. \<forall>k p. fst r = Running k p \<longrightarrow> G c p) (start_completion_delivery role)"
  unfolding start_completion_delivery_def Let_def
  by (intro gives_bind [OF gives_read] gives_bind_keeps [of _ read_delivery_mode] keeps_read_delivery_mode
      gives_bind_keeps [of _ v2_enabled] keeps_v2
      gives_bind_keeps [of _ "if _ then try_exists SNAPSHOT else _"] keeps_if keeps_ret
      gives_if gives_bind [OF gives_settle_provisional] mode_update
      gives_bind_keeps [of _ "already_handed_off _"] keeps_already_handed_off gives_fork) (auto intro: gives_ret)

lemma keeps_reconcile: "keeps (J c) (reconcile_completion_delivery role)"
  unfolding reconcile_completion_delivery_def
proof (rule keeps_bind)
  show "keeps (J c) lock_delivery" unfolding lock_delivery_def by (intro keeps_rules) simp_all
qed (rule keeps_bind_gives [OF gives_start],
    auto split: completion_start.split intro!: keeps_rules keeps_child gives_keeps [OF gives_integrate])

lemma keeps_supervisor: "keeps (J c) (supervisor_completion_delivery role)"
  unfolding supervisor_completion_delivery_def
proof (rule keeps_bind)
  show "keeps (J c) try_lock_delivery" unfolding try_lock_delivery_def by (intro keeps_try_lock_file) simp_all
qed (rule keeps_if [OF keeps_ret], rule keeps_bind_gives [OF gives_start],
    auto split: completion_start.split intro!: keeps_rules keeps_child gives_keeps [OF gives_integrate])

lemma keeps_mirror_doc: "keeps (J c) (repair_delivery_mode_mirror mode)"
  unfolding repair_delivery_mode_mirror_def
proof (rule keeps_bind)
  show "keeps (J c) lock_completion" unfolding lock_completion_def by (intro keeps_rules) simp_all
qed (rule keeps_bind_gives [OF gives_read],
    intro keeps_if gives_keeps [OF gives_store] mode_update keeps_ret)

lemma keeps_settle_doc: "keeps (J c) settle_orphaned_activation"
  unfolding settle_orphaned_activation_def Let_def write_delivery_mode_atomic_def remove_activation_outcome_def
    rollback_activation_attempt_def write_activation_transfer_outcome_unknown_def write_activation_outcome_def
  by (intro keeps_bind [of _ activation_transfer_state] keeps_activation_transfer_state)
    (auto split: activation_outcome.split intro!: keeps_rules keeps_mirror_doc)

lemma keeps_worker_doc: "keeps (J c) activation_worker"
  unfolding activation_worker_def claimed_run_def record_activation_result_def record_activation_attempt_def
    write_delivery_mode_atomic_def rollback_activation_attempt_def write_activation_pending_def
    write_activation_pre_admission_failed_def write_activation_failed_def write_activation_succeeded_def
    write_activation_outcome_def
  by (intro keeps_rules keeps_settle_doc keeps_mirror_doc keeps_run_required)
    (auto split: helper_command_error.split intro!: keeps_rules keeps_settle_doc keeps_mirror_doc)

lemma keeps_lock_delivery: "keeps (J c) lock_delivery"
  unfolding lock_delivery_def by (intro keeps_rules) simp_all

lemma keeps_readback: "keeps (J c) (readback_activation_committed m)"
  unfolding readback_activation_committed_def by (intro keeps_rules keeps_helper_run)

lemma keeps_detach_doc: "keeps (J c) detach"
  unfolding detach_def retry_uncertain_activation_def write_activation_succeeded_def write_activation_outcome_def
  by (intro keeps_rules keeps_lock_delivery keeps_settle_doc keeps_mirror_doc keeps_worker_doc
      keeps_run_required keeps_readback) simp_all

lemma keeps_settled_mode_doc: "keeps (J c) settled_delivery_mode"
  unfolding settled_delivery_mode_def by (intro keeps_rules keeps_lock_delivery keeps_settle_doc)

lemma keeps_claim: "keeps (J c) (claim_delivery role disp m)"
  unfolding claim_delivery_def by (intro keeps_rules keeps_reconcile)

end

subsection \<open>Two stable properties\<close>

definition outcome_of :: "meta \<Rightarrow> string \<times> string option \<times> int option \<times> int option \<times> nat option \<times> string option" where
  "outcome_of m = (state m, completion_reason m, rc m, signal m, completed_at_unix_ms m, error m)"

definition rc_node :: "meta \<Rightarrow> node option" where
  "rc_node m = Some (Regular (Text (format_rc_bytes (case rc m of Some r \<Rightarrow> r | None \<Rightarrow> EX_SOFTWARE))))"

interpretation stable_outcome: meta_stable "\<lambda>_ m. terminal m \<and> outcome_of m = oc" for oc
  by unfold_locales (auto simp: terminal_def outcome_of_def touch_def)

interpretation stable_rc: meta_stable "\<lambda>c m. terminal m \<longrightarrow> c = rc_node m"
  by unfold_locales (auto simp: terminal_def rc_node_def touch_def)

abbreviation outcome_stands where
  "outcome_stands oc \<equiv> documented (\<lambda>_ m. terminal m \<and> outcome_of m = oc)"

abbreviation rc_documented where
  "rc_documented \<equiv> documented (\<lambda>c m. terminal m \<longrightarrow> c = rc_node m)"

text \<open>The return code agrees with the metadata whenever the metadata is terminal.\<close>

definition rc_inv :: "view \<Rightarrow> bool" where
  "rc_inv s \<longleftrightarrow> (\<exists>c. rc_documented c s)"

lemma keeps_ex: "(\<And>c. keeps (I c) m) \<Longrightarrow> keeps (\<lambda>s. \<exists>c. I c s) m"
  by (rule keepsI, erule exE, rule keeps_yields, assumption, assumption) blast

lemma keeps_cond: "(b \<Longrightarrow> keeps I m) \<Longrightarrow> (\<not> b \<Longrightarrow> keeps I n) \<Longrightarrow> keeps I (if b then m else n)"
  by simp

lemma keeps_rc_inv: "(\<And>c. keeps (rc_documented c) m) \<Longrightarrow> keeps rc_inv m"
  unfolding rc_inv_def [abs_def] by (rule keeps_ex)

lemma keeps_locks_documented:
  "keeps (documented G c) lock_completion" "keeps (documented G c) lock_reconciliation"
  "keeps (documented G c) try_lock_reconciliation" "keeps (documented G c) lock_custody"
proof -
  show "keeps (documented G c) lock_completion" "keeps (documented G c) lock_reconciliation"
    unfolding lock_completion_def lock_reconciliation_def by (intro keeps_rules; simp)+
  show "keeps (documented G c) try_lock_reconciliation"
    unfolding try_lock_reconciliation_def by (intro keeps_try_lock_file) simp_all
  have custody: "documented G c s \<Longrightarrow> documented G c (put (F CustodyLock) n s)" for s n
    by (rule ignoresD) simp_all
  show "keeps (documented G c) lock_custody"
    by (auto intro!: keepsI spec_lock_custody simp: lock_opened_def intro: custody)
qed

lemma gives_v2_documented: "gives (documented G c) (\<lambda>v. \<not> v) v2_enabled"
  by (auto intro!: givesI spec_v2_plain simp: documented_def)

lemma gives_stands:
  "terminal current \<Longrightarrow> gives (documented G c) (\<lambda>b. b)
     (if terminal current then bind v2_enabled (\<lambda>v2. if \<not> v2 then ret True else try_exists SOURCE_BUNDLE) else ret False)"
  by (auto intro!: gives_bind [OF gives_v2_documented] gives_ret)

lemma keeps_publish_outcome:
  "keeps (outcome_stands oc c) (publish_terminal_with_delivery_disposition role m log proposal disp)"
  unfolding publish_terminal_with_delivery_disposition_def Let_def
  by (rule keeps_bind [OF keeps_locks_documented(1)], rule keeps_bind_gives [OF stable_outcome.gives_read],
      rule keeps_bind_gives [OF gives_stands], simp, rule keeps_cond)
    (intro keeps_rules stable_outcome.keeps_claim, simp)

text \<open>A publication in progress: the metadata on disk is not terminal yet.\<close>

definition unpublished :: "meta \<Rightarrow> view \<Rightarrow> bool" where
  "unpublished m s \<longleftrightarrow> plain_source s \<and> vfiles s (F MetaFile) = Some (Regular (Doc m)) \<and> \<not> terminal m"

lemma unpublished_rc_inv: "unpublished m s \<Longrightarrow> rc_inv s"
  by (auto simp: unpublished_def rc_inv_def documented_def)

lemma unpublished_ignores [simp]: "f \<noteq> F MetaFile \<Longrightarrow> f \<noteq> REGISTRATION \<Longrightarrow> ignores (unpublished m) f"
  by (simp add: ignores_def unpublished_def plain_source_def)

lemma yields_write_terminal:
  assumes "unpublished current s"
  shows "yields (write_terminal m) s rc_inv"
proof -
  let ?rc = "Regular (Text (format_rc_bytes (case rc m of Some r \<Rightarrow> r | None \<Rightarrow> EX_SOFTWARE)))"
  have "unpublished current (put (F Rc) (Some ?rc) s)" using assms by (simp add: unpublished_def plain_source_def)
  note coded = this unpublished_rc_inv [OF this]
  have "yields (write_meta_atomic m) (put (F Rc) (Some ?rc) s) rc_inv"
    by (rule spec_write_meta)
      (use coded in \<open>auto simp: rc_inv_def documented_def rc_node_def unpublished_def plain_source_def\<close>)
  then show ?thesis
    unfolding write_terminal_def write_rc_atomic_def
    by (intro spec_bind spec_atomic_write) (use coded unpublished_rc_inv [OF assms] in simp_all)
qed

lemma yields_publish_proposal:
  assumes "unpublished current s"
  shows "yields (publish_proposal m log p accepted drained_tree) s rc_inv"
proof -
  have pre: "keeps (unpublished current) (if b then record_cancellation_drained else ret ())"
    "keeps (unpublished current) (if b then sys_sync else ret ())" for b
    unfolding record_cancellation_drained_def by (intro keeps_rules; simp)+
  have wrote: "yields (seq (write_terminal m') (ret m')) t rc_inv" if "unpublished current t" for m' t
    by (rule yields_then [OF yields_write_terminal [OF that]]) (rule keeps_ret)
  have step: "yields (bind op f) t rc_inv"
    if "keeps (unpublished current) op" "unpublished current t"
      "\<And>a u. unpublished current u \<Longrightarrow> yields (f a) u rc_inv" for op :: "'b io" and f :: "'b \<Rightarrow> 'c io" and t
    by (rule spec_bind, rule keeps_spec [OF that(1,2)]) (use that(3) unpublished_rc_inv in auto)
  show ?thesis
    unfolding publish_proposal_def Let_def
    by (rule step [OF pre(1) assms], erule step [OF pre(2)], erule step [OF keeps_unix_ms],
        erule step [OF keeps_unix_ms], erule wrote)
qed

end
