(* ===== verification/Handle_History.thy ===== *)
theory Handle_History
  imports Publication_Laws
begin

section \<open>Histories of a handle\<close>

text \<open>
  Terminal publication, recovery of a lost supervisor, explicit cancellation and the delivery
  operations follow one another on a handle in any order, each in any environment. The contract
  \<open>publication_invariant\<close> extends that of the delivery protocol by what publication keeps, which gives
  that recoveries keep it; \<open>handle_invariant\<close> adds that the markers of cancellation do not matter, which
  gives that every operation keeps it. \<open>handle_frame\<close> collects what leaves the markers of custody and of an
  accepted cancellation alone.
\<close>

subsection \<open>The steps\<close>

inductive handle_step :: "(environment \<Rightarrow> bool) \<Rightarrow> world \<Rightarrow> world \<Rightarrow> bool" for ok where
  delivery: "delivery_step ok w w' \<Longrightarrow> handle_step ok w w'"
| publishes: "ok en \<Longrightarrow> handle_step ok w
     (snd (publish_terminal_with_delivery_disposition role m log p disp (w\<lparr>env := en, tick := n\<rparr>)))"
| recovers: "ok en \<Longrightarrow> handle_step ok w
     (snd (reconcile_lost_supervisor_with_delivery role disp tree_empty (w\<lparr>env := en, tick := n\<rparr>)))"
| guardian_recovers: "ok en \<Longrightarrow> handle_step ok w
     (snd (reconcile_lost_supervisor_after_guardian role tree_empty (w\<lparr>env := en, tick := n\<rparr>)))"
| cancels: "ok en \<Longrightarrow> handle_step ok w (snd (request_cancel role (w\<lparr>env := en, tick := n\<rparr>)))"
| discharges: "ok en \<Longrightarrow> handle_step ok w (snd (end_physical_custody (w\<lparr>env := en, tick := n\<rparr>)))"

inductive_cases handle_stepE: "handle_step ok w w'"

text \<open>Observations of the environment and of markers keep every invariant.\<close>

lemma keeps_explicit_cancel_accepted [keeps_rules]: "keeps I explicit_cancel_accepted"
  unfolding explicit_cancel_accepted_def by (intro keeps_rules) simp

lemma keeps_processes_are_gone [keeps_rules]: "keeps I (processes_are_gone m)"
  unfolding processes_are_gone_def by (intro keeps_rules)

lemma keeps_capture [keeps_rules]: "keeps I (capture_cancel_supervisor identity)"
  unfolding capture_cancel_supervisor_def by (intro keeps_rules)

lemma keeps_wait_metadata_loop [keeps_rules]: "keeps I (wait_metadata_loop n d)"
proof (induction n)
  case 0
  then show ?case using keeps_halt [of I] by (simp add: keeps_def spec_def)
next
  case (Suc n)
  show ?case unfolding wait_metadata_loop.simps(2) [abs_def] by (intro keeps_rules Suc)
qed

lemma keeps_wait_for_metadata [keeps_rules]: "keeps I wait_for_supervisor_metadata"
  unfolding wait_for_supervisor_metadata_def
  by (intro keeps_bind keeps_ask keeps_patience [where m = "\<lambda>n. wait_metadata_loop n _"] keeps_wait_metadata_loop)

locale publication_invariant = delivery_invariant +
  assumes publish_keeps: "keeps I (publish_terminal_with_delivery_disposition role m log p disp)"
    and lock_free: "f \<in> {CompletionLock, ReconciliationLock, CustodyLock} \<Longrightarrow> ignores I (F f)"
begin

lemma locks_keep:
  "keeps I lock_completion" "keeps I lock_reconciliation" "keeps I try_lock_reconciliation" "keeps I lock_custody"
proof -
  show "keeps I lock_completion" "keeps I lock_reconciliation"
    unfolding lock_completion_def lock_reconciliation_def by (intro keeps_rules lock_free; simp)+
  show "keeps I try_lock_reconciliation"
    unfolding try_lock_reconciliation_def by (intro keeps_try_lock_file lock_free) simp_all
  have opened: "I s \<Longrightarrow> I (lock_opened (F CustodyLock) s)" for s
    using lock_free [of CustodyLock] by (simp add: lock_opened_def ignores_def)
  then show "keeps I lock_custody" by (auto intro!: keepsI spec_lock_custody)
qed

lemma claim_keeps: "keeps I (claim_delivery role disp m)"
  unfolding claim_delivery_def by (intro keeps_rules reconcile_keeps)

lemma recovery_keeps: "keeps I (reconcile_lost_supervisor_locked role disp tree_empty)"
  unfolding reconcile_lost_supervisor_locked_def by (intro keeps_rules claim_keeps publish_keeps)

lemma recover_keeps: "keeps I (reconcile_lost_supervisor_with_delivery role disp tree_empty)"
  unfolding reconcile_lost_supervisor_with_delivery_def by (intro keeps_rules locks_keep recovery_keeps)

lemma guardian_keeps: "keeps I (reconcile_lost_supervisor_after_guardian role tree_empty)"
  unfolding reconcile_lost_supervisor_after_guardian_def by (intro keeps_rules locks_keep recovery_keeps)

text \<open>The steps that neither request a cancellation nor discharge custody.\<close>

lemma other_steps_keep:
  assumes "handle_step ok w w'" and "I (view_of w)"
    and "\<And>role en n. ok en \<Longrightarrow> w' \<noteq> snd (request_cancel role (w\<lparr>env := en, tick := n\<rparr>))"
    and "\<And>en n. ok en \<Longrightarrow> w' \<noteq> snd (end_physical_custody (w\<lparr>env := en, tick := n\<rparr>))"
  shows "I (view_of w')"
  using assms(1)
proof (rule handle_stepE)
  assume "delivery_step ok w w'"
  then show ?thesis using assms(2) by (rule step)
qed (use assms(2-4) in \<open>auto intro!: keeps_run rebase publish_keeps recover_keeps guardian_keeps\<close>)

end

locale handle_invariant = publication_invariant +
  assumes marker_free: "f \<in> {AcceptedCancel, CancellationDrained, PhysicalCustody} \<Longrightarrow> ignores I (F f)"
begin

lemma admission_keeps: "keeps I accept_terminal_custody_cancel"
  unfolding accept_terminal_custody_cancel_def record_explicit_cancel_acceptance_def
  by (intro keeps_rules locks_keep marker_free) simp_all

lemma discharge_keeps: "keeps I end_physical_custody"
  unfolding end_physical_custody_def record_cancellation_drained_def
  by (intro keeps_rules locks_keep marker_free) simp_all

lemma cancel_keeps: "keeps I (request_cancel role)"
proof -
  have terminal: "keeps I request_terminal_cancel"
    unfolding request_terminal_cancel_def by (intro keeps_rules admission_keeps)
  have lost: "keeps I (reconcile_lost_supervisor role)"
    unfolding reconcile_lost_supervisor_def by (rule recover_keeps)
  have "keeps I (cancel_captured role)"
    unfolding cancel_captured_def record_explicit_cancel_acceptance_def
    by (intro keeps_rules lost marker_free) simp_all
  moreover have "keeps I (cancel_without_supervisor role)"
    unfolding cancel_without_supervisor_def by (intro keeps_rules terminal lost)
  ultimately show ?thesis unfolding request_cancel_def by (intro keeps_rules locks_keep terminal)
qed

lemmas operations_keep = publish_keeps recover_keeps guardian_keeps cancel_keeps discharge_keeps

lemma handle_step_keeps:
  assumes "handle_step ok w w'" and "I (view_of w)"
  shows "I (view_of w')"
  using assms(1)
proof (rule handle_stepE)
  assume "delivery_step ok w w'"
  then show ?thesis using assms(2) by (rule step)
qed (hypsubst, rule operations_keep [THEN keeps_run], erule rebase, rule assms(2))+

lemma handle_history: "(handle_step ok)\<^sup>*\<^sup>* w w' \<Longrightarrow> I (view_of w) \<Longrightarrow> I (view_of w')"
  by (induction rule: rtranclp_induct) (auto intro: handle_step_keeps)

end

subsection \<open>Publication keeps the four invariants\<close>

lemma bind_ret [simp]: "bind (ret a) f = f a"
  by (simp add: bind_def ret_def fun_eq_iff)

lemma yields_read_meta:
  assumes "I s" and "\<And>m. vfiles s (F MetaFile) = Some (Regular (Doc m)) \<Longrightarrow> yields (f m) s I"
  shows "yields (bind read_meta f) s I"
  by (intro spec_bind spec_read_meta) (use assms in auto)

lemma yields_bind_keeps:
  assumes "keeps I m" and "I s" and "\<And>t. I t \<Longrightarrow> J t" and "\<And>a t. I t \<Longrightarrow> yields (f a) t J"
  shows "yields (bind m f) s J"
  by (rule spec_bind, rule keeps_spec [OF assms(1,2)]) (use assms(3,4) in auto)

lemma keeps_claim_rc: "keeps rc_inv (claim_delivery role disp m)"
  by (rule keeps_rc_inv) (rule stable_rc.keeps_claim)

lemma yields_publish_finalized:
  assumes "unpublished current s"
  shows "yields (case finalize_terminal_proposal proposal accepted of
       DeferredForAcceptedCancel \<Rightarrow> ret (PublicationDeferred, m1)
     | Publish p \<Rightarrow> bind (publish_proposal m1 log p accepted drained) (\<lambda>m2.
         bind (claim_delivery role disp m2) (\<lambda>m3. ret (Published, m3)))) s rc_inv"
  using unpublished_rc_inv [OF assms]
  by (auto split: finalized_proposal.split intro!: spec_ret yields_then [OF yields_publish_proposal [OF assms]]
      keeps_bind keeps_claim_rc keeps_ret)

lemma keeps_publish_rc:
  "keeps rc_inv (publish_terminal_with_delivery_disposition role m log proposal disp)"
  unfolding publish_terminal_with_delivery_disposition_def Let_def
proof (rule keeps_bind [OF keeps_rc_inv [OF keeps_locks_documented(1)]], rule keepsI,
    rule yields_read_meta, assumption, goal_cases)
  case (1 _ s current)
  show ?case
  proof (cases "terminal current")
    case True
    obtain c where c: "rc_documented c s" using 1(1) by (auto simp: rc_inv_def)
    show ?thesis
      by (rule keeps_yields [where I = "rc_documented c"], rule keeps_bind_gives [OF gives_stands [OF True]], simp)
        (intro keeps_rules stable_rc.keeps_claim, use c in \<open>auto simp: rc_inv_def\<close>)
  next
    case False
    then have u: "unpublished current s" using 1 by (auto simp: unpublished_def rc_inv_def documented_def)
    show ?thesis
      by (simp only: False if_False bind_ret)
        (rule yields_bind_keeps [OF keeps_explicit_cancel_accepted [of "unpublished current"] u unpublished_rc_inv], assumption,
         auto intro!: spec_ret yields_publish_finalized dest: unpublished_rc_inv)
  qed
qed

text \<open>
  For the delivery invariants a publication is a change of the metadata that leaves the delivery
  record as it was read under the lock.
\<close>

lemma delivery_apply_proposal [simp]: "delivery (apply_proposal p now t m) = delivery m"
  by (simp add: apply_proposal_def apply_ready_sentinel_metadata_def apply_terminal_metadata_def
      apply_cancellation_metadata_def apply_supervisor_error_metadata_def apply_lost_supervisor_metadata_def
      touch_def split: terminal_proposal.split)

definition honest_about :: "completion_delivery \<Rightarrow> view \<Rightarrow> bool" where
  "honest_about d s \<longleftrightarrow> completion_inv s \<and> honest_record (completes s) d"

lemma honest_about_ignores [simp]: "f \<noteq> F MetaFile \<Longrightarrow> ignores (honest_about d) f"
  by (simp add: ignores_def honest_about_def completion_inv_def)

lemma keeps_write_honest: "delivery m = d \<Longrightarrow> keeps (honest_about d) (write_meta_atomic m)"
  by (auto intro!: keepsI spec_write_meta simp: honest_about_def completion_inv_def)

lemma keeps_publish_proposal_honest:
  "delivery m = d \<Longrightarrow> keeps (honest_about d) (publish_proposal m log p accepted drained)"
  unfolding publish_proposal_def write_terminal_def record_cancellation_drained_def write_rc_atomic_def Let_def
  by (intro keeps_rules keeps_write_honest) simp_all

lemma keeps_completion_claim [keeps_rules]: "keeps completion_inv (claim_delivery role disp m)"
  unfolding claim_delivery_def by (intro keeps_rules keeps_reconcile_delivery)

lemma keeps_try_exists [keeps_rules]: "\<not> is_tmp f \<Longrightarrow> keeps I (try_exists f)"
  unfolding try_exists_def by (intro keeps_rules)

lemma yields_publish_honest:
  assumes "honest_about (delivery m1) s"
  shows "yields (case finalize_terminal_proposal proposal accepted of
       DeferredForAcceptedCancel \<Rightarrow> ret (PublicationDeferred, m1)
     | Publish p \<Rightarrow> bind (publish_proposal m1 log p accepted drained) (\<lambda>m2.
         bind (claim_delivery role disp m2) (\<lambda>m3. ret (Published, m3)))) s completion_inv"
proof -
  have "yields (publish_proposal m1 log p accepted drained) s completion_inv" for p
    by (rule keeps_yields [OF keeps_publish_proposal_honest [OF refl] assms]) (simp add: honest_about_def)
  then show ?thesis
    using assms by (auto split: finalized_proposal.split intro!: spec_ret yields_then keeps_bind keeps_completion_claim
        keeps_ret simp: honest_about_def)
qed

lemma keeps_publish_completion:
  "keeps completion_inv (publish_terminal_with_delivery_disposition role m log proposal disp)"
  unfolding publish_terminal_with_delivery_disposition_def Let_def
proof (rule keeps_bind [OF keeps_completion_locks(2)], rule keepsI, rule yields_read_meta, assumption, goal_cases)
  case (1 _ s current)
  let ?I = "honest_about (delivery current)"
  have I: "?I s" using 1 by (auto simp: honest_about_def completion_inv_def)
  have J: "?I t \<Longrightarrow> completion_inv t" for t by (simp add: honest_about_def)
  have stands: "keeps ?I (if terminal current then bind v2_enabled (\<lambda>v2. if \<not> v2 then ret True
      else try_exists SOURCE_BUNDLE) else ret False)"
    by (intro keeps_rules) (simp add: SOURCE_BUNDLE_def)
  show ?case
  proof (rule yields_bind_keeps [OF stands I J], assumption, rule spec_if, goal_cases)
    case (1 stood t)
    show ?case by (rule keepsD [where I = completion_inv]) (intro keeps_rules J 1(1))+
  next
    case (2 stood t)
    show ?case
      by (rule yields_bind_keeps [OF keeps_explicit_cancel_accepted [of ?I] 2(1) J], assumption)
        (auto intro!: spec_ret yields_publish_honest dest: J)
  qed
qed

lemma keeps_publish_activation:
  "keeps activation_inv (publish_terminal_with_delivery_disposition role m log proposal disp)"
proof -
  have claim: "keeps activation_inv (claim_delivery role disp m)" for m
    unfolding claim_delivery_def by (intro keeps_rules keeps_activation_reconcile)
  have "keeps activation_inv (publish_proposal m log p accepted drained)" for m p accepted drained
    unfolding publish_proposal_def write_terminal_def record_cancellation_drained_def write_rc_atomic_def Let_def
    by (intro keeps_rules) simp_all
  with claim show ?thesis
    unfolding publish_terminal_with_delivery_disposition_def Let_def lock_completion_def
    by (auto intro!: keeps_bind keeps_if keeps_rules split: finalized_proposal.split simp: SOURCE_BUNDLE_def)
qed

subsection \<open>What leaves custody and cancellation alone\<close>

text \<open>
  A property that depends on no file of the handle but the custody marker and the accepted
  cancellation, and not on the helpers started, is kept by every delivery and by every publication.
\<close>

locale handle_frame =
  fixes I :: "view \<Rightarrow> bool"
  assumes free_file: "f \<noteq> PhysicalCustody \<Longrightarrow> f \<noteq> AcceptedCancel \<Longrightarrow> ignores I (F f)"
    and free_error: "ignores I cleanup_error_file"
    and other_helper: "op \<noteq> ''workload'' \<Longrightarrow> I s \<Longrightarrow> I (started op s)"
begin

lemma free_custody: "ignores_custody I"
  by (simp add: ignores_custody_def free_file free_error)

lemma keeps_helper: "op \<noteq> ''workload'' \<Longrightarrow> keeps I (wait_delivery_helper op)"
  by (rule keeps_wait_helper, rule other_helper)

lemma keeps_helpers:
  "op \<noteq> ''workload'' \<Longrightarrow> keeps I (run_delivery_helper_command op c)"
  "op \<noteq> ''workload'' \<Longrightarrow> keeps I (run_required_delivery_helper_command_detailed op c)"
  unfolding run_delivery_helper_command_def run_required_delivery_helper_command_detailed_def
  by (intro keeps_rules keeps_with_custody keeps_helper free_custody; assumption)+

lemma keeps_writes: "keeps I (write_meta_atomic m)" "keeps I (write_rc_atomic r)" "keeps I (write_terminal m)"
proof -
  show "keeps I (write_meta_atomic m)" "keeps I (write_rc_atomic r)" for m r
    unfolding write_meta_atomic_def write_rc_atomic_def by (intro keeps_rules; simp add: free_file)+
  then show "keeps I (write_terminal m)" unfolding write_terminal_def by (intro keeps_rules)
qed

lemma keeps_locks: "keeps I lock_completion" "keeps I lock_delivery" "keeps I try_lock_delivery"
  unfolding lock_completion_def lock_delivery_def try_lock_delivery_def
  by (intro keeps_rules keeps_try_lock_file; simp add: free_file)+

lemma keeps_integration: "keeps I (integrate_completion_transfer r n)"
  unfolding integrate_completion_transfer_def Let_def by (intro keeps_rules keeps_writes)

lemma keeps_continuation_record: "keeps I (continuation_record r)"
  unfolding continuation_record_def by (auto split: sum.split helper_command_error.split intro!: keeps_rules)

lemma keeps_transfer: "keeps I (execute_completion_transfer m n c)"
  unfolding execute_completion_transfer_def execute_continuation_transfer_def Let_def
  by (intro keeps_rules keeps_writes keeps_helpers keeps_continuation_record) simp_all

lemma keeps_child: "keeps I (completion_child m n c role)"
  unfolding completion_child_def run_custodian_def
  by (intro keeps_rules keeps_transfer keeps_integration)

lemma keeps_settle_provisional: "keeps I (settle_provisional m)"
  unfolding settle_provisional_def Let_def by (intro keeps_rules keeps_writes)

lemma keeps_fork_transfer: "keeps I (fork_transfer role n m)"
  unfolding fork_transfer_def Let_def by (intro keeps_rules keeps_integration)

lemma keeps_start: "keeps I (start_completion_delivery role)"
  unfolding start_completion_delivery_def Let_def
  by (intro keeps_rules keeps_locks keeps_child keeps_integration keeps_settle_provisional keeps_fork_transfer)

lemma keeps_reconcile: "keeps I (reconcile_completion_delivery role)"
  unfolding reconcile_completion_delivery_def Let_def
  by (intro keeps_rules keeps_locks keeps_start keeps_child keeps_integration keeps_settle_provisional keeps_fork_transfer)

lemma keeps_supervised: "keeps I (supervisor_completion_delivery role)"
  unfolding supervisor_completion_delivery_def
  by (intro keeps_rules keeps_locks keeps_start keeps_child keeps_integration)

lemma keeps_publish: "keeps I (publish_terminal_with_delivery_disposition role m log p disp)"
proof -
  have claim: "keeps I (claim_delivery role disp m)" for m
    unfolding claim_delivery_def by (intro keeps_rules keeps_reconcile)
  have "keeps I (publish_proposal m log p accepted drained)" for m p accepted drained
    unfolding publish_proposal_def record_cancellation_drained_def Let_def
    by (intro keeps_rules keeps_writes) (simp_all add: free_file)
  with claim show ?thesis
    unfolding publish_terminal_with_delivery_disposition_def Let_def
    by (auto intro!: keeps_bind keeps_if keeps_rules keeps_locks split: finalized_proposal.split simp: SOURCE_BUNDLE_def)
qed

lemma keeps_modes: "keeps I (write_delivery_mode_atomic mode)" "keeps I (repair_delivery_mode_mirror mode)"
  unfolding write_delivery_mode_atomic_def repair_delivery_mode_mirror_def
  by (intro keeps_rules keeps_locks keeps_writes; simp add: free_file)+

lemma keeps_settling: "keeps I settle_orphaned_activation" "keeps I settled_delivery_mode"
proof -
  show "keeps I settle_orphaned_activation"
    unfolding settle_orphaned_activation_def remove_activation_outcome_def rollback_activation_attempt_def
      write_activation_transfer_outcome_unknown_def write_activation_outcome_def Let_def
    by (intro keeps_bind [of _ activation_transfer_state] keeps_activation_transfer_state)
      (auto split: activation_outcome.split intro!: keeps_rules keeps_modes simp: free_file)
  then show "keeps I settled_delivery_mode"
    unfolding settled_delivery_mode_def by (intro keeps_rules keeps_locks)
qed

lemma keeps_outcomes:
  "keeps I write_activation_pending" "keeps I write_activation_succeeded" "keeps I (write_activation_failed d)"
  "keeps I (write_activation_pre_admission_failed d)" "keeps I record_activation_attempt" "keeps I rollback_activation_attempt"
  unfolding write_activation_pending_def write_activation_succeeded_def write_activation_failed_def
    write_activation_pre_admission_failed_def write_activation_outcome_def record_activation_attempt_def rollback_activation_attempt_def
  by (intro keeps_rules; simp add: free_file)+

lemma keeps_activation: "keeps I activation_worker" "keeps I retry_uncertain_activation"
proof -
  show "keeps I activation_worker"
    unfolding activation_worker_def claimed_run_def record_activation_result_def
    by (intro keeps_rules keeps_settling keeps_modes keeps_outcomes keeps_helpers)
      (auto split: helper_command_error.split intro!: keeps_rules keeps_settling keeps_modes keeps_outcomes keeps_helpers)
  have "keeps I (readback_activation_committed m)" for m
    unfolding readback_activation_committed_def by (intro keeps_rules keeps_helpers) simp
  then show "keeps I retry_uncertain_activation"
    unfolding retry_uncertain_activation_def run_delivery_transfer_worker_holding_lock_def
    by (intro keeps_rules keeps_outcomes keeps_helpers) simp_all
qed

lemma keeps_detached: "keeps I detach"
  unfolding detach_def run_delivery_transfer_worker_holding_lock_def
  by (intro keeps_rules keeps_locks keeps_settling keeps_activation keeps_modes)

end

subsection \<open>Interpretations\<close>

lemma documented_rebase:
  "lookups_reliable en \<Longrightarrow> documented G c (view_of v) \<Longrightarrow> documented G c (view_of (v\<lparr>env := en, tick := n\<rparr>))"
  by (auto simp: documented_def plain_source_def)

lemma ignores_ex: "(\<And>c. ignores (I c) f) \<Longrightarrow> ignores (\<lambda>s. \<exists>c. I c s) f"
  by (simp add: ignores_def)

interpretation outcome_history: handle_invariant lookups_reliable "outcome_stands oc c" for oc c
  by unfold_locales
    ((rule documented_rebase stable_outcome.keeps_detach_doc stable_outcome.keeps_settled_mode_doc
      stable_outcome.keeps_reconcile stable_outcome.keeps_supervisor keeps_publish_outcome, assumption?, assumption?)+,
     auto simp: REGISTRATION_def)

interpretation rc_history: handle_invariant lookups_reliable rc_inv
proof unfold_locales
  fix en v n assume "lookups_reliable en" "rc_inv (view_of v)"
  then show "rc_inv (view_of (v\<lparr>env := en, tick := n\<rparr>))"
    unfolding rc_inv_def by (blast intro: documented_rebase)
next
  have "ignores rc_inv (F f)" if "f \<in> {CompletionLock, ReconciliationLock, CustodyLock, AcceptedCancel, CancellationDrained, PhysicalCustody}" for f
    using that unfolding rc_inv_def [abs_def] by (intro ignores_ex documented_ignores) (auto simp: REGISTRATION_def)
  then show "f \<in> {CompletionLock, ReconciliationLock, CustodyLock} \<Longrightarrow> ignores rc_inv (F f)"
    "f \<in> {AcceptedCancel, CancellationDrained, PhysicalCustody} \<Longrightarrow> ignores rc_inv (F f)" for f
    by blast+
qed (rule keeps_publish_rc | rule keeps_rc_inv, rule stable_rc.keeps_detach_doc stable_rc.keeps_settled_mode_doc
    stable_rc.keeps_reconcile stable_rc.keeps_supervisor)+

interpretation completion_handle: handle_invariant "\<lambda>_. True" completion_inv
  by unfold_locales (rule keeps_publish_completion, auto)

interpretation activation_handle: handle_invariant lookups_reliable activation_inv
  by unfold_locales (rule keeps_publish_activation, auto simp: REGISTRATION_def)

subsection \<open>Properties\<close>

text \<open>
  C4. The first terminal state of a handle is final. For a source without a v2 registration, and
  while no lookup of a file name fails, no history of publications, recoveries, cancellations, custody
  discharges and deliveries, with errors of every other call and process deaths anywhere, changes the
  state, reason, return code, signal, completion time or error of terminal metadata, nor the
  return-code file. A failing lookup can make the code overwrite it (\<open>lookup_fault_overwrites\<close>).
\<close>

theorem terminal_outcome_final:
  assumes "files w (F MetaFile) = Some (Regular (Doc m))" and "terminal m"
    and "lookups_reliable (env w)" and "files w REGISTRATION = None"
    and "(handle_step lookups_reliable)\<^sup>*\<^sup>* w w'"
  shows "files w' (F Rc) = files w (F Rc) \<and>
     (\<exists>m'. files w' (F MetaFile) = Some (Regular (Doc m')) \<and> terminal m' \<and> outcome_of m' = outcome_of m)"
proof -
  have "plain_source (view_of w)"
    using assms(3,4) by (simp add: plain_source_def view_files) (simp add: view_of_def)
  then have "outcome_stands (outcome_of m) (files w (F Rc)) (view_of w)"
    using assms(1,2) by (simp add: documented_def view_files)
  with assms(5) have "outcome_stands (outcome_of m) (files w (F Rc)) (view_of w')"
    by (rule outcome_history.handle_history)
  then show ?thesis by (auto simp: documented_def view_files)
qed

text \<open>
  C6. Terminal metadata always agrees with the return-code file. For a source without a v2
  registration and while no lookup of a file name fails: starting from a handle that is not terminal,
  whenever any such history, with errors of every other call and deaths anywhere, has made the metadata
  terminal, the return-code file holds the return code that the metadata states, so a reader who sees
  the terminal state never reads a missing or stale return code.
\<close>

theorem terminal_implies_return_code:
  assumes "files w (F MetaFile) = Some (Regular (Doc m))" and "\<not> terminal m"
    and "lookups_reliable (env w)" and "files w REGISTRATION = None"
    and "(handle_step lookups_reliable)\<^sup>*\<^sup>* w w'"
    and "files w' (F MetaFile) = Some (Regular (Doc m'))" and "terminal m'"
  shows "files w' (F Rc) =
     Some (Regular (Text (format_rc_bytes (case rc m' of Some r \<Rightarrow> r | None \<Rightarrow> EX_SOFTWARE))))"
proof -
  have "plain_source (view_of w)"
    using assms(3,4) by (simp add: plain_source_def view_files) (simp add: view_of_def)
  then have "rc_inv (view_of w)"
    using assms(1,2) by (intro unpublished_rc_inv [of m]) (simp add: unpublished_def view_files)
  with assms(5) have "rc_inv (view_of w')" by (rule rc_history.handle_history)
  with assms(6,7) show ?thesis by (auto simp: rc_inv_def documented_def rc_node_def view_files)
qed

text \<open>
  C7. Delivery stays at most once over whole histories of a handle, where publications, recoveries
  of a lost supervisor and cancellations are interleaved with the deliveries: for a fresh handle of a
  source without a v2 registration, and while no lookup of a file name fails (every other call may fail,
  and processes may die anywhere), at most one completion helper and at most one activation helper are
  ever started.
\<close>

theorem handle_delivers_at_most_once:
  assumes "fresh_handle w" and "lookups_reliable (env w)" and "files w REGISTRATION = None"
    and "(handle_step lookups_reliable)\<^sup>*\<^sup>* w w'"
  shows "count_list (spawned w') ''complete'' \<le> 1 \<and> count_list (spawned w') ''activate'' \<le> 1"
proof -
  have "handle_step lookups_reliable u v \<Longrightarrow> handle_step (\<lambda>_. True) u v" for u v
    by (erule handle_step.cases) (auto intro: handle_step.intros elim!: delivery_stepE intro!: delivery_step.intros)
  then have any: "(handle_step (\<lambda>_. True))\<^sup>*\<^sup>* w w'" using assms(4) by (metis mono_rtranclp)
  have "completion_inv (view_of w)"
    using assms(1) by (auto simp: fresh_handle_def completion_inv_def completes_def view_files view_spawned
        honest_record_def completion_delivery_default_def completion_lifecycle_def permits_attempt_def)
  with any have c: "completion_inv (view_of w')" by (rule completion_handle.handle_history)
  have "activation_inv (view_of w)"
    using assms(1-3) by (simp add: fresh_handle_def activation_inv_def unactivated_def plain_source_def
        activates_def view_files view_spawned) (simp add: view_of_def)
  with assms(4) have "activation_inv (view_of w')" by (rule activation_handle.handle_history)
  with c show ?thesis
    by (auto simp: completion_inv_def completes_def activation_inv_def unactivated_def activates_def view_spawned)
qed

subsection \<open>No cancellation after custody\<close>

interpretation custody_frame: handle_frame "custody_closed a" for a
  by unfold_locales (auto simp: custody_closed_def ignores_def cleanup_error_file_def)

interpretation custody_history: publication_invariant "\<lambda>_. True" "custody_closed a" for a
  by unfold_locales
    (auto simp: custody_frame.keeps_detached custody_frame.keeps_settling custody_frame.keeps_reconcile custody_frame.keeps_supervised
      custody_frame.keeps_publish custody_closed_def intro!: custody_frame.free_file)

text \<open>On a terminal handle a cancellation asks for the custody that is gone.\<close>

lemma spec_wait_metadata:
  assumes "vfiles s (F MetaFile) = Some (Regular (Doc m))"
  shows "spec wait_for_supervisor_metadata s (\<lambda>x t. x = m \<and> t = s) (\<lambda>_ t. t = s) (\<lambda>t. t = s)"
proof -
  have "spec (wait_metadata_loop n d) s (\<lambda>x t. x = m \<and> t = s) (\<lambda>_ t. t = s) (\<lambda>t. t = s)" for n d
  proof (induction n)
    case 0
    then show ?case by (simp add: spec_def)
  next
    case (Suc n)
    then show ?case
      unfolding wait_metadata_loop.simps(2) [abs_def]
      by (intro spec_bind spec_read_meta spec_if spec_ret spec_ask) (use assms in auto)
  qed
  then show ?thesis
    unfolding wait_for_supervisor_metadata_def
    by (intro spec_bind spec_ask spec_patience [where m = "\<lambda>n. wait_metadata_loop n _"])
qed

lemma yields_run: "yields m (view_of w) I \<Longrightarrow> I (view_of (snd (m w)))"
  unfolding spec_def by (cases "m w"; cases "fst (m w)") fastforce+

lemma closed_cancel:
  assumes "custody_closed a s" and "vfiles s (F MetaFile) = Some (Regular (Doc m))" and "terminal m"
  shows "yields (request_cancel role) s (custody_closed a)"
  unfolding request_cancel_def request_terminal_cancel_def
  by (rule spec_bind, rule spec_mono [OF spec_wait_metadata [OF assms(2)]])
    (use assms keepsD [OF keeps_bind [OF keeps_admit_discharged keeps_ret]] in auto)

lemma closed_step:
  assumes "handle_step lookups_reliable w w'" and "custody_closed a (view_of w)" and "outcome_stands oc c (view_of w)"
  shows "custody_closed a (view_of w')"
proof -
  have any: "handle_step (\<lambda>_. True) w w'"
    using assms(1) by (rule handle_step.cases) (auto intro: handle_step.intros elim!: delivery_stepE intro!: delivery_step.intros)
  obtain m where m: "vfiles (view_of w) (F MetaFile) = Some (Regular (Doc m))" "terminal m"
    using assms(3) by (auto simp: documented_def)
  consider role en n where "w' = snd (request_cancel role (w\<lparr>env := en, tick := n\<rparr>))"
    | en n where "w' = snd (end_physical_custody (w\<lparr>env := en, tick := n\<rparr>))"
    | "\<And>role en n. w' \<noteq> snd (request_cancel role (w\<lparr>env := en, tick := n\<rparr>))"
      "\<And>en n. w' \<noteq> snd (end_physical_custody (w\<lparr>env := en, tick := n\<rparr>))" by blast
  then show ?thesis
  proof cases
    case (1 role en n)
    have "yields (request_cancel role) (view_of (w\<lparr>env := en, tick := n\<rparr>)) (custody_closed a)"
      by (rule closed_cancel) (use assms(2) m in \<open>auto simp: custody_closed_def\<close>)
    then show ?thesis using 1 yields_run by blast
  next
    case (2 en n)
    then show ?thesis
      using keeps_run [OF keeps_end_discharged, of a "w\<lparr>env := en, tick := n\<rparr>"] assms(2) by (simp add: custody_closed_def)
  next
    case 3
    then show ?thesis by (intro custody_history.other_steps_keep [OF any assms(2)])
  qed
qed

text \<open>
  C36. No cancellation is accepted after custody. When the physical custody of a terminal handle ends
  without an error, the custody file is gone and a cancellation accepted by then is recorded as
  drained; and from then on no history of cancellation requests, custody discharges, publications,
  recoveries and deliveries by any processes accepts another cancellation. The handle is a source
  without a v2 registration and no lookup of a file name fails; every other call may fail and
  processes may die anywhere. Starting a supervisor anew is not part of such a history.
\<close>

theorem discharged_custody_admits_no_cancel:
  assumes "files w (F MetaFile) = Some (Regular (Doc m))" and "terminal m" and "dir_exists w"
    and "lookups_reliable (env w)" and "files w REGISTRATION = None"
    and "end_physical_custody w = (Done (), w1)" and "(handle_step lookups_reliable)\<^sup>*\<^sup>* w1 w2"
  shows "files w1 (F PhysicalCustody) = None \<and>
     (files w (F AcceptedCancel) \<noteq> None \<longrightarrow> files w1 (F CancellationDrained) \<noteq> None) \<and>
     files w2 (F AcceptedCancel) = files w (F AcceptedCancel) \<and> files w2 (F PhysicalCustody) = None"
proof -
  let ?a = "files w (F AcceptedCancel)"
  have "vdir (view_of w)" using assms(3) by (simp add: view_dir)
  from spec_run(1) [OF spec_end_physical_custody [OF this] assms(6)]
  have closed: "custody_closed ?a (view_of w1)"
    and drained: "files w1 (F AcceptedCancel) \<noteq> None \<longrightarrow> files w1 (F CancellationDrained) \<noteq> None"
    by (simp_all add: view_files)
  have "plain_source (view_of w)"
    using assms(4,5) by (simp add: plain_source_def view_files) (simp add: view_of_def)
  then have "outcome_stands (outcome_of m) (files w (F Rc)) (view_of w)"
    using assms(1,2) by (simp add: documented_def view_files)
  from keeps_run [OF outcome_history.discharge_keeps this] assms(6)
  have stands: "outcome_stands (outcome_of m) (files w (F Rc)) (view_of w1)" by simp
  from assms(7) have "custody_closed ?a (view_of w2) \<and> outcome_stands (outcome_of m) (files w (F Rc)) (view_of w2)"
    by (induction rule: rtranclp_induct) (use closed stands closed_step outcome_history.handle_step_keeps in blast)+
  with closed drained show ?thesis by (simp add: custody_closed_def view_files)
qed

subsection \<open>An accepted cancellation decides the outcome\<close>

definition cancelled_outcome :: "meta \<Rightarrow> bool" where
  "cancelled_outcome m \<longleftrightarrow>
     state m = ''DONE'' \<and> completion_reason m = Some ''cancel-request'' \<and> rc m = Some 143 \<and>
     signal m = Some 15 \<and> error m = None"

interpretation stable_cancelled: meta_stable "\<lambda>_. cancelled_outcome"
  by unfold_locales (auto simp: cancelled_outcome_def touch_def)

lemma explicit_request_outcome: "cancelled_outcome (apply_proposal (CancellationProposal ExplicitRequest) now t m)"
  by (simp add: cancelled_outcome_def apply_proposal_def apply_cancellation_metadata_def apply_terminal_metadata_def
      cancellation_terminal_status_def signal_to_shell_rc_def SIGTERM_def touch_def)

definition deferred :: "terminal_proposal \<Rightarrow> delivery_disposition \<Rightarrow> bool" where
  "deferred p disp \<longleftrightarrow> disp = LiveLoop False \<or> (\<exists>ready. p = ReadySentinel ready)"

lemma finalize_accepted:
  "finalize_terminal_proposal p True =
     (if deferred p (LiveLoop True) then DeferredForAcceptedCancel else Publish (CancellationProposal ExplicitRequest))"
  by (auto simp: finalize_terminal_proposal_def deferred_def split: terminal_proposal.split)

text \<open>The state a publication under an accepted cancellation starts from and the one it leaves.\<close>

definition cancelling :: "node \<Rightarrow> node option \<Rightarrow> meta \<Rightarrow> view \<Rightarrow> bool" where
  "cancelling a c m s \<longleftrightarrow>
     plain_source s \<and> vfiles s (F AcceptedCancel) = Some a \<and> vfiles s (F Rc) = c \<and>
     vfiles s (F MetaFile) = Some (Regular (Doc m))"

abbreviation cancelled_with_code :: "view \<Rightarrow> bool" where
  "cancelled_with_code \<equiv> documented (\<lambda>_. cancelled_outcome) (Some (Regular (Text (format_rc_bytes 143))))"

lemma cancelling_ignores [simp]:
  "f \<notin> {F AcceptedCancel, F Rc, F MetaFile, REGISTRATION} \<Longrightarrow> ignores (cancelling a c m) f"
  by (auto simp: ignores_def cancelling_def plain_source_def)

lemma spec_publish_cancellation:
  assumes "cancelling a c m0 s"
  shows "spec (publish_proposal m1 log (CancellationProposal ExplicitRequest) True drained) s
     (\<lambda>_. cancelled_with_code) (\<lambda>_ _. True) (\<lambda>_. True)"
proof -
  let ?I = "cancelling a c m0"
  have pre: "keeps ?I (if b then record_cancellation_drained else ret ())"
    "keeps ?I (if b then sys_sync else ret ())" for b
    unfolding record_cancellation_drained_def by (intro keeps_rules; simp add: REGISTRATION_def)+
  have wrote: "spec (seq (write_terminal m) (ret m)) t (\<lambda>_. cancelled_with_code) (\<lambda>_ _. True) (\<lambda>_. True)"
    if "?I t" "cancelled_outcome m" for t m
    unfolding write_terminal_def write_rc_atomic_def
    by (intro spec_bind spec_atomic_write spec_write_meta spec_ret)
      (use that in \<open>auto simp: documented_def cancelling_def cancelled_outcome_def plain_source_def REGISTRATION_def\<close>)
  have step: "spec (bind op f) t (\<lambda>_. cancelled_with_code) (\<lambda>_ _. True) (\<lambda>_. True)"
    if "keeps ?I op" "?I t" "\<And>x u. ?I u \<Longrightarrow> spec (f x) u (\<lambda>_. cancelled_with_code) (\<lambda>_ _. True) (\<lambda>_. True)"
    for op :: "'b io" and f :: "'b \<Rightarrow> 'c io" and t
    by (rule spec_bind, rule keeps_spec [OF that(1,2)]) (use that(3) in auto)
  show ?thesis
    unfolding publish_proposal_def Let_def
    by (rule step [OF pre(1) assms], erule step [OF pre(2)], erule step [OF keeps_unix_ms],
        erule step [OF keeps_unix_ms], erule wrote, rule explicit_request_outcome)
qed

lemma spec_publish_accepted:
  assumes "cancelling (Regular x) c m0 s" and "\<not> terminal m0"
  shows "spec (publish_terminal_with_delivery_disposition role m log p disp) s
     (\<lambda>r t. if deferred p disp then fst r = PublicationDeferred \<and> cancelling (Regular x) c m0 t
            else fst r = Published \<and> cancelled_with_code t) (\<lambda>_ _. True) (\<lambda>_. True)"
proof -
  let ?I = "cancelling (Regular x) c m0"
  let ?Q = "\<lambda>r t. if deferred p disp then fst r = PublicationDeferred \<and> ?I t
            else fst r = Published \<and> cancelled_with_code t"
  have published: "spec (bind (claim_delivery role disp m2) (\<lambda>m3. ret (Published, m3))) t ?Q (\<lambda>_ _. True) (\<lambda>_. True)"
    if "cancelled_with_code t" "\<not> deferred p disp" for m2 t
    by (rule spec_bind, rule keeps_spec [OF stable_cancelled.keeps_claim that(1)]) (use that(2) in \<open>auto intro!: spec_ret\<close>)
  have body: "spec (if True \<and> disp = LiveLoop False then ret (PublicationDeferred, m1)
      else case finalize_terminal_proposal p True of DeferredForAcceptedCancel \<Rightarrow> ret (PublicationDeferred, m1)
       | Publish p \<Rightarrow> bind (publish_proposal m1 log p True (disp = LiveLoop True)) (\<lambda>m2.
           bind (claim_delivery role disp m2) (\<lambda>m3. ret (Published, m3)))) t ?Q (\<lambda>_ _. True) (\<lambda>_. True)"
    if "?I t" for m1 t
    using that published
    by (auto simp: finalize_accepted deferred_def split: terminal_proposal.split
        intro!: spec_ret spec_bind [of "publish_proposal _ _ _ _ _"] spec_mono [OF spec_publish_cancellation [OF that]])
  have lock: "keeps ?I lock_completion"
    unfolding lock_completion_def by (intro keeps_rules) (simp_all add: REGISTRATION_def)
  show ?thesis
    unfolding publish_terminal_with_delivery_disposition_def Let_def explicit_cancel_accepted_def
  proof (rule spec_bind, rule keeps_spec [OF lock assms(1)], goal_cases)
    case (1 u t)
    then have "vfiles t (F MetaFile) = Some (Regular (Doc m0))" "vfiles t (F AcceptedCancel) = Some (Regular x)"
      by (simp_all add: cancelling_def)
    with 1 assms(2) body [OF 1] show ?case
      by (auto intro!: spec_bind [of read_meta] spec_read_meta spec_bind [of "durable_marker_exists _"]
          spec_durable_marker_exists split del: if_split)
  qed simp_all
qed

text \<open>
  C5. An accepted explicit cancellation decides the outcome. For a source without a v2
  registration and while no lookup of a file name fails: when its marker is on disk and the handle is
  not terminal yet, a publication that returns either defers and leaves the metadata and the return
  code as they were, exactly for a ready sentinel or a live event loop whose tree has not drained, or it
  publishes \<open>DONE\<close>, \<open>cancel-request\<close>, return code 143 and signal 15, with the return-code file to
  match, whatever outcome was proposed.
\<close>

theorem accepted_cancel_decides:
  assumes "publish_terminal_with_delivery_disposition role m log p disp w = (Done (res, m'), w')"
    and "files w (F AcceptedCancel) = Some (Regular x)"
    and "files w (F MetaFile) = Some (Regular (Doc current))" and "\<not> terminal current"
    and "lookups_reliable (env w)" and "files w REGISTRATION = None"
  shows "if disp = LiveLoop False \<or> (\<exists>ready. p = ReadySentinel ready)
     then res = PublicationDeferred \<and> files w' (F MetaFile) = files w (F MetaFile) \<and> files w' (F Rc) = files w (F Rc)
     else res = Published \<and> files w' (F Rc) = Some (Regular (Text (format_rc_bytes 143))) \<and>
       (\<exists>d. files w' (F MetaFile) = Some (Regular (Doc d)) \<and> state d = ''DONE'' \<and>
          completion_reason d = Some ''cancel-request'' \<and> rc d = Some 143 \<and> signal d = Some 15 \<and> error d = None)"
proof -
  have "plain_source (view_of w)"
    using assms(5,6) by (simp add: plain_source_def view_files) (simp add: view_of_def)
  then have "cancelling (Regular x) (files w (F Rc)) current (view_of w)"
    using assms(2,3) by (simp add: cancelling_def view_files)
  from spec_run(1) [OF spec_publish_accepted [OF this assms(4)] assms(1)] show ?thesis
    using assms(3) by (auto simp: deferred_def cancelling_def documented_def cancelled_outcome_def view_files
        split: if_splits)
qed

subsection \<open>Witnesses\<close>

lemma quiet_lookups: "lookups_reliable quiet_env"
  by (simp add: quiet_env_def lookups_reliable_def)

lemma sample_plain:
  "lookups_reliable (env sample_world)" "files sample_world REGISTRATION = None"
  "files sample_world (F MetaFile) = Some (Regular (Doc sample_meta))" "\<not> terminal sample_meta"
  by (simp_all add: sample_world_def quiet_world_def quiet_lookups REGISTRATION_def sample_meta_def
      with_delivery_helper_def meta_new_def terminal_def)

lemma env_quiet: "env w = quiet_env \<Longrightarrow> tick w = 0 \<Longrightarrow> w\<lparr>env := quiet_env, tick := 0\<rparr> = w"
  by (cases w) simp

lemma publishes_quietly:
  assumes "env w = quiet_env" and "tick w = 0"
  shows "(handle_step lookups_reliable)\<^sup>*\<^sup>* w
     (snd (publish_terminal_with_delivery_disposition role m log p disp w))"
  using handle_step.publishes [of lookups_reliable quiet_env w role m log p disp 0] quiet_lookups env_quiet [OF assms]
  by (simp add: r_into_rtranclp)

lemmas publication_run_simps =
  publish_terminal_with_delivery_disposition_def publish_proposal_def write_terminal_def write_rc_atomic_def
  explicit_cancel_accepted_def finalize_terminal_proposal_def apply_proposal_def claim_delivery_def lock_completion_def
  apply_lost_supervisor_metadata_def apply_cancellation_metadata_def apply_terminal_metadata_def
  cancellation_terminal_status_def signal_to_shell_rc_def terminal_def EX_SOFTWARE_def SIGTERM_def

text \<open>A handle whose supervisor was found lost.\<close>

definition lost_world :: world where
  "lost_world = snd (publish_terminal_with_delivery_disposition False sample_meta False SupervisorLost LeavePending sample_world)"

lemma lost_world_meta:
  "\<exists>m. files lost_world (F MetaFile) = Some (Regular (Doc m)) \<and> terminal m \<and> rc m = Some 70 \<and>
     completion_reason m = Some ''supervisor-lost''"
  by (simp add: lost_world_def publication_run_simps delivery_run_simps run_simps sample_simps Let_def)

theorem terminal_implies_return_code_witness:
  "files lost_world (F Rc) = Some (Regular (Text (format_rc_bytes 70)))"
proof -
  obtain m where m: "files lost_world (F MetaFile) = Some (Regular (Doc m))" "terminal m" "rc m = Some 70"
    using lost_world_meta by blast
  have "(handle_step lookups_reliable)\<^sup>*\<^sup>* sample_world lost_world"
    unfolding lost_world_def by (rule publishes_quietly) (simp_all add: sample_world_def quiet_world_def)
  from terminal_implies_return_code [OF sample_plain(3,4,1,2) this m(1,2)] m(3) show ?thesis by simp
qed

lemma lost_world_plain: "env lost_world = quiet_env" "files lost_world REGISTRATION = None"
  by (simp_all add: lost_world_def publication_run_simps delivery_run_simps run_simps sample_simps Let_def)

theorem terminal_outcome_final_witness:
  "\<exists>m. files (snd (publish_terminal_with_delivery_disposition False sample_meta False
       (CancellationProposal ExplicitRequest) LeavePending (lost_world\<lparr>env := quiet_env, tick := 0\<rparr>))) (F MetaFile) =
       Some (Regular (Doc m)) \<and> completion_reason m = Some ''supervisor-lost''"
proof -
  obtain m where m: "files lost_world (F MetaFile) = Some (Regular (Doc m))" "terminal m"
    "completion_reason m = Some ''supervisor-lost''"
    using lost_world_meta by blast
  have e: "lookups_reliable (env lost_world)" by (simp add: lost_world_plain quiet_lookups)
  note step = r_into_rtranclp [of "handle_step lookups_reliable", OF handle_step.publishes [of lookups_reliable quiet_env lost_world False
      sample_meta False "CancellationProposal ExplicitRequest" LeavePending 0, OF quiet_lookups]]
  from terminal_outcome_final [OF m(1,2) e lost_world_plain(2) step] m(3) show ?thesis
    by (auto simp: outcome_of_def)
qed

theorem handle_delivers_at_most_once_witness:
  "fresh_handle sample_world \<and>
   (let w' = snd (publish_terminal_with_delivery_disposition False sample_meta False SupervisorLost ClaimPending sample_world)
    in count_list (spawned w') ''complete'' \<le> 1 \<and> count_list (spawned w') ''activate'' \<le> 1)"
proof -
  have "env sample_world = quiet_env" "tick sample_world = 0" by (simp_all add: sample_world_def quiet_world_def)
  from handle_delivers_at_most_once [OF sample_fresh sample_plain(1,2)
      publishes_quietly [OF this, of False sample_meta False SupervisorLost ClaimPending]] sample_fresh
  show ?thesis by (simp add: Let_def)
qed

definition cancelled_world :: world where
  "cancelled_world = sample_world\<lparr>files := (files sample_world)(F AcceptedCancel \<mapsto> Regular (Text []))\<rparr>"

theorem accepted_cancel_decides_witness:
  "files (snd (publish_terminal_with_delivery_disposition False sample_meta False SupervisorLost LeavePending
     cancelled_world)) (F Rc) = Some (Regular (Text (format_rc_bytes 143)))"
proof -
  let ?x = "publish_terminal_with_delivery_disposition False sample_meta False SupervisorLost LeavePending cancelled_world"
  have "\<exists>r. fst ?x = Done r"
    by (simp add: cancelled_world_def publication_run_simps delivery_run_simps run_simps sample_simps Let_def)
  then obtain r where "fst ?x = Done r" by blast
  then have x: "?x = (Done (fst r, snd r), snd ?x)" by (cases ?x) auto
  have "files cancelled_world (F AcceptedCancel) = Some (Regular (Text []))"
    "files cancelled_world (F MetaFile) = Some (Regular (Doc sample_meta))"
    "lookups_reliable (env cancelled_world)" "files cancelled_world REGISTRATION = None"
    using sample_plain by (simp_all add: cancelled_world_def REGISTRATION_def)
  from accepted_cancel_decides [OF x this(1,2) sample_plain(4) this(3,4)] show ?thesis by simp
qed

text \<open>A terminal handle in custody, with a cancellation accepted.\<close>

definition custody_world :: world where
  "custody_world = quiet_world\<lparr>files :=
     [F MetaFile \<mapsto> Regular (Doc (sample_meta\<lparr>state := ''DONE'', completion_reason := Some ''exit'', rc := Some 0, completed_at_unix_ms := Some 5\<rparr>)),
      F PhysicalCustody \<mapsto> Regular (Text ''b''), F AcceptedCancel \<mapsto> Regular (Text [])]\<rparr>"

theorem discharged_custody_admits_no_cancel_witness:
  "files (snd (end_physical_custody custody_world)) (F CancellationDrained) \<noteq> None \<and>
   files (snd (request_cancel False ((snd (end_physical_custody custody_world))\<lparr>env := quiet_env, tick := 0\<rparr>))) (F PhysicalCustody) = None"
proof -
  let ?x = "end_physical_custody custody_world"
  have "fst ?x = Done ()"
    by (simp add: custody_world_def custody_run_simps record_cancellation_drained_def record_durable_create_once_marker_def run_simps numeral_eq_Suc)
  then have x: "?x = (Done (), snd ?x)" by (metis prod.collapse)
  have w: "files custody_world (F MetaFile) = Some (Regular (Doc (sample_meta\<lparr>state := ''DONE'', completion_reason := Some ''exit'', rc := Some 0,
      completed_at_unix_ms := Some 5\<rparr>)))" "dir_exists custody_world" "lookups_reliable (env custody_world)"
      "files custody_world REGISTRATION = None" "files custody_world (F AcceptedCancel) \<noteq> None"
    by (simp_all add: custody_world_def quiet_world_def quiet_lookups REGISTRATION_def)
  have t: "terminal (sample_meta\<lparr>state := ''DONE'', completion_reason := Some ''exit'', rc := Some 0, completed_at_unix_ms := Some 5\<rparr>)"
    by (simp add: terminal_def)
  note step = r_into_rtranclp [of "handle_step lookups_reliable", OF handle_step.cancels [of lookups_reliable quiet_env "snd ?x" False 0, OF quiet_lookups]]
  from discharged_custody_admits_no_cancel [OF w(1) t w(2,3,4) x step] w(5) show ?thesis by simp
qed

text \<open>
  Why lookups must not fail: an error other than \<^verbatim>\<open>NotFound\<close> from looking up the v2 registration is taken for
  a registration, and since there is no source bundle the terminal state on disk is published over.
\<close>

definition doubtful_world :: world where
  "doubtful_world = quiet_world\<lparr>
     files := [F MetaFile \<mapsto> Regular (Doc (sample_meta\<lparr>state := ''DONE'', completion_reason := Some ''exit'', rc := Some 0, completed_at_unix_ms := Some 5\<rparr>))],
     env := quiet_env\<lparr>lookup_faults := (\<lambda>t. if t = 4 then Fail (io_other []) else Proceed)\<rparr>\<rparr>"

lemma lookup_fault_overwrites:
  "\<exists>m. files (snd (publish_terminal_with_delivery_disposition False sample_meta False (CancellationProposal ExplicitRequest) LeavePending
       doubtful_world)) (F MetaFile) = Some (Regular (Doc m)) \<and> completion_reason m \<noteq> Some ''exit''"
  by (simp add: doubtful_world_def publication_run_simps delivery_run_simps run_simps sample_simps Let_def try_exists_def SOURCE_BUNDLE_def
      io_other_def)

end
