(* ===== verification/Event_Loop_Frame.thy ===== *)
theory Event_Loop_Frame
  imports Event_Loop Handle_History
begin

section \<open>What the methods of the event loop keep\<close>

text \<open>
  A relation between the loop's standing (is a completion recorded, has the root authority granted
  settlement, the completion scope, the cancellation under way) and the handle on disk. The contract \<open>loop_frame\<close> asks that the
  operations which do not publish keep the relation, and gives that every method which does not
  publish keeps it; \<open>loop_invariant\<close> adds what publication owes and covers the whole loop.
\<close>

subsection \<open>The judgement\<close>

type_synonym standing = "bool \<times> bool \<times> completion_scope \<times> cancel_state option"

definition standing :: "event_loop \<Rightarrow> standing" where
  [simp]: "standing l = (completion_recorded l, root_settlement_granted l, scope l, cancellation l)"

text \<open>A cancellation may begin; once begun it keeps its start and its cause never loses rank.\<close>

definition escalated :: "cancel_state option \<Rightarrow> cancel_state \<Rightarrow> bool" where
  "escalated x c \<longleftrightarrow>
     (case x of None \<Rightarrow> True
      | Some c0 \<Rightarrow> started_at c = started_at c0 \<and> cause_rank (provisional_cause c0) \<le> cause_rank (provisional_cause c))"

definition tracks :: "(standing \<Rightarrow> view \<Rightarrow> bool) \<Rightarrow> (view \<Rightarrow> bool) \<Rightarrow> standing \<Rightarrow> event_loop io \<Rightarrow> bool" where
  "tracks R E k m \<longleftrightarrow> (\<forall>s. R k s \<longrightarrow> spec m s (\<lambda>l. R (standing l)) (\<lambda>_. E) E)"

definition leads :: "(standing \<Rightarrow> view \<Rightarrow> bool) \<Rightarrow> standing \<Rightarrow> standing \<Rightarrow> bool" where
  "leads R k k' \<longleftrightarrow> (\<forall>s. R k s \<longrightarrow> R k' s)"

named_theorems track_rules "methods that track the standing"

lemma escalated_simps [simp, intro]:
  "escalated None c" "escalated (Some c) (c\<lparr>provisional_cause := with_precedence_over (provisional_cause c) other\<rparr>)"
  "escalated (Some c) (c\<lparr>provisional_cause := with_observed_explicit_cancel (provisional_cause c) accepted\<rparr>)"
  by (auto simp: escalated_def with_observed_explicit_cancel_def with_precedence_over_def)

lemma leads_refl [simp]: "leads R k k"
  by (simp add: leads_def)

lemma tracksD: "tracks R E k m \<Longrightarrow> R k s \<Longrightarrow> spec m s (\<lambda>l. R (standing l)) (\<lambda>_. E) E"
  by (simp add: tracks_def)

lemma tracks_ret [track_rules]: "leads R k (standing l) \<Longrightarrow> tracks R E k (ret l)"
  by (auto simp: tracks_def leads_def intro!: spec_ret)

lemma tracks_bind:
  assumes "tracks R E k m" and "\<And>l. tracks R E (standing l) (f l)"
  shows "tracks R E k (bind m f)"
  unfolding tracks_def
proof (intro allI impI)
  fix s assume "R k s"
  from tracksD [OF assms(1) this] show "spec (bind m f) s (\<lambda>l. R (standing l)) (\<lambda>_. E) E"
    by (intro spec_bind, elim spec_mono) (use assms(2) in \<open>auto simp: tracks_def\<close>)
qed

lemma tracks_if [track_rules]:
  "(c \<Longrightarrow> tracks R E k m) \<Longrightarrow> (\<not> c \<Longrightarrow> tracks R E k n) \<Longrightarrow> tracks R E k (if c then m else n)"
  by simp

lemma tracks_option [track_rules]:
  "(x = None \<Longrightarrow> tracks R E k m) \<Longrightarrow> (\<And>y. x = Some y \<Longrightarrow> tracks R E k (f y)) \<Longrightarrow>
   tracks R E k (case x of None \<Rightarrow> m | Some y \<Rightarrow> f y)"
  by (cases x) auto

lemma tracks_sum [track_rules]:
  "(\<And>y. tracks R E k (f y)) \<Longrightarrow> (\<And>y. tracks R E k (g y)) \<Longrightarrow> tracks R E k (case x of Inl y \<Rightarrow> f y | Inr y \<Rightarrow> g y)"
  by (cases x) auto

lemma tracks_prod [track_rules]:
  "(\<And>y z. x = (y, z) \<Longrightarrow> tracks R E k (f y z)) \<Longrightarrow> tracks R E k (case x of (y, z) \<Rightarrow> f y z)"
  by (cases x) auto

lemma tracks_patience: "(\<And>n. tracks R E k (m n)) \<Longrightarrow> tracks R E k (\<lambda>w. m (patience (env w)) w)"
  unfolding tracks_def by (auto intro: spec_patience)

lemma tracks_after:
  assumes "keeps (R k) m" and "\<And>s. R k s \<Longrightarrow> E s" and "\<And>a. tracks R E k (f a)"
  shows "tracks R E k (bind m f)"
  unfolding tracks_def
  by (intro allI impI spec_bind, rule keeps_spec [OF assms(1)]) (use assms(2,3) in \<open>auto simp: tracks_def\<close>)

lemma tracks_handle:
  assumes "keeps (R k) m" and "\<And>s. R k s \<Longrightarrow> E s" and "\<And>e. tracks R E k (h e)" and "\<And>a. tracks R E k (f a)"
  shows "tracks R E k (handle_err m h f)"
  unfolding tracks_def
  by (intro allI impI spec_handle_err, rule keeps_spec [OF assms(1)])
    (use assms(2-4) in \<open>auto simp: tracks_def\<close>)

text \<open>Observations keep everything.\<close>

lemma keeps_observed [keeps_rules]: "keeps I observed_cancel"
  unfolding observed_cancel_def by (intro keeps_rules)

lemma keeps_read_available [keeps_rules]: "keeps I read_available"
  unfolding read_available_def read_fd_chunk_def by (intro keeps_rules)

subsection \<open>Methods that do not publish\<close>

locale loop_frame =
  fixes R :: "standing \<Rightarrow> view \<Rightarrow> bool" and E :: "view \<Rightarrow> bool"
  assumes fails: "R k s \<Longrightarrow> E s"
    and grants: "R (r, g, z) s \<Longrightarrow> R (r, True, z) s"
    and cancels: "R (r, g, sc, x) s \<Longrightarrow> escalated x c \<Longrightarrow> R (r, g, sc, Some c) s"
    and notes_down: "Extra f \<noteq> REGISTRATION \<Longrightarrow> keeps (R k) (ignore_err (atomic_write (Extra f) text_body))"
    and locks_completion: "keeps (R k) lock_completion" "keeps (R k) try_lock_completion"
    and locks_delivery: "keeps (R k) try_lock_delivery"
    and drains: "keeps (R k) record_cancellation_drained"
    and integrates: "keeps (R k) (integrate_completion_transfer res n)"
    and forks: "keeps (R k) (start_and_fork role)"
    and stores: "keeps (R k) (store_root_status status)"
    and discharges: "keeps (R k) end_physical_custody"
begin

abbreviation follows :: "standing \<Rightarrow> event_loop io \<Rightarrow> bool" where
  "follows \<equiv> tracks R E"

abbreviation onto :: "standing \<Rightarrow> event_loop \<Rightarrow> bool" where
  "onto k l \<equiv> leads R k (standing l)"

lemma leads_granted [simp]: "leads R k (r, g, z) \<Longrightarrow> leads R k (r, True, z)"
  by (auto simp: leads_def intro: grants)

lemma leads_escalated: "leads R k (r, g, sc, x) \<Longrightarrow> escalated x c \<Longrightarrow> leads R k (r, g, sc, Some c)"
  by (auto simp: leads_def intro: cancels)

lemma onto_lost [simp]: "onto k l \<Longrightarrow> onto k (root_lost l)"
  by (simp add: root_lost_def)

lemma onto_mark [simp]: "standing (mark_completion_delivery_settled l) = standing l"
  by (simp add: mark_completion_delivery_settled_def)

lemma onto_close [simp]: "standing (close_owner_pidfd l) = standing l"
  by (simp add: close_owner_pidfd_def)

lemma follows_raise [track_rules]: "follows k (raise e)"
  by (auto simp: tracks_def intro!: spec_raise intro: fails)

lemma follows_halt [track_rules]: "follows k halt"
  by (auto simp: tracks_def halt_def spec_def intro: fails)

lemma follows_after: "keeps (R k) m \<Longrightarrow> (\<And>a. follows k (f a)) \<Longrightarrow> follows k (bind m f)"
  by (rule tracks_after [where E = E]) (auto intro: fails)

lemma follows_handle:
  "keeps (R k) m \<Longrightarrow> (\<And>e. follows k (h e)) \<Longrightarrow> (\<And>a. follows k (f a)) \<Longrightarrow> follows k (handle_err m h f)"
  by (rule tracks_handle [where E = E]) (auto intro: fails)

lemma follows_bind: "follows k m \<Longrightarrow> (\<And>l. follows (standing l) (f l)) \<Longrightarrow> follows k (bind m f)"
  by (rule tracks_bind)

lemma follows_drive [track_rules]: "onto k l \<Longrightarrow> follows k (drive_cancellation l)"
  unfolding drive_cancellation_def
  by (intro track_rules follows_after keeps_rules) (auto intro: leads_escalated)

lemma follows_request [track_rules]: "onto k l \<Longrightarrow> follows k (request_cancellation c l)"
  unfolding request_cancellation_def Let_def
  by (cases "cancellation l")
    (auto intro!: follows_after keeps_rules follows_drive elim!: leads_escalated)

lemma follows_check_cancel [track_rules]: "onto k l \<Longrightarrow> follows k (check_explicit_cancel l)"
  unfolding check_explicit_cancel_def by (intro track_rules follows_after keeps_rules)

lemma follows_check_owner [track_rules]: "onto k l \<Longrightarrow> follows k (check_polled_owner l)"
  unfolding check_polled_owner_def by (intro track_rules follows_after keeps_rules)

lemma follows_capture_failure [track_rules]: "onto k l \<Longrightarrow> follows k (record_capture_failure e l)"
  unfolding record_capture_failure_def Let_def
  by (intro track_rules follows_after notes_down) (simp_all add: REGISTRATION_def)

lemma follows_root_terminal [track_rules]: "onto k l \<Longrightarrow> follows k (retry_root_terminal l)"
  unfolding retry_root_terminal_def by (intro track_rules follows_after keeps_rules onto_lost) simp_all

lemma follows_announce [track_rules]: "onto k l \<Longrightarrow> follows k (announce_root_local_ready l)"
  unfolding announce_root_local_ready_def by (intro track_rules follows_after keeps_rules onto_lost) simp_all

lemma follows_control_byte [track_rules]: "onto k l \<Longrightarrow> follows k (control_byte c l)"
  unfolding control_byte_def by (intro track_rules) simp_all

lemma follows_control_bytes [track_rules]: "onto k l \<Longrightarrow> follows k (control_bytes bs l)"
  by (induction bs arbitrary: l k) (auto intro!: track_rules tracks_bind)

lemma follows_control_loop [track_rules]: "onto k l \<Longrightarrow> follows k (read_control_loop n l)"
proof (induction n arbitrary: l k)
  case (Suc n)
  show ?case
    unfolding read_control_loop.simps
    by (intro follows_after keeps_rules track_rules follows_bind [of _ "control_bytes _ _"] Suc.IH onto_lost)
      (use Suc.prems in simp_all)
qed (simp add: follows_halt)

lemma follows_read_control [track_rules]: "onto k l \<Longrightarrow> follows k (read_root_control l)"
  unfolding read_root_control_def
  by (intro track_rules tracks_patience [where m = "\<lambda>n. read_control_loop n l"]) simp_all

lemma follows_integration [track_rules]: "onto k l \<Longrightarrow> follows k (retry_completion_integration l)"
  unfolding retry_completion_integration_def
  by (auto split: option.split intro!: track_rules follows_handle integrates
      simp: mark_completion_delivery_settled_def)

lemma follows_reaped_transfer [track_rules]: "onto k l \<Longrightarrow> follows k (integrate_reaped_transfer p st l)"
  unfolding integrate_reaped_transfer_def by (intro track_rules) simp_all

lemma follows_drive_delivery [track_rules]: "onto k l \<Longrightarrow> follows k (drive_completion_delivery role l)"
  unfolding drive_completion_delivery_def Let_def
  by (intro track_rules follows_after locks_delivery forks)
    (auto split: completion_start.split option.split intro!: track_rules follows_after keeps_rules
      simp: mark_completion_delivery_settled_def)

lemma follows_flush [track_rules]: "onto k l \<Longrightarrow> follows k (flush_root_status l)"
  unfolding flush_root_status_def by (intro track_rules follows_after locks_delivery stores) simp_all

lemma follows_root_status [track_rules]: "onto k l \<Longrightarrow> follows k (record_root_status st l)"
  unfolding record_root_status_def by (intro track_rules) simp

lemma follows_reap_loop [track_rules]: "onto k l \<Longrightarrow> follows k (reap_loop n l)"
proof (induction n arbitrary: l k)
  case (Suc n)
  have wait: "follows k (case w of None \<Rightarrow> bind (ask_loop only_child) (\<lambda>b. ret (l\<lparr>tree_empty := b\<rparr>))
      | Some (p, st) \<Rightarrow> bind (integrate_reaped_transfer p st l) (\<lambda>l1.
          bind (if p = root_pid l1 then record_root_status st l1 else ret l1) (reap_loop n)))" for w
    using Suc.prems by (auto split: option.split intro!: follows_after keeps_rules track_rules
        follows_bind [of _ "integrate_reaped_transfer _ _ _"] follows_bind [of _ "if _ then _ else _"] Suc.IH)
  show ?case
    unfolding reap_loop.simps
    by (rule follows_after [OF keeps_ask], rule tracks_sum)
      (intro track_rules Suc.IH, use Suc.prems in simp_all, rule wait)
qed (simp add: follows_halt)

lemma follows_reap [track_rules]: "onto k l \<Longrightarrow> follows k (reap_children l)"
  unfolding reap_children_def [abs_def]
  by (intro tracks_patience [where m = "\<lambda>n. reap_loop n l"] track_rules)

lemma follows_sigchld [track_rules]: "onto k l \<Longrightarrow> follows k (handle_sigchld l)"
  unfolding handle_sigchld_def
  by (intro follows_after keeps_rules follows_bind [of _ "if _ then _ else _"] track_rules) simp_all

lemma keeps_select: "keeps (R k) (select_initial_source_event l)"
  unfolding select_initial_source_event_def
  by (cases "pending_source l") (auto intro!: keeps_rules locks_completion)

lemma follows_retry_source [track_rules]: "onto k l \<Longrightarrow> follows k (retry_source_publication l)"
  unfolding retry_source_publication_def
  by (intro track_rules follows_after follows_handle keeps_rules locks_completion notes_down)
    (simp_all add: REGISTRATION_def mark_completion_delivery_settled_def)

lemma follows_begin_source [track_rules]: "onto k l \<Longrightarrow> follows k (begin_source sk st d c l)"
  unfolding begin_source_def Let_def by (intro track_rules follows_after keeps_rules keeps_select) simp_all

lemma follows_write_log:
  "onto k l \<Longrightarrow> (\<And>l1. standing l1 = standing l \<Longrightarrow> follows k (continue l1)) \<Longrightarrow> follows k (write_log bs l continue)"
  unfolding write_log_def by (intro track_rules follows_after keeps_rules) simp_all

lemma follows_stderr_chunks [track_rules]: "onto k l \<Longrightarrow> follows k (write_stderr_chunks cs l)"
  by (induction cs arbitrary: l k) (auto intro!: track_rules follows_write_log tracks_bind)

lemma follows_read_stderr [track_rules]: "onto k l \<Longrightarrow> follows k (read_stderr l)"
  unfolding read_stderr_def
  by (intro track_rules follows_after keeps_rules follows_bind [of _ "write_stderr_chunks _ _"]) simp_all

lemma follows_exec_error [track_rules]: "onto k l \<Longrightarrow> follows k (read_exec_error strerror l)"
  unfolding read_exec_error_def Let_def
  by (intro track_rules follows_handle keeps_rules) (auto split: list.split)

lemma follows_image [track_rules]: "onto k l \<Longrightarrow> follows k (recover_image_service l)"
  unfolding recover_image_service_def
  by (intro track_rules follows_after keeps_rules follows_write_log) simp_all

end

subsection \<open>The whole loop\<close>

text \<open>
  Publication happens only with the grant. Afterwards the relation holds for the standing as it was
  and, if the outcome was published, for the standing in which a completion is recorded.
\<close>

definition published_standing :: "publish_result \<Rightarrow> standing \<Rightarrow> standing" where
  "published_standing result k = (case k of (r, z) \<Rightarrow> (if result = Published then (True, z) else k))"

locale loop_invariant = loop_frame +
  assumes publishes: "root_settlement_granted l \<Longrightarrow> R (standing l) s \<Longrightarrow>
     spec (publish_in_loop role l p) s
       (\<lambda>(result, l1) t. standing l1 = standing l \<and> R (standing l) t \<and> R (published_standing result (standing l)) t)
       (\<lambda>_. E) E"
begin

text \<open>The frame holds as well for the relation at both standings at once.\<close>

lemma both_frame: "loop_frame (\<lambda>k s. R k s \<and> R (published_standing result k) s) E"
proof unfold_locales
  fix r g z s assume "R (r, g, z) s \<and> R (published_standing result (r, g, z)) s"
  then show "R (r, True, z) s \<and> R (published_standing result (r, True, z)) s"
    by (auto simp: published_standing_def intro: grants)
next
  fix r g sc x s c assume "R (r, g, sc, x) s \<and> R (published_standing result (r, g, sc, x)) s" "escalated x c"
  then show "R (r, g, sc, Some c) s \<and> R (published_standing result (r, g, sc, Some c)) s"
    by (auto simp: published_standing_def intro: cancels)
qed (auto intro: fails intro!: keeps_conj notes_down locks_completion locks_delivery drains integrates forks stores discharges)

lemma follows_integrate_publication:
  assumes "R (standing l) s" and "R (published_standing result (standing l)) s"
  shows "spec (integrate_terminal_publication result l) s (\<lambda>l. R (standing l)) (\<lambda>_. E) E"
  using assms tracksD [OF follows_root_terminal [of "standing (l\<lparr>completion_recorded := True\<rparr>)", OF leads_refl]]
    tracksD [OF follows_request [of "standing l", OF leads_refl]]
  by (cases result) (simp_all add: integrate_terminal_publication_def published_standing_def)

lemma follows_published:
  assumes "onto k l" and "root_settlement_granted l"
    and "\<And>result l1. f result l1 = ret l1 \<or> (\<exists>sk st d c. f result l1 = begin_source sk st d c l1)"
  shows "follows k (bind (publish_in_loop role l p) (\<lambda>(result, l1). bind (f result l1) (integrate_terminal_publication result)))"
  unfolding tracks_def
proof (intro allI impI)
  fix s assume "R k s"
  then have "R (standing l) s" using assms(1) by (simp add: leads_def)
  note pub = publishes [OF assms(2) this, of role p]
  have after: "spec (bind (f result l1) (integrate_terminal_publication result)) t (\<lambda>l. R (standing l)) (\<lambda>_. E) E"
    if "R (standing l1) t \<and> R (published_standing result (standing l1)) t" for result l1 t
  proof -
    have "tracks (\<lambda>k s. R k s \<and> R (published_standing result k) s) E (standing l1) (f result l1)"
      using assms(3) [of result l1] loop_frame.follows_begin_source [OF both_frame, OF leads_refl]
      by (elim disjE exE) (simp_all only: tracks_ret leads_refl)
    from tracksD [OF this that] show ?thesis
      by (intro spec_bind, elim spec_mono) (use follows_integrate_publication in auto)
  qed
  show "spec (bind (publish_in_loop role l p) (\<lambda>(result, l1). bind (f result l1) (integrate_terminal_publication result))) s
      (\<lambda>l. R (standing l)) (\<lambda>_. E) E"
    by (rule spec_bind, rule spec_mono [OF pub]) (use after in auto)
qed

lemma follows_publish_ready [track_rules]:
  "onto k l \<Longrightarrow> root_settlement_granted l \<Longrightarrow> follows k (publish_ready_sentinel role at l)"
  unfolding publish_ready_sentinel_def by (rule follows_published) auto

lemma follows_record_exit [track_rules]:
  "onto k l \<Longrightarrow> root_settlement_granted l \<Longrightarrow> follows k (record_exit_completion role rs reason l)"
  unfolding record_exit_completion_def by (rule follows_published) auto

lemma follows_record_error [track_rules]:
  "onto k l \<Longrightarrow> root_settlement_granted l \<Longrightarrow> follows k (record_supervisor_error_in_loop role message l)"
  unfolding record_supervisor_error_in_loop_def by (rule follows_published) auto

lemma follows_record_ready [track_rules]: "onto k l \<Longrightarrow> follows k (record_ready_sentinel role l)"
  unfolding record_ready_sentinel_def
  by (cases "deferred_ready_at l") (auto intro!: track_rules follows_after keeps_rules)

lemma follows_retry_ready [track_rules]: "onto k l \<Longrightarrow> follows k (retry_deferred_ready role l)"
  unfolding retry_deferred_ready_def by (intro track_rules) simp_all

lemma follows_maybe_finish [track_rules]: "onto k l \<Longrightarrow> follows k (maybe_finish role l)"
  unfolding maybe_finish_def
  by (cases "finish_decision l") (auto split: option.split intro!: track_rules)

lemma standing_sentinel: "stdout_reaches_sentinel bs l = (hit, l') \<Longrightarrow> standing l' = standing l"
  by (auto simp: stdout_reaches_sentinel_def split: option.splits if_splits prod.splits)

lemma follows_stdout_bytes [track_rules]: "onto k l \<Longrightarrow> follows k (handle_stdout_bytes role bs l)"
  unfolding handle_stdout_bytes_def
  by (intro track_rules follows_write_log) (auto dest: standing_sentinel)

lemma follows_stdout_chunks [track_rules]: "onto k l \<Longrightarrow> follows k (handle_stdout_chunks role cs l)"
  by (induction cs arbitrary: l k) (auto intro!: track_rules tracks_bind)

lemma follows_read_stdout [track_rules]: "onto k l \<Longrightarrow> follows k (read_stdout role l)"
  unfolding read_stdout_def
  by (intro track_rules follows_after keeps_rules follows_bind [of _ "handle_stdout_chunks _ _ _"]) simp_all

lemma follows_dispatch_key [track_rules]: "onto k l \<Longrightarrow> follows k (dispatch_poll_key strerror role key l)"
  unfolding dispatch_poll_key_def by (cases key) (auto intro!: track_rules simp: close_owner_pidfd_def)

lemma follows_dispatch_keys [track_rules]: "onto k l \<Longrightarrow> follows k (dispatch_keys strerror role keys l)"
  by (induction keys arbitrary: l k) (auto intro!: track_rules tracks_bind)

lemma follows_poll [track_rules]: "onto k l \<Longrightarrow> follows k (poll_and_dispatch strerror role cgroup_fd l)"
  unfolding poll_and_dispatch_def by (intro track_rules follows_after keeps_rules)

lemma follows_drained: "keeps (R k) (if c then bind explicit_cancel_accepted
    (\<lambda>a. if a then record_cancellation_drained else ret ()) else ret ())"
  by (intro keeps_rules drains)

lemma follows_duties [track_rules]: "onto k l \<Longrightarrow> follows k (loop_duties role l)"
  unfolding loop_duties_def
  by (rule tracks_bind, erule follows_check_cancel, rule tracks_bind, rule follows_check_owner [OF leads_refl],
      rule tracks_bind, rule follows_drive [OF leads_refl], rule tracks_bind, rule follows_image [OF leads_refl],
      rule tracks_bind, rule follows_root_terminal [OF leads_refl], rule tracks_bind, rule follows_retry_ready [OF leads_refl],
      rule tracks_bind, rule follows_maybe_finish [OF leads_refl], rule follows_after, rule follows_drained,
      rule tracks_bind, rule follows_retry_source [OF leads_refl], rule tracks_bind, rule follows_integration [OF leads_refl],
      rule tracks_bind, rule follows_drive_delivery [OF leads_refl], rule follows_flush [OF leads_refl])

text \<open>The loop returns only in a state that \<open>should_exit\<close> accepts.\<close>

lemma exits_well:
  "R (standing l) s \<Longrightarrow>
   spec (run_event_loop strerror role cgroup_fd n l) s (\<lambda>l t. should_exit l \<and> R (standing l) t) (\<lambda>_. E) E"
proof (induction n arbitrary: l s)
  case 0
  then show ?case by (auto simp: halt_def spec_def intro: fails)
next
  case (Suc n)
  have discharge: "spec (handle_err end_physical_custody
      (\<lambda>e. if kind e = WouldBlock then run_event_loop strerror role cgroup_fd n l1 else raise e) (\<lambda>_. ret l1)) t
      (\<lambda>l t. should_exit l \<and> R (standing l) t) (\<lambda>_. E) E"
    if "should_exit l1" "R (standing l1) t" for l1 t
    by (rule spec_handle_err, rule keeps_spec [OF discharges that(2)])
      (use Suc.IH that(1) in \<open>auto intro!: spec_raise spec_ret intro: fails\<close>)
  have again: "spec (bind (poll_and_dispatch strerror role cgroup_fd l1) (run_event_loop strerror role cgroup_fd n)) t
      (\<lambda>l t. should_exit l \<and> R (standing l) t) (\<lambda>_. E) E"
    if "R (standing l1) t" for l1 t
    by (rule spec_bind, rule spec_mono [OF tracksD [OF follows_poll [OF leads_refl] that]]) (use Suc.IH in auto)
  show ?case
    unfolding run_event_loop.simps
    by (rule spec_bind, rule spec_mono [OF tracksD [OF follows_duties [OF leads_refl] Suc.prems]])
      (use discharge again in \<open>auto intro!: spec_ret\<close>)
qed

end

end
