(* ===== verification/Event_Loop_Laws.thy ===== *)
theory Event_Loop_Laws
  imports Event_Loop_Frame
begin

section \<open>What the event loop guarantees\<close>

text \<open>
  Three relations that the loop keeps, as interpretations of the contract of its methods: once a
  completion is recorded in the loop the terminal metadata is on disk with its return code; until
  the root authority grants settlement nothing terminal is on disk; and the scope never changes.
\<close>

subsection \<open>A recorded completion is on disk\<close>

definition has_outcome :: "view \<Rightarrow> bool" where
  "has_outcome s \<longleftrightarrow> plain_source s \<and> (\<exists>m. vfiles s (F MetaFile) = Some (Regular (Doc m)) \<and> terminal m)"

definition on_record :: "bool \<Rightarrow> view \<Rightarrow> bool" where
  "on_record b s \<longleftrightarrow> rc_inv s \<and> (b \<longrightarrow> has_outcome s)"

text \<open>Operations that leave a recorded outcome and the return code alone.\<close>

definition harmless :: "'a io \<Rightarrow> bool" where
  "harmless m \<longleftrightarrow> keeps rc_inv m \<and> (\<forall>oc c. keeps (outcome_stands oc c) m)"

named_theorems harmless_rules "operations that leave outcome and return code alone"

lemma on_record_weaken: "on_record b s \<Longrightarrow> rc_inv s"
  by (simp add: on_record_def)

lemma outcome_has: "outcome_stands oc c s \<Longrightarrow> has_outcome s"
  by (auto simp: has_outcome_def documented_def)

lemma has_outcomeE:
  assumes "has_outcome s"
  obtains oc c where "outcome_stands oc c s"
proof -
  obtain m where "plain_source s" "vfiles s (F MetaFile) = Some (Regular (Doc m))" "terminal m"
    using assms by (auto simp: has_outcome_def)
  then have "outcome_stands (outcome_of m) (vfiles s (F Rc)) s" by (simp add: documented_def)
  then show ?thesis by (rule that)
qed

lemma harmlessD: "harmless m \<Longrightarrow> keeps (outcome_stands oc c) m" "harmless m \<Longrightarrow> keeps rc_inv m"
  unfolding harmless_def by blast+

lemma harmless_outcome: "harmless m \<Longrightarrow> keeps has_outcome m"
  by (rule keepsI, erule has_outcomeE, rule keeps_yields [OF harmlessD(1)]) (auto dest: outcome_has)

lemma harmless_record: "harmless m \<Longrightarrow> keeps (on_record b) m"
proof (rule keepsI)
  fix s assume h: "harmless m" and s: "on_record b s"
  have rc: "yields m s rc_inv" using s by (intro keepsD [OF harmlessD(2) [OF h]]) (simp add: on_record_def)
  show "yields m s (on_record b)"
  proof (cases b)
    case True
    with s have "yields m s has_outcome" by (intro keepsD [OF harmless_outcome [OF h]]) (simp add: on_record_def)
    from spec_conj [OF rc this] show ?thesis by (rule spec_mono) (auto simp: on_record_def)
  next
    case False
    then show ?thesis using rc by (simp add: on_record_def [abs_def])
  qed
qed

lemma harmless_any: "(\<And>I. keeps I m) \<Longrightarrow> harmless m"
  by (simp add: harmless_def)

lemma harmless_documented: "(\<And>G c. keeps (documented G c) m) \<Longrightarrow> harmless m"
  by (simp add: harmless_def keeps_rc_inv)

lemma harmless_bind [harmless_rules]: "harmless m \<Longrightarrow> (\<And>a. harmless (f a)) \<Longrightarrow> harmless (bind m f)"
  by (simp add: harmless_def keeps_bind)

lemma harmless_if [harmless_rules]: "harmless m \<Longrightarrow> harmless n \<Longrightarrow> harmless (if c then m else n)"
  by simp

lemma harmless_ask [harmless_rules]: "harmless (ask q)"
  by (rule harmless_any) (rule keeps_ask)

lemma harmless_ret [harmless_rules]: "harmless (ret a)"
  by (rule harmless_any) (rule keeps_ret)

lemma harmless_observed [harmless_rules]:
  "harmless observed_cancel" "harmless explicit_cancel_accepted" "harmless v2_enabled" "harmless ask_v2"
  "harmless unix_ms" "harmless current_boot_id" "harmless read_meta"
  unfolding observed_cancel_def
  by (rule harmless_any, intro keeps_rules)+

lemma harmless_write_extra [harmless_rules]:
  "Extra f \<noteq> REGISTRATION \<Longrightarrow> harmless (ignore_err (atomic_write (Extra f) c))"
  by (rule harmless_documented) (intro keeps_rules; simp)

lemma harmless_locks [harmless_rules]:
  "harmless lock_completion" "harmless try_lock_completion" "harmless try_lock_delivery"
  "harmless record_cancellation_drained"
  unfolding try_lock_completion_def try_lock_delivery_def record_cancellation_drained_def
  by (rule harmless_documented, (intro keeps_locks_documented keeps_rules keeps_try_lock_file; simp))+

lemma harmless_claim [harmless_rules]: "harmless (claim_delivery role disp m)"
  unfolding harmless_def using keeps_claim_rc stable_outcome.keeps_claim by blast

lemma harmless_publish: "harmless (publish_terminal_with_delivery_disposition role m log p disp)"
  unfolding harmless_def using keeps_publish_rc keeps_publish_outcome by blast

subsection \<open>A publication that reports success has an outcome on disk\<close>

lemma terminal_apply_proposal: "terminal (apply_proposal p now t m)"
  by (simp add: terminal_def apply_proposal_def apply_ready_sentinel_metadata_def apply_terminal_metadata_def
      apply_cancellation_metadata_def apply_supervisor_error_metadata_def apply_lost_supervisor_metadata_def
      touch_def split: terminal_proposal.split)

abbreviation reaches :: "'a io \<Rightarrow> view \<Rightarrow> ('a \<Rightarrow> view \<Rightarrow> bool) \<Rightarrow> bool" where
  "reaches m s Q \<equiv> spec m s Q (\<lambda>_ _. True) (\<lambda>_. True)"

lemma reaches_any: "reaches m s (\<lambda>_ _. True)"
  by (simp add: spec_def split: prod.split outcome.split)

lemma reaches_after:
  assumes "keeps I m" and "I s" and "\<And>a t. I t \<Longrightarrow> reaches (f a) t Q"
  shows "reaches (bind m f) s Q"
  by (rule spec_bind, rule keeps_spec [OF assms(1,2)]) (use assms(3) in auto)

lemma reaches_proposal:
  assumes "unpublished current s"
  shows "reaches (publish_proposal m log p accepted drained_tree) s (\<lambda>_. has_outcome)"
proof -
  have pre: "keeps (unpublished current) (if b then record_cancellation_drained else ret ())"
    "keeps (unpublished current) (if b then sys_sync else ret ())" for b
    unfolding record_cancellation_drained_def by (intro keeps_rules; simp)+
  have wrote: "reaches (seq (write_terminal m') (ret m')) t (\<lambda>_. has_outcome)"
    if "unpublished current t" "terminal m'" for m' t
    unfolding write_terminal_def write_rc_atomic_def
    by (intro spec_bind spec_atomic_write spec_write_meta spec_ret)
      (use that in \<open>auto simp: unpublished_def has_outcome_def plain_source_def REGISTRATION_def terminal_def\<close>)
  show ?thesis
    unfolding publish_proposal_def Let_def
    by (rule reaches_after [OF pre(1) assms], erule reaches_after [OF pre(2)], erule reaches_after [OF keeps_unix_ms],
        erule reaches_after [OF keeps_unix_ms], erule wrote, rule terminal_apply_proposal)
qed

lemma reaches_claim: "has_outcome s \<Longrightarrow> reaches (bind (claim_delivery role disp m) (\<lambda>m'. ret (Published, m'))) s
    (\<lambda>r t. fst r = Published \<longrightarrow> has_outcome t)"
  by (rule reaches_after [OF harmless_outcome [OF harmless_claim]]) (auto intro: spec_ret)

lemma reaches_publish:
  assumes "rc_inv s"
  shows "reaches (publish_terminal_with_delivery_disposition role m log p disp) s
     (\<lambda>r t. fst r = Published \<longrightarrow> has_outcome t)"
  unfolding publish_terminal_with_delivery_disposition_def Let_def
proof (rule reaches_after [OF harmlessD(2) [OF harmless_locks(1)] assms], rule spec_bind, rule spec_read_meta, goal_cases)
  case (1 _ s current)
  show ?case
  proof (cases "terminal current")
    case True
    obtain c where c: "rc_documented c s" using 1(1) by (auto simp: rc_inv_def)
    then have "has_outcome s" using 1(2) True by (auto simp: has_outcome_def documented_def)
    then have o: "outcome_stands (outcome_of current) (vfiles s (F Rc)) s"
      using 1(2) True by (auto simp: documented_def has_outcome_def)
    show ?thesis
      by (rule spec_bind, rule spec_mono [OF givesD [OF gives_stands [OF True] o]])
        (auto intro!: reaches_claim dest: outcome_has)
  next
    case False
    then have u: "unpublished current s" using 1 by (auto simp: unpublished_def rc_inv_def documented_def)
    show ?thesis
      by (simp only: False if_False bind_ret)
        (rule reaches_after [OF keeps_explicit_cancel_accepted [of "unpublished current"] u],
         auto split: finalized_proposal.split intro!: spec_ret spec_bind [of "publish_proposal _ _ _ _ _"]
           spec_mono [OF reaches_proposal] reaches_claim)
  qed
qed simp_all

lemma harmless_integrate [harmless_rules]: "harmless (integrate_completion_transfer r n)"
  unfolding harmless_def
  using keeps_rc_inv [OF gives_keeps [OF stable_rc.gives_integrate]] gives_keeps [OF stable_outcome.gives_integrate]
  by blast

context meta_stable
begin

lemma keeps_start_and_fork: "keeps (J c) (start_and_fork role)"
  unfolding start_and_fork_def
  by (rule keeps_bind_gives [OF gives_start])
    (auto split: completion_start.split intro!: keeps_rules keeps_child)

lemma keeps_store_root_status: "keeps (J c) (store_root_status status)"
proof -
  have h: "keeps (J c) halt" using keeps_halt [of "J c"] by (simp add: keeps_def spec_def halt_def)
  show ?thesis
    unfolding store_root_status_def apply_root_status_metadata_def Let_def
    by (rule keeps_bind_gives [OF gives_read])
      (intro keeps_option h keeps_bind keeps_unix_ms keeps_ret keeps_meta_write touch_update workload_update)
qed

end

lemma harmless_delivery [harmless_rules]:
  "harmless (start_and_fork role)" "harmless (store_root_status status)"
  unfolding harmless_def
  using keeps_rc_inv [OF stable_rc.keeps_start_and_fork] stable_outcome.keeps_start_and_fork
    keeps_rc_inv [OF stable_rc.keeps_store_root_status] stable_outcome.keeps_store_root_status by blast+

lemma harmless_discharge [harmless_rules]: "harmless end_physical_custody"
  unfolding harmless_def using rc_history.discharge_keeps outcome_history.discharge_keeps by blast

lemma spec_publish_in_loop:
  assumes "on_record (completion_recorded l) s"
  shows "spec (publish_in_loop role l p) s
     (\<lambda>(result, l1) t. standing l1 = standing l \<and> on_record (completion_recorded l) t \<and>
        on_record (result = Published \<or> completion_recorded l) t) (\<lambda>_. rc_inv) rc_inv"
proof -
  let ?m = "publish_terminal_with_delivery_disposition role (loop_meta l) True p (LiveLoop (tree_empty l))"
  have "yields ?m s (on_record (completion_recorded l))"
    by (rule keepsD [OF harmless_record [OF harmless_publish] assms])
  from spec_conj [OF this reaches_publish [OF on_record_weaken [OF assms]]]
  show ?thesis
    unfolding publish_in_loop_def
    by (intro spec_bind, elim spec_mono) (auto simp: on_record_def intro!: spec_ret)
qed

interpretation recorded: loop_invariant "\<lambda>k. on_record (fst k)" rc_inv
proof unfold_locales
  fix l :: event_loop and s role p
  assume "on_record (fst (standing l)) s"
  then show "spec (publish_in_loop role l p) s
      (\<lambda>(result, l1) t. standing l1 = standing l \<and> on_record (fst (standing l)) t \<and>
         on_record (fst (published_standing result (standing l))) t) (\<lambda>_. rc_inv) rc_inv"
    by (intro spec_mono [OF spec_publish_in_loop]) (auto simp: published_standing_def split: if_splits)
qed (auto intro: on_record_weaken intro!: harmless_record harmless_rules)

subsection \<open>Nothing is settled before the grant\<close>

lemma publish_standing: "reaches (publish_in_loop role l p) s (\<lambda>(_, l1) _. standing l1 = standing l)"
  unfolding publish_in_loop_def by (rule spec_bind, rule spec_mono [OF reaches_any]) (auto intro!: spec_ret)

definition unsettled :: "view \<Rightarrow> bool" where
  "unsettled = documented (\<lambda>c m. c = None \<and> \<not> terminal m) None"

interpretation stable_unsettled: meta_stable "\<lambda>c m. c = None \<and> \<not> terminal m"
  by unfold_locales (auto simp: terminal_def touch_def)

lemma keeps_note_documented:
  "Extra f \<noteq> REGISTRATION \<Longrightarrow> keeps (documented G c) (ignore_err (atomic_write (Extra f) x))"
  by (intro keeps_rules; simp)

lemma keeps_markers_documented:
  "keeps (documented G c) try_lock_completion" "keeps (documented G c) try_lock_delivery"
  "keeps (documented G c) record_cancellation_drained"
  unfolding try_lock_completion_def try_lock_delivery_def record_cancellation_drained_def
  by (intro keeps_rules keeps_try_lock_file; simp)+

lemma keeps_discharge_documented: "keeps (documented G c) end_physical_custody"
  unfolding end_physical_custody_def record_cancellation_drained_def
  by (intro keeps_rules keeps_locks_documented) (auto simp: REGISTRATION_def)

lemmas keeps_unsettled =
  keeps_note_documented keeps_locks_documented keeps_markers_documented keeps_discharge_documented
  gives_keeps [OF stable_unsettled.gives_integrate] stable_unsettled.keeps_start_and_fork
  stable_unsettled.keeps_store_root_status

interpretation gated: loop_invariant "\<lambda>k s. fst (snd k) \<or> unsettled s" "\<lambda>_. True"
proof unfold_locales
  fix l :: event_loop and s role p
  assume "root_settlement_granted l"
  then show "spec (publish_in_loop role l p) s
      (\<lambda>(result, l1) t. standing l1 = standing l \<and> (fst (snd (standing l)) \<or> unsettled t) \<and>
         (fst (snd (published_standing result (standing l))) \<or> unsettled t)) (\<lambda>_ _. True) (\<lambda>_. True)"
    by (intro spec_mono [OF publish_standing]) (auto simp: published_standing_def)
qed (auto simp: unsettled_def intro!: keeps_disj keeps_unsettled)

subsection \<open>The scope is fixed\<close>

interpretation scoped: loop_invariant "\<lambda>k s. fst (snd (snd k)) = sc" "\<lambda>_. True" for sc
proof unfold_locales
  fix l :: event_loop and s role p
  assume "fst (snd (snd (standing l))) = sc"
  then show "spec (publish_in_loop role l p) s
      (\<lambda>(result, l1) t. standing l1 = standing l \<and> fst (snd (snd (standing l))) = sc \<and>
         fst (snd (snd (published_standing result (standing l)))) = sc) (\<lambda>_ _. True) (\<lambda>_. True)"
    by (intro spec_mono [OF publish_standing]) (auto simp: published_standing_def)
qed (auto intro: keeps_const)

subsection \<open>A cancellation is never withdrawn\<close>

abbreviation cancelling :: "cancel_state \<Rightarrow> standing \<Rightarrow> bool" where
  "cancelling c k \<equiv> (\<exists>c'. snd (snd (snd k)) = Some c' \<and> escalated (Some c) c')"

interpretation escalating: loop_invariant "\<lambda>k s. cancelling c k" "\<lambda>_. True" for c
proof unfold_locales
  fix l :: event_loop and s role p
  assume "cancelling c (standing l)"
  then show "spec (publish_in_loop role l p) s
      (\<lambda>(result, l1) t. standing l1 = standing l \<and> cancelling c (standing l) \<and>
         cancelling c (published_standing result (standing l))) (\<lambda>_ _. True) (\<lambda>_. True)"
    by (intro spec_mono [OF publish_standing]) (auto simp: published_standing_def split: if_splits)
qed (auto intro: keeps_const simp: escalated_def)

subsection \<open>What the loop publishes when no cancellation was accepted\<close>

definition open_handle :: "meta \<Rightarrow> view \<Rightarrow> bool" where
  "open_handle m s \<longleftrightarrow> unpublished m s \<and> vfiles s (F AcceptedCancel) = None"

lemma open_handle_ignores [simp]:
  "f \<notin> {F AcceptedCancel, F MetaFile, REGISTRATION} \<Longrightarrow> ignores (open_handle m) f"
  by (auto simp: ignores_def open_handle_def unpublished_def plain_source_def)

sublocale meta_stable < framed: loop_frame "\<lambda>k s. fst k = b \<and> documented G c s" "\<lambda>_. True" for b c
  by unfold_locales
    (auto intro!: keeps_conj keeps_const keeps_note_documented keeps_locks_documented keeps_markers_documented
      keeps_discharge_documented gives_keeps [OF gives_integrate] keeps_start_and_fork keeps_store_root_status)

context meta_stable
begin

lemma publishes_proposal:
  assumes "open_handle m0 s" and "\<And>now t m. G c (apply_proposal p now t m) \<and> rc_node (apply_proposal p now t m) = c"
  shows "reaches (publish_proposal m log p False drained_tree) s (\<lambda>_. J c)"
proof -
  let ?I = "unpublished m0"
  have pre: "keeps ?I (if b then record_cancellation_drained else ret ())"
    "keeps ?I (if b then sys_sync else ret ())" for b
    unfolding record_cancellation_drained_def by (intro keeps_rules; simp)+
  have wrote: "reaches (seq (write_terminal m') (ret m')) t (\<lambda>_. J c)"
    if "?I t" "G c m' \<and> rc_node m' = c" for m' t
    unfolding write_terminal_def write_rc_atomic_def
    by (intro spec_bind spec_atomic_write spec_write_meta spec_ret)
      (use that in \<open>auto simp: unpublished_def documented_def plain_source_def REGISTRATION_def rc_node_def
          intro: mode_update\<close>)
  have start: "?I s" using assms(1) by (simp add: open_handle_def)
  show ?thesis
    unfolding publish_proposal_def Let_def
    by (rule reaches_after [OF pre(1) start], erule reaches_after [OF pre(2)], erule reaches_after [OF keeps_unix_ms],
        erule reaches_after [OF keeps_unix_ms], erule wrote, rule assms(2))
qed

lemma publishes_in_loop:
  assumes "open_handle m0 s" and "\<And>now t m. G c (apply_proposal p now t m) \<and> rc_node (apply_proposal p now t m) = c"
  shows "reaches (publish_in_loop role l p) s (\<lambda>(result, l1) t. result = Published \<and> J c t)"
proof -
  have lock: "keeps (open_handle m0) lock_completion"
    unfolding lock_completion_def by (intro keeps_rules) (simp_all add: REGISTRATION_def)
  have body: "reaches (publish_terminal_with_delivery_disposition role m True p (LiveLoop b)) s
      (\<lambda>r t. fst r = Published \<and> J c t)" for m b
    unfolding publish_terminal_with_delivery_disposition_def Let_def explicit_cancel_accepted_def
  proof (rule reaches_after [OF lock assms(1)], goal_cases)
    case (1 _ t)
    then have "vfiles t (F MetaFile) = Some (Regular (Doc m0))" "vfiles t (F AcceptedCancel) = None" "\<not> terminal m0"
      by (simp_all add: open_handle_def unpublished_def)
    then show ?case
      by (auto simp: finalize_terminal_proposal_def claim_delivery_def
          intro!: spec_bind [of read_meta] spec_read_meta spec_bind [of "durable_marker_exists _"]
            spec_durable_marker_exists spec_bind [of "publish_proposal _ _ _ _ _"] spec_ret
            spec_mono [OF publishes_proposal [OF 1 assms(2)]])
  qed
  show ?thesis
    unfolding publish_in_loop_def by (rule spec_bind, rule spec_mono [OF body]) (auto intro!: spec_ret)
qed

lemma loop_publishes:
  assumes "open_handle m0 s" and "\<And>now t m. G c (apply_proposal p now t m) \<and> rc_node (apply_proposal p now t m) = c"
    and "\<And>result l1. f result l1 = ret l1 \<or> (\<exists>sk st d e. f result l1 = begin_source sk st d e l1)"
  shows "reaches (bind (publish_in_loop role l p) (\<lambda>(result, l1). bind (f result l1) (integrate_terminal_publication result))) s
     (\<lambda>l' t. completion_recorded l' \<and> J c t)"
proof -
  have "reaches (bind (f Published l1) (integrate_terminal_publication Published)) t
      (\<lambda>l' t. completion_recorded l' \<and> J c t)" if "J c t" for l1 t
  proof -
    have "tracks (\<lambda>k s. fst k = completion_recorded l1 \<and> J c s) (\<lambda>_. True) (standing l1) (f Published l1)"
      using assms(3) [of Published l1] framed.follows_begin_source [OF leads_refl]
      by (elim disjE exE) (simp_all only: tracks_ret leads_refl)
    from tracksD [OF this, of t] that have "reaches (f Published l1) t (\<lambda>_. J c)"
      by (auto elim: spec_mono)
    moreover have "reaches (integrate_terminal_publication Published l2) u (\<lambda>l' t. completion_recorded l' \<and> J c t)"
      if "J c u" for l2 u
      using that tracksD [OF framed.follows_root_terminal [of True c, OF leads_refl, of "l2\<lparr>completion_recorded := True\<rparr>"]]
      by (simp add: integrate_terminal_publication_def)
    ultimately show ?thesis by (intro spec_bind) (elim spec_mono, auto)
  qed
  then show ?thesis
    by (intro spec_bind spec_mono [OF publishes_in_loop [OF assms(1,2)]]) auto
qed

end

end
