(* ===== verification/Event_Loop_Properties.thy ===== *)
theory Event_Loop_Properties
  imports Event_Loop_Laws
begin

section \<open>Properties of the supervisor's event loop\<close>

text \<open>
  The loop as a state machine: a step is one round of duties, one round of polling and
  dispatching or a discharge that found the custody lock busy, and the reachable states are those of any sequence of steps, whatever the kernel,
  the workload, the root authority and the disk answer. Over it: the loop's record is truthful,
  nothing is settled before the grant, a cancellation is never withdrawn; and over the loop itself:
  what holds when it returns, and which outcome it publishes.
\<close>

inductive loop_step :: "(int \<Rightarrow> string) \<Rightarrow> bool \<Rightarrow> bool \<Rightarrow> event_loop \<times> world \<Rightarrow> event_loop \<times> world \<Rightarrow> bool"
  for strerror role cgroup_fd where
  duties: "loop_duties role l w = (Done l', w') \<Longrightarrow> loop_step strerror role cgroup_fd (l, w) (l', w')"
| dispatches: "poll_and_dispatch strerror role cgroup_fd l w = (Done l', w') \<Longrightarrow>
     loop_step strerror role cgroup_fd (l, w) (l', w')"
| busy: "should_exit l \<Longrightarrow> tree_empty l \<Longrightarrow> end_physical_custody w = (Raise e, w') \<Longrightarrow> kind e = WouldBlock \<Longrightarrow>
     loop_step strerror role cgroup_fd (l, w) (l, w')"

inductive_cases loop_stepE: "loop_step strerror role cgroup_fd p q"

context loop_invariant
begin

lemma step_keeps:
  assumes "loop_step strerror role cgroup_fd p q" and "R (standing (fst p)) (view_of (snd p))"
  shows "R (standing (fst q)) (view_of (snd q))"
  using assms(1)
proof (rule loop_stepE)
  fix l w l' w' assume "p = (l, w)" "q = (l', w')" "loop_duties role l w = (Done l', w')"
  then show ?thesis
    using spec_run(1) [OF tracksD [OF follows_duties [OF leads_refl]]] assms(2) by fastforce
next
  fix l w l' w' assume "p = (l, w)" "q = (l', w')" "poll_and_dispatch strerror role cgroup_fd l w = (Done l', w')"
  then show ?thesis
    using spec_run(1) [OF tracksD [OF follows_poll [OF leads_refl]]] assms(2) by fastforce
next
  fix l w e w' assume step: "p = (l, w)" "q = (l, w')" "end_physical_custody w = (Raise e, w')"
  with assms(2) have "R (standing l) (view_of w)" by simp
  from spec_run(2) [OF keepsD [OF discharges this] step(3)] step(2) show ?thesis by simp
qed

lemma steps_keep:
  "(loop_step strerror role cgroup_fd)\<^sup>*\<^sup>* p q \<Longrightarrow> R (standing (fst p)) (view_of (snd p)) \<Longrightarrow>
   R (standing (fst q)) (view_of (snd q))"
  by (induction rule: rtranclp_induct) (auto dest: step_keeps)

lemma loop_run:
  "run_event_loop strerror role cgroup_fd n l w = (Done l', w') \<Longrightarrow> R (standing l) (view_of w) \<Longrightarrow>
   should_exit l' \<and> R (standing l') (view_of w')"
  by (rule spec_run(1) [OF exits_well])

end

text \<open>A run of the loop is a sequence of steps.\<close>

lemma run_reaches:
  "run_event_loop strerror role cgroup_fd n l w = (Done l', w') \<Longrightarrow>
   should_exit l' \<and> (\<exists>w1. (loop_step strerror role cgroup_fd)\<^sup>*\<^sup>* (l, w) (l', w1))"
proof (induction n arbitrary: l w)
  case 0
  then show ?case by (simp add: halt_def)
next
  case (Suc n)
  from Suc.prems obtain l1 w1 where d: "loop_duties role l w = (Done l1, w1)"
    by (auto simp: bind_def split: prod.splits outcome.splits)
  note one = loop_step.duties [OF d, of strerror cgroup_fd]
  show ?case
  proof (cases "should_exit l1")
    case True
    show ?thesis
    proof (cases "l1 = l'")
      case True
      with \<open>should_exit l1\<close> one show ?thesis by blast
    next
      case False
      with Suc.prems d \<open>should_exit l1\<close> obtain e w2 where e: "tree_empty l1" "end_physical_custody w1 = (Raise e, w2)"
        "kind e = WouldBlock" "run_event_loop strerror role cgroup_fd n l1 w2 = (Done l', w')"
        by (auto simp: bind_def handle_err_def ret_def raise_def split: prod.splits outcome.splits if_splits)
      with Suc.IH [OF e(4)] one loop_step.busy [OF \<open>should_exit l1\<close> e(1-3), of strerror role cgroup_fd] show ?thesis
        by (meson converse_rtranclp_into_rtranclp)
    qed
  next
    case False
    with Suc.prems d obtain l2 w2 where p: "poll_and_dispatch strerror role cgroup_fd l1 w1 = (Done l2, w2)"
      "run_event_loop strerror role cgroup_fd n l2 w2 = (Done l', w')"
      by (auto simp: bind_def split: prod.splits outcome.splits)
    with Suc.IH [OF p(2)] one loop_step.dispatches [OF p(1)] show ?thesis
      by (meson converse_rtranclp_into_rtranclp)
  qed
qed

text \<open>The handle a loop starts on: published metadata that is not terminal, for a source without v2.\<close>

definition loop_starts :: "meta \<Rightarrow> world \<Rightarrow> bool" where
  "loop_starts m w \<longleftrightarrow>
     files w (F MetaFile) = Some (Regular (Doc m)) \<and> \<not> terminal m \<and> lookups_reliable (env w) \<and>
     files w REGISTRATION = None"

definition return_code_matches :: "meta \<Rightarrow> world \<Rightarrow> bool" where
  "return_code_matches m w \<longleftrightarrow>
     files w (F Rc) = Some (Regular (Text (format_rc_bytes (case rc m of Some r \<Rightarrow> r | None \<Rightarrow> EX_SOFTWARE))))"

lemma starts_plain: "loop_starts m w \<Longrightarrow> plain_source (view_of w)"
  by (simp add: loop_starts_def plain_source_def view_files) (simp add: view_of_def)

lemma starts_unpublished: "loop_starts m w \<Longrightarrow> unpublished m (view_of w)"
  using starts_plain [of m w] by (simp add: loop_starts_def unpublished_def view_files)

lemma starts_record: "loop_starts m w \<Longrightarrow> on_record False (view_of w)"
  by (auto simp: on_record_def intro: unpublished_rc_inv dest: starts_unpublished)

lemma on_record_outcome:
  assumes "on_record True (view_of w)"
  shows "\<exists>m. files w (F MetaFile) = Some (Regular (Doc m)) \<and> terminal m \<and> return_code_matches m w"
  using assms by (auto simp: on_record_def has_outcome_def rc_inv_def documented_def return_code_matches_def rc_node_def view_files)

lemma initial_standing:
  "standing (event_loop_state m rp rpfd opfd sc sm control) = (False, \<not> control, sc, None)"
  by (simp add: event_loop_state_def)

subsection \<open>Returning\<close>

text \<open>
  C18. The event loop returns only when the run is over and its outcome is on disk: the root process
  was reaped, both output streams and the exec-error pipe are closed, with tree scope no descendant
  is left, the completion was handed over, the metadata is terminal and the return-code file
  holds the return code it states. The loop starts on a handle that is not terminal, of a source
  without a v2 registration, and no lookup of a file name fails; beyond that it holds for every answer of
  the kernel and the workload, every failure of another call, and every number of iterations.
\<close>

theorem loop_exit_settled:
  assumes "run_event_loop strerror role cgroup_fd n (event_loop_state m rp rpfd opfd sc sm control) w = (Done l, w')"
    and "loop_starts m0 w"
  shows "root_exit l \<noteq> None \<and> output_closed l \<and> completion_delivery_settled l \<and> (sc = TreeScope \<longrightarrow> tree_empty l) \<and>
     (\<exists>m'. files w' (F MetaFile) = Some (Regular (Doc m')) \<and> terminal m' \<and> return_code_matches m' w')"
proof -
  note run = assms(1)
  from recorded.loop_run [OF run] starts_record [OF assms(2)]
  have exit: "should_exit l" and rec: "on_record (completion_recorded l) (view_of w')"
    by (simp_all add: event_loop_state_def)
  from scoped.loop_run [OF run, of sc] have "scope l = sc" by (simp add: event_loop_state_def)
  with exit rec on_record_outcome [of w'] show ?thesis by (auto simp: should_exit_def is_complete_def)
qed

subsection \<open>Reachable states\<close>

text \<open>
  The loop's record is truthful: in every reachable state that says the completion is
  recorded, the terminal metadata is on disk and agrees with the return-code file, so that
  completion delivery, which starts only then, never announces an outcome that is not published.
\<close>

theorem loop_record_truthful:
  assumes "(loop_step strerror role cgroup_fd)\<^sup>*\<^sup>* (event_loop_state m rp rpfd opfd sc sm control, w) (l, w')"
    and "loop_starts m0 w" and "completion_recorded l"
  shows "\<exists>m'. files w' (F MetaFile) = Some (Regular (Doc m')) \<and> terminal m' \<and> return_code_matches m' w'"
  using recorded.steps_keep [OF assms(1)] starts_record [OF assms(2)] assms(3)
  by (intro on_record_outcome) (simp add: event_loop_state_def)

text \<open>
  C19. A supervised run settles nothing on its own. The loop starts on a handle that is not terminal
  and has no return-code file, of a source without a v2 registration, and no lookup of a file name
  fails. While the root authority has neither granted settlement nor been lost, no reachable state of the
  loop has a terminal metadata or a return-code file on disk, whatever the workload wrote, exited
  with or was cancelled for and whatever other call failed.
\<close>

theorem settlement_waits_for_grant:
  assumes "(loop_step strerror role cgroup_fd)\<^sup>*\<^sup>* (event_loop_state m rp rpfd opfd sc sm True, w) (l, w')"
    and "loop_starts m0 w" and "files w (F Rc) = None" and "\<not> root_settlement_granted l"
  shows "files w' (F Rc) = None \<and> (\<exists>m'. files w' (F MetaFile) = Some (Regular (Doc m')) \<and> \<not> terminal m')"
proof -
  have "unsettled (view_of w)"
    using assms(2,3) starts_plain [OF assms(2)] by (simp add: unsettled_def documented_def loop_starts_def view_files)
  with gated.steps_keep [OF assms(1)] assms(4) have "unsettled (view_of w')" by (simp add: event_loop_state_def)
  then show ?thesis by (auto simp: unsettled_def documented_def view_files)
qed

text \<open>
  C21. A cancellation that began is never withdrawn: in every state reachable from it the loop is
  still cancelling, the time its grace period counts from is the same, and the cause it will report
  has never lost rank, so an explicit request is never relabelled by a later owner exit or a lost
  root authority.
\<close>

theorem cancellation_never_withdrawn:
  assumes "(loop_step strerror role cgroup_fd)\<^sup>*\<^sup>* (l, w) (l', w')" and "cancellation l = Some c"
  shows "\<exists>c'. cancellation l' = Some c' \<and> started_at c' = started_at c \<and>
     cause_rank (provisional_cause c) \<le> cause_rank (provisional_cause c')"
  using escalating.steps_keep [OF assms(1), of c] assms(2) by (auto simp: escalated_def)

subsection \<open>Causes\<close>

instantiation cancellation_cause :: linorder
begin

definition less_eq_cancellation_cause :: "cancellation_cause \<Rightarrow> cancellation_cause \<Rightarrow> bool" where
  "less_eq_cancellation_cause c d \<longleftrightarrow> cause_rank c \<le> cause_rank d"

definition less_cancellation_cause :: "cancellation_cause \<Rightarrow> cancellation_cause \<Rightarrow> bool" where
  "less_cancellation_cause c d \<longleftrightarrow> cause_rank c < cause_rank d"

lemma cause_rank_inject: "cause_rank c = cause_rank d \<Longrightarrow> c = d"
  by (cases c; cases d) simp_all

instance
  by standard (auto simp: less_eq_cancellation_cause_def less_cancellation_cause_def intro: cause_rank_inject)

end

lemma precedence_max: "with_precedence_over c d = max d c"
  by (auto simp: with_precedence_over_def max_def less_eq_cancellation_cause_def)

lemma observed_max: "with_observed_explicit_cancel c a = (if a then ExplicitRequest else c)"
  by (cases c) (simp_all add: with_observed_explicit_cancel_def with_precedence_over_def)

lemma fold_precedence: "foldl with_precedence_over c cs = Max (insert c (set cs))"
proof (induction cs arbitrary: c)
  case (Cons d cs)
  have "Max (insert (max d c) (set cs)) = Max (insert c (insert d (set cs)))"
    by (cases "cs = []") (auto simp: max.commute max.assoc max.left_commute)
  then show ?case using Cons by (simp add: precedence_max)
qed simp

text \<open>
  Racing cancellations agree on one cause: the causes are linearly ordered by rank, folding
  any sequence of proposals yields the greatest of them, so the result does not depend on the order
  in which the proposals arrive, and the cause survives the text it is recorded as.
\<close>

theorem cancellation_order_independent:
  "foldl with_precedence_over c cs = Max (insert c (set cs)) \<and>
   (\<exists>d \<in> insert c (set cs). foldl with_precedence_over c cs = d \<and> (\<forall>e. e \<in> insert c (set cs) \<longrightarrow> e \<le> d)) \<and>
   cause_from_completion_reason (cause_completion_reason (foldl with_precedence_over c cs)) =
     Some (foldl with_precedence_over c cs)"
proof -
  have "cause_from_completion_reason (cause_completion_reason d) = Some d" for d
    by (cases d) (simp_all add: cause_from_completion_reason_def)
  then show ?thesis using Max_in [of "insert c (set cs)"] by (auto simp: fold_precedence)
qed

subsection \<open>The published outcome\<close>

definition outcome_is :: "string \<Rightarrow> string \<Rightarrow> int \<Rightarrow> meta \<Rightarrow> bool" where
  "outcome_is st reason code m \<longleftrightarrow> state m = st \<and> completion_reason m = Some reason \<and> rc m = Some code"

interpretation stable_exit: meta_stable "\<lambda>_ m. outcome_is ''DONE'' reason code m \<and> signal m = sig" for reason code sig
  by unfold_locales (auto simp: outcome_is_def touch_def)

interpretation stable_error: meta_stable "\<lambda>_ m. outcome_is ''ERROR'' reason code m \<and> error m = Some message"
  for reason code message
  by unfold_locales (auto simp: outcome_is_def touch_def)

lemma exit_outcome:
  assumes "exit_terminal_status reason rs = \<lparr>ts_rc = code, ts_signal = sig\<rparr>"
  shows "(outcome_is ''DONE'' (exit_reason_text reason) code (apply_proposal (ExitProposal rs reason) now t m) \<and>
      signal (apply_proposal (ExitProposal rs reason) now t m) = sig) \<and>
     rc_node (apply_proposal (ExitProposal rs reason) now t m) = Some (Regular (Text (format_rc_bytes code)))"
  using assms by (simp add: outcome_is_def apply_proposal_def apply_terminal_metadata_def touch_def rc_node_def)

lemma error_outcome:
  "(outcome_is ''ERROR'' ''supervisor-error'' EX_SOFTWARE (apply_proposal (SupervisorError message) now t m) \<and>
      error (apply_proposal (SupervisorError message) now t m) = Some message) \<and>
   rc_node (apply_proposal (SupervisorError message) now t m) = Some (Regular (Text (format_rc_bytes EX_SOFTWARE)))"
  by (simp add: outcome_is_def apply_proposal_def apply_supervisor_error_metadata_def touch_def rc_node_def)

lemma starts_open: "loop_starts m w \<Longrightarrow> files w (F AcceptedCancel) = None \<Longrightarrow> open_handle m (view_of w)"
  by (simp add: open_handle_def starts_unpublished view_files)

lemma reaches_exit:
  assumes "open_handle m0 s" and "exit_terminal_status reason rs = \<lparr>ts_rc = code, ts_signal = sig\<rparr>"
  shows "reaches (record_exit_completion role rs reason l) s (\<lambda>l' t. completion_recorded l' \<and>
      documented (\<lambda>_ m. outcome_is ''DONE'' (exit_reason_text reason) code m \<and> signal m = sig)
        (Some (Regular (Text (format_rc_bytes code)))) t)"
  unfolding record_exit_completion_def
  by (rule stable_exit.loop_publishes [OF assms(1) exit_outcome [OF assms(2)]]) auto

lemma reaches_error:
  assumes "open_handle m0 s"
  shows "reaches (record_supervisor_error_in_loop role message l) s (\<lambda>l' t. completion_recorded l' \<and>
      documented (\<lambda>_ m. outcome_is ''ERROR'' ''supervisor-error'' EX_SOFTWARE m \<and> error m = Some message)
        (Some (Regular (Text (format_rc_bytes EX_SOFTWARE)))) t)"
  unfolding record_supervisor_error_in_loop_def
  by (rule stable_error.loop_publishes [OF assms error_outcome]) auto

lemma finish_exit:
  assumes "\<not> completion_recorded l" and "spawn_error l = None" and "root_exit l = Some rs" and "exit_completion_ready l"
    and "root_settlement_granted l" and "capture_error l = None"
  shows "maybe_finish role l = record_exit_completion role rs (loop_exit_reason l) l"
  using assms by (simp add: maybe_finish_def finish_decision_def spawn_error_complete_def)

text \<open>
  C20. The outcome of a finished run is the one the workload had. The handle on disk is not terminal,
  the source has no v2 registration, no lookup of a file name fails and no cancellation is accepted on
  disk; the loop has recorded no completion, spawn error, capture error or cancellation yet. Then, when
  the root has exited, the output is closed, the scope is complete and settlement is granted, a round of
  finishing that returns has recorded the completion, the metadata says \<open>DONE\<close> with the root's shell
  return code and signal, the reason tells whether a ready sentinel was still awaited, and the
  return-code file holds the same code.
\<close>

theorem finished_run_reports_exit:
  assumes "maybe_finish role l w = (Done l', w')" and "loop_starts m0 w" and "files w (F AcceptedCancel) = None"
    and "\<not> completion_recorded l" and "root_settlement_granted l"
    and "spawn_error l = None" and "capture_error l = None" and "cancellation l = None"
    and "root_exit l = Some rs" and "output_closed l" and "scope l = TreeScope \<longrightarrow> tree_empty l"
  shows "completion_recorded l' \<and> files w' (F Rc) = Some (Regular (Text (format_rc_bytes (rs_rc rs)))) \<and>
     (\<exists>m'. files w' (F MetaFile) = Some (Regular (Doc m')) \<and> state m' = ''DONE'' \<and>
        rc m' = Some (rs_rc rs) \<and> signal m' = rs_signal rs \<and>
        completion_reason m' = Some (if sentinel l = None then ''exit'' else ''exit-before-ready''))"
proof -
  have ready: "exit_completion_ready l"
    using assms(8,10,11) by (cases "scope l") (auto simp: exit_completion_ready_def is_complete_def)
  have reason: "exit_terminal_status (loop_exit_reason l) rs = \<lparr>ts_rc = rs_rc rs, ts_signal = rs_signal rs\<rparr>"
    "exit_reason_text (loop_exit_reason l) = (if sentinel l = None then ''exit'' else ''exit-before-ready'')"
    using assms(8) by (simp_all add: loop_exit_reason_def)
  from assms(1) finish_exit [OF assms(4,6,9) ready assms(5,7)]
  have "record_exit_completion role rs (loop_exit_reason l) l w = (Done l', w')" by simp
  from spec_run(1) [OF reaches_exit [OF starts_open [OF assms(2,3)] reason(1)] this] show ?thesis
    by (auto simp: documented_def outcome_is_def reason(2) view_files)
qed

text \<open>
  A run whose output could not be captured is never reported as a normal exit: once a capture
  failure is noted, finishing publishes the state \<open>ERROR\<close> with reason \<open>supervisor-error\<close>, the failure as
  its error text and return code 70, whatever the workload's own exit status was.
\<close>

theorem capture_failure_reported:
  assumes "maybe_finish role l w = (Done l', w')" and "loop_starts m0 w" and "files w (F AcceptedCancel) = None"
    and "root_settlement_granted l" and "finish_decision l \<noteq> NoFinish" and "capture_error l = Some message"
  shows "completion_recorded l' \<and> files w' (F Rc) = Some (Regular (Text (format_rc_bytes 70))) \<and>
     (\<exists>m'. files w' (F MetaFile) = Some (Regular (Doc m')) \<and> state m' = ''ERROR'' \<and> rc m' = Some 70 \<and>
        completion_reason m' = Some ''supervisor-error'' \<and> error m' = Some message)"
proof -
  have "maybe_finish role l = record_supervisor_error_in_loop role message l"
    using assms(4-6) by (cases "finish_decision l") (simp_all add: maybe_finish_def)
  with assms(1) have "record_supervisor_error_in_loop role message l w = (Done l', w')" by simp
  from spec_run(1) [OF reaches_error [OF starts_open [OF assms(2,3)]] this] show ?thesis
    by (auto simp: documented_def outcome_is_def view_files EX_SOFTWARE_def)
qed

subsection \<open>Witnesses\<close>

theorem cancellation_order_independent_witness:
  "foldl with_precedence_over RootAuthorityLost [OwnerExit, ExplicitRequest, CausalParent] = ExplicitRequest \<and>
   Max {RootAuthorityLost, OwnerExit, ExplicitRequest, CausalParent} = ExplicitRequest"
proof -
  have "foldl with_precedence_over RootAuthorityLost [OwnerExit, ExplicitRequest, CausalParent] = ExplicitRequest"
    by (simp add: with_precedence_over_def)
  with cancellation_order_independent [of RootAuthorityLost "[OwnerExit, ExplicitRequest, CausalParent]"]
  show ?thesis by simp
qed

text \<open>A run that closes its output at once and exits with status 1, then the delivery child is reaped.\<close>

definition bare_meta :: meta where
  "bare_meta = meta_new 5 ''ab_1'' 7 8 [''true''] ''/'' ''exit'' Sync None [] None"

definition finishing_env :: "nat \<Rightarrow> environment" where
  "finishing_env root_tick = quiet_env\<lparr>patience := Suc (Suc 0), loop_answers := (\<lambda>t. quiet_answer
     \<lparr>ready_keys := Inr [PollStdout, PollStderr, PollExecErr, PollSigchld],
      waitable := (if t = root_tick then Inr (Some (300, 256)) else if t > 30 \<and> even t then Inr (Some (200, 0))
        else waitable quiet_answer)\<rparr>)\<rparr>"

definition finishing_world :: "nat \<Rightarrow> world" where
  "finishing_world root_tick = quiet_world\<lparr>env := finishing_env root_tick,
     files := [F MetaFile \<mapsto> Regular (Doc bare_meta), F DeliveryModeFile \<mapsto> Regular (Text ''sync'')]\<rparr>"

definition sample_loop :: "bool \<Rightarrow> event_loop" where
  "sample_loop control = event_loop_state bare_meta 300 True False TreeScope None control"

definition exited_loop :: event_loop where
  "exited_loop = (sample_loop False)\<lparr>stdout_fd := False, stderr_fd := False, exec_err_fd := False, tree_empty := True,
     root_exit := Some (status_to_root_status 256)\<rparr>"

lemmas loop_run_simps =
  run_simps publication_run_simps delivery_run_simps sample_simps
  bare_meta_def finishing_env_def finishing_world_def quiet_answer_def sample_loop_def exited_loop_def
  event_loop_state_def halt_def catch_def observed_cancel_def is_cancellation_def
  status_to_root_status_def wifexited_def wexitstatus_def
  loop_duties_def check_explicit_cancel_def check_polled_owner_def drive_cancellation_def published_cancellation_def
  recover_image_service_def retry_root_terminal_def retry_deferred_ready_def maybe_finish_def finish_decision_def
  spawn_error_complete_def retry_source_publication_def retry_completion_integration_def drive_completion_delivery_def
  flush_root_status_def output_closed_def should_exit_def exit_completion_ready_def is_complete_def loop_exit_reason_def
  poll_and_dispatch_def poll_entries_def dispatch_poll_key_def read_stdout_def read_stderr_def read_exec_error_def
  read_available_def read_fd_chunk_def handle_sigchld_def reap_children_def ECHILD_def record_root_status_def
  integrate_reaped_transfer_def store_root_status_def apply_root_status_metadata_def record_exit_completion_def
  record_supervisor_error_in_loop_def apply_supervisor_error_metadata_def
  publish_in_loop_def begin_source_def integrate_terminal_publication_def select_initial_source_event_def start_and_fork_def
  mark_completion_delivery_settled_def end_physical_custody_def lock_custody_def try_lock_delivery_def try_lock_file_def
  cause_from_completion_reason_def sys_open_create_def custody_poll.simps transfer_status_def
  completion_delivery_meta_from_helper_error_def rollback_created_marker_def

lemma finishing_starts: "loop_starts bare_meta (finishing_world n)" "files (finishing_world n) (F Rc) = None"
  "files (finishing_world n) (F AcceptedCancel) = None"
  by (simp_all add: loop_starts_def finishing_world_def finishing_env_def quiet_env_def quiet_world_def lookups_reliable_def
      REGISTRATION_def bare_meta_def meta_new_def terminal_def)

lemma done_run: "fst (m w) = Done a \<Longrightarrow> m w = (Done a, snd (m w))"
  by (cases "m w") simp

lemma finishing_run:
  "\<exists>l w'. run_event_loop (\<lambda>_. []) False False (Suc (Suc (Suc 0))) (sample_loop False) (finishing_world 7) = (Done l, w')"
  by (simp add: loop_run_simps Let_def)

theorem loop_exit_settled_witness:
  "\<exists>l w' m. run_event_loop (\<lambda>_. []) False False 3 (sample_loop False) (finishing_world 7) = (Done l, w') \<and>
     tree_empty l \<and> files w' (F MetaFile) = Some (Regular (Doc m)) \<and> terminal m \<and> return_code_matches m w'"
proof -
  obtain l w' where run: "run_event_loop (\<lambda>_. []) False False 3 (sample_loop False) (finishing_world 7) = (Done l, w')"
    using finishing_run unfolding numeral_3_eq_3 by blast
  from loop_exit_settled [OF run [unfolded sample_loop_def] finishing_starts(1)] run show ?thesis by blast
qed

theorem loop_record_truthful_witness:
  "\<exists>l w' m. (loop_step (\<lambda>_. []) False False)\<^sup>*\<^sup>* (sample_loop False, finishing_world 7) (l, w') \<and> completion_recorded l \<and>
     files w' (F MetaFile) = Some (Regular (Doc m)) \<and> terminal m \<and> return_code_matches m w'"
proof -
  obtain l w' where "run_event_loop (\<lambda>_. []) False False (Suc (Suc (Suc 0))) (sample_loop False) (finishing_world 7) = (Done l, w')"
    using finishing_run by blast
  from run_reaches [OF this] obtain w1 where s: "(loop_step (\<lambda>_. []) False False)\<^sup>*\<^sup>* (sample_loop False, finishing_world 7) (l, w1)" "should_exit l" by blast
  then have r: "completion_recorded l" by (simp add: should_exit_def)
  from loop_record_truthful [OF s(1) [unfolded sample_loop_def] finishing_starts(1) r] s(1) r show ?thesis by blast
qed

lemma exited_finishes: "\<exists>l. fst (maybe_finish False exited_loop (finishing_world 7)) = Done l"
  by (simp add: loop_run_simps Let_def)

theorem finished_run_reports_exit_witness:
  "files (snd (maybe_finish False exited_loop (finishing_world 7))) (F Rc) = Some (Regular (Text (format_rc_bytes 1)))"
proof -
  obtain l where l: "fst (maybe_finish False exited_loop (finishing_world 7)) = Done l" using exited_finishes by blast
  have "\<not> completion_recorded exited_loop" "root_settlement_granted exited_loop" "spawn_error exited_loop = None"
    "capture_error exited_loop = None" "cancellation exited_loop = None"
    "root_exit exited_loop = Some (status_to_root_status 256)" "output_closed exited_loop"
    "scope exited_loop = TreeScope \<longrightarrow> tree_empty exited_loop"
    by (simp_all add: exited_loop_def sample_loop_def event_loop_state_def output_closed_def)
  from finished_run_reports_exit [OF done_run [where m = "maybe_finish False exited_loop", OF l] finishing_starts(1,3) this]
  show ?thesis by (simp add: status_to_root_status_def wifexited_def wexitstatus_def)
qed

theorem capture_failure_reported_witness:
  "files (snd (maybe_finish False (exited_loop\<lparr>capture_error := Some ''x''\<rparr>) (finishing_world 7))) (F Rc) =
     Some (Regular (Text (format_rc_bytes 70)))"
proof -
  let ?l = "exited_loop\<lparr>capture_error := Some ''x''\<rparr>"
  have "\<exists>l. fst (maybe_finish False ?l (finishing_world 7)) = Done l"
    by (simp add: loop_run_simps Let_def)
  then obtain l where l: "fst (maybe_finish False ?l (finishing_world 7)) = Done l" by blast
  have "root_settlement_granted ?l" "finish_decision ?l \<noteq> NoFinish" "capture_error ?l = Some ''x''"
    by (simp_all add: exited_loop_def sample_loop_def event_loop_state_def output_closed_def finish_decision_def
        spawn_error_complete_def exit_completion_ready_def is_complete_def)
  from capture_failure_reported [OF done_run [where m = "maybe_finish False ?l", OF l] finishing_starts(1,3) this]
  show ?thesis by simp
qed

text \<open>One round of dispatching of a supervised loop: the root is reaped, the output closed, nothing settled.\<close>

lemma supervised_dispatch:
  "\<exists>l w'. poll_and_dispatch (\<lambda>_. []) False False (sample_loop True) (finishing_world 5) = (Done l, w') \<and>
     \<not> root_settlement_granted l \<and> root_exit l \<noteq> None \<and> output_closed l"
  by (simp add: loop_run_simps Let_def)

theorem settlement_waits_for_grant_witness:
  "\<exists>l w'. (loop_step (\<lambda>_. []) False False)\<^sup>*\<^sup>* (sample_loop True, finishing_world 5) (l, w') \<and> root_exit l \<noteq> None \<and>
     output_closed l \<and> files w' (F Rc) = None"
proof -
  obtain l w' where d: "poll_and_dispatch (\<lambda>_. []) False False (sample_loop True) (finishing_world 5) = (Done l, w')"
    and l: "\<not> root_settlement_granted l" "root_exit l \<noteq> None" "output_closed l"
    using supervised_dispatch by blast
  note s = r_into_rtranclp [of "loop_step (\<lambda>_. []) False False", OF loop_step.dispatches [OF d]]
  from settlement_waits_for_grant [OF s [unfolded sample_loop_def] finishing_starts(1,2) l(1)] s l show ?thesis by blast
qed

definition cancelled_loop :: event_loop where
  "cancelled_loop = (sample_loop False)\<lparr>cancellation := Some \<lparr>provisional_cause = OwnerExit, started_at = 0\<rparr>\<rparr>"

lemma cancelled_duties:
  "\<exists>l w'. loop_duties False cancelled_loop (finishing_world 7) = (Done l, w') \<and> signals l = [SIGTERM]"
  by (simp add: loop_run_simps cancelled_loop_def with_observed_explicit_cancel_def escalation_signal_def
      CANCEL_GRACE_ms_def Let_def)

theorem cancellation_never_withdrawn_witness:
  "\<exists>l w' c. loop_duties False cancelled_loop (finishing_world 7) = (Done l, w') \<and> signals l = [SIGTERM] \<and>
     cancellation l = Some c \<and> started_at c = 0 \<and> cause_rank OwnerExit \<le> cause_rank (provisional_cause c)"
proof -
  obtain l w' where d: "loop_duties False cancelled_loop (finishing_world 7) = (Done l, w')" "signals l = [SIGTERM]"
    using cancelled_duties by blast
  have "cancellation cancelled_loop = Some \<lparr>provisional_cause = OwnerExit, started_at = 0\<rparr>"
    by (simp add: cancelled_loop_def)
  from cancellation_never_withdrawn [OF r_into_rtranclp [of "loop_step (\<lambda>_. []) False False", OF loop_step.duties [OF d(1)]] this] d
  show ?thesis by auto
qed

end
