(* ===== verification/Guardian.thy ===== *)
theory Guardian
  imports Event_Loop_Properties
begin

section \<open>The guardian of a supervisor\<close>

text \<open>
  \<^verbatim>\<open>guard_supervisor_exit\<close> of \<^verbatim>\<open>src/src/supervisor.rs\<close>: the process that waits for the supervisor's exit, adopts what it
  left behind, cancels that when a cancellation was accepted, publishes for a supervisor that was
  lost, delivers, and gives physical custody up. Its local variables are a record. A sleep before
  the next round has no effect on the model's state: every such branch starts the next round.
  The word of \<open>Delivery_Role\<close> that the guardian clears for an empty tree is modelled there; here \<^verbatim>\<open>pending\<close> is an
  answer of the environment, as are the calls of the v2 continuation.
\<close>

subsection \<open>State and operations\<close>

record guardian =
  reconciled :: bool
  takeover_at :: "nat option"
  held_transfer :: "(pid \<times> nat) option"
  reaped_transfer :: "(nat \<times> int) option"
  adopted_tree_empty :: bool
  sent_signals :: "int list"

definition guardian_state :: "bool \<Rightarrow> guardian" where
  "guardian_state completion_reconciled =
     \<lparr>reconciled = completion_reconciled, takeover_at = None, held_transfer = None, reaped_transfer = None,
      adopted_tree_empty = False, sent_signals = []\<rparr>"

definition OUTCOME :: fname where
  "OUTCOME = Extra ''source-outcome-v2.json''"

definition begin_guardian_takeover :: "nat io" where
  "begin_guardian_takeover = ask clock"

fun wait_child_loop :: "nat \<Rightarrow> int io" where
  "wait_child_loop 0 = halt"
| "wait_child_loop (Suc n) =
     bind (ask_loop child_wait) (\<lambda>r.
       case r of
         Inr st \<Rightarrow> ret st
       | Inl e \<Rightarrow> if kind e \<noteq> Interrupted then raise e else wait_child_loop n)"

definition wait_for_exact_child :: "int io" where
  "wait_for_exact_child w = wait_child_loop (patience (env w)) w"

text \<open>An error ends the reaping, but not what was reaped before it.\<close>

definition note_reaped :: "pid \<Rightarrow> int \<Rightarrow> guardian \<Rightarrow> guardian" where
  "note_reaped p st g =
     (case held_transfer g of
        Some (q, n) \<Rightarrow> if q = p then g\<lparr>held_transfer := None, reaped_transfer := Some (n, st)\<rparr> else g
      | None \<Rightarrow> g)"

fun reap_guardian_loop :: "nat \<Rightarrow> guardian \<Rightarrow> ((io_error + bool) \<times> guardian) io" where
  "reap_guardian_loop 0 g = halt"
| "reap_guardian_loop (Suc n) g =
     bind (ask_loop waitable) (\<lambda>r.
       case r of
         Inr (Some (p, st)) \<Rightarrow> reap_guardian_loop n (note_reaped p st g)
       | Inr None \<Rightarrow> ret (Inr False, g)
       | Inl e \<Rightarrow>
           if kind e = Interrupted then reap_guardian_loop n g
           else if raw_os_error e = Some ECHILD then ret (Inr True, g) else ret (Inl e, g))"

definition reap_guardian_children :: "guardian \<Rightarrow> ((io_error + bool) \<times> guardian) io" where
  "reap_guardian_children g w = reap_guardian_loop (patience (env w)) g w"

definition guardian_signals :: "bool \<Rightarrow> guardian \<Rightarrow> guardian io" where
  "guardian_signals cancel_workload g =
     (if \<not> cancel_workload then ret g
      else bind (case takeover_at g of Some t \<Rightarrow> ret t | None \<Rightarrow> begin_guardian_takeover) (\<lambda>t0.
             bind (ask clock) (\<lambda>now.
               ret (g\<lparr>takeover_at := Some t0, sent_signals := sent_signals g @ [escalation_signal (now - t0)]\<rparr>))))"

definition integrate_reaped :: "guardian \<Rightarrow> guardian io" where
  "integrate_reaped g =
     (case reaped_transfer g of
        None \<Rightarrow> ret g
      | Some (n, st) \<Rightarrow>
          seq read_meta (bind (integrate_completion_transfer (transfer_status st) n)
            (\<lambda>_. ret (g\<lparr>reaped_transfer := None\<rparr>))))"

definition is_ok :: "'a io \<Rightarrow> bool io" where
  "is_ok m = handle_err m (\<lambda>_. ret False) (\<lambda>_. ret True)"

text \<open>The v2 source: a drained cancellation is recorded, missing output may end the custody at once.\<close>

definition missing_output_retires :: "bool \<Rightarrow> bool \<Rightarrow> bool io" where
  "missing_output_retires accepted empty_tree =
     bind v2_enabled (\<lambda>v2.
       if v2 \<and> empty_tree
       then
         seq (if accepted then record_cancellation_drained else ret ())
        (bind (catch ask_v2 (\<lambda>_. ret False)) (\<lambda>unavailable.
           if \<not> unavailable then ret False
           else bind (catch ask_v2 (\<lambda>_. ret False)) (\<lambda>owned.
             if \<not> owned then ret False
             else bind (is_ok ask_v2) (\<lambda>recorded.
               if \<not> recorded then ret False else is_ok end_physical_custody))))
       else ret False)"

definition publish_v2_outcome :: "bool \<Rightarrow> bool \<Rightarrow> bool \<Rightarrow> unit io" where
  "publish_v2_outcome accepted empty_tree completion_reconciled =
     bind v2_enabled (\<lambda>v2.
       if v2 \<and> empty_tree \<and> \<not> completion_reconciled
       then
         seq lock_completion (bind read_meta (\<lambda>m. bind (try_exists OUTCOME) (\<lambda>exists.
           if exists then ret ()
           else bind unix_ms (\<lambda>now. bind unix_ms (\<lambda>t.
             (let m' = (if accepted then apply_cancellation_metadata ExplicitRequest now t m
                        else apply_lost_supervisor_metadata now t m)
              in seq ask_v2 (write_terminal m')))))))
       else ret ())"

definition try_start_completion_delivery :: "bool \<Rightarrow> (completion_start \<times> meta option) io" where
  "try_start_completion_delivery role =
     bind try_lock_delivery (\<lambda>locked. if \<not> locked then ret (Busy, None) else start_and_fork role)"

definition guardian_recovers :: "bool \<Rightarrow> bool \<Rightarrow> guardian \<Rightarrow> guardian io" where
  "guardian_recovers role cancelled_tree_empty g =
     handle_err (reconcile_lost_supervisor_after_guardian role cancelled_tree_empty)
       (\<lambda>_. ret g)
       (\<lambda>r. case r of
          None \<Rightarrow> ret g
        | Some m \<Rightarrow>
            if terminal m \<or> \<not> running_exit_mode m
            then
              handle_err (try_start_completion_delivery role)
                (\<lambda>_. ret g)
                (\<lambda>(started_as, _). case started_as of
                   Busy \<Rightarrow> ret g
                 | Settled \<Rightarrow> ret (g\<lparr>reconciled := True\<rparr>)
                 | Running n _ \<Rightarrow>
                     bind (ask_loop forked_pid) (\<lambda>p. ret (g\<lparr>held_transfer := Some (p, n), reconciled := True\<rparr>)))
            else ret g)"

datatype guardian_next = Again guardian | Retire guardian

definition guardian_settles :: "bool \<Rightarrow> bool \<Rightarrow> bool \<Rightarrow> guardian \<Rightarrow> guardian_next io" where
  "guardian_settles role accepted drained g =
     (let cancel_workload = (accepted \<and> \<not> drained)
      in if reconciled g \<and> adopted_tree_empty g
         then handle_err end_physical_custody (\<lambda>_. ret (Again g)) (\<lambda>_. ret (Retire g))
         else
           handle_err (if cancel_workload \<and> adopted_tree_empty g then record_cancellation_drained else ret ())
             (\<lambda>_. ret (Again g))
             (\<lambda>_.
                if reconciled g \<or> (cancel_workload \<and> \<not> adopted_tree_empty g) then ret (Again g)
                else bind (ask_loop role_pending) (\<lambda>held.
                  if held \<and> \<not> adopted_tree_empty g then ret (Again g)
                  else bind (guardian_recovers role (accepted \<and> (adopted_tree_empty g \<or> drained)) g)
                         (\<lambda>g'. ret (Again g')))))"

definition guardian_proceeds :: "bool \<Rightarrow> bool \<Rightarrow> bool \<Rightarrow> guardian \<Rightarrow> guardian_next io" where
  "guardian_proceeds role accepted drained g =
     handle_err (integrate_reaped g) (\<lambda>_. ret (Again g)) (\<lambda>g.
     handle_err (missing_output_retires accepted (adopted_tree_empty g)) (\<lambda>_. ret (Again g)) (\<lambda>retires.
       if retires then ret (Retire g)
       else
         handle_err (publish_v2_outcome accepted (adopted_tree_empty g) (reconciled g))
           (\<lambda>_. ret (Again g)) (\<lambda>_. guardian_settles role accepted drained g)))"

definition guardian_round :: "bool \<Rightarrow> guardian \<Rightarrow> guardian_next io" where
  "guardian_round role g =
     handle_err explicit_cancel_accepted (\<lambda>_. ret (Again g)) (\<lambda>accepted.
     handle_err (durable_marker_exists (F CancellationDrained)) (\<lambda>_. ret (Again g)) (\<lambda>drained.
     bind (guardian_signals (accepted \<and> \<not> drained) g) (\<lambda>g.
     bind (reap_guardian_children g) (\<lambda>(r, g).
       case r of
         Inl _ \<Rightarrow> ret (Again g)
       | Inr empty_tree \<Rightarrow>
           guardian_proceeds role accepted drained (g\<lparr>adopted_tree_empty := empty_tree\<rparr>)))))"

fun guardian_loop :: "bool \<Rightarrow> nat \<Rightarrow> guardian \<Rightarrow> guardian io" where
  "guardian_loop role 0 g = halt"
| "guardian_loop role (Suc n) g =
     bind (guardian_round role g) (\<lambda>r. case r of Again g' \<Rightarrow> guardian_loop role n g' | Retire g' \<Rightarrow> ret g')"

definition supervisor_reconciled :: "int \<Rightarrow> bool io" where
  "supervisor_reconciled st =
     bind v2_enabled (\<lambda>v2.
       if v2 then catch ask_v2 (\<lambda>_. ret False) else ret (wifexited st \<and> wexitstatus st = 0))"

definition guard_supervisor_exit :: "bool \<Rightarrow> nat \<Rightarrow> int io" where
  "guard_supervisor_exit role rounds =
     handle_err wait_for_exact_child (\<lambda>_. ret EX_SOFTWARE) (\<lambda>st.
     bind (supervisor_reconciled st) (\<lambda>done.
     seq (guardian_loop role rounds (guardian_state done)) (ret 0)))"

subsection \<open>The books of a handle\<close>

definition settled :: "node option \<Rightarrow> meta \<Rightarrow> bool" where
  "settled c m \<longleftrightarrow> (terminal m \<or> \<not> running_exit_mode m) \<and> (terminal m \<longrightarrow> c = rc_node m)"

definition settled_view :: "view \<Rightarrow> bool" where
  "settled_view s \<longleftrightarrow> (\<exists>c. documented settled c s)"

interpretation stable_settled: meta_stable settled
  by unfold_locales (auto simp: settled_def terminal_def running_exit_mode_def rc_node_def touch_def)

definition books :: "bool \<Rightarrow> view \<Rightarrow> bool" where
  "books b s \<longleftrightarrow> (if b then settled_view s else rc_inv s)"

lemma settled_rc: "settled_view s \<Longrightarrow> rc_inv s"
  by (auto simp: settled_view_def rc_inv_def documented_def settled_def)

lemma books_rc: "books b s \<Longrightarrow> rc_inv s"
  by (auto simp: books_def dest: settled_rc split: if_splits)

lemma settled_books: "settled_view s \<Longrightarrow> books True s"
  by (simp add: books_def)

lemma books_weaken: "books True s \<Longrightarrow> books b s"
  by (auto simp: books_def dest: settled_rc)

lemma keeps_settled: "(\<And>c. keeps (documented settled c) m) \<Longrightarrow> keeps settled_view m"
  unfolding settled_view_def [abs_def] by (rule keeps_ex)

text \<open>What the guardian does between recoveries leaves the books alone.\<close>

lemma keeps_books:
  assumes "\<And>c. keeps (documented settled c) m" and "\<And>c. keeps (rc_documented c) m"
  shows "keeps (books b) m"
  using keeps_settled [OF assms(1)] keeps_rc_inv [OF assms(2)] by (cases b) (simp_all add: books_def [abs_def])

lemma keeps_books_any: "(\<And>I. keeps I m) \<Longrightarrow> keeps (books b) m"
  by blast

lemma keeps_books_discharge: "keeps (books b) end_physical_custody" "keeps (books b) record_cancellation_drained"
  by (intro keeps_books keeps_discharge_documented keeps_markers_documented)+

lemma keeps_books_integrate: "keeps (books b) (integrate_completion_transfer r n)"
  by (intro keeps_books gives_keeps [OF stable_settled.gives_integrate] gives_keeps [OF stable_rc.gives_integrate])

lemma keeps_books_start: "keeps (books b) (try_start_completion_delivery role)"
  unfolding try_start_completion_delivery_def
  by (intro keeps_books keeps_bind keeps_markers_documented keeps_if keeps_ret
      stable_settled.keeps_start_and_fork stable_rc.keeps_start_and_fork)

lemma gives_plain_v2: "gives (books b) (\<lambda>v. \<not> v) v2_enabled"
  by (rule givesI, rule spec_v2_plain)
    (auto simp: books_def settled_view_def rc_inv_def documented_def split: if_splits)

subsection \<open>A recovery that reports a finished handle left one on disk\<close>

lemma reaches_skip: "(\<And>a t. reaches (f a) t Q) \<Longrightarrow> reaches (bind m f) s Q"
  by (rule spec_bind, rule spec_mono [OF reaches_any]) auto

lemma lost_always_published:
  "reaches (publish_terminal_with_delivery_disposition role m log SupervisorLost LeavePending) s
     (\<lambda>r _. fst r = Published)"
  unfolding publish_terminal_with_delivery_disposition_def Let_def finalize_terminal_proposal_def
  by (rule reaches_skip, rule reaches_skip, rule reaches_skip)
    (auto intro!: spec_if reaches_skip spec_ret split: finalized_proposal.split)

lemma outcome_settled: "rc_inv s \<Longrightarrow> has_outcome s \<Longrightarrow> settled_view s"
  by (auto simp: rc_inv_def has_outcome_def settled_view_def documented_def settled_def)

lemma reaches_recovery:
  assumes "rc_inv s"
  shows "spec (reconcile_lost_supervisor_locked role LeavePending b) s
     (\<lambda>m t. rc_inv t \<and> (terminal m \<or> \<not> running_exit_mode m \<longrightarrow> settled_view t)) (\<lambda>_. rc_inv) rc_inv"
  (is "spec _ s ?Q _ _")
  unfolding reconcile_lost_supervisor_locked_def claim_delivery_def
proof (rule spec_bind, rule spec_read_meta, goal_cases)
  case (1 m)
  have known: "terminal m \<or> \<not> running_exit_mode m \<Longrightarrow> settled_view s"
    using assms 1 by (auto simp: rc_inv_def settled_view_def documented_def settled_def)
  let ?p = "publish_terminal_with_delivery_disposition role m False SupervisorLost LeavePending"
  have "yields ?p s rc_inv" using keepsD [OF keeps_publish_rc assms] .
  from spec_conj [OF this spec_conj [OF reaches_publish [OF assms] lost_always_published]]
  have publishes: "spec (bind ?p (\<lambda>r. ret (snd r))) s ?Q (\<lambda>_. rc_inv) rc_inv"
    by (intro spec_bind, elim spec_mono) (auto intro!: spec_ret outcome_settled)
  have look: "keeps (\<lambda>t. t = s) (if settled_cancel then ret True else processes_are_gone m)"
    "keeps (\<lambda>t. t = s) (if b then explicit_cancel_accepted else ret False)" for settled_cancel
    unfolding processes_are_gone_def by (intro keeps_rules)+
  have searched: "spec (bind (if b then explicit_cancel_accepted else ret False) (\<lambda>settled_cancel.
      bind (if settled_cancel then ret True else processes_are_gone m) (\<lambda>proceed.
        if \<not> proceed then ret m else bind ?p (\<lambda>r. ret (snd r))))) s ?Q (\<lambda>_. rc_inv) rc_inv"
    by (rule spec_bind, rule keeps_spec [OF look(2) refl], rule spec_bind, hypsubst, rule keeps_spec [OF look(1) refl])
      (use known assms publishes in \<open>auto intro!: spec_ret\<close>)
  show ?case
    by (rule spec_if, use known assms in \<open>simp add: spec_ret\<close>, rule searched)
qed (use assms in auto)

lemma reaches_guardian_recovery:
  assumes "rc_inv s"
  shows "spec (reconcile_lost_supervisor_after_guardian role b) s
     (\<lambda>r t. rc_inv t \<and> (\<forall>m. r = Some m \<longrightarrow> terminal m \<or> \<not> running_exit_mode m \<longrightarrow> settled_view t)) (\<lambda>_. rc_inv) rc_inv"
  unfolding reconcile_lost_supervisor_after_guardian_def
  by (rule spec_bind, rule keeps_spec [OF keeps_rc_inv [OF keeps_locks_documented(3)] assms])
    (auto intro!: spec_if spec_ret spec_bind spec_mono [OF reaches_recovery])

lemma guardian_recovers_books:
  assumes "rc_inv s" and "\<not> reconciled g"
  shows "reaches (guardian_recovers role b g) s (\<lambda>g' t. books (reconciled g') t \<and> reaped_transfer g' = reaped_transfer g)"
proof -
  have same: "reaches (ret g) t (\<lambda>g' t. books (reconciled g') t \<and> reaped_transfer g' = reaped_transfer g)"
    if "rc_inv t" for t
    using that assms(2) by (auto intro!: spec_ret simp: books_def)
  have start: "reaches (handle_err (try_start_completion_delivery role) (\<lambda>_. ret g)
      (\<lambda>(started_as, _). case started_as of Busy \<Rightarrow> ret g | Settled \<Rightarrow> ret (g\<lparr>reconciled := True\<rparr>)
         | Running n _ \<Rightarrow> bind (ask_loop forked_pid) (\<lambda>p. ret (g\<lparr>held_transfer := Some (p, n), reconciled := True\<rparr>)))) t
      (\<lambda>g' t. books (reconciled g') t \<and> reaped_transfer g' = reaped_transfer g)" if "books True t" for t
    by (rule spec_handle_err, rule keeps_spec [OF keeps_books_start that])
      (auto split: completion_start.split intro!: same spec_ret spec_bind spec_ask intro: books_rc books_weaken)
  show ?thesis
    unfolding guardian_recovers_def
    by (rule spec_handle_err, rule spec_mono [OF reaches_guardian_recovery [OF assms(1)]])
      (auto split: option.split intro!: same start spec_if settled_books)
qed

subsection \<open>A round of the guardian\<close>

text \<open>When custody is given up its file is gone and an accepted cancellation is recorded as drained.\<close>

definition discharged :: "view \<Rightarrow> bool" where
  "discharged s \<longleftrightarrow> vdir s \<longrightarrow> vfiles s (F PhysicalCustody) = None \<and>
     (vfiles s (F AcceptedCancel) \<noteq> None \<longrightarrow> vfiles s (F CancellationDrained) \<noteq> None)"

lemma reaches_discharged: "reaches end_physical_custody s (\<lambda>_. discharged)"
proof (cases "vdir s")
  case True
  show ?thesis
    by (rule spec_mono [OF spec_end_physical_custody [OF True]]) (auto simp: discharged_def custody_closed_def)
next
  case False
  then show ?thesis
    unfolding end_physical_custody_def
    by (intro spec_handle_err spec_lock_custody spec_if spec_ret spec_raise)
      (auto simp: discharged_def hard_def intro!: spec_raise)
qed

definition guardian_goal :: "guardian_next \<Rightarrow> view \<Rightarrow> bool" where
  "guardian_goal r t \<longleftrightarrow>
     (case r of
        Again g \<Rightarrow> books (reconciled g) t
      | Retire g \<Rightarrow> books True t \<and> discharged t \<and> adopted_tree_empty g \<and> reaped_transfer g = None)"

lemma guardian_settles_goal:
  assumes "books (reconciled g) s" and "reaped_transfer g = None"
  shows "reaches (guardian_settles role accepted drained g) s guardian_goal"
proof -
  have again: "reaches (ret (Again g)) t guardian_goal" if "books (reconciled g) t" for t
    using that by (simp add: spec_ret guardian_goal_def)
  have retire: "reaches (handle_err end_physical_custody (\<lambda>_. ret (Again g)) (\<lambda>_. ret (Retire g))) s guardian_goal"
    if "reconciled g" "adopted_tree_empty g"
    using that assms
    by (intro spec_handle_err spec_mono [OF spec_conj [OF keepsD [OF keeps_books_discharge(1) assms(1)] reaches_discharged]])
      (auto simp: guardian_goal_def intro!: spec_ret)
  have recover: "reaches (bind (guardian_recovers role b g) (\<lambda>g'. ret (Again g'))) t guardian_goal"
    if "books (reconciled g) t" "\<not> reconciled g" for b t
    by (rule spec_bind, rule spec_mono [OF guardian_recovers_books [OF books_rc [OF that(1)] that(2)]])
      (auto simp: guardian_goal_def intro!: spec_ret)
  have drain: "keeps (books (reconciled g)) (if b then record_cancellation_drained else ret ())" for b
    by (intro keeps_if keeps_books_discharge keeps_ret)
  show ?thesis
    unfolding guardian_settles_def Let_def
    by (rule spec_if, (rule retire; simp), rule spec_handle_err, rule keeps_spec [OF drain assms(1)])
      (auto intro!: again recover spec_bind [of "ask _"] spec_ask)
qed

lemma guardian_proceeds_goal:
  assumes "books (reconciled g) s"
  shows "reaches (guardian_proceeds role accepted drained g) s guardian_goal"
proof -
  have again: "reaches (ret (Again g')) t guardian_goal" if "books (reconciled g') t" for g' t
    using that by (simp add: spec_ret guardian_goal_def)
  have plain: "gives (books b) (\<lambda>r. \<not> r) (missing_output_retires accepted e)" "keeps (books b) (publish_v2_outcome accepted e k)"
    for b e k
    unfolding missing_output_retires_def publish_v2_outcome_def
    by (rule gives_bind [OF gives_plain_v2] keeps_bind_gives [OF gives_plain_v2], simp add: gives_ret keeps_ret)+
  have rest: "reaches (handle_err (missing_output_retires accepted (adopted_tree_empty g')) (\<lambda>_. ret (Again g')) (\<lambda>retires.
       if retires then ret (Retire g')
       else handle_err (publish_v2_outcome accepted (adopted_tree_empty g') (reconciled g'))
           (\<lambda>_. ret (Again g')) (\<lambda>_. guardian_settles role accepted drained g'))) t guardian_goal"
    if "books (reconciled g') t" "reaped_transfer g' = None" for g' t
    by (rule spec_handle_err, rule spec_mono [OF givesD [OF plain(1) that(1)]])
      (auto intro!: again spec_handle_err keeps_spec [OF plain(2)] guardian_settles_goal that(2))
  have integrate: "spec (integrate_reaped g) s
      (\<lambda>g' t. books (reconciled g') t \<and> reaped_transfer g' = None) (\<lambda>_. books (reconciled g)) (\<lambda>_. True)"
    unfolding integrate_reaped_def using assms
    by (auto split: option.split intro!: spec_ret spec_bind keeps_spec [OF keeps_read_meta]
        keeps_spec [OF keeps_books_integrate])
  show ?thesis
    unfolding guardian_proceeds_def
    by (rule spec_handle_err, rule spec_mono [OF integrate]) (auto intro!: again rest)
qed

lemma reap_guardian_reconciled:
  "spec (reap_guardian_loop n g) s (\<lambda>(_, g') t. t = s \<and> reconciled g' = reconciled g) (\<lambda>_ _. True) (\<lambda>_. True)"
proof (induction n arbitrary: g)
  case (Suc n)
  have "reconciled (note_reaped p st g) = reconciled g" for p st
    by (simp add: note_reaped_def split: option.split)
  then have noted: "reaches (reap_guardian_loop n (note_reaped p st g)) s
      (\<lambda>(_, g') t. t = s \<and> reconciled g' = reconciled g)" for p st
    using Suc [of "note_reaped p st g"] by simp
  show ?case
    by (auto split: sum.split option.split prod.split intro!: spec_bind spec_ask spec_ret noted Suc)
qed (simp add: halt_def spec_def)

lemma guardian_round_goal:
  assumes "books (reconciled g) s"
  shows "reaches (guardian_round role g) s guardian_goal"
proof -
  have again: "reaches (ret (Again g')) s guardian_goal" if "reconciled g' = reconciled g" for g'
    using that assms by (simp add: spec_ret guardian_goal_def)
  have signals: "spec (guardian_signals b g) s (\<lambda>g' t. t = s \<and> reconciled g' = reconciled g) (\<lambda>_ _. True) (\<lambda>_. True)" for b
    unfolding guardian_signals_def begin_guardian_takeover_def
    by (auto split: option.split intro!: spec_ret spec_bind spec_ask)
  have look: "keeps (\<lambda>t. t = s) explicit_cancel_accepted" "keeps (\<lambda>t. t = s) (durable_marker_exists (F CancellationDrained))"
    by (intro keeps_rules; simp)+
  have reaped: "reaches (bind (reap_guardian_children g') (\<lambda>(r, g). case r of Inl _ \<Rightarrow> ret (Again g)
       | Inr e \<Rightarrow> guardian_proceeds role accepted drained (g\<lparr>adopted_tree_empty := e\<rparr>))) s guardian_goal"
    if "reconciled g' = reconciled g" for g' accepted drained
    unfolding reap_guardian_children_def [abs_def]
    by (rule spec_bind, rule spec_patience [where m = "\<lambda>n. reap_guardian_loop n g'"], rule spec_mono [OF reap_guardian_reconciled])
      (use that assms in \<open>auto split: sum.split intro!: again guardian_proceeds_goal\<close>)
  show ?thesis
    unfolding guardian_round_def
    by (rule spec_handle_err, rule keeps_spec [OF look(1) refl], hypsubst, rule spec_handle_err,
        rule keeps_spec [OF look(2) refl], hypsubst, rule spec_bind, rule spec_mono [OF signals])
      (auto intro!: reaped again)
qed

lemma guardian_loop_goal:
  "books (reconciled g) s \<Longrightarrow> reaches (guardian_loop role n g) s (\<lambda>g'. guardian_goal (Retire g'))"
proof (induction n arbitrary: g s)
  case (Suc n)
  show ?case
    unfolding guardian_loop.simps
  proof (rule spec_bind, rule spec_mono [OF guardian_round_goal [OF Suc.prems]])
    fix r t assume "guardian_goal r t"
    then show "reaches (case r of Again g' \<Rightarrow> guardian_loop role n g' | Retire g' \<Rightarrow> ret g') t (\<lambda>g'. guardian_goal (Retire g'))"
      by (cases r) (auto intro!: Suc.IH spec_ret simp: guardian_goal_def [of "Again _"])
  qed simp_all
qed (simp add: halt_def spec_def)

subsection \<open>When the guardian leaves\<close>

text \<open>
  C22. The guardian leaves only a settled handle. Take a guardian whose supervisor was lost, for a
  source without a v2 registration whose return-code file, if its metadata is already terminal, agrees with
  it, and let no lookup of a file name fail. Whatever the kernel answers and wherever other calls fail,
  when the guardian retires its last reaping found no child left, every delivery child it reaped was
  integrated, the metadata on disk is terminal (or was never that of a run in exit mode) with exactly its
  return code in the return-code file, and in a directory that still exists the custody marker is gone
  and an accepted cancellation is recorded as drained.
\<close>

theorem guardian_leaves_settled:
  assumes "guardian_loop role rounds (guardian_state False) w = (Done g, w')"
    and "lookups_reliable (env w)" and "files w REGISTRATION = None"
    and "files w (F MetaFile) = Some (Regular (Doc m))" and "terminal m \<longrightarrow> files w (F Rc) = rc_node m"
  shows "adopted_tree_empty g \<and> reaped_transfer g = None \<and>
     (\<exists>m'. files w' (F MetaFile) = Some (Regular (Doc m')) \<and> (terminal m' \<or> \<not> running_exit_mode m') \<and>
        (terminal m' \<longrightarrow> files w' (F Rc) = rc_node m')) \<and>
     (dir_exists w' \<longrightarrow> files w' (F PhysicalCustody) = None \<and>
        (files w' (F AcceptedCancel) \<noteq> None \<longrightarrow> files w' (F CancellationDrained) \<noteq> None))"
proof -
  have "books (reconciled (guardian_state False)) (view_of w)"
    using assms(2-5)
    by (simp add: books_def guardian_state_def rc_inv_def documented_def plain_source_def view_files REGISTRATION_def)
      (simp add: view_of_def)
  from spec_run(1) [OF guardian_loop_goal [OF this] assms(1)]
  show ?thesis
    by (auto simp: guardian_goal_def books_def settled_view_def documented_def settled_def discharged_def
        view_files view_dir)
qed

definition guarded_world :: world where
  "guarded_world = quiet_world\<lparr>env := quiet_env\<lparr>patience := Suc (Suc 0), loop_answers := (\<lambda>t. quiet_answer
       \<lparr>waitable := (if t > 30 \<and> odd t then Inr (Some (200, 0)) else waitable quiet_answer)\<rparr>)\<rparr>,
     files := [F MetaFile \<mapsto> Regular (Doc bare_meta), F DeliveryModeFile \<mapsto> Regular (Text ''sync''),
       F AcceptedCancel \<mapsto> Regular (Text [])]\<rparr>"

lemmas guardian_run_simps =
  loop_run_simps guarded_world_def guardian_state_def begin_guardian_takeover_def note_reaped_def reap_guardian_children_def
  guardian_signals_def integrate_reaped_def missing_output_retires_def publish_v2_outcome_def
  try_start_completion_delivery_def guardian_recovers_def guardian_settles_def guardian_proceeds_def guardian_round_def
  reconcile_lost_supervisor_after_guardian_def reconcile_lost_supervisor_locked_def try_lock_reconciliation_def
  record_cancellation_drained_def record_durable_create_once_marker_def escalation_signal_def CANCEL_GRACE_ms_def
  running_exit_mode_def apply_cancellation_metadata_def cancellation_terminal_status_def signal_to_shell_rc_def

lemma guarded_run:
  "\<exists>g w'. guardian_loop False (Suc (Suc 0)) (guardian_state False) guarded_world = (Done g, w') \<and>
     sent_signals g = [SIGTERM] \<and> held_transfer g = None"
  by (simp add: guardian_run_simps Let_def)

theorem guardian_leaves_settled_witness:
  "\<exists>g w' m. guardian_loop False 2 (guardian_state False) guarded_world = (Done g, w') \<and> sent_signals g = [SIGTERM] \<and>
     adopted_tree_empty g \<and> files w' (F MetaFile) = Some (Regular (Doc m)) \<and> (terminal m \<or> \<not> running_exit_mode m)"
proof -
  obtain g w' where run: "guardian_loop False 2 (guardian_state False) guarded_world = (Done g, w')" "sent_signals g = [SIGTERM]"
    using guarded_run unfolding numeral_2_eq_2 by blast
  have "lookups_reliable (env guarded_world)" "files guarded_world REGISTRATION = None"
    "files guarded_world (F MetaFile) = Some (Regular (Doc bare_meta))"
    "terminal bare_meta \<longrightarrow> files guarded_world (F Rc) = rc_node bare_meta"
    by (simp_all add: guarded_world_def quiet_env_def quiet_world_def lookups_reliable_def REGISTRATION_def
        bare_meta_def meta_new_def terminal_def)
  from guardian_leaves_settled [OF run(1) this] run show ?thesis by blast
qed

end
