(* ===== verification/Bounded_Waits.thy ===== *)
theory Bounded_Waits
  imports Publication
begin

section \<open>Waits with a deadline end\<close>

text \<open>
  Two operations poll until a deadline: taking the custody lock (\<^verbatim>\<open>state.rs\<close>, 250 ms) and waiting for a
  supervisor's first metadata (\<^verbatim>\<open>supervisor.rs\<close>, 5 s). Their model takes fuel. Here the fuel is shown to be
  enough: in every environment whose clock passes every instant, and whatever errors the calls
  meet, some amount of fuel makes them return, and every larger amount as well.
\<close>

definition never_stops :: "environment \<Rightarrow> bool" where
  "never_stops en \<longleftrightarrow> (\<forall>t. faults en t \<noteq> Stop \<and> lookup_faults en t \<noteq> Stop)"

definition time_passes :: "environment \<Rightarrow> bool" where
  "time_passes en \<longleftrightarrow> (\<forall>d. \<exists>late. \<forall>t\<ge>late. d \<le> clock en t)"

definition with_patience :: "nat \<Rightarrow> world \<Rightarrow> world" where
  "with_patience p w = w\<lparr>env := (env w)\<lparr>patience := p\<rparr>\<rparr>"

named_theorems progress_rules "operations that return and only move the schedule forward"

definition progresses :: "'a io \<Rightarrow> bool" where
  "progresses m \<longleftrightarrow> (\<forall>w. never_stops (env w) \<longrightarrow>
     fst (m w) \<noteq> Halted \<and> env (snd (m w)) = env w \<and> tick w \<le> tick (snd (m w)))"

lemma progressesD:
  assumes "progresses m" and "m w = (r, w')" and "never_stops (env w)"
  shows "r \<noteq> Halted" and "env w' = env w" and "tick w \<le> tick w'"
  using assms by (force simp: progresses_def)+

lemma progresses_handle_err [progress_rules]:
  assumes "progresses m" and "\<And>e. progresses (h e)" and "\<And>a. progresses (f a)"
  shows "progresses (handle_err m h f)"
  unfolding progresses_def
proof (intro allI impI)
  fix w :: world assume n: "never_stops (env w)"
  obtain r w' where m: "m w = (r, w')" by (cases "m w")
  note p = progressesD [OF assms(1) m n]
  have "fst (k w') \<noteq> Halted \<and> env (snd (k w')) = env w \<and> tick w \<le> tick (snd (k w'))" if "progresses k" for k :: "'b io"
    using progressesD [OF that surjective_pairing, of w'] n p by simp
  then show "fst (handle_err m h f w) \<noteq> Halted \<and> env (snd (handle_err m h f w)) = env w \<and>
      tick w \<le> tick (snd (handle_err m h f w))"
    using p(1) assms(2,3) by (cases r) (simp_all add: handle_err_def m)
qed

lemma progresses_ret [progress_rules]: "progresses (ret a)" "progresses (raise e)" "progresses (ask q)"
  "progresses (lookup_file f)" "progresses (set_file f n)"
  by (simp_all add: progresses_def ret_def raise_def ask_def lookup_file_def set_file_def next_tick_def)

lemma bind_handle_err: "bind m f = handle_err m raise f"
  by (rule ext) (simp add: bind_def handle_err_def raise_def cong: prod.case_cong outcome.case_cong)

lemma progresses_bind [progress_rules]: "progresses m \<Longrightarrow> (\<And>a. progresses (f a)) \<Longrightarrow> progresses (bind m f)"
  unfolding bind_handle_err by (intro progress_rules)

lemma progresses_if [progress_rules]: "progresses m \<Longrightarrow> progresses n \<Longrightarrow> progresses (if b then m else n)"
  by simp

lemma progresses_in_dir [progress_rules]: "progresses m \<Longrightarrow> progresses (in_dir m)"
  by (simp add: progresses_def in_dir_def)

lemma progresses_sys_by:
  assumes "progresses m" and "\<And>en t. never_stops en \<Longrightarrow> schedule en t \<noteq> Stop"
  shows "progresses (sys_by schedule m)"
  unfolding progresses_def
proof (intro allI impI)
  fix w :: world assume n: "never_stops (env w)"
  have "env (next_tick w) = env w" "tick w \<le> tick (next_tick w)" by (simp_all add: next_tick_def)
  with progressesD [OF assms(1) surjective_pairing, of "next_tick w"] assms(2) [OF n, of "tick w"] n
  show "fst (sys_by schedule m w) \<noteq> Halted \<and> env (snd (sys_by schedule m w)) = env w \<and> tick w \<le> tick (snd (sys_by schedule m w))"
    by (auto simp: sys_by_def split: fault.split)
qed

lemma progresses_sys [progress_rules]: "progresses m \<Longrightarrow> progresses (sys m)"
  unfolding sys_def by (rule progresses_sys_by) (simp_all add: never_stops_def)

lemma progresses_calls [progress_rules]:
  "progresses (sys_lstat f)" "progresses (sys_create_new f)" "progresses (sys_open_create f)" "progresses (sys_open_read f)"
  "progresses (sys_unlink f)" "progresses sys_open_dir" "progresses sys_sync" "progresses current_boot_id"
proof -
  show "progresses (sys_lstat f)"
    unfolding sys_lstat_def
    by (rule progresses_sys_by) (auto simp: never_stops_def split: option.split intro!: progress_rules)
qed (auto simp: sys_create_new_def sys_open_create_def sys_open_read_def sys_unlink_def sys_open_dir_def sys_sync_def
    current_boot_id_def split: option.split node.split intro!: progress_rules)

lemma progresses_store [progress_rules]:
  "progresses read_meta" "progresses (read_file_text f)" "progresses (durable_marker_exists f)"
  "progresses (rollback_created_marker f)" "progresses (record_durable_create_once_marker f)"
  by (auto simp: read_meta_def read_file_text_def text_of_def durable_marker_exists_def rollback_created_marker_def
      record_durable_create_once_marker_def split: content.split node.split intro!: progress_rules)

subsection \<open>Polling against a deadline\<close>

locale polling =
  fixes poll :: "nat \<Rightarrow> nat \<Rightarrow> 'a io"
  assumes retries: "never_stops (env w) \<Longrightarrow> fst (poll (Suc n) d w) \<noteq> Halted \<or>
    (\<exists>w'. env w' = env w \<and> tick w < tick w' \<and> clock (env w) (tick w' - 1) < d \<and> poll (Suc n) d w = poll n d w')"
begin

lemma poll_ends:
  "never_stops (env w) \<Longrightarrow> \<forall>t\<ge>late. d \<le> clock (env w) t \<Longrightarrow> 0 < n \<Longrightarrow> late < tick w + n \<Longrightarrow> fst (poll n d w) \<noteq> Halted"
proof (induction n arbitrary: w)
  case (Suc n)
  from retries [OF Suc.prems(1), of n d] show ?case
  proof (elim disjE exE conjE)
    fix w' assume w': "env w' = env w" "tick w < tick w'" "clock (env w) (tick w' - 1) < d" "poll (Suc n) d w = poll n d w'"
    from w'(3) Suc.prems(2) have "tick w' - 1 < late" by (metis not_le)
    with w' Suc.IH [of w'] Suc.prems show ?thesis by auto
  qed
qed simp

lemma patient_poll_ends:
  assumes "never_stops (env w)" and "time_passes (env w)"
  obtains n where "\<And>p. n \<le> p \<Longrightarrow> fst (poll p d (with_patience p w)) \<noteq> Halted"
proof -
  obtain late where "\<forall>t\<ge>late. d \<le> clock (env w) t" using assms(2) by (auto simp: time_passes_def)
  then have "fst (poll p d (with_patience p w)) \<noteq> Halted" if "Suc late \<le> p" for p
    by (intro poll_ends [where late = late]) (use assms(1) that in \<open>auto simp: with_patience_def never_stops_def\<close>)
  then show ?thesis by (rule that)
qed

end

interpretation custody: polling custody_poll
proof
  fix w :: world and n d assume "never_stops (env w)"
  then show "fst (custody_poll (Suc n) d w) \<noteq> Halted \<or>
    (\<exists>w'. env w' = env w \<and> tick w < tick w' \<and> clock (env w) (tick w' - 1) < d \<and> custody_poll (Suc n) d w = custody_poll n d w')"
    by (auto simp: handle_err_def sys_sync_def sys_def sys_by_def never_stops_def ret_def raise_def bind_def ask_def
        next_tick_def split: fault.split intro!: exI [of _ "w\<lparr>tick := Suc (Suc (tick w))\<rparr>"])
qed

interpretation metadata: polling wait_metadata_loop
proof
  fix w :: world and n d assume n: "never_stops (env w)"
  obtain r w1 where m: "read_meta w = (r, w1)" by (cases "read_meta w")
  from progressesD [OF progresses_store(1) m n]
  show "fst (wait_metadata_loop (Suc n) d w) \<noteq> Halted \<or>
    (\<exists>w'. env w' = env w \<and> tick w < tick w' \<and> clock (env w) (tick w' - 1) < d \<and> wait_metadata_loop (Suc n) d w = wait_metadata_loop n d w')"
    by (cases r) (auto simp: m bind_def ret_def ask_def next_tick_def intro!: exI [of _ "w1\<lparr>tick := Suc (tick w1)\<rparr>"])
qed

subsection \<open>The operations that wait\<close>

lemma with_patience_simps [simp]:
  "env (with_patience p w) = (env w)\<lparr>patience := p\<rparr>" "tick (with_patience p w) = tick w"
  "files (with_patience p w) = files w" "dir_exists (with_patience p w) = dir_exists w"
  by (simp_all add: with_patience_def)

lemma never_stops_patience [simp]: "never_stops (en\<lparr>patience := p\<rparr>) = never_stops en"
  by (simp add: never_stops_def)

lemma next_tick_patience [simp]: "next_tick (with_patience p w) = with_patience p (next_tick w)"
  by (simp add: next_tick_def with_patience_def)

text \<open>Opening the lock file commutes with a change of the fuel.\<close>

lemma open_lock_patience:
  "sys_open_create f (with_patience p w) =
     (fst (sys_open_create f w), with_patience p (snd (sys_open_create f w)))"
  by (auto simp: sys_open_create_def sys_def sys_by_def in_dir_def bind_def lookup_file_def set_file_def ret_def raise_def
      next_tick_def with_patience_def split: fault.split option.split node.split)

lemma lock_custody_ends:
  assumes "never_stops (env w)" and "time_passes (env w)"
  obtains n where "\<And>p. n \<le> p \<Longrightarrow> fst (lock_custody (with_patience p w)) \<noteq> Halted"
proof -
  let ?o = "sys_open_create (F CustodyLock) w"
  let ?w = "next_tick (snd ?o)" and ?d = "clock (env w) (tick (snd ?o)) + 250"
  note o = progressesD [OF progresses_calls(3) surjective_pairing assms(1), of "F CustodyLock"]
  have "never_stops (env ?w)" "time_passes (env ?w)" using assms o(2) by (simp_all add: next_tick_def)
  then obtain n where n: "\<And>p. n \<le> p \<Longrightarrow> fst (custody_poll p ?d (with_patience p ?w)) \<noteq> Halted"
    by (rule custody.patient_poll_ends) blast
  have "lock_custody (with_patience p w) =
      (case fst ?o of Done _ \<Rightarrow> custody_poll p ?d (with_patience p ?w)
       | Raise e \<Rightarrow> (Raise e, with_patience p (snd ?o)) | Halted \<Rightarrow> (Halted, with_patience p (snd ?o)))" for p
    using o(2) by (auto simp: lock_custody_def bind_def open_lock_patience ask_def split: outcome.split)
  with n o(1) have "fst (lock_custody (with_patience p w)) \<noteq> Halted" if "n \<le> p" for p
    using that by (auto split: outcome.split)
  then show ?thesis by (rule that)
qed

lemma custody_poll_env: "env (snd (custody_poll n d w)) = env w"
  by (induction n arbitrary: w)
    (auto simp: handle_err_def sys_sync_def sys_def sys_by_def ret_def raise_def bind_def ask_def next_tick_def
      split: fault.split)

lemma lock_custody_env:
  assumes "never_stops (env w)"
  shows "env (snd (lock_custody w)) = env w"
proof -
  obtain r w1 where o: "sys_open_create (F CustodyLock) w = (r, w1)" by (cases "sys_open_create (F CustodyLock) w")
  from progressesD(2) [OF progresses_calls(3) o assms] show ?thesis
    by (auto simp: lock_custody_def bind_def o ask_def next_tick_def custody_poll_env split: outcome.split)
qed

lemma locked_returns:
  assumes "fst (lock_custody w) \<noteq> Halted" and "never_stops (env w)"
    and "\<And>e. progresses (h e)" and "\<And>a. progresses (f a)"
  shows "fst (handle_err lock_custody h f w) \<noteq> Halted"
proof -
  obtain r w1 where l: "lock_custody w = (r, w1)" by (cases "lock_custody w")
  have n: "never_stops (env w1)" using lock_custody_env [OF assms(2)] assms(2) by (simp add: l)
  show ?thesis
    using assms(1) progressesD(1) [OF assms(3) surjective_pairing n] progressesD(1) [OF assms(4) surjective_pairing n]
    by (cases r) (auto simp: handle_err_def l)
qed

text \<open>
  C23. Waits with a deadline end. In every environment that does not kill the process and whose
  clock passes every instant, whatever other errors the calls meet, there is an amount of fuel from
  which on giving up physical custody, admitting a terminal cancellation and waiting for a
  supervisor's metadata all return: the loops of these operations end, and the fuel of their model is
  not what ends them.
\<close>

theorem bounded_waits_return:
  assumes "never_stops (env w)" and "time_passes (env w)"
  shows "\<exists>n. \<forall>p. n \<le> p \<longrightarrow> fst (end_physical_custody (with_patience p w)) \<noteq> Halted \<and>
     fst (accept_terminal_custody_cancel (with_patience p w)) \<noteq> Halted \<and>
     fst (wait_for_supervisor_metadata (with_patience p w)) \<noteq> Halted"
proof -
  obtain n where n: "\<And>p. n \<le> p \<Longrightarrow> fst (lock_custody (with_patience p w)) \<noteq> Halted"
    using lock_custody_ends [OF assms] by blast
  let ?d = "clock (env w) (tick w) + SUPERVISOR_METADATA_WAIT_ms"
  have "never_stops (env (next_tick w))" "time_passes (env (next_tick w))" using assms by (simp_all add: next_tick_def)
  then obtain k where k: "\<And>p. k \<le> p \<Longrightarrow> fst (wait_metadata_loop p ?d (with_patience p (next_tick w))) \<noteq> Halted"
    by (rule metadata.patient_poll_ends) blast
  have env: "never_stops (env (with_patience p w))" for p using assms(1) by simp
  have "fst (end_physical_custody (with_patience p w)) \<noteq> Halted" if "n \<le> p" for p
    unfolding end_physical_custody_def record_cancellation_drained_def
    by (rule locked_returns [OF n [OF that] env]) (intro progress_rules)+
  moreover have "fst (accept_terminal_custody_cancel (with_patience p w)) \<noteq> Halted" if "n \<le> p" for p
    unfolding accept_terminal_custody_cancel_def bind_handle_err [of lock_custody] record_explicit_cancel_acceptance_def
    by (rule locked_returns [OF n [OF that] env]) (intro progress_rules)+
  moreover have "fst (wait_for_supervisor_metadata (with_patience p w)) \<noteq> Halted" if "k \<le> p" for p
    using k [OF that] by (simp add: wait_for_supervisor_metadata_def bind_def ask_def)
  ultimately show ?thesis by (intro exI [of _ "max n k"]) auto
qed

text \<open>The lock file opens, and from then on the lock is held by another process for ever.\<close>

definition contended_world :: world where
  "contended_world = quiet_world\<lparr>env := quiet_env\<lparr>faults := (\<lambda>t. if t = 0 then Proceed else Fail (io_new WouldBlock []))\<rparr>\<rparr>"

theorem bounded_waits_return_witness:
  "\<exists>n. \<forall>p. n \<le> p \<longrightarrow> fst (end_physical_custody (with_patience p contended_world)) \<noteq> Halted"
proof -
  have "never_stops (env contended_world)" "time_passes (env contended_world)"
    by (auto simp: never_stops_def time_passes_def contended_world_def quiet_world_def quiet_env_def)
  from bounded_waits_return [OF this] show ?thesis by blast
qed

end
