(* ===== verification/Delivery_Role.thy ===== *)
theory Delivery_Role
  imports Prelude
begin

section \<open>The delivery role\<close>

text \<open>
  \<^verbatim>\<open>src/src/delivery_role.rs\<close>: one word of memory shared by the supervisor and the guardian names the process
  that keeps the descendants of a completion helper (the custodian). It is published before the
  helper may run and retired before the custodian's process id can be reused. Cancellation, which
  signals every descendant of the supervisor, asks the word which process to leave alone.

  The operations are atomic accesses to the word, as in the source; \<open>before_reap\<close> loads it and
  compares and exchanges it later, so its two halves are separate steps. \<open>role_step\<close> interleaves
  them with the lives of the custodian, of children that were never admitted, and of the role's
  descendants.
\<close>

subsection \<open>The shared word and its operations\<close>

record role =
  role_pid :: int
  challenge :: "64 word"
  acknowledged :: "64 word"

definition UNKNOWN :: int where "UNKNOWN = - 1"

definition initialize :: role where
  "initialize = \<lparr>role_pid = 0, challenge = 0, acknowledged = 0\<rparr>"

text \<open>\<^verbatim>\<open>compare_exchange\<close> on the slot: the exchanged role, or the value found.\<close>

definition compare_exchange :: "int \<Rightarrow> int \<Rightarrow> role \<Rightarrow> int + role" where
  "compare_exchange old new r = (if role_pid r = old then Inr (r\<lparr>role_pid := new\<rparr>) else Inl (role_pid r))"

definition exchanged :: "int \<Rightarrow> int \<Rightarrow> role \<Rightarrow> role" where
  "exchanged old new r = (case compare_exchange old new r of Inr r' \<Rightarrow> r' | Inl _ \<Rightarrow> r)"

definition pending :: "role \<Rightarrow> bool" where
  "pending r \<longleftrightarrow> role_pid r \<noteq> 0"

definition publish :: "pid \<Rightarrow> role \<Rightarrow> io_error + role" where
  "publish p r =
     (case compare_exchange 0 p r of
        Inr r' \<Rightarrow> Inr r'
      | Inl _ \<Rightarrow> Inl (io_other ''delivery role still owns responsibility''))"

text \<open>Called by the custodian \<open>p\<close> itself.\<close>

definition drained :: "pid \<Rightarrow> role \<Rightarrow> role" where
  "drained p r = exchanged p (- p) r"

definition retired_slot :: "int \<Rightarrow> pid \<Rightarrow> int" where
  "retired_slot v p = (if v = p then UNKNOWN else if v = - p then 0 else v)"

text \<open>The second half of \<^verbatim>\<open>before_reap\<close>, with the value its first half loaded.\<close>

definition retire_loaded :: "int \<Rightarrow> pid \<Rightarrow> role \<Rightarrow> role" where
  "retire_loaded v p r = (if retired_slot v p \<noteq> v then exchanged v (retired_slot v p) r else r)"

definition before_reap :: "pid \<Rightarrow> role \<Rightarrow> role" where
  "before_reap p r = retire_loaded (role_pid r) p r"

definition guardian_tree_drained :: "role \<Rightarrow> role" where
  "guardian_tree_drained r = exchanged UNKNOWN 0 r"

definition acknowledge_containment :: "role \<Rightarrow> role" where
  "acknowledge_containment r = r\<lparr>acknowledged := challenge r\<rparr>"

text \<open>
  \<^verbatim>\<open>exclusion\<close>: which process a signalling pass must leave alone. The answers of \<^verbatim>\<open>pidfd_open\<close> and of
  \<^verbatim>\<open>poll\<close> on the descriptor are arguments.
\<close>

definition exclusion :: "io_error + unit \<Rightarrow> int \<Rightarrow> role \<Rightarrow> io_error + pid option" where
  "exclusion opened polled r =
     (let v = role_pid r
      in if v = 0 then Inr None
         else if v = UNKNOWN then Inl (io_other ''delivery custodian lost; role unknown'')
         else if v < UNKNOWN then Inr None
         else case opened of
                Inl e \<Rightarrow> Inl e
              | Inr _ \<Rightarrow> if polled \<noteq> 0
                         then Inl (io_other ''delivery custodian not live; retain role responsibility'')
                         else Inr (Some v))"

text \<open>
  \<^verbatim>\<open>confirm_role\<close>: a fresh challenge, then polls of the shared memory until it is answered, the role
  changes hands or 100 milliseconds pass. The memory and the clock at each poll are the argument;
  running out of polls stands for a poll that has not happened yet. The challenge is drawn by a
  checked addition and never reused.
\<close>

definition CONFIRM_TIMEOUT_ms :: nat where "CONFIRM_TIMEOUT_ms = 100"

definition draw_challenge :: "role \<Rightarrow> (64 word \<times> role) option" where
  "draw_challenge r = (if challenge r = - 1 then None else Some (challenge r + 1, r\<lparr>challenge := challenge r + 1\<rparr>))"

fun confirm_loop :: "pid \<Rightarrow> 64 word \<Rightarrow> nat \<Rightarrow> (role \<times> nat) list \<Rightarrow> bool" where
  "confirm_loop p c deadline [] = False"
| "confirm_loop p c deadline ((r, now) # rest) =
     (if role_pid r \<noteq> p then False
      else if acknowledged r = c then True
      else if now \<ge> deadline then False
      else confirm_loop p c deadline rest)"

definition confirm_role :: "pid \<Rightarrow> role \<Rightarrow> nat \<Rightarrow> (role \<times> nat) list \<Rightarrow> bool" where
  "confirm_role p r start polls =
     (if role_pid r \<noteq> p then False
      else case draw_challenge r of
             None \<Rightarrow> False
           | Some (c, _) \<Rightarrow> confirm_loop p c (start + CONFIRM_TIMEOUT_ms) polls)"

subsection \<open>Interleaving with the processes\<close>

text \<open>
  A custodian is forked and waits at its gate; it is admitted once its pid is published; it ends
  with or without having certified that its descendants are gone. The waitable remains of a
  process keep its pid until the reaper frees it. \<open>helpers\<close> says that descendants of a
  custodian, living or dead, may exist. The reaper holds the value it loaded for the pid it is
  about to free.
\<close>

datatype phase = Gated | Admitted | Certified | Ended

record system =
  shared :: role
  custodians :: "pid \<rightharpoonup> phase"
  helpers :: bool
  reaping :: "(pid \<times> int) option"

definition start_system :: system where
  "start_system = \<lparr>shared = initialize, custodians = Map.empty, helpers = False, reaping = None\<rparr>"

text \<open>
  Pids are greater than one and a forked child never has the pid of a process that still has
  one, a waitable one included. Only a custodian that sees no children (\<^verbatim>\<open>ECHILD\<close>) certifies; a gated child that reads the end
  of its gate calls \<^verbatim>\<open>drained\<close> as well, having run nothing. A custodian may be killed in any phase. The
  guardian clears the unknown state when the supervisor and every descendant are gone.
\<close>

inductive role_step :: "system \<Rightarrow> system \<Rightarrow> bool" where
  forks: "1 < p \<Longrightarrow> custodians s p = None \<Longrightarrow> (\<forall>v. reaping s \<noteq> Some (p, v)) \<Longrightarrow>
     role_step s (s\<lparr>custodians := (custodians s)(p \<mapsto> Gated)\<rparr>)"
| admits: "custodians s p = Some Gated \<Longrightarrow> publish p (shared s) = Inr r \<Longrightarrow>
     role_step s (s\<lparr>shared := r, custodians := (custodians s)(p \<mapsto> Admitted)\<rparr>)"
| refuses: "custodians s p = Some Gated \<Longrightarrow>
     role_step s (s\<lparr>shared := drained p (shared s), custodians := (custodians s)(p \<mapsto> Ended)\<rparr>)"
| spawns: "custodians s p = Some Admitted \<Longrightarrow> role_step s (s\<lparr>helpers := True\<rparr>)"
| answers: "custodians s p = Some Admitted \<Longrightarrow>
     role_step s (s\<lparr>shared := acknowledge_containment (shared s)\<rparr>)"
| helpers_end: "role_step s (s\<lparr>helpers := False\<rparr>)"
| certifies: "custodians s p = Some Admitted \<Longrightarrow> \<not> helpers s \<Longrightarrow>
     role_step s (s\<lparr>shared := drained p (shared s), custodians := (custodians s)(p \<mapsto> Certified)\<rparr>)"
| ends: "custodians s p = Some ph \<Longrightarrow> role_step s (s\<lparr>custodians := (custodians s)(p \<mapsto> Ended)\<rparr>)"
| challenges: "draw_challenge (shared s) = Some (c, r) \<Longrightarrow> role_step s (s\<lparr>shared := r\<rparr>)"
| reaper_loads: "custodians s p = Some Ended \<Longrightarrow> reaping s = None \<Longrightarrow>
     role_step s (s\<lparr>reaping := Some (p, role_pid (shared s))\<rparr>)"
| reaper_frees: "reaping s = Some (p, v) \<Longrightarrow>
     role_step s (s\<lparr>shared := retire_loaded v p (shared s), custodians := (custodians s)(p := None), reaping := None\<rparr>)"
| workload_reaped: "1 < p \<Longrightarrow> custodians s p = None \<Longrightarrow> reaping s = None \<Longrightarrow>
     role_step s (s\<lparr>reaping := Some (p, role_pid (shared s))\<rparr>)"
| tree_drained: "\<not> helpers s \<Longrightarrow> (\<forall>p. custodians s p = None) \<Longrightarrow>
     role_step s (s\<lparr>shared := guardian_tree_drained (shared s)\<rparr>)"


subsection \<open>The word as a value\<close>

text \<open>
  The word as a value of four cases, and the operations on it. The encoding is a bijection on
  the words whose custodian has a pid above one.
\<close>

datatype holder = Clear | Lost | Holds pid | Certificate pid

definition holder_of :: "int \<Rightarrow> holder" where
  "holder_of v = (if v = 0 then Clear else if v = UNKNOWN then Lost else if 0 < v then Holds v else Certificate (- v))"

definition retired :: "pid \<Rightarrow> holder \<Rightarrow> holder" where
  "retired p h = (if h = Holds p then Lost else if h = Certificate p then Clear else h)"

lemmas word_defs =
  compare_exchange_def exchanged_def publish_def drained_def retired_slot_def retire_loaded_def
  guardian_tree_drained_def acknowledge_containment_def draw_challenge_def holder_of_def UNKNOWN_def

lemma holder_of_inj: "holder_of v = holder_of u \<longleftrightarrow> v = u"
  by (auto simp: holder_of_def UNKNOWN_def split: if_splits)

lemma holder_of_zero [simp]: "holder_of 0 = Clear"
  by (simp add: holder_of_def)

lemma holder_of_pid: "1 < p \<Longrightarrow> holder_of p = Holds p" "1 < p \<Longrightarrow> holder_of (- p) = Certificate p"
  by (auto simp: holder_of_def UNKNOWN_def)

lemma holder_publish:
  "1 < p \<Longrightarrow> publish p r = Inr r' \<longleftrightarrow> holder_of (role_pid r) = Clear \<and> r' = r\<lparr>role_pid := p\<rparr>"
  by (auto simp: word_defs split: if_splits)

lemma holder_drained:
  "1 < p \<Longrightarrow> holder_of (role_pid (drained p r)) =
     (if holder_of (role_pid r) = Holds p then Certificate p else holder_of (role_pid r))"
  by (auto simp: word_defs split: if_splits)

lemma holder_retired: "1 < p \<Longrightarrow> holder_of (retired_slot v p) = retired p (holder_of v)"
  by (auto simp: word_defs retired_def split: if_splits)

lemma holder_retire_loaded:
  "1 < p \<Longrightarrow> holder_of (role_pid (retire_loaded v p r)) =
     (if role_pid r = v then retired p (holder_of v) else holder_of (role_pid r))"
  unfolding retire_loaded_def exchanged_def compare_exchange_def
  by (auto simp: holder_retired [symmetric])

lemma holder_guardian:
  "holder_of (role_pid (guardian_tree_drained r)) =
     (if holder_of (role_pid r) = Lost then Clear else holder_of (role_pid r))"
  by (auto simp: word_defs split: if_splits)

subsection \<open>The invariant\<close>

text \<open>
  What the holder means, given the custodians and whether helpers may exist: nobody is responsible
  and there are no helpers; responsibility was lost; the admitted or dead custodian is
  responsible; or a custodian certified and there are no helpers. What the reaper loaded is still
  in the word, or neither names the process it frees.
\<close>

definition none_admitted :: "(pid \<rightharpoonup> phase) \<Rightarrow> bool" where
  "none_admitted cs \<longleftrightarrow> (\<forall>q. cs q \<noteq> Some Admitted)"

fun holder_ok :: "(pid \<rightharpoonup> phase) \<Rightarrow> bool \<Rightarrow> holder \<Rightarrow> bool" where
  "holder_ok cs h Clear \<longleftrightarrow> \<not> h \<and> none_admitted cs"
| "holder_ok cs h Lost \<longleftrightarrow> none_admitted cs"
| "holder_ok cs h (Holds p) \<longleftrightarrow>
     (cs p = Some Admitted \<or> cs p = Some Ended) \<and> (\<forall>q. cs q = Some Admitted \<longrightarrow> q = p)"
| "holder_ok cs h (Certificate p) \<longleftrightarrow>
     (cs p = Some Certified \<or> cs p = Some Ended) \<and> \<not> h \<and> none_admitted cs"

fun involves :: "holder \<Rightarrow> pid \<Rightarrow> bool" where
  "involves (Holds q) p \<longleftrightarrow> q = p"
| "involves (Certificate q) p \<longleftrightarrow> q = p"
| "involves _ p \<longleftrightarrow> False"

fun reaper_ok :: "(pid \<rightharpoonup> phase) \<Rightarrow> holder \<Rightarrow> (pid \<times> int) option \<Rightarrow> bool" where
  "reaper_ok cs h None \<longleftrightarrow> True"
| "reaper_ok cs h (Some (p, x)) \<longleftrightarrow>
     1 < p \<and> (cs p = Some Ended \<or> cs p = None) \<and> (holder_of x = h \<or> \<not> involves h p \<and> \<not> involves (holder_of x) p)"

definition role_inv :: "system \<Rightarrow> bool" where
  "role_inv s \<longleftrightarrow>
     (\<forall>p ph. custodians s p = Some ph \<longrightarrow> 1 < p) \<and>
     holder_ok (custodians s) (helpers s) (holder_of (role_pid (shared s))) \<and>
     reaper_ok (custodians s) (holder_of (role_pid (shared s))) (reaping s)"


lemma holder_update_other:
  assumes "holder_ok cs a h" and "\<not> involves h p" and "x \<noteq> Some Admitted"
  shows "holder_ok (cs(p := x)) a h"
  using assms by (cases h) (simp_all add: none_admitted_def)

lemma holder_involves:
  "holder_ok cs a h \<Longrightarrow> involves h p \<Longrightarrow> cs p = Some Admitted \<or> cs p = Some Ended \<or> cs p = Some Certified"
  by (cases h) auto

lemma holder_end: "holder_ok cs a h \<Longrightarrow> holder_ok (cs(p \<mapsto> Ended)) a h"
  by (cases h) (fastforce simp: none_admitted_def)+

lemma holder_admit: "holder_ok cs a Clear \<Longrightarrow> holder_ok (cs(p \<mapsto> Admitted)) a (Holds p)"
  by (simp add: none_admitted_def)

lemma holder_admitted: "holder_ok cs a h \<Longrightarrow> cs p = Some Admitted \<Longrightarrow> h = Holds p"
  by (cases h) (auto simp: none_admitted_def)

lemma holder_certify: "holder_ok cs False (Holds p) \<Longrightarrow> holder_ok (cs(p \<mapsto> Certified)) False (Certificate p)"
  by (auto simp: none_admitted_def)

lemma holder_free:
  "holder_ok cs a h \<Longrightarrow> cs p = Some Ended \<or> cs p = None \<Longrightarrow> holder_ok (cs(p := None)) a (retired p h)"
  by (cases h) (auto simp: none_admitted_def retired_def)

lemma reaper_update:
  "reaper_ok cs h r \<Longrightarrow> (\<And>x. r = Some (p, x) \<Longrightarrow> n = Some Ended \<or> n = None) \<Longrightarrow> reaper_ok (cs(p := n)) h r"
  by (cases r) (auto split: prod.splits)

lemma reaper_change:
  assumes "reaper_ok cs h r" and "\<And>q x. r = Some (q, x) \<Longrightarrow> \<not> involves h q \<and> \<not> involves h' q"
  shows "reaper_ok cs h' r"
proof (cases r)
  case (Some y)
  then show ?thesis using assms by (cases y) auto
qed simp

lemma reaper_not: "reaper_ok cs h (Some (q, x)) \<Longrightarrow> cs q = Some Ended \<or> cs q = None"
  by simp

lemma role_inv_start: "role_inv start_system"
  by (auto simp: role_inv_def start_system_def initialize_def none_admitted_def)

lemma role_inv_step:
  assumes "role_step s s'" and "role_inv s"
  shows "role_inv s'"
proof -
  let ?h = "holder_of (role_pid (shared s))" and ?cs = "custodians s"
  have pids: "?cs p = Some ph \<Longrightarrow> 1 < p" for p ph using assms(2) by (auto simp: role_inv_def)
  have w: "holder_ok ?cs (helpers s) ?h" and r: "reaper_ok ?cs ?h (reaping s)"
    using assms(2) by (simp_all add: role_inv_def)
  show ?thesis
    using assms(1)
  proof cases
    case (forks p)
    have "\<not> involves ?h p" using holder_involves [OF w, of p] forks(3) by auto
    from holder_update_other [OF w this] reaper_update [OF r, of p "Some Gated"] forks(2,4) show ?thesis
      unfolding forks(1) role_inv_def by (simp add:  del: holder_ok.simps reaper_ok.simps) (blast intro: pids)
  next
    case (admits p sh)
    from pids [OF admits(2)] have p: "1 < p" .
    from admits p have h: "?h = Clear" "sh = shared s\<lparr>role_pid := p\<rparr>" by (simp_all add: holder_publish)
    have "reaping s \<noteq> Some (p, x)" for x using r admits(2) by auto
    then have rp: "reaper_ok (?cs(p \<mapsto> Admitted)) (Holds p) (reaping s)"
      by (intro reaper_update reaper_change [OF r]) (use h in auto)
    have "holder_ok (?cs(p \<mapsto> Admitted)) (helpers s) (Holds p)" using w h(1) by (intro holder_admit) simp
    with rp p show ?thesis
      unfolding admits(1) role_inv_def by (simp add: h(2) holder_of_pid del: holder_ok.simps) (blast intro: pids)
  next
    case (refuses p)
    have "?h \<noteq> Holds p" using holder_involves [OF w, of p] refuses(2) by auto
    with holder_end [OF w, of p] reaper_update [OF r, of p "Some Ended"] pids [OF refuses(2)] show ?thesis
      unfolding refuses(1) role_inv_def by (simp add: holder_drained del: holder_ok.simps reaper_ok.simps) (blast intro: pids)
  next
    case (spawns p)
    from holder_admitted [OF w spawns(2)] w r show ?thesis
      unfolding spawns(1) role_inv_def by (simp del: reaper_ok.simps) (blast intro: pids)
  next
    case helpers_end
    then show ?thesis using w r pids by (cases ?h) (auto simp: role_inv_def)
  next
    case (certifies p)
    from holder_admitted [OF w certifies(2)] have h: "?h = Holds p" .
    have "reaping s \<noteq> Some (p, x)" for x using r certifies(2) by auto
    then have rp: "reaper_ok (?cs(p \<mapsto> Certified)) (Certificate p) (reaping s)"
      by (intro reaper_update reaper_change [OF r]) (use h in auto)
    have "holder_ok (?cs(p \<mapsto> Certified)) False (Certificate p)"
      using w certifies(3) h by (intro holder_certify) simp
    with rp h certifies(3) pids [OF certifies(2)] show ?thesis
      unfolding certifies(1) role_inv_def by (simp add: holder_drained del: holder_ok.simps reaper_ok.simps) (blast intro: pids)
  next
    case (ends p ph)
    from holder_end [OF w, of p] reaper_update [OF r, of p "Some Ended"] pids [OF ends(2)] show ?thesis
      unfolding ends(1) role_inv_def by (simp add:  del: holder_ok.simps reaper_ok.simps) (blast intro: pids)
  next
    case (reaper_loads p)
    then show ?thesis using w pids by (auto simp: role_inv_def)
  next
    case (reaper_frees p v)
    from r reaper_frees(2) have p: "1 < p" "?cs p = Some Ended \<or> ?cs p = None"
      and x: "holder_of v = ?h \<or> \<not> involves ?h p \<and> \<not> involves (holder_of v) p" by auto
    have "holder_of (role_pid (retire_loaded v p (shared s))) = retired p ?h"
      using x [unfolded holder_of_inj] by (cases ?h) (auto simp: holder_retire_loaded [OF p(1)] retired_def)
    with holder_free [OF w p(2)] show ?thesis
      unfolding reaper_frees(1) role_inv_def by (simp del: holder_ok.simps) (blast intro: pids)
  next
    case (workload_reaped p)
    then show ?thesis using w pids by (auto simp: role_inv_def)
  next
    case tree_drained
    have "holder_ok ?cs (helpers s) (if ?h = Lost then Clear else ?h)" using w tree_drained(2) by auto
    moreover have "reaper_ok ?cs (if ?h = Lost then Clear else ?h) (reaping s)"
      using r by (auto intro: reaper_change)
    ultimately show ?thesis
      unfolding tree_drained(1) role_inv_def by (simp add: holder_guardian del: holder_ok.simps reaper_ok.simps) (blast intro: pids)
  qed (use w r pids in \<open>auto simp: role_inv_def acknowledge_containment_def draw_challenge_def split: if_splits\<close>)
qed

lemma role_inv_reachable: "role_step\<^sup>*\<^sup>* start_system s \<Longrightarrow> role_inv s"
  by (induction rule: rtranclp_induct) (auto intro: role_inv_start role_inv_step)

subsection \<open>Properties\<close>

text \<open>
  C31. Responsibility for helper descendants is never lost. In every interleaving of publications,
  certifications, deaths of custodians, reaping of custodians and of unrelated children (whose
  load and exchange of the word may be separated by other steps) and the guardian's proof that the
  tree is empty, \<open>exclusion\<close> answers that no process needs protection only when no helper
  descendant exists, and protects a process only if it is a custodian that has not been reaped.
\<close>

theorem exclusion_protects_helpers:
  assumes "role_step\<^sup>*\<^sup>* start_system s"
  shows "(exclusion opened polled (shared s) = Inr None \<longrightarrow> \<not> helpers s) \<and>
     (\<forall>p. exclusion opened polled (shared s) = Inr (Some p) \<longrightarrow>
        custodians s p = Some Admitted \<or> custodians s p = Some Ended)"
proof -
  have w: "holder_ok (custodians s) (helpers s) (holder_of (role_pid (shared s)))"
    using role_inv_reachable [OF assms] by (simp add: role_inv_def)
  then show ?thesis
    by (auto simp: exclusion_def holder_of_def UNKNOWN_def Let_def split: if_splits sum.splits)
qed

lemma confirm_loop_polled:
  "confirm_loop p c d polls \<Longrightarrow> \<exists>r now. (r, now) \<in> set polls \<and> role_pid r = p \<and> acknowledged r = c"
  by (induction p c d polls rule: confirm_loop.induct) (auto split: if_splits)

lemma word_less_Suc: "(x :: 64 word) \<noteq> - 1 \<Longrightarrow> x < x + 1"
proof -
  assume "x \<noteq> - 1"
  then have "1 + x \<noteq> 0" by (metis add_eq_0_iff)
  then show ?thesis by (simp add: word_less_nat_alt unatSuc add.commute)
qed

lemma acknowledged_behind:
  "role_step\<^sup>*\<^sup>* start_system s \<Longrightarrow> acknowledged (shared s) \<le> challenge (shared s)"
proof (induction rule: rtranclp_induct)
  case base
  then show ?case by (simp add: start_system_def initialize_def)
next
  case (step s t)
  from step(2) show ?case
  proof cases
    case (challenges c r)
    then have "challenge (shared s) < challenge (shared s) + 1"
      by (intro word_less_Suc) (auto simp: draw_challenge_def split: if_splits)
    with step(3) challenges show ?thesis by (auto simp: draw_challenge_def split: if_splits)
  qed (use step(3) in \<open>auto simp: word_defs split: if_splits\<close>)
qed

text \<open>
  A confirmation of containment is fresh: in every reachable state, \<open>confirm_role\<close> answers
  \<open>True\<close> only if the custodian held the role and a poll showed it still holding the role with a
  later acknowledgement than the one in memory when the challenge was drawn; an exhausted
  challenge counter is refused rather than reused.
\<close>

theorem confirmation_is_fresh:
  assumes "role_step\<^sup>*\<^sup>* start_system s" and "confirm_role p (shared s) start polls"
  shows "challenge (shared s) \<noteq> - 1 \<and> role_pid (shared s) = p \<and>
     (\<exists>r now. (r, now) \<in> set polls \<and> role_pid r = p \<and> acknowledged (shared s) < acknowledged r)"
proof -
  let ?r = "shared s"
  have c: "challenge ?r \<noteq> - 1" "role_pid ?r = p" and
    l: "confirm_loop p (challenge ?r + 1) (start + CONFIRM_TIMEOUT_ms) polls"
    using assms(2) by (auto simp: confirm_role_def draw_challenge_def split: if_splits)
  have "acknowledged ?r < challenge ?r + 1"
    using acknowledged_behind [OF assms(1)] word_less_Suc [OF c(1)] by order
  then show ?thesis using c confirm_loop_polled [OF l] by auto
qed

subsection \<open>Witnesses\<close>

text \<open>A custodian 42 is forked, admitted, spawns helpers and dies.\<close>

definition widowed :: system where
  "widowed = \<lparr>shared = initialize\<lparr>role_pid := 42\<rparr>, custodians = [42 \<mapsto> Ended], helpers = True, reaping = None\<rparr>"

lemma widowed_reachable: "role_step\<^sup>*\<^sup>* start_system widowed"
proof -
  let ?a = "start_system\<lparr>custodians := (custodians start_system)(42 \<mapsto> Gated)\<rparr>"
  let ?b = "?a\<lparr>shared := initialize\<lparr>role_pid := 42\<rparr>, custodians := (custodians ?a)(42 \<mapsto> Admitted)\<rparr>"
  let ?c = "?b\<lparr>helpers := True\<rparr>"
  have "role_step start_system ?a" by (rule role_step.forks) (simp_all add: start_system_def)
  moreover have "role_step ?a ?b"
    by (rule role_step.admits) (simp_all add: start_system_def publish_def compare_exchange_def initialize_def)
  moreover have "role_step ?b ?c" by (rule role_step.spawns [of _ 42]) simp
  moreover have "role_step ?c (?c\<lparr>custodians := (custodians ?c)(42 \<mapsto> Ended)\<rparr>)" by (rule role_step.ends [of _ 42]) simp
  moreover have "?c\<lparr>custodians := (custodians ?c)(42 \<mapsto> Ended)\<rparr> = widowed"
    by (simp add: widowed_def start_system_def)
  ultimately show ?thesis by (metis (no_types, lifting) rtranclp.rtrancl_into_rtrancl rtranclp.rtrancl_refl)
qed

theorem exclusion_protects_helpers_witness:
  "exclusion (Inr ()) 1 (shared widowed) \<noteq> Inr None \<and> helpers widowed"
  using exclusion_protects_helpers [OF widowed_reachable, of "Inr ()" 1] by (auto simp: widowed_def)

theorem confirmation_is_fresh_witness:
  "\<exists>r now. (r, now) \<in> set [(\<lparr>role_pid = 42, challenge = 1, acknowledged = 1\<rparr>, 1)] \<and>
     acknowledged (shared widowed) < acknowledged r"
proof -
  have "confirm_role 42 (shared widowed) 0 [(\<lparr>role_pid = 42, challenge = 1, acknowledged = 1\<rparr>, 1)]"
    by (simp add: confirm_role_def draw_challenge_def widowed_def initialize_def)
  from confirmation_is_fresh [OF widowed_reachable this] show ?thesis by auto
qed

end
