(* ===== verification/Descendant_Signal.thy ===== *)
theory Descendant_Signal
  imports Delivery_Role
begin

section \<open>Signalling descendants\<close>

text \<open>
  \<^verbatim>\<open>src/src/supervisor/descendant_signal.rs\<close> and the discovery in \<^verbatim>\<open>src/src/supervisor.rs\<close>. Cancellation finds descendants by
  reading \<^verbatim>\<open>/proc\<close>, where a pid may be reused between two reads, and signals one only after a proof
  made of pidfds: every process of the chain up to this process is pinned before its parent is
  read, every edge is read again after everything is pinned, and every pin is checked after every
  read.

  The kernel is a sequence of process tables. Every call of the pass happens at one instant and
  time passes between calls, so any process may exit, be reaped, be reparented or have its pid
  reused between any two of them. A process has an identity that is never reused. \<open>exiting\<close> says that
  its irreversible exit has begun: its children may be handed to a new parent from then on, while its
  pidfd becomes ready, \<open>exited\<close>, at any later time.
\<close>

record proc =
  uid :: nat
  ppid :: pid
  subreaper :: bool
  exiting :: bool
  exited :: bool

record kernel =
  table :: "nat \<Rightarrow> pid \<Rightarrow> proc option"
  refusal :: "nat \<Rightarrow> io_error option"
  unreadable :: "nat \<Rightarrow> bool"
  confirms :: "nat \<Rightarrow> pid \<Rightarrow> bool"

text \<open>A pidfd: the pid of the process it pins, and which process that is.\<close>

record pin =
  pin_pid :: pid
  pin_uid :: nat

subsection \<open>The boundary\<close>

text \<open>
  \<^verbatim>\<open>Kernel::capture\<close>, \<^verbatim>\<open>parent\<close>, \<^verbatim>\<open>live\<close>, \<^verbatim>\<open>confirm_role\<close> and \<^verbatim>\<open>send\<close>, each at an instant. Opening a pidfd and sending may be
  refused, a read of \<^verbatim>\<open>/proc\<close> or a poll may fail. \<open>confirms\<close> is the answer of \<^verbatim>\<open>confirm_containment\<close> to a
  challenge made at an instant: the role's custodian acknowledged it, in userspace, afterwards.
\<close>

definition err_no_process :: io_error where
  "err_no_process = \<lparr>kind = OtherKind, raw_os_error = Some 3, to_string = ''No such process''\<rparr>"

definition capture :: "kernel \<Rightarrow> pid \<Rightarrow> nat \<Rightarrow> io_error + pin" where
  "capture k p t =
     (case refusal k t of
        Some e \<Rightarrow> Inl e
      | None \<Rightarrow> (case table k t p of None \<Rightarrow> Inl err_no_process
                 | Some q \<Rightarrow> Inr \<lparr>pin_pid = p, pin_uid = uid q\<rparr>))"

definition parent :: "kernel \<Rightarrow> pid \<Rightarrow> nat \<Rightarrow> pid option" where
  "parent k p t = (if unreadable k t then None else map_option ppid (table k t p))"

definition live :: "kernel \<Rightarrow> pin \<Rightarrow> nat \<Rightarrow> bool" where
  "live k h t =
     (\<not> unreadable k t \<and>
      (case table k t (pin_pid h) of None \<Rightarrow> False | Some q \<Rightarrow> uid q = pin_uid h \<and> \<not> exited q))"

definition send :: "kernel \<Rightarrow> pin \<Rightarrow> nat \<Rightarrow> io_error + unit" where
  "send k h t = (case refusal k t of Some e \<Rightarrow> Inl e | None \<Rightarrow> if live k h t then Inr () else Inl err_no_process)"

text \<open>\<^verbatim>\<open>Kernel::confirm_role\<close> with the time afterwards; without a role there is nothing to confirm.\<close>

definition confirm_guard :: "kernel \<Rightarrow> pin option \<Rightarrow> nat \<Rightarrow> bool \<times> nat" where
  "confirm_guard k role_guard t =
     (case role_guard of
        None \<Rightarrow> (True, t)
      | Some g \<Rightarrow> if \<not> confirms k t (pin_pid g) then (False, t + 1) else (live k g (t + 1), t + 2))"

record link =
  link_pid :: pid
  link_parent :: pid
  link_handle :: pin

subsection \<open>The pass over one candidate\<close>

text \<open>
  The climb to the root. A pid is a 32-bit integer, which bounds the climb: no pid is visited
  twice. The result is the chain, \<open>None\<close> where the source returns \<^verbatim>\<open>Ok(false)\<close>, or the error of a capture;
  the last component is the time afterwards.
\<close>

function climb ::
  "kernel \<Rightarrow> pid \<Rightarrow> pid option list \<Rightarrow> pid list \<Rightarrow> link list \<Rightarrow> pid \<Rightarrow> nat \<Rightarrow> (io_error + link list option) \<times> nat" where
  "climb k root exclusions seen chain cursor t =
     (if cursor = root then (Inr (Some chain), t)
      else if cursor \<le> 1 \<or> cursor > 2147483647 \<or> Some cursor \<in> set exclusions \<or> cursor \<in> set seen
      then (Inr None, t)
      else
        (case capture k cursor t of
           Inl e \<Rightarrow> (Inl e, t + 1)
         | Inr handle \<Rightarrow>
             (case parent k cursor (t + 1) of
                None \<Rightarrow> (Inr None, t + 2)
              | Some up \<Rightarrow>
                  climb k root exclusions (cursor # seen)
                    (chain @ [\<lparr>link_pid = cursor, link_parent = up, link_handle = handle\<rparr>]) up (t + 2))))"
  by pat_completeness auto
termination
proof (relation "measure (\<lambda>(k, root, exclusions, seen, chain, cursor, t). card ({2..2147483647} - set seen))", goal_cases)
  case (2 k root exclusions seen chain cursor t handle up)
  then have "cursor \<in> {2..2147483647} - set seen" by auto
  then have "card ({2..2147483647} - set seen - {cursor}) < card ({2..2147483647} - set seen)"
    by (intro card_Diff1_less) auto
  moreover have "{2..2147483647} - set (cursor # seen) = {2..2147483647} - set seen - {cursor}" by auto
  ultimately show ?case by simp
qed simp

declare climb.simps [simp del]

text \<open>\<^verbatim>\<open>any\<close> stops at the first link that fails.\<close>

fun edges_hold :: "kernel \<Rightarrow> link list \<Rightarrow> nat \<Rightarrow> bool \<times> nat" where
  "edges_hold k [] t = (True, t)"
| "edges_hold k (l # ls) t =
     (if parent k (link_pid l) t \<noteq> Some (link_parent l) then (False, t + 1) else edges_hold k ls (t + 1))"

fun pins_live :: "kernel \<Rightarrow> link list \<Rightarrow> nat \<Rightarrow> bool \<times> nat" where
  "pins_live k [] t = (True, t)"
| "pins_live k (l # ls) t = (if \<not> live k (link_handle l) t then (False, t + 1) else pins_live k ls (t + 1))"

text \<open>The result, the signal sent if any, and the time afterwards.\<close>

type_synonym pass_result = "(io_error + bool) \<times> (pin \<times> int) option \<times> nat"

definition signal_using_exclusions ::
  "kernel \<Rightarrow> pin option \<Rightarrow> pid \<Rightarrow> pid \<Rightarrow> int \<Rightarrow> pid option list \<Rightarrow> nat \<Rightarrow> pass_result" where
  "signal_using_exclusions k role_guard root p sig exclusions t0 =
     (case climb k root exclusions [] [] p t0 of
        (Inl e, t1) \<Rightarrow> (Inl e, None, t1)
      | (Inr None, t1) \<Rightarrow> (Inr False, None, t1)
      | (Inr (Some chain), t1) \<Rightarrow>
          (case chain of
             [] \<Rightarrow> (Inr False, None, t1)
           | target # _ \<Rightarrow>
               (case edges_hold k chain t1 of
                  (False, t2) \<Rightarrow> (Inr False, None, t2)
                | (True, t2) \<Rightarrow>
                    (case pins_live k chain t2 of
                       (False, t3) \<Rightarrow> (Inr False, None, t3)
                     | (True, t3) \<Rightarrow>
                         (case confirm_guard k role_guard t3 of
                            (False, t4) \<Rightarrow> (Inl (io_other ''delivery role did not confirm containment''), None, t4)
                          | (True, t4) \<Rightarrow>
                              (case send k (link_handle target) t4 of
                                 Inl e \<Rightarrow> (Inl e, None, t4 + 1)
                               | Inr _ \<Rightarrow> (Inr True, Some (link_handle target, sig), t4 + 1)))))))"

text \<open>\<^verbatim>\<open>signal\<close>: the image service and the role's custodian are spared; what went wrong is dropped.\<close>

definition signal_pid ::
  "kernel \<Rightarrow> pid \<Rightarrow> pid \<Rightarrow> int \<Rightarrow> pid option \<Rightarrow> pin option \<Rightarrow> nat \<Rightarrow> (pin \<times> int) option \<times> nat" where
  "signal_pid k root p sig infrastructure role_guard t =
     snd (signal_using_exclusions k role_guard root p sig [infrastructure, map_option pin_pid role_guard] t)"

subsection \<open>Discovery\<close>

text \<open>
  \<^verbatim>\<open>descendant_depth\<close> over a snapshot of parents, an association list in the order the map yields its
  keys. The \<^verbatim>\<open>for\<close> loop runs at most as often as the map has entries. Descendants of equal depth come
  in an order the source leaves open.
\<close>

fun depth_loop :: "(pid \<times> pid) list \<Rightarrow> pid \<Rightarrow> nat \<Rightarrow> nat \<Rightarrow> pid \<Rightarrow> nat option" where
  "depth_loop parents root 0 depth current = None"
| "depth_loop parents root (Suc n) depth current =
     (case map_of parents current of
        None \<Rightarrow> None
      | Some up \<Rightarrow>
          if up = root then Some depth
          else if up \<le> 1 \<or> up = current then None
          else depth_loop parents root n (depth + 1) up)"

definition descendant_depth :: "pid \<Rightarrow> pid \<Rightarrow> (pid \<times> pid) list \<Rightarrow> nat option" where
  "descendant_depth p root parents = depth_loop parents root (length parents) 1 p"

definition descendant_pids :: "pid \<Rightarrow> (pid \<times> pid) list \<Rightarrow> pid list" where
  "descendant_pids root parents =
     rev (sort_key (\<lambda>p. case descendant_depth p root parents of Some d \<Rightarrow> d | None \<Rightarrow> 0)
       (filter (\<lambda>p. descendant_depth p root parents \<noteq> None) (map fst parents)))"

text \<open>
  \<^verbatim>\<open>signal_descendants\<close>: nothing is signalled while the role is unknown; otherwise every descendant is
  tried, deepest first, sparing the image service and the role's custodian. Failures of one try do
  not stop the pass. The result is what was sent.
\<close>

fun signal_each ::
  "kernel \<Rightarrow> pid \<Rightarrow> int \<Rightarrow> pid option \<Rightarrow> pin option \<Rightarrow> pid list \<Rightarrow> nat \<Rightarrow> (pin \<times> int) list" where
  "signal_each k root sig infrastructure role_guard [] t = []"
| "signal_each k root sig infrastructure role_guard (p # ps) t =
     (case signal_pid k root p sig infrastructure role_guard t of
        (sent, t') \<Rightarrow>
          (case sent of None \<Rightarrow> [] | Some x \<Rightarrow> [x]) @ signal_each k root sig infrastructure role_guard ps t')"

definition signal_descendants ::
  "kernel \<Rightarrow> pid \<Rightarrow> int \<Rightarrow> pid option \<Rightarrow> io_error + pin option \<Rightarrow> (pid \<times> pid) list \<Rightarrow> nat \<Rightarrow> (pin \<times> int) list" where
  "signal_descendants k root sig infrastructure excluded parents t =
     (case excluded of
        Inl _ \<Rightarrow> []
      | Inr role_guard \<Rightarrow> signal_each k root sig infrastructure role_guard (descendant_pids root parents) t)"

subsection \<open>What the kernel guarantees\<close>

text \<open>
  \<open>ancestor k t n p\<close> is the parent of the parent, and so on \<open>n\<close> times, of \<open>p\<close> at an instant; \<open>below\<close> is being
  a descendant.
\<close>

fun ancestor :: "kernel \<Rightarrow> nat \<Rightarrow> nat \<Rightarrow> pid \<Rightarrow> pid option" where
  "ancestor k t 0 p = Some p"
| "ancestor k t (Suc n) p = (case table k t p of None \<Rightarrow> None | Some q \<Rightarrow> ancestor k t n (ppid q))"

definition below :: "kernel \<Rightarrow> nat \<Rightarrow> pid \<Rightarrow> pid \<Rightarrow> bool" where
  "below k t r p \<longleftrightarrow> (\<exists>n>0. ancestor k t n p = Some r)"

text \<open>The process \<open>u\<close> is at the pid \<open>p\<close>.\<close>

definition at_pid :: "kernel \<Rightarrow> nat \<Rightarrow> pid \<Rightarrow> nat \<Rightarrow> bool" where
  "at_pid k t p u \<longleftrightarrow> (\<exists>q. table k t p = Some q \<and> uid q = u)"

definition reaping :: "kernel \<Rightarrow> nat \<Rightarrow> pid \<Rightarrow> bool" where
  "reaping k t p \<longleftrightarrow> (\<exists>q. table k t p = Some q \<and> subreaper q \<and> \<not> exiting q)"

text \<open>
  What Linux documents. A process keeps its pid from its creation to its reaping, so one seen at a
  pid at two instants was there in between. An exit that has begun is final. No process is its own
  ancestor. A process is handed to another parent when its own exits (\<^verbatim>\<open>PR_SET_CHILD_SUBREAPER\<close>, \<^verbatim>\<open>prctl(2)\<close>):
  the new parent is one of its ancestors, never above an ancestor that is a subreaper and has not
  begun to exit; pid 0 is no process. Only a process that has not begun to exit acknowledges a
  challenge. Nothing is said of when a pidfd becomes ready, except that the descriptor tells the
  process it pins from every other.
\<close>

definition pids_stable :: "kernel \<Rightarrow> bool" where
  "pids_stable k \<longleftrightarrow> (\<forall>p s t v u. s \<le> t \<and> t \<le> v \<and> at_pid k s p u \<and> at_pid k v p u \<longrightarrow> at_pid k t p u)"

definition exits_final :: "kernel \<Rightarrow> bool" where
  "exits_final k \<longleftrightarrow>
     (\<forall>p s t a b. s \<le> t \<and> table k s p = Some a \<and> table k t p = Some b \<and> uid a = uid b \<and> exiting a \<longrightarrow> exiting b)"

definition ancestry_acyclic :: "kernel \<Rightarrow> bool" where
  "ancestry_acyclic k \<longleftrightarrow> (\<forall>t p. \<not> below k t p p)"

definition adopted_by_subreaper :: "kernel \<Rightarrow> bool" where
  "adopted_by_subreaper k \<longleftrightarrow>
     (\<forall>t p a b. table k t p = Some a \<and> table k (Suc t) p = Some b \<and> uid a = uid b \<longrightarrow>
        (ppid b = 0 \<or> (\<exists>u. at_pid k t (ppid b) u \<and> at_pid k (Suc t) (ppid b) u)) \<and>
        (\<exists>m>0. ancestor k t m p = Some (ppid b) \<and>
           (\<forall>n>0. \<forall>s u. ancestor k t n p = Some s \<and> at_pid k t s u \<and> at_pid k (Suc t) s u \<and> reaping k (Suc t) s \<longrightarrow>
              m \<le> n)))"

definition answers_alive :: "kernel \<Rightarrow> bool" where
  "answers_alive k \<longleftrightarrow> (\<forall>t p. confirms k t p \<longrightarrow> (\<exists>q. table k t p = Some q \<and> \<not> exiting q))"

definition kernel_laws :: "kernel \<Rightarrow> bool" where
  "kernel_laws k \<longleftrightarrow>
     (\<forall>t. table k t 0 = None) \<and> pids_stable k \<and> exits_final k \<and> ancestry_acyclic k \<and> adopted_by_subreaper k \<and>
     answers_alive k"

text \<open>This process: a subreaper that runs throughout.\<close>

definition self_reaps :: "kernel \<Rightarrow> pid \<Rightarrow> bool" where
  "self_reaps k root \<longleftrightarrow> (\<exists>u. \<forall>t. at_pid k t root u \<and> reaping k t root)"

text \<open>The role's custodian, as the pass finds it: pinned, below this process, a subreaper from then on.\<close>

definition role_custodian :: "kernel \<Rightarrow> pid \<Rightarrow> nat \<Rightarrow> pin \<Rightarrow> bool" where
  "role_custodian k root t g \<longleftrightarrow>
     at_pid k t (pin_pid g) (pin_uid g) \<and> below k t root (pin_pid g) \<and>
     (\<forall>T q. t \<le> T \<and> table k T (pin_pid g) = Some q \<and> uid q = pin_uid g \<longrightarrow> subreaper q)"

subsection \<open>Descent is stable\<close>

lemma ancestor_add: "ancestor k t m p = Some q \<Longrightarrow> ancestor k t (m + n) p = ancestor k t n q"
  by (induction m arbitrary: p) (auto split: option.splits)

lemma below_trans: "below k t r q \<Longrightarrow> below k t q p \<Longrightarrow> below k t r p"
  unfolding below_def by (metis ancestor_add add_gr_0)

lemma below_parent: "table k t p = Some a \<Longrightarrow> below k t r p \<longleftrightarrow> ppid a = r \<or> below k t r (ppid a)"
proof -
  assume a: "table k t p = Some a"
  then have "ancestor k t n p = Some r \<and> 0 < n \<longleftrightarrow> (\<exists>m. n = Suc m \<and> ancestor k t m (ppid a) = Some r)" for n
    by (cases n) auto
  then have "below k t r p \<longleftrightarrow> (\<exists>m. ancestor k t m (ppid a) = Some r)" by (auto simp: below_def)
  also have "\<dots> \<longleftrightarrow> ppid a = r \<or> below k t r (ppid a)"
  proof
    assume "\<exists>m. ancestor k t m (ppid a) = Some r"
    then obtain m where "ancestor k t m (ppid a) = Some r" ..
    then show "ppid a = r \<or> below k t r (ppid a)" by (cases m) (auto simp: below_def)
  next
    assume "ppid a = r \<or> below k t r (ppid a)"
    then show "\<exists>m. ancestor k t m (ppid a) = Some r" using ancestor.simps(1) unfolding below_def by metis
  qed
  finally show ?thesis .
qed

lemma below_exists: "below k t r p \<Longrightarrow> \<exists>a. table k t p = Some a"
  unfolding below_def by (metis ancestor.simps(2) gr0_implies_Suc option.distinct(1) option.exhaust option.simps(4))

lemma adopted:
  assumes "kernel_laws k" and "at_pid k t p u" and "at_pid k (Suc t) p u" and "table k (Suc t) p = Some b"
  shows "ppid b = 0 \<or> (\<exists>v. at_pid k t (ppid b) v \<and> at_pid k (Suc t) (ppid b) v)"
    and "\<exists>m>0. ancestor k t m p = Some (ppid b) \<and>
      (\<forall>n>0. \<forall>s v. ancestor k t n p = Some s \<and> at_pid k t s v \<and> at_pid k (Suc t) s v \<and> reaping k (Suc t) s \<longrightarrow> m \<le> n)"
proof -
  obtain a where a: "table k t p = Some a" "uid a = uid b" using assms(2,3,4) by (auto simp: at_pid_def)
  have law: "adopted_by_subreaper k" using assms(1) by (simp add: kernel_laws_def)
  show "ppid b = 0 \<or> (\<exists>v. at_pid k t (ppid b) v \<and> at_pid k (Suc t) (ppid b) v)"
    and "\<exists>m>0. ancestor k t m p = Some (ppid b) \<and>
      (\<forall>n>0. \<forall>s v. ancestor k t n p = Some s \<and> at_pid k t s v \<and> at_pid k (Suc t) s v \<and> reaping k (Suc t) s \<longrightarrow> m \<le> n)"
    using law [unfolded adopted_by_subreaper_def, rule_format, of t p a b] a assms(4) by blast+
qed

text \<open>Who is below a running subreaper stays below it; who is below a process was so as long as it has existed.\<close>

lemma below_next:
  assumes laws: "kernel_laws k" and g: "at_pid k t g v" "at_pid k (Suc t) g v" "reaping k (Suc t) g"
    and "at_pid k t p u" and "at_pid k (Suc t) p u" and "below k t g p"
  shows "below k (Suc t) g p"
proof -
  have "below k (Suc t) g p" if "ancestor k t n p = Some g" "0 < n" "at_pid k t p u" "at_pid k (Suc t) p u" for n p u
    using that
  proof (induction n arbitrary: p u rule: less_induct)
    case (less n)
    obtain b where b: "table k (Suc t) p = Some b" using less.prems(4) by (auto simp: at_pid_def)
    obtain m where m: "0 < m" "ancestor k t m p = Some (ppid b)" "m \<le> n"
      using adopted(2) [OF laws less.prems(3,4) b] less.prems(1,2) g by blast
    show ?case
    proof (cases "m = n")
      case True
      then show ?thesis using m less.prems(1) b by (simp add: below_parent)
    next
      case False
      then have up: "ancestor k t (n - m) (ppid b) = Some g" "0 < n - m"
        using ancestor_add [OF m(2), of "n - m"] m(3) less.prems(1) by auto
      have "ppid b \<noteq> 0"
      proof
        assume "ppid b = 0"
        then have "table k t (ppid b) = None" using laws by (simp add: kernel_laws_def)
        then show False using up by (cases "n - m") auto
      qed
      with adopted(1) [OF laws less.prems(3,4) b] obtain w where "at_pid k t (ppid b) w" "at_pid k (Suc t) (ppid b) w"
        by blast
      with less.IH [of "n - m" "ppid b" w] up m(1) less.prems(2) have "below k (Suc t) g (ppid b)" by auto
      then show ?thesis using b by (simp add: below_parent)
    qed
  qed
  then show ?thesis using assms(5-7) unfolding below_def by blast
qed

lemma below_previous:
  assumes laws: "kernel_laws k" and "at_pid k t p u" and "at_pid k (Suc t) p u" and "below k (Suc t) g p"
  shows "below k t g p"
proof -
  have "below k t g p" if "ancestor k (Suc t) n p = Some g" "0 < n" "at_pid k t p u" "at_pid k (Suc t) p u" for n p u
    using that
  proof (induction n arbitrary: p u)
    case (Suc n)
    obtain b where b: "table k (Suc t) p = Some b" using Suc.prems(4) by (auto simp: at_pid_def)
    obtain m where "0 < m" "ancestor k t m p = Some (ppid b)"
      using adopted(2) [OF laws Suc.prems(3,4) b] by blast
    then have up: "below k t (ppid b) p" by (auto simp: below_def)
    have rest: "ancestor k (Suc t) n (ppid b) = Some g" using Suc.prems(1) b by simp
    show ?case
    proof (cases n)
      case 0
      then show ?thesis using rest up by simp
    next
      case (Suc n')
      have "ppid b \<noteq> 0"
      proof
        assume "ppid b = 0"
        then have "table k (Suc t) (ppid b) = None" using laws by (simp add: kernel_laws_def)
        then show False using rest Suc by simp
      qed
      with adopted(1) [OF laws Suc.prems(3,4) b] obtain w where "at_pid k t (ppid b) w" "at_pid k (Suc t) (ppid b) w"
        by blast
      with Suc.IH [OF rest] Suc have "below k t g (ppid b)" by auto
      then show ?thesis using up by (rule below_trans)
    qed
  qed simp
  then show ?thesis using assms(2-4) unfolding below_def by blast
qed

subsection \<open>The pass proves ownership\<close>

fun linked :: "pid \<Rightarrow> pid \<Rightarrow> link list \<Rightarrow> bool" where
  "linked cursor root [] \<longleftrightarrow> cursor = root"
| "linked cursor root (l # ls) \<longleftrightarrow> link_pid l = cursor \<and> linked (link_parent l) root ls"

text \<open>A pid that is not spared, pinned at an instant of an interval.\<close>

definition pinned :: "kernel \<Rightarrow> pid option list \<Rightarrow> nat \<Rightarrow> nat \<Rightarrow> link \<Rightarrow> bool" where
  "pinned k exclusions t t' l \<longleftrightarrow>
     Some (link_pid l) \<notin> set exclusions \<and> pin_pid (link_handle l) = link_pid l \<and>
     (\<exists>c. t \<le> c \<and> c < t' \<and> at_pid k c (link_pid l) (pin_uid (link_handle l)))"

lemma captureD:
  "capture k p t = Inr h \<Longrightarrow> pin_pid h = p \<and> at_pid k t p (pin_uid h)"
  by (auto simp: capture_def at_pid_def split: option.splits)

lemma pinned_mono: "pinned k ex t t' l \<Longrightarrow> s \<le> t \<Longrightarrow> t' \<le> u \<Longrightarrow> pinned k ex s u l"
  unfolding pinned_def by (meson le_trans less_le_trans)

lemma climb_links:
  assumes "climb k root ex seen chain cursor t = (Inr (Some out), t')"
  shows "t \<le> t' \<and> (\<exists>new. out = chain @ new \<and> linked cursor root new \<and> (\<forall>l\<in>set new. pinned k ex t t' l))"
  using assms
proof (induction k root ex seen chain cursor t rule: climb.induct)
  case (1 k root ex seen chain cursor t)
  show ?case
  proof (cases "cursor = root")
    case True
    then show ?thesis using 1(2) by (subst (asm) climb.simps) auto
  next
    case False
    note run = 1(2) [unfolded climb.simps [of k root ex seen]]
    then have ok: "\<not> (cursor \<le> 1 \<or> cursor > 2147483647 \<or> Some cursor \<in> set ex \<or> cursor \<in> set seen)"
      using False by (auto split: if_splits)
    with run False obtain h up where h: "capture k cursor t = Inr h" and up: "parent k cursor (t + 1) = Some up"
      and rec: "climb k root ex (cursor # seen) (chain @ [\<lparr>link_pid = cursor, link_parent = up, link_handle = h\<rparr>])
        up (t + 2) = (Inr (Some out), t')"
      by (auto split: sum.splits option.splits)
    let ?l = "\<lparr>link_pid = cursor, link_parent = up, link_handle = h\<rparr>"
    from 1(1) [OF False ok h up rec] obtain new where le: "t + 2 \<le> t'"
      and new: "out = (chain @ [?l]) @ new" "linked up root new" "\<forall>l\<in>set new. pinned k ex (t + 2) t' l"
      by auto
    have "pinned k ex t t' ?l" using ok le captureD [OF h] by (auto simp: pinned_def)
    moreover have "\<forall>l\<in>set new. pinned k ex t t' l" using new(3) by (auto intro: pinned_mono)
    ultimately have "out = chain @ (?l # new) \<and> linked cursor root (?l # new) \<and> (\<forall>l\<in>set (?l # new). pinned k ex t t' l)"
      using new(1,2) by simp
    then show ?thesis using le by (metis add_leD1)
  qed
qed

lemma edges_holdD:
  assumes "edges_hold k ls t = (True, t')"
  shows "t \<le> t' \<and> (\<forall>l\<in>set ls. \<exists>e b. t \<le> e \<and> e < t' \<and> table k e (link_pid l) = Some b \<and> ppid b = link_parent l)"
  using assms
proof (induction ls arbitrary: t)
  case (Cons l ls)
  then have l: "parent k (link_pid l) t = Some (link_parent l)" and rest: "edges_hold k ls (t + 1) = (True, t')"
    by (auto split: if_splits)
  from Cons.IH [OF rest] have le: "t + 1 \<le> t'"
    and all: "\<forall>l\<in>set ls. \<exists>e b. t + 1 \<le> e \<and> e < t' \<and> table k e (link_pid l) = Some b \<and> ppid b = link_parent l"
    by blast+
  have "\<exists>b. table k t (link_pid l) = Some b \<and> ppid b = link_parent l"
    using l by (auto simp: parent_def split: if_splits)
  moreover have "\<exists>e b. t \<le> e \<and> e < t' \<and> table k e (link_pid x) = Some b \<and> ppid b = link_parent x"
    if "x \<in> set ls" for x
    using bspec [OF all that] by (meson add_leD1)
  ultimately show ?case using le by auto
qed simp

lemma pins_liveD:
  assumes "pins_live k ls t = (True, t')"
  shows "t \<le> t' \<and> (\<forall>l\<in>set ls. \<exists>v\<ge>t. live k (link_handle l) v)"
  using assms
proof (induction ls arbitrary: t)
  case (Cons l ls)
  then have l: "live k (link_handle l) t" and rest: "pins_live k ls (t + 1) = (True, t')"
    by (auto split: if_splits)
  from Cons.IH [OF rest] have le: "t + 1 \<le> t'" and all: "\<forall>l\<in>set ls. \<exists>v\<ge>t + 1. live k (link_handle l) v"
    by blast+
  have "\<exists>v\<ge>t. live k (link_handle x) v" if "x \<in> set ls" for x
    using bspec [OF all that] by (meson add_leD1)
  with le l show ?case by auto
qed simp

lemma liveD: "live k h t \<Longrightarrow> at_pid k t (pin_pid h) (pin_uid h)"
  by (auto simp: live_def at_pid_def split: option.splits)

lemma at_between:
  "kernel_laws k \<Longrightarrow> s \<le> t \<Longrightarrow> t \<le> v \<Longrightarrow> at_pid k s p u \<Longrightarrow> at_pid k v p u \<Longrightarrow> at_pid k t p u"
  unfolding kernel_laws_def pids_stable_def by metis

text \<open>A subreaper that runs throughout an interval.\<close>

definition keeps :: "kernel \<Rightarrow> pid \<Rightarrow> nat \<Rightarrow> nat \<Rightarrow> nat \<Rightarrow> bool" where
  "keeps k g v s t \<longleftrightarrow> (\<forall>i. s \<le> i \<and> i \<le> t \<longrightarrow> at_pid k i g v \<and> reaping k i g)"

lemma keeps_subset: "keeps k g v s t \<Longrightarrow> s \<le> s' \<Longrightarrow> t' \<le> t \<Longrightarrow> keeps k g v s' t'"
  by (simp add: keeps_def)

lemma below_later:
  assumes "kernel_laws k" and "s \<le> t" and "keeps k g v s t" and "at_pid k s p u" and "at_pid k t p u" and "below k s g p"
  shows "below k t g p"
  using assms(2,3,5)
proof (induction t rule: dec_induct)
  case base
  then show ?case using assms(6) by simp
next
  case (step n)
  have n: "at_pid k n p u" using at_between [OF assms(1) _ _ assms(4) step(5)] step(1) by simp
  have "keeps k g v s n" using step(4) by (auto intro: keeps_subset)
  from step(3) [OF this n] show ?case
    using below_next [OF assms(1) _ _ _ n step(5)] step(1,4) unfolding keeps_def by (meson Suc_leI Suc_n_not_le_n le_SucI le_refl nat_le_linear order_trans)
qed

lemma below_earlier:
  assumes "kernel_laws k" and "s \<le> t" and "at_pid k s p u" and "at_pid k t p u" and "below k t g p"
  shows "below k s g p"
  using assms(2,4,5)
proof (induction t rule: dec_induct)
  case (step n)
  have n: "at_pid k n p u" using at_between [OF assms(1) _ _ assms(3) step(4)] step(1) by simp
  then show ?case using step(3) below_previous [OF assms(1) n step(4,5)] by simp
qed

lemma below_between:
  assumes "kernel_laws k" and "keeps k g v s t" and "at_pid k s p u" and "at_pid k t p u"
    and "i \<in> {s..t}" and "j \<in> {s..t}" and "below k i g p"
  shows "below k j g p"
proof -
  have at: "at_pid k i p u" "at_pid k j p u" using at_between [OF assms(1) _ _ assms(3,4)] assms(5,6) by auto
  show ?thesis
  proof (cases "i \<le> j")
    case True
    then show ?thesis using below_later [OF assms(1) True keeps_subset [OF assms(2)] at assms(7)] assms(5,6) by auto
  next
    case False
    then show ?thesis using below_earlier [OF assms(1) _ at(2,1) assms(7)] by simp
  qed
qed

text \<open>
  What the pass knows of a link: the process was at its pid from the end of the climb to the end of
  the second reading, and its parent was read in between.
\<close>

definition steady :: "kernel \<Rightarrow> nat \<Rightarrow> nat \<Rightarrow> link \<Rightarrow> bool" where
  "steady k s t l \<longleftrightarrow>
     at_pid k s (link_pid l) (pin_uid (link_handle l)) \<and> at_pid k t (link_pid l) (pin_uid (link_handle l)) \<and>
     (\<exists>e\<in>{s..t}. \<exists>b. table k e (link_pid l) = Some b \<and> ppid b = link_parent l)"

lemma chain_below:
  assumes laws: "kernel_laws k" and root: "keeps k root v s t"
    and "linked cursor root ls" and "ls \<noteq> []" and "\<forall>l\<in>set ls. steady k s t l" and "i \<in> {s..t}"
  shows "below k i root cursor"
  using assms(3-6)
proof (induction ls arbitrary: cursor i)
  case (Cons l ls)
  have l: "link_pid l = cursor" "linked (link_parent l) root ls" using Cons.prems by auto
  obtain e b where e: "e \<in> {s..t}" "table k e cursor = Some b" "ppid b = link_parent l"
    and at: "at_pid k s cursor (pin_uid (link_handle l))" "at_pid k t cursor (pin_uid (link_handle l))"
    using Cons.prems by (auto simp: steady_def)
  have "ppid b = root \<or> below k e root (ppid b)"
    using Cons.IH [OF l(2) _ _ e(1)] Cons.prems e(3) l(2) by (cases ls) auto
  then have "below k e root cursor" using e(2) by (simp add: below_parent)
  then show ?case by (rule below_between [OF laws root at e(1) Cons.prems(4)])
qed simp

lemma chain_through:
  assumes laws: "kernel_laws k" and g: "keeps k g v s t"
    and "linked cursor root ls" and "\<forall>l\<in>set ls. steady k s t l \<and> link_pid l \<noteq> g"
    and "i \<in> {s..t}" and "below k i g cursor"
  shows "root = g \<or> (\<exists>j\<in>{s..t}. below k j g root)"
  using assms(3-6)
proof (induction ls arbitrary: cursor i)
  case (Cons l ls)
  have l: "link_pid l = cursor" "linked (link_parent l) root ls" using Cons.prems by auto
  obtain e b where e: "e \<in> {s..t}" "table k e cursor = Some b" "ppid b = link_parent l"
    and at: "at_pid k s cursor (pin_uid (link_handle l))" "at_pid k t cursor (pin_uid (link_handle l))"
    using Cons.prems by (auto simp: steady_def)
  have "below k e g cursor" by (rule below_between [OF laws g at Cons.prems(3) e(1) Cons.prems(4)])
  then have "link_parent l = g \<or> below k e g (link_parent l)" using e(2,3) by (simp add: below_parent)
  then show ?case
  proof
    assume "link_parent l = g"
    then show ?thesis using l(2) Cons.prems(2) by (cases ls) auto
  next
    assume "below k e g (link_parent l)"
    then show ?thesis using Cons.IH [OF l(2) _ e(1)] Cons.prems(2) by simp
  qed
qed auto

text \<open>A pass that signals: what its readings have established, and the instants of its stages.\<close>

lemma pass_links:
  assumes "kernel_laws k" and "signal_using_exclusions k gd root p sig ex t = (r, Some (h, sg), t')"
  shows "\<exists>ls t1 t2 t3 t4. t \<le> t1 \<and> t1 \<le> t2 \<and> t2 \<le> t3 \<and> t3 \<le> t4 \<and> t' = t4 + 1 \<and> ls \<noteq> [] \<and> linked p root ls \<and>
     h = link_handle (hd ls) \<and> pin_pid h = p \<and> sg = sig \<and> confirm_guard k gd t3 = (True, t4) \<and>
     (\<forall>l\<in>set ls. steady k t1 t2 l \<and> Some (link_pid l) \<notin> set ex)"
proof -
  obtain target rest t1 t2 t3 t4 where climbed: "climb k root ex [] [] p t = (Inr (Some (target # rest)), t1)"
    and edges: "edges_hold k (target # rest) t1 = (True, t2)" and pins: "pins_live k (target # rest) t2 = (True, t3)"
    and conf: "confirm_guard k gd t3 = (True, t4)"
    and out: "h = link_handle target" "sg = sig" "t' = t4 + 1"
    using assms(2) unfolding signal_using_exclusions_def
    by (auto split: prod.splits sum.splits option.splits list.splits bool.splits if_splits)
  let ?ls = "target # rest"
  from climb_links [OF climbed] have t: "t \<le> t1" and ls: "linked p root ?ls" "\<forall>l\<in>set ?ls. pinned k ex t t1 l"
    by auto
  from edges_holdD [OF edges] pins_liveD [OF pins] have le: "t1 \<le> t2" "t2 \<le> t3"
    and e: "\<forall>l\<in>set ?ls. \<exists>e b. t1 \<le> e \<and> e < t2 \<and> table k e (link_pid l) = Some b \<and> ppid b = link_parent l"
    and v: "\<forall>l\<in>set ?ls. \<exists>v\<ge>t2. live k (link_handle l) v" by blast+
  have "steady k t1 t2 l" if mem: "l \<in> set ?ls" for l
  proof -
    have pin: "pinned k ex t t1 l" using ls(2) that by blast
    then obtain c where c: "c < t1" "at_pid k c (link_pid l) (pin_uid (link_handle l))" by (auto simp: pinned_def)
    have pid: "pin_pid (link_handle l) = link_pid l" using pin by (simp add: pinned_def)
    obtain w where "t2 \<le> w" "live k (link_handle l) w" using bspec [OF v mem] by auto
    with pid liveD [of k "link_handle l" w] have w: "t2 \<le> w" "at_pid k w (link_pid l) (pin_uid (link_handle l))" by simp_all
    have "at_pid k i (link_pid l) (pin_uid (link_handle l))" if "c \<le> i" "i \<le> w" for i
      using at_between [OF assms(1) that c(2) w(2)] .
    moreover have "\<exists>e\<in>{t1..t2}. \<exists>b. table k e (link_pid l) = Some b \<and> ppid b = link_parent l"
      using bspec [OF e mem] by fastforce
    ultimately show ?thesis using c(1) w(1) le(1) unfolding steady_def by auto
  qed
  moreover have "t3 \<le> t4" using conf by (auto simp: confirm_guard_def split: option.splits if_splits)
  moreover have "pin_pid h = p" using ls out(1) by (simp add: pinned_def)
  moreover have "\<forall>l\<in>set ?ls. Some (link_pid l) \<notin> set ex" using ls(2) unfolding pinned_def by blast
  moreover have "h = link_handle (hd ?ls)" using out(1) by simp
  ultimately show ?thesis using ls(1) t le conf out(2,3) by blast
qed

lemma pass_target:
  assumes "kernel_laws k" and "self_reaps k root"
    and "signal_using_exclusions k gd root p sig ex t = (r, Some (h, sg), t')"
  shows "sg = sig \<and> pin_pid h = p \<and> Some p \<notin> set ex \<and> (\<exists>T. t \<le> T \<and> T < t' \<and> at_pid k T p (pin_uid h) \<and> below k T root p)"
proof -
  from pass_links [OF assms(1,3)] obtain ls t1 t2 t3 t4 where t: "t \<le> t1" "t1 \<le> t2" "t2 \<le> t3" "t3 \<le> t4" "t' = t4 + 1"
    and ls: "ls \<noteq> []" "linked p root ls" "h = link_handle (hd ls)" "pin_pid h = p" "sg = sig"
      "\<forall>l\<in>set ls. steady k t1 t2 l \<and> Some (link_pid l) \<notin> set ex"
    by (elim exE conjE)
  have "t1 < t'" using t by simp
  obtain v where "keeps k root v t1 t2"
    using assms(2) by (auto simp: self_reaps_def keeps_def)
  moreover have "\<forall>l\<in>set ls. steady k t1 t2 l" using ls(6) by blast
  ultimately have "below k t1 root p" using chain_below [OF assms(1) _ ls(2,1)] t(2) by (meson atLeastAtMost_iff le_refl)
  moreover have "at_pid k t1 p (pin_uid h)" "Some p \<notin> set ex"
    using ls(1,2,3) bspec [OF ls(6), of "hd ls"] by (cases ls; simp add: steady_def)+
  ultimately show ?thesis using ls(4,5) t(1) \<open>t1 < t'\<close> by blast
qed

text \<open>The custodian's answer shows that it had not begun to exit at any instant up to the challenge.\<close>

lemma confirmed_keeps:
  assumes laws: "kernel_laws k" and g: "role_custodian k root t0 g" and conf: "confirm_guard k (Some g) t3 = (True, t4)"
    and "t0 \<le> t3"
  shows "keeps k (pin_pid g) (pin_uid g) t0 t3"
  unfolding keeps_def
proof (intro allI impI)
  fix i assume i: "t0 \<le> i \<and> i \<le> t3"
  have "live k g (t3 + 1)" and c: "confirms k t3 (pin_pid g)" using conf by (auto simp: confirm_guard_def split: if_splits)
  then have late: "at_pid k (t3 + 1) (pin_pid g) (pin_uid g)" by (simp add: liveD)
  have early: "at_pid k t0 (pin_pid g) (pin_uid g)" using g by (simp add: role_custodian_def)
  have at: "at_pid k i (pin_pid g) (pin_uid g)" "at_pid k t3 (pin_pid g) (pin_uid g)"
    using at_between [OF laws _ _ early late] i assms(4) by auto
  then obtain q q3 where q: "table k i (pin_pid g) = Some q" "uid q = pin_uid g"
    and q3: "table k t3 (pin_pid g) = Some q3" "uid q3 = pin_uid g" by (auto simp: at_pid_def)
  have "\<not> exiting q3" using c laws q3(1) unfolding kernel_laws_def answers_alive_def by force
  then have "\<not> exiting q" using laws q q3 i unfolding kernel_laws_def exits_final_def by metis
  moreover have "subreaper q" using g q i by (auto simp: role_custodian_def)
  ultimately show "at_pid k i (pin_pid g) (pin_uid g) \<and> reaping k i (pin_pid g)" using at(1) q(1) by (auto simp: reaping_def)
qed

lemma pass_spares_role:
  assumes laws: "kernel_laws k" and self: "self_reaps k root" and g: "role_custodian k root t0 g"
    and pass: "signal_using_exclusions k (Some g) root p sig ex t = (r, Some (h, sg), t')"
    and "Some (pin_pid g) \<in> set ex" and "t0 \<le> t" and "t0 \<le> T" and "at_pid k T p (pin_uid h)"
  shows "\<not> below k T (pin_pid g) p"
proof
  assume below: "below k T (pin_pid g) p"
  from pass_links [OF laws pass] obtain ls t1 t2 t3 t4 where t: "t \<le> t1" "t1 \<le> t2" "t2 \<le> t3"
    and ls: "ls \<noteq> []" "linked p root ls" "h = link_handle (hd ls)" "confirm_guard k (Some g) t3 = (True, t4)"
      "\<forall>l\<in>set ls. steady k t1 t2 l \<and> Some (link_pid l) \<notin> set ex" by (elim exE conjE)
  have g3: "keeps k (pin_pid g) (pin_uid g) t0 t3" using t assms(6) by (intro confirmed_keeps [OF laws g ls(4)]) auto
  have p1: "at_pid k t1 p (pin_uid h)" using ls(1,2,3) bspec [OF ls(5), of "hd ls"] by (cases ls) (simp_all add: steady_def)
  have "below k t1 (pin_pid g) p"
  proof (cases "T \<le> t1")
    case True
    then show ?thesis
      using below_later [OF laws True keeps_subset [OF g3] assms(8) p1 below] assms(7) t by auto
  next
    case False
    then show ?thesis using below_earlier [OF laws _ p1 assms(8) below] by simp
  qed
  moreover have "keeps k (pin_pid g) (pin_uid g) t1 t2" using g3 t assms(6) by (auto intro: keeps_subset)
  ultimately consider "root = pin_pid g" | j where "j \<in> {t1..t2}" "below k j (pin_pid g) root"
    using chain_through [OF laws _ ls(2), of "pin_pid g" "pin_uid g" t1 t2 t1] ls(5) assms(5) t(2) by fastforce
  moreover have root: "below k j root (pin_pid g)" if "t0 \<le> j" "j \<le> t3" for j
  proof -
    obtain v where v: "keeps k root v t0 j" using self by (auto simp: self_reaps_def keeps_def)
    have "at_pid k t0 (pin_pid g) (pin_uid g)" "at_pid k j (pin_pid g) (pin_uid g)" using g3 that by (auto simp: keeps_def)
    then show ?thesis using below_later [OF laws that(1) v] g by (auto simp: role_custodian_def)
  qed
  moreover have acyclic: "\<not> below k j q q" for j q using laws by (simp add: kernel_laws_def ancestry_acyclic_def)
  ultimately show False
  proof cases
    case 1
    then show False using root [of t1] acyclic t assms(6) by auto
  next
    case (2 j)
    then show False using below_trans [OF root [of j]] acyclic t assms(6) by auto
  qed
qed

text \<open>Time does not run backwards.\<close>

lemma climb_time: "climb k root ex seen chain cursor t = (out, t') \<Longrightarrow> t \<le> t'"
proof (induction k root ex seen chain cursor t rule: climb.induct)
  case (1 k root ex seen chain cursor t)
  note run = 1(2) [unfolded climb.simps [of k root ex seen]]
  have "t \<le> t'"
    if "cursor \<noteq> root" "\<not> (cursor \<le> 1 \<or> cursor > 2147483647 \<or> Some cursor \<in> set ex \<or> cursor \<in> set seen)"
      "capture k cursor t = Inr h" "parent k cursor (t + 1) = Some up" for h up
    using 1(1) [OF that] run that by simp
  then show ?case using run by (auto split: if_splits sum.splits option.splits)
qed

lemma edges_hold_time: "edges_hold k ls t = (ok, t') \<Longrightarrow> t \<le> t'"
  by (induction ls arbitrary: t) (auto split: if_splits dest: Suc_leD)

lemma pins_live_time: "pins_live k ls t = (ok, t') \<Longrightarrow> t \<le> t'"
  by (induction ls arbitrary: t) (auto split: if_splits dest: Suc_leD)

lemma confirm_guard_time: "confirm_guard k gd t = (ok, t') \<Longrightarrow> t \<le> t'"
  by (auto simp: confirm_guard_def split: option.splits if_splits)

lemma pass_time: "signal_using_exclusions k gd root p sig ex t = (r, sent, t') \<Longrightarrow> t \<le> t'"
  unfolding signal_using_exclusions_def
  by (auto simp del: edges_hold.simps pins_live.simps split: prod.splits sum.splits option.splits list.splits bool.splits
      dest!: climb_time edges_hold_time pins_live_time confirm_guard_time)

lemma signal_each_sent:
  assumes "(h, sg) \<in> set (signal_each k root sig infrastructure gd ps t)"
  shows "\<exists>p s r t'. t \<le> s \<and>
    signal_using_exclusions k gd root p sig [infrastructure, map_option pin_pid gd] s = (r, Some (h, sg), t')"
  using assms
proof (induction ps arbitrary: t)
  case (Cons p ps)
  obtain r sent t' where pass: "signal_using_exclusions k gd root p sig [infrastructure, map_option pin_pid gd] t = (r, sent, t')"
    by (metis prod_cases3)
  then consider "sent = Some (h, sg)" | "(h, sg) \<in> set (signal_each k root sig infrastructure gd ps t')"
    using Cons.prems by (auto simp: signal_pid_def split: option.splits)
  then show ?case
  proof cases
    case 1
    then show ?thesis using pass by blast
  next
    case 2
    from Cons.IH [OF this] show ?thesis using pass_time [OF pass] by (meson le_trans)
  qed
qed simp

lemma below_self_always:
  assumes "kernel_laws k" and "self_reaps k root" and "at_pid k s p u" and "at_pid k t p u" and "below k s root p"
  shows "below k t root p"
proof -
  obtain v where v: "keeps k root v s t" using assms(2) by (auto simp: self_reaps_def keeps_def)
  show ?thesis
    using below_later [OF assms(1) _ v assms(3,4,5)] below_earlier [OF assms(1) _ assms(4,3,5)] by (cases "s \<le> t") auto
qed

text \<open>
  C24. A signalled process is a descendant, and never one of the role's. Whatever exits, reparentings
  and reuses of pids happen between its steps, and however late a pidfd tells of an exit, what
  \<^verbatim>\<open>signal_descendants\<close> signals is a pinned process that exists at some instant since the pass began and, at
  every such instant, is a descendant of this process and not a descendant of the role's custodian;
  it is neither the image service nor the custodian. The kernel keeps a pid for one process until it
  is reaped, an exit that has begun is final, orphans go to an ancestor no higher than the nearest
  running subreaper, and only a process that has not begun to exit answers a challenge; this process
  and the custodian are subreapers, and the custodian was below this process when the pass began.
\<close>

theorem signalled_is_descendant:
  assumes "kernel_laws k" and "self_reaps k root"
    and "\<And>g. excluded = Inr (Some g) \<Longrightarrow> role_custodian k root t g"
    and "(h, sg) \<in> set (signal_descendants k root sig infrastructure excluded parents t)"
  shows "sg = sig \<and> Some (pin_pid h) \<noteq> infrastructure \<and>
     (\<exists>T\<ge>t. at_pid k T (pin_pid h) (pin_uid h)) \<and>
     (\<forall>T\<ge>t. at_pid k T (pin_pid h) (pin_uid h) \<longrightarrow>
        below k T root (pin_pid h) \<and>
        (\<forall>g. excluded = Inr (Some g) \<longrightarrow> pin_pid h \<noteq> pin_pid g \<and> \<not> below k T (pin_pid g) (pin_pid h)))"
proof -
  obtain gd where gd: "excluded = Inr gd"
    and "(h, sg) \<in> set (signal_each k root sig infrastructure gd (descendant_pids root parents) t)"
    using assms(4) by (auto simp: signal_descendants_def split: sum.splits)
  from signal_each_sent [OF this(2)] obtain p s r t' where s: "t \<le> s"
    and pass: "signal_using_exclusions k gd root p sig [infrastructure, map_option pin_pid gd] s = (r, Some (h, sg), t')"
    by blast
  from pass_target [OF assms(1,2) pass] obtain T0 where out: "sg = sig" "pin_pid h = p"
      "Some p \<notin> set [infrastructure, map_option pin_pid gd]"
    and T0: "s \<le> T0" "at_pid k T0 p (pin_uid h)" "below k T0 root p" by blast
  have "\<not> below k T (pin_pid g) p" if "gd = Some g" "t \<le> T" "at_pid k T p (pin_uid h)" for g T
    using pass_spares_role [OF assms(1,2) assms(3) [OF gd [unfolded that(1)]] pass [unfolded that(1)] _ s that(2,3)] by simp
  moreover have "below k T root p" if "at_pid k T p (pin_uid h)" for T
    by (rule below_self_always [OF assms(1,2) T0(2) that T0(3)])
  moreover have "\<exists>T\<ge>t. at_pid k T p (pin_uid h)" using s T0(1,2) order_trans by blast
  ultimately show ?thesis using out gd by auto
qed

subsection \<open>Discovery orders children before parents\<close>

definition depth_key :: "pid \<Rightarrow> (pid \<times> pid) list \<Rightarrow> pid \<Rightarrow> nat" where
  "depth_key root parents p = (case descendant_depth p root parents of Some d \<Rightarrow> d | None \<Rightarrow> 0)"

lemma depth_loop_more_fuel:
  "depth_loop parents root n d p = Some x \<Longrightarrow> n \<le> m \<Longrightarrow> depth_loop parents root m d p = Some x"
proof (induction n arbitrary: m d p)
  case (Suc n)
  then obtain m' where "m = Suc m'" "n \<le> m'" by (cases m) auto
  with Suc show ?case by (auto split: option.splits if_splits)
qed simp

lemma depth_loop_shift:
  "depth_loop parents root n (Suc d) p = map_option Suc (depth_loop parents root n d p)"
  by (induction n arbitrary: d p) (auto split: option.split)

lemma depth_of_child:
  assumes "map_of parents q = Some p" and "p \<noteq> root" and "descendant_depth q root parents = Some d"
  shows "descendant_depth p root parents = Some (d - 1) \<and> 0 < d"
proof (cases "length parents")
  case 0
  then show ?thesis using assms(3) by (simp add: descendant_depth_def)
next
  case (Suc n)
  with assms have "depth_loop parents root n 2 p = Some d"
    by (auto simp: descendant_depth_def numeral_2_eq_2 split: if_splits)
  then have "map_option Suc (depth_loop parents root n 1 p) = Some d"
    using depth_loop_shift [of parents root n 1 p] by (simp add: numeral_2_eq_2)
  then obtain x where "depth_loop parents root n 1 p = Some x" "d = Suc x" by auto
  then show ?thesis using depth_loop_more_fuel [of parents root n 1 p x "Suc n"] Suc by (simp add: descendant_depth_def)
qed

lemma descendant_pids_sorted:
  assumes "i \<le> j" and "j < length (descendant_pids root parents)"
  shows "depth_key root parents (descendant_pids root parents ! j) \<le> depth_key root parents (descendant_pids root parents ! i)"
proof -
  let ?xs = "sort_key (depth_key root parents) (filter (\<lambda>p. descendant_depth p root parents \<noteq> None) (map fst parents))"
  have e: "descendant_pids root parents = rev ?xs"
    unfolding descendant_pids_def depth_key_def [abs_def] ..
  have "sorted (map (depth_key root parents) ?xs)" by (rule sorted_sort_key)
  then have "map (depth_key root parents) ?xs ! (length ?xs - Suc j) \<le> map (depth_key root parents) ?xs ! (length ?xs - Suc i)"
    by (rule sorted_nth_mono) (use assms e in auto)
  then show ?thesis using assms e by (simp add: rev_nth)
qed

lemma descendant_pids_mem: "p \<in> set (descendant_pids root parents) \<Longrightarrow> descendant_depth p root parents \<noteq> None"
  by (auto simp: descendant_pids_def)

text \<open>
  A signalling pass visits children before their parents: in the list of descendants of one
  snapshot of \<^verbatim>\<open>/proc\<close>, a process comes after every process whose recorded parent it is, so a parent is
  not signalled while a child it might adopt or restart is still ahead.
\<close>

theorem descendants_children_first:
  assumes "i < length (descendant_pids root parents)" and "j < length (descendant_pids root parents)"
    and "map_of parents (descendant_pids root parents ! j) = Some (descendant_pids root parents ! i)"
    and "descendant_pids root parents ! i \<noteq> root"
  shows "j < i"
proof (rule ccontr)
  assume "\<not> j < i"
  then have le: "depth_key root parents (descendant_pids root parents ! j) \<le> depth_key root parents (descendant_pids root parents ! i)"
    using assms(2) by (intro descendant_pids_sorted) auto
  from descendant_pids_mem [OF nth_mem [OF assms(2)]] obtain d
    where "descendant_depth (descendant_pids root parents ! j) root parents = Some d" by auto
  from this depth_of_child [OF assms(3,4) this] le show False by (auto simp: depth_key_def)
qed

subsection \<open>Witnesses\<close>

text \<open>
  This process 10 with its child 20 and grandchild 30, the role's custodian 40 and its helper 50. The
  custodian answers until instant 40, then begins to exit, and the helper is adopted by this process;
  its pidfd tells nothing before instant 60.
\<close>

definition sample_proc :: "nat \<Rightarrow> pid \<Rightarrow> bool \<Rightarrow> proc" where
  "sample_proc u up sub = \<lparr>uid = u, ppid = up, subreaper = sub, exiting = False, exited = False\<rparr>"

definition sample_kernel :: kernel where
  "sample_kernel =
     \<lparr>table = (\<lambda>t. [1 \<mapsto> sample_proc 0 0 True, 10 \<mapsto> sample_proc 1 1 True, 20 \<mapsto> sample_proc 2 10 False,
        30 \<mapsto> sample_proc 3 20 False,
        40 \<mapsto> (sample_proc 4 10 True)\<lparr>exiting := 40 < t, exited := 60 < t\<rparr>,
        50 \<mapsto> sample_proc 5 (if 40 < t then 10 else 40) False]),
      refusal = (\<lambda>_. None), unreadable = (\<lambda>_. False), confirms = (\<lambda>t p. p = 40 \<and> t \<le> 40)\<rparr>"

lemma sample_table:
  "table sample_kernel t p =
     (if p = 1 then Some (sample_proc 0 0 True) else if p = 10 then Some (sample_proc 1 1 True)
      else if p = 20 then Some (sample_proc 2 10 False) else if p = 30 then Some (sample_proc 3 20 False)
      else if p = 40 then Some ((sample_proc 4 10 True)\<lparr>exiting := 40 < t, exited := 60 < t\<rparr>)
      else if p = 50 then Some (sample_proc 5 (if 40 < t then 10 else 40) False) else None)"
  by (auto simp: sample_kernel_def)

lemma sample_calls:
  "refusal sample_kernel t = None" "unreadable sample_kernel t = False" "confirms sample_kernel t p \<longleftrightarrow> p = 40 \<and> t \<le> 40"
  by (auto simp: sample_kernel_def)

text \<open>Every ancestor has a smaller pid, so there is no cycle.\<close>

lemma sample_decreasing: "ancestor sample_kernel t n p = Some q \<Longrightarrow> q \<le> p \<and> (0 < n \<longrightarrow> q < p)"
proof (induction n arbitrary: p)
  case (Suc n)
  then obtain a where a: "table sample_kernel t p = Some a" "ancestor sample_kernel t n (ppid a) = Some q"
    by (auto split: option.splits)
  have "ppid a < p" using a(1) by (auto simp: sample_table sample_proc_def split: if_splits)
  with Suc.IH [OF a(2)] show ?case by simp
qed simp

lemma sample_laws: "kernel_laws sample_kernel"
  unfolding kernel_laws_def
proof (intro conjI)
  show "pids_stable sample_kernel"
    by (auto simp: pids_stable_def at_pid_def sample_table sample_proc_def split: if_splits)
  show "exits_final sample_kernel"
    by (auto simp: exits_final_def sample_table sample_proc_def split: if_splits)
  show "ancestry_acyclic sample_kernel"
    using sample_decreasing unfolding ancestry_acyclic_def below_def by blast
  show "answers_alive sample_kernel"
    by (auto simp: answers_alive_def sample_calls sample_table sample_proc_def)
  show "adopted_by_subreaper sample_kernel"
    unfolding adopted_by_subreaper_def
  proof (intro allI impI)
    fix t p a b
    assume "table sample_kernel t p = Some a \<and> table sample_kernel (Suc t) p = Some b \<and> uid a = uid b"
    then have a: "table sample_kernel t p = Some a" and b: "table sample_kernel (Suc t) p = Some b" by auto
    have "ppid b = 0 \<or> (\<exists>u. at_pid sample_kernel t (ppid b) u \<and> at_pid sample_kernel (Suc t) (ppid b) u)"
      using b by (auto simp: at_pid_def sample_table sample_proc_def split: if_splits)
    moreover have "\<exists>m>0. ancestor sample_kernel t m p = Some (ppid b) \<and>
        (\<forall>n>0. \<forall>s u. ancestor sample_kernel t n p = Some s \<and> at_pid sample_kernel t s u \<and>
           at_pid sample_kernel (Suc t) s u \<and> reaping sample_kernel (Suc t) s \<longrightarrow> m \<le> n)"
    proof (cases "ppid a = ppid b")
      case True
      then show ?thesis using a by (intro exI [of _ 1]) auto
    next
      case False
      then have p: "p = 50" "t = 40" "ppid b = 10" using a b by (auto simp: sample_table sample_proc_def split: if_splits)
      have "2 \<le> n" if "0 < n" "ancestor sample_kernel 40 n 50 = Some s" "reaping sample_kernel 41 s" for n s
        using that by (cases n; cases "n - 1") (auto simp: sample_table sample_proc_def reaping_def)
      then show ?thesis using p
        by (intro exI [of _ 2]) (auto simp: numeral_2_eq_2 sample_table sample_proc_def)
    qed
    ultimately show "(ppid b = 0 \<or> (\<exists>u. at_pid sample_kernel t (ppid b) u \<and> at_pid sample_kernel (Suc t) (ppid b) u)) \<and>
        (\<exists>m>0. ancestor sample_kernel t m p = Some (ppid b) \<and>
          (\<forall>n>0. \<forall>s u. ancestor sample_kernel t n p = Some s \<and> at_pid sample_kernel t s u \<and>
             at_pid sample_kernel (Suc t) s u \<and> reaping sample_kernel (Suc t) s \<longrightarrow> m \<le> n))" by blast
  qed
qed (simp add: sample_table)

lemma sample_self: "self_reaps sample_kernel 10"
  by (auto simp: self_reaps_def at_pid_def reaping_def sample_table sample_proc_def)

lemma sample_custodian: "role_custodian sample_kernel 10 0 \<lparr>pin_pid = 40, pin_uid = 4\<rparr>"
  by (auto simp: role_custodian_def at_pid_def below_parent sample_table sample_proc_def)

lemma sample_run:
  "signal_descendants sample_kernel 10 15 None (Inr (Some \<lparr>pin_pid = 40, pin_uid = 4\<rparr>)) [(20, 10), (30, 20), (40, 10), (50, 40)] 0 =
     [(\<lparr>pin_pid = 30, pin_uid = 3\<rparr>, 15), (\<lparr>pin_pid = 20, pin_uid = 2\<rparr>, 15)]"
  by (simp add: signal_descendants_def descendant_pids_def descendant_depth_def signal_pid_def
      signal_using_exclusions_def climb.simps capture_def parent_def live_def send_def confirm_guard_def sample_table
      sample_calls sample_proc_def)

theorem signalled_is_descendant_witness:
  "below sample_kernel 0 10 30 \<and> \<not> below sample_kernel 0 40 30 \<and> below sample_kernel 0 40 50"
  using signalled_is_descendant [OF sample_laws sample_self, of "Inr (Some \<lparr>pin_pid = 40, pin_uid = 4\<rparr>)" 0
      "\<lparr>pin_pid = 30, pin_uid = 3\<rparr>" 15 15 None "[(20, 10), (30, 20), (40, 10), (50, 40)]"]
    sample_custodian sample_run by (auto simp: at_pid_def below_parent sample_table sample_proc_def)

text \<open>
  Why the custodian has to answer: at instant 41 it has begun to exit and its helper is this process's
  own child, while its pidfd is silent. The pass over the helper then ends unconfirmed.
\<close>

lemma unconfirmed_helper_spared:
  "live sample_kernel \<lparr>pin_pid = 40, pin_uid = 4\<rparr> 41 \<and> below sample_kernel 40 40 50 \<and>
   edges_hold sample_kernel [\<lparr>link_pid = 50, link_parent = 10, link_handle = \<lparr>pin_pid = 50, pin_uid = 5\<rparr>\<rparr>] 43 = (True, 44) \<and>
   signal_using_exclusions sample_kernel (Some \<lparr>pin_pid = 40, pin_uid = 4\<rparr>) 10 50 15 [None, Some 40] 41 =
     (Inl (io_other ''delivery role did not confirm containment''), None, 46)"
  by (simp add: signal_using_exclusions_def climb.simps capture_def parent_def live_def confirm_guard_def below_parent
      sample_table sample_calls sample_proc_def)

theorem descendants_children_first_witness:
  "descendant_pids 10 [(20, 10), (30, 20)] = [30, 20] \<and> (0 :: nat) < 1"
proof -
  have l: "descendant_pids 10 [(20, 10), (30, 20)] = [30, 20]"
    by (simp add: descendant_pids_def descendant_depth_def)
  with descendants_children_first [of 1 10 "[(20, 10), (30, 20)]" 0] show ?thesis by simp
qed

end
