(* ===== verification/Base64.thy ===== *)
theory Base64
  imports Rust_Numbers "HOL-Library.Word"
begin

section \<open>Base64\<close>

text \<open>
  \<^verbatim>\<open>base64\<close> and \<^verbatim>\<open>unbase64\<close> of \<^verbatim>\<open>src/src/root_v1.rs\<close>: the standard alphabet with padding, three bytes packed into
  a \<^verbatim>\<open>u32\<close>, and a decoder that accepts exactly the canonical encodings. A byte is a character.
\<close>

unbundle bit_operations_syntax

definition ALPHABET :: string where
  "ALPHABET = ''ABCDEFGHIJKLMNOPQRSTUVWXYZabcdefghijklmnopqrstuvwxyz0123456789+/''"

text \<open>\<^verbatim>\<open>slice.chunks(n)\<close>\<close>

function chunks :: "nat \<Rightarrow> 'a list \<Rightarrow> 'a list list" where
  "chunks n xs = (if n = 0 \<or> xs = [] then [] else take n xs # chunks n (drop n xs))"
  by pat_completeness auto
termination
  by (relation "measure (\<lambda>(n, xs). length xs)") (auto simp: neq_Nil_conv)

declare chunks.simps [simp del]

text \<open>\<^verbatim>\<open>u32::from(byte)\<close>\<close>

definition byte_word :: "char \<Rightarrow> 32 word" where
  "byte_word c = of_nat (of_char c)"

definition pack_bytes :: "string \<Rightarrow> 32 word" where
  "pack_bytes chunk = foldl (\<lambda>acc (i, b). acc OR push_bit (16 - 8 * i) (byte_word b)) 0 (enumerate 0 chunk)"

definition base64_chunk :: "string \<Rightarrow> string" where
  "base64_chunk chunk =
     (let triple = pack_bytes chunk
      in map (\<lambda>i. if i \<le> length chunk then ALPHABET ! (unat (drop_bit (18 - 6 * i) triple) AND 63) else CHR ''='')
           [0..<4])"

definition base64 :: "string \<Rightarrow> string" where
  "base64 bs = concat (map base64_chunk (chunks 3 bs))"

definition alphabet_position :: "char \<Rightarrow> nat option" where
  "alphabet_position c = (if c \<in> set ALPHABET then Some (length (takeWhile (\<lambda>a. a \<noteq> c) ALPHABET)) else None)"

fun quad_triple :: "nat \<Rightarrow> nat \<Rightarrow> string \<Rightarrow> 32 word \<Rightarrow> 32 word option" where
  "quad_triple pad i [] triple = Some triple"
| "quad_triple pad i (c # cs) triple =
     (case (if i \<ge> 4 - pad then Some 0 else alphabet_position c) of
        None \<Rightarrow> None
      | Some v \<Rightarrow> quad_triple pad (Suc i) cs (triple OR push_bit (18 - 6 * i) (of_nat v)))"

text \<open>\<^verbatim>\<open>triple.to_be_bytes()[1..4 - pad]\<close>\<close>

definition triple_bytes :: "nat \<Rightarrow> 32 word \<Rightarrow> string" where
  "triple_bytes pad triple = take (3 - pad) (map (\<lambda>k. char_of (unat (take_bit 8 (drop_bit k triple)))) [16, 8, 0])"

definition unbase64_quad :: "string \<Rightarrow> string option" where
  "unbase64_quad quad =
     (let pad = length (takeWhile (\<lambda>c. c = CHR ''='') (rev quad))
      in if pad > 2 then None else map_option (triple_bytes pad) (quad_triple pad 0 quad 0))"

fun unbase64_quads :: "string list \<Rightarrow> string option" where
  "unbase64_quads [] = Some []"
| "unbase64_quads (q # qs) =
     (case unbase64_quad q of None \<Rightarrow> None | Some out \<Rightarrow> map_option ((@) out) (unbase64_quads qs))"

definition unbase64 :: "string \<Rightarrow> string option" where
  "unbase64 t =
     (if length t mod 4 \<noteq> 0 then None
      else case unbase64_quads (chunks 4 t) of
             None \<Rightarrow> None
           | Some out \<Rightarrow> if base64 out = t then Some out else None)"

subsection \<open>The alphabet\<close>

lemma alphabet_length [simp]: "length ALPHABET = 64"
  by (simp add: ALPHABET_def)

lemma alphabet_distinct: "distinct ALPHABET"
  by (simp add: ALPHABET_def)

lemma alphabet_no_pad: "CHR ''='' \<notin> set ALPHABET"
  by (simp add: ALPHABET_def)

lemma take_while_nth: "distinct xs \<Longrightarrow> k < length xs \<Longrightarrow> takeWhile (\<lambda>a. a \<noteq> xs ! k) xs = take k xs"
  by (rule takeWhile_eq_take_P_nth) (auto simp: nth_eq_iff_index_eq)

lemma position_nth: "k < 64 \<Longrightarrow> alphabet_position (ALPHABET ! k) = Some k"
  by (simp add: alphabet_position_def take_while_nth alphabet_distinct)

lemma nth_no_pad: "k < 64 \<Longrightarrow> ALPHABET ! k \<noteq> CHR ''=''"
  using alphabet_no_pad nth_mem [of k ALPHABET] by (metis alphabet_length)

subsection \<open>Packing\<close>

text \<open>The sextet at a position of a packed triple, as a number.\<close>

definition sextet :: "nat \<Rightarrow> 32 word \<Rightarrow> nat" where
  "sextet i w = unat (drop_bit (18 - 6 * i) w) AND 63"

lemma and_63: "(n :: nat) AND 63 = take_bit 6 n"
  by (simp add: take_bit_eq_mask mask_eq_exp_minus_1)

lemma sextet_less: "sextet i w < 64"
  using take_bit_nat_less_exp [of 6 "unat (drop_bit (18 - 6 * i) w)"] by (simp add: sextet_def and_63)

lemma sextet_word: "(of_nat (sextet i w) :: 32 word) = take_bit 6 (drop_bit (18 - 6 * i) w)"
  by (simp add: sextet_def and_63 unsigned_take_bit_eq [symmetric] del: unsigned_take_bit_eq)

lemma char_bit: "8 \<le> n \<Longrightarrow> \<not> bit (of_char c :: nat) n"
proof -
  assume "8 \<le> n"
  have "take_bit 8 (of_char c :: nat) = of_char c" by (simp add: take_bit_nat_eq_self)
  with \<open>8 \<le> n\<close> show ?thesis by (metis bit_take_bit_iff not_less)
qed

lemma byte_word_bit: "bit (byte_word c) n \<longleftrightarrow> n < 8 \<and> bit (of_char c :: nat) n"
  using char_bit [of n c] by (cases "n < 8") (auto simp: byte_word_def bit_of_nat_iff possible_bit_word not_less)

lemma char_of_byte_word [simp]: "char_of (unat (byte_word c)) = c"
proof -
  have "unat (byte_word c) = of_char c"
    using less_le_trans [OF nat_of_char_less_256, of 4294967296 c] by (simp add: byte_word_def unat_of_nat take_bit_eq_mod)
  then show ?thesis by simp
qed

lemma pack_simps:
  "pack_bytes [a] = push_bit 16 (byte_word a)"
  "pack_bytes [a, b] = push_bit 16 (byte_word a) OR push_bit 8 (byte_word b)"
  "pack_bytes [a, b, c] = push_bit 16 (byte_word a) OR push_bit 8 (byte_word b) OR byte_word c"
  by (simp_all add: pack_bytes_def or.assoc)

lemma chunk_cases:
  assumes "chunk \<noteq> []" and "length chunk \<le> 3"
  obtains (one) a where "chunk = [a]" | (two) a b where "chunk = [a, b]" | (three) a b c where "chunk = [a, b, c]"
  using assms by (auto simp: neq_Nil_conv le_Suc_eq numeral_3_eq_3 length_Suc_conv)

text \<open>A triple below bit 24 is the union of its sextets, and its bytes are where they were packed.\<close>

definition sextets :: "32 word \<Rightarrow> 32 word" where
  "sextets w = push_bit 18 (of_nat (sextet 0 w)) OR push_bit 12 (of_nat (sextet 1 w)) OR
     push_bit 6 (of_nat (sextet 2 w)) OR of_nat (sextet 3 w)"

lemma sextets_join:
  fixes w :: "32 word"
  assumes "\<And>n. bit w n \<Longrightarrow> n < 24"
  shows "sextets w = w"
proof (rule bit_word_eqI)
  fix n :: nat
  consider "n < 6" | "6 \<le> n" "n < 12" | "12 \<le> n" "n < 18" | "18 \<le> n" "n < 24" | "24 \<le> n" by linarith
  then show "bit (sextets w) n = bit w n"
    unfolding sextets_def sextet_word using assms [of n] by cases (auto simp: bit_simps)
qed

lemma pack_join: "chunk \<noteq> [] \<Longrightarrow> length chunk \<le> 3 \<Longrightarrow> sextets (pack_bytes chunk) = pack_bytes chunk"
  by (rule sextets_join, erule (1) chunk_cases) (auto simp: pack_simps bit_simps byte_word_bit)

lemma pack_zero:
  "sextet 2 (pack_bytes [a]) = 0" "sextet 3 (pack_bytes [a]) = 0" "sextet 3 (pack_bytes [a, b]) = 0"
proof -
  have zero: "sextet i w = 0" if "take_bit 6 (drop_bit (18 - 6 * i) w) = 0" for i and w :: "32 word"
  proof -
    have "unat (of_nat (sextet i w) :: 32 word) = sextet i w"
      using less_le_trans [OF sextet_less, of 4294967296 i w] by (simp add: unat_of_nat take_bit_eq_mod)
    then show ?thesis using that by (simp add: sextet_word)
  qed
  show "sextet 2 (pack_bytes [a]) = 0" "sextet 3 (pack_bytes [a]) = 0" "sextet 3 (pack_bytes [a, b]) = 0"
    by (rule zero, rule bit_word_eqI, simp add: pack_simps bit_simps byte_word_bit)+
qed

lemma unpack_bytes:
  assumes "chunk \<noteq> []" and "length chunk \<le> 3"
  shows "triple_bytes (3 - length chunk) (pack_bytes chunk) = chunk"
proof -
  have byte: "char_of (unat v) = c" if "v = byte_word c" for c v
    using that by simp
  show ?thesis
    using assms
    by (cases rule: chunk_cases)
      (auto simp: triple_bytes_def pack_simps numeral_2_eq_2 numeral_3_eq_3 intro!: byte bit_word_eqI
        simp: bit_simps byte_word_bit)
qed

subsection \<open>Round trip\<close>

lemma base64_chunk_sextets:
  "base64_chunk chunk = map (\<lambda>i. if i \<le> length chunk then ALPHABET ! sextet i (pack_bytes chunk) else CHR ''='') [0, 1, 2, 3]"
  by (simp add: base64_chunk_def sextet_def upt_rec numeral_eq_Suc Let_def)

lemma base64_chunk_length [simp]: "length (base64_chunk chunk) = 4"
  by (simp add: base64_chunk_sextets)

lemma quad_triple_sextets:
  "s0 < 64 \<Longrightarrow> s1 < 64 \<Longrightarrow> s2 < 64 \<Longrightarrow> s3 < 64 \<Longrightarrow>
   quad_triple 0 0 [ALPHABET ! s0, ALPHABET ! s1, ALPHABET ! s2, ALPHABET ! s3] 0 =
     Some (push_bit 18 (of_nat s0) OR push_bit 12 (of_nat s1) OR push_bit 6 (of_nat s2) OR of_nat s3)"
  "s0 < 64 \<Longrightarrow> s1 < 64 \<Longrightarrow> s2 < 64 \<Longrightarrow>
   quad_triple (Suc 0) 0 [ALPHABET ! s0, ALPHABET ! s1, ALPHABET ! s2, CHR ''=''] 0 =
     Some (push_bit 18 (of_nat s0) OR push_bit 12 (of_nat s1) OR push_bit 6 (of_nat s2))"
  "s0 < 64 \<Longrightarrow> s1 < 64 \<Longrightarrow>
   quad_triple (Suc (Suc 0)) 0 [ALPHABET ! s0, ALPHABET ! s1, CHR ''='', CHR ''=''] 0 =
     Some (push_bit 18 (of_nat s0) OR push_bit 12 (of_nat s1))"
  by (simp_all add: position_nth or.assoc numeral_eq_Suc)

lemma unbase64_quad_chunk:
  assumes "chunk \<noteq> []" and "length chunk \<le> 3"
  shows "unbase64_quad (base64_chunk chunk) = Some chunk"
proof -
  note join = pack_join [OF assms, unfolded sextets_def] and bytes = unpack_bytes [OF assms]
  from assms show ?thesis
  proof (cases rule: chunk_cases)
    case (one a)
    with join bytes pack_zero(1,2) [of a] show ?thesis
      by (simp add: base64_chunk_sextets unbase64_quad_def nth_no_pad sextet_less quad_triple_sextets(3) numeral_2_eq_2 numeral_3_eq_3
          del: quad_triple.simps)
  next
    case (two a b)
    with join bytes pack_zero(3) [of a b] show ?thesis
      by (simp add: base64_chunk_sextets unbase64_quad_def nth_no_pad sextet_less quad_triple_sextets(2) numeral_2_eq_2 numeral_3_eq_3
          del: quad_triple.simps)
  next
    case (three a b c)
    with join bytes show ?thesis
      by (simp add: base64_chunk_sextets unbase64_quad_def nth_no_pad sextet_less quad_triple_sextets(1) numeral_2_eq_2 numeral_3_eq_3
          del: quad_triple.simps)
  qed
qed

lemma concat_chunks: "0 < n \<Longrightarrow> concat (chunks n xs) = xs"
  by (induction n xs rule: chunks.induct) (subst chunks.simps, simp)

lemma chunks_bounds: "c \<in> set (chunks n xs) \<Longrightarrow> c \<noteq> [] \<and> length c \<le> n"
  by (induction n xs rule: chunks.induct) (subst (asm) chunks.simps, auto split: if_splits)

lemma chunks_concat: "0 < n \<Longrightarrow> (\<And>c. c \<in> set cs \<Longrightarrow> length c = n) \<Longrightarrow> chunks n (concat cs) = cs"
proof (induction cs)
  case (Cons c cs)
  then have "length c = n" "chunks n (concat cs) = cs" by simp_all
  with \<open>0 < n\<close> show ?case by (subst chunks.simps) auto
qed (simp add: chunks.simps)

lemma unbase64_quads_chunks:
  "(\<And>c. c \<in> set cs \<Longrightarrow> c \<noteq> [] \<and> length c \<le> 3) \<Longrightarrow> unbase64_quads (map base64_chunk cs) = Some (concat cs)"
  by (induction cs) (simp_all add: unbase64_quad_chunk)

lemma length_concat_chunks: "length (concat (map base64_chunk cs)) = 4 * length cs"
  by (induction cs) simp_all

lemma unbase64_base64: "unbase64 (base64 bs) = Some bs"
proof -
  have "chunks 4 (base64 bs) = map base64_chunk (chunks 3 bs)" unfolding base64_def by (rule chunks_concat) auto
  moreover have "unbase64_quads (map base64_chunk (chunks 3 bs)) = Some (concat (chunks 3 bs))"
    by (rule unbase64_quads_chunks) (rule chunks_bounds)
  moreover have "length (base64 bs) mod 4 = 0" by (simp add: base64_def length_concat_chunks)
  ultimately show ?thesis by (simp add: unbase64_def concat_chunks)
qed

text \<open>
  C30. The base64 of the root protocol is exact in both directions: decoding a text gives bytes if
  and only if the text is the encoding of those bytes. Every byte string survives encoding and
  decoding, and a text with a foreign character, misplaced padding, a wrong length or stray bits in
  its last sextet is refused rather than read as something else.
\<close>

theorem base64_exact: "unbase64 t = Some bs \<longleftrightarrow> t = base64 bs"
proof
  show "unbase64 t = Some bs \<Longrightarrow> t = base64 bs" by (auto simp: unbase64_def split: if_splits option.splits)
qed (simp add: unbase64_base64)

end
