(* ===== verification/Root_Ingress.thy ===== *)
theory Root_Ingress
  imports Json Base64 "HOL-Library.AList"
begin

section \<open>The root's Bash ingress\<close>

text \<open>
  \<^verbatim>\<open>src/src/root_v1.rs\<close>: a \<^verbatim>\<open>run\<close> inside a root that owns its Bash work sends one request to the root's
  ingress and reads stage lines back; the decoders say what those lines establish and no more.

  The stream is the list of what \<^verbatim>\<open>reader.lines()\<close> yields: a line or a read error. Parsing JSON text and
  SHA-256 are crates: the parser and the hex digest of a byte string are arguments. Objects are
  association lists whose key order means nothing (the crate keeps them sorted).
\<close>

subsection \<open>Standard library\<close>

fun split_at_char :: "char \<Rightarrow> string \<Rightarrow> string list" where
  "split_at_char d [] = [[]]"
| "split_at_char d (c # cs) =
     (if c = d then [] # split_at_char d cs
      else case split_at_char d cs of p # ps \<Rightarrow> (c # p) # ps | [] \<Rightarrow> [[c]])"

definition strip_prefix :: "string \<Rightarrow> string \<Rightarrow> string option" where
  "strip_prefix p s = (if take (length p) s = p then Some (drop (length p) s) else None)"

definition i64_range :: "int \<Rightarrow> bool" where
  "i64_range i \<longleftrightarrow> - 9223372036854775808 \<le> i \<and> i \<le> 9223372036854775807"

definition parse_i64 :: "string \<Rightarrow> int option" where
  "parse_i64 s =
     (let v = (case s of
                 c # cs \<Rightarrow>
                   if c = CHR ''-'' then map_option (\<lambda>n. - int n) (digits_val cs)
                   else map_option int (digits_val (if c = CHR ''+'' then cs else s))
               | [] \<Rightarrow> None)
      in case v of Some i \<Rightarrow> if i64_range i then Some i else None | None \<Rightarrow> None)"

definition as_i64 :: "json \<Rightarrow> int option" where
  "as_i64 v = (case v of JNum i \<Rightarrow> if i64_range i then Some i else None | _ \<Rightarrow> None)"

text \<open>\<^verbatim>\<open>value.get(key)\<close> and \<^verbatim>\<open>value[key] = v\<close> on an object.\<close>

fun jget :: "json \<Rightarrow> string \<Rightarrow> json option" where
  "jget (JObj kvs) k = map_of kvs k"
| "jget _ k = None"

fun jset :: "json \<Rightarrow> string \<Rightarrow> json \<Rightarrow> json" where
  "jset (JObj kvs) k v = JObj (AList.update k v kvs)"
| "jset x k v = JObj [(k, v)]"

definition jtext :: "string option \<Rightarrow> json" where
  "jtext x = (case x of None \<Rightarrow> JNull | Some s \<Rightarrow> JStr s)"

definition jtexts :: "string list \<Rightarrow> json" where
  "jtexts xs = JArr (map JStr xs)"

definition jnat :: "nat \<Rightarrow> json" where
  "jnat n = JNum (int n)"

definition str_or_empty :: "json \<Rightarrow> string" where
  "str_or_empty v = (case as_str v of Some s \<Rightarrow> s | None \<Rightarrow> [])"

text \<open>
  \<^verbatim>\<open>std::str::from_utf8\<close>: \<^verbatim>\<open>None\<close> for valid bytes, otherwise \<^verbatim>\<open>valid_up_to\<close> and \<^verbatim>\<open>error_len\<close>, the latter absent when
  the input ends inside a character.
\<close>

definition between :: "nat \<Rightarrow> nat \<Rightarrow> nat \<Rightarrow> bool" where
  "between lo hi b \<longleftrightarrow> lo \<le> b \<and> b \<le> hi"

definition second_ok :: "nat \<Rightarrow> nat \<Rightarrow> bool" where
  "second_ok b0 b1 \<longleftrightarrow>
     (if b0 = 0xE0 then between 0xA0 0xBF b1
      else if b0 = 0xED then between 0x80 0x9F b1
      else if b0 = 0xF0 then between 0x90 0xBF b1
      else if b0 = 0xF4 then between 0x80 0x8F b1
      else between 0x80 0xBF b1)"

definition utf8_width :: "nat \<Rightarrow> nat" where
  "utf8_width b =
     (if b < 0x80 then 1 else if between 0xC2 0xDF b then 2 else if between 0xE0 0xEF b then 3
      else if between 0xF0 0xF4 b then 4 else 0)"

datatype utf8_head = Complete nat | Broken "nat option"

definition utf8_first :: "nat list \<Rightarrow> utf8_head" where
  "utf8_first bs =
     (case bs of
        [] \<Rightarrow> Broken None
      | b0 # rest \<Rightarrow>
          (let w = utf8_width b0 in
           if w = 0 then Broken (Some 1)
           else if w = 1 then Complete 1
           else case rest of
             [] \<Rightarrow> Broken None
           | b1 # rest1 \<Rightarrow>
               if \<not> second_ok b0 b1 then Broken (Some 1)
               else if w = 2 then Complete 2
               else case rest1 of
                 [] \<Rightarrow> Broken None
               | b2 # rest2 \<Rightarrow>
                   if \<not> between 0x80 0xBF b2 then Broken (Some 2)
                   else if w = 3 then Complete 3
                   else case rest2 of
                     [] \<Rightarrow> Broken None
                   | b3 # _ \<Rightarrow> if \<not> between 0x80 0xBF b3 then Broken (Some 3) else Complete 4))"

lemma utf8_first_pos: "utf8_first bs = Complete n \<Longrightarrow> 0 < n \<and> n \<le> length bs"
  by (auto simp: utf8_first_def Let_def split: list.splits if_splits)

function utf8_error :: "nat \<Rightarrow> nat list \<Rightarrow> (nat \<times> nat option) option" where
  "utf8_error valid_up_to bs =
     (if bs = [] then None
      else case utf8_first bs of
             Complete n \<Rightarrow> utf8_error (valid_up_to + n) (drop n bs)
           | Broken len \<Rightarrow> Some (valid_up_to, len))"
  by pat_completeness auto
termination
  by (relation "measure (\<lambda>(_, bs). length bs)") (auto dest!: utf8_first_pos)

declare utf8_error.simps [simp del]

definition from_utf8_error :: "string \<Rightarrow> (nat \<times> nat option) option" where
  "from_utf8_error s = utf8_error 0 (map of_char s)"

subsection \<open>Identities\<close>

definition RESULT_SURFACE :: string where "RESULT_SURFACE = ''agent-bash-root-v1''"
definition OUTPUT_PREFIX_BYTES :: nat where "OUTPUT_PREFIX_BYTES = 64 * 1024"

definition id_char :: "char \<Rightarrow> bool" where
  "id_char c \<longleftrightarrow>
     (let b = of_char c :: nat in between 48 57 b \<or> between 65 90 b \<or> between 97 122 b \<or> c = CHR ''-'' \<or> c = CHR ''_'')"

definition hex_char :: "char \<Rightarrow> bool" where
  "hex_char c \<longleftrightarrow> (let b = of_char c :: nat in between 48 57 b \<or> between 97 102 b)"

definition format_identity :: "string \<Rightarrow> int \<Rightarrow> nat \<Rightarrow> string \<Rightarrow> string" where
  "format_identity root work n h =
     ''rv1o:'' @ root @ '':'' @ int_dec work @ '':'' @ nat_dec n @ '':'' @ h"

definition parse_identity :: "string \<Rightarrow> (string \<times> int \<times> nat \<times> string) option" where
  "parse_identity identity =
     (case split_at_char (CHR '':'') identity of
        [tag, root, work_text, bytes_text, h] \<Rightarrow>
          if tag \<noteq> ''rv1o'' \<or> root = [] \<or> length root > 64 \<or> \<not> list_all id_char root \<or>
             length h \<noteq> 64 \<or> \<not> list_all hex_char h
          then None
          else (case (parse_i64 work_text, parse_u64 bytes_text) of
                  (Some work, Some n) \<Rightarrow>
                    if work \<le> 0 \<or> n > 64 * 1024 * 1024 then None
                    else if format_identity root work n h = identity then Some (root, work, n, h) else None
                | _ \<Rightarrow> None)
      | _ \<Rightarrow> None)"

definition parse_reference :: "string \<Rightarrow> (string \<times> int) option" where
  "parse_reference reference =
     (case split_at_char (CHR '':'') reference of
        [tag, root, work] \<Rightarrow>
          if tag \<noteq> ''rv1w'' then None
          else map_option (\<lambda>(r, w, _, _). (r, w))
                 (parse_identity (''rv1o:'' @ root @ '':'' @ work @ '':0:'' @ replicate 64 (CHR ''0'')))
      | _ \<Rightarrow> None)"

definition valid_record :: "json \<Rightarrow> bool" where
  "valid_record r =
     (case (case as_str (jindex r ''identity'') of Some i \<Rightarrow> parse_identity i | None \<Rightarrow> None) of
        None \<Rightarrow> False
      | Some (root, work, n, h) \<Rightarrow>
          jindex r ''root_id'' = JStr root \<and> as_i64 (jindex r ''work'') = Some work \<and>
          as_u64 (jindex r ''bytes'') = Some n \<and> jindex r ''sha256'' = JStr h \<and>
          as_str (jindex r ''state'') \<in> {Some ''complete'', Some ''partial''} \<and>
          (case jindex r ''losses'' of JArr _ \<Rightarrow> True | _ \<Rightarrow> False))"

text \<open>\<^verbatim>\<open>stages.first().and_then(..)\<close>: the work reference the first stage names.\<close>

definition stage_reference :: "json list \<Rightarrow> string option" where
  "stage_reference stages =
     (case stages of
        [] \<Rightarrow> None
      | accepted # _ \<Rightarrow>
          (case (as_str (jindex accepted ''root_id''), as_i64 (jindex accepted ''work'')) of
             (Some root, Some work) \<Rightarrow>
               (let reference = ''rv1w:'' @ root @ '':'' @ int_dec work
                in map_option (\<lambda>_. reference) (parse_reference reference))
           | _ \<Rightarrow> None))"

definition wait_status :: "string \<Rightarrow> json option" where
  "wait_status status =
     (case strip_prefix ''code:'' status of
        Some code \<Rightarrow> map_option (\<lambda>c. JObj [(''code'', JNum c)]) (parse_i32 code)
      | None \<Rightarrow>
          (case strip_prefix ''signal:'' status of
             None \<Rightarrow> None
           | Some s \<Rightarrow> map_option (\<lambda>x. JObj [(''signal'', JNum x)]) (parse_i32 s)))"

subsection \<open>Results\<close>

definition no_output :: json where
  "no_output = JObj [(''delivery'', JStr ''none''), (''bytes'', JNum 0), (''base64'', JStr [])]"

definition refused :: "string \<Rightarrow> string \<Rightarrow> string \<Rightarrow> json" where
  "refused who reason detail =
     JObj [(''result_surface'', JStr RESULT_SURFACE), (''version'', JNum 1), (''delivery_mode'', JStr ''sync''),
       (''outcome'', JStr ''refused''), (''effects_possible'', JBool False), (''retry_safe'', JBool True),
       (''refusal'', JObj [(''by'', JStr who), (''reason'', JStr reason), (''detail'', JStr detail)]),
       (''wait'', JNull), (''output'', no_output), (''faults'', JArr []), (''stages'', JArr [])]"

text \<open>\<open>Inl\<close> is the fault.\<close>

definition started_exec_error :: "json \<Rightarrow> json \<Rightarrow> string + string option" where
  "started_exec_error event accepted =
     (case jget event ''exec_error'' of
        None \<Rightarrow> Inr None
      | Some JNull \<Rightarrow> Inr None
      | Some (JStr e) \<Rightarrow>
          if e = [] then Inl ''started-exec-error-invalid''
          else if jindex accepted ''durable'' \<noteq> JBool True \<or> no_text (jindex accepted ''root_id'') \<or>
                  \<not> (case as_i64 (jindex accepted ''work'') of Some w \<Rightarrow> w > 0 | None \<Rightarrow> False)
          then Inl ''exec-error-without-usable-acceptance''
          else Inr (Some e)
      | Some _ \<Rightarrow> Inl ''started-exec-error-invalid'')"

subsection \<open>The synchronous decoder\<close>

record decode_state =
  stages :: "json list"
  faults :: "string list"
  kept :: bytes
  byte_total :: nat
  output_stage :: "nat option"
  chunk_count :: nat
  streamed :: bytes
  is_accepted :: bool
  is_started :: bool
  exec_error :: "string option"
  is_closed :: bool
  output_fault :: bool
  order_fault :: bool
  terminal_event :: "json option"

definition decode_start :: decode_state where
  "decode_start =
     \<lparr>stages = [], faults = [], kept = [], byte_total = 0, output_stage = None, chunk_count = 0, streamed = [],
      is_accepted = False, is_started = False, exec_error = None, is_closed = False, output_fault = False,
      order_fault = False, terminal_event = None\<rparr>"

text \<open>What the loop body does with one line: go on, leave the loop, or return.\<close>

datatype flow = GoOn decode_state | Leave decode_state | Return json

definition event_name :: "json \<Rightarrow> string" where
  "event_name event = str_or_empty (jindex event ''event'')"

definition add_fault :: "string \<Rightarrow> decode_state \<Rightarrow> decode_state" where
  "add_fault f d = d\<lparr>faults := faults d @ [f]\<rparr>"

definition out_of_order :: "string \<Rightarrow> decode_state \<Rightarrow> decode_state" where
  "out_of_order f d = (add_fault f d)\<lparr>order_fault := True\<rparr>"

definition bad_output :: "string \<Rightarrow> decode_state \<Rightarrow> decode_state" where
  "bad_output f d = (add_fault f d)\<lparr>output_fault := True\<rparr>"

definition event_chunk :: "json \<Rightarrow> bytes option" where
  "event_chunk event = (case as_str (jindex event ''b64'') of Some t \<Rightarrow> unbase64 t | None \<Rightarrow> None)"

definition take_chunk :: "bytes option \<Rightarrow> decode_state \<Rightarrow> decode_state" where
  "take_chunk chunk d =
     (if \<not> is_started d then out_of_order ''output-before-started'' d
      else case chunk of
             None \<Rightarrow> bad_output ''output-invalid-or-missing-base64'' d
           | Some c \<Rightarrow>
               if is_closed d then bad_output ''output-after-closure'' d
               else d\<lparr>streamed := streamed d @ c, byte_total := byte_total d + length c,
                      kept := kept d @ take (min (length c) (OUTPUT_PREFIX_BYTES - length (kept d))) c\<rparr>)"

definition decode_output :: "json \<Rightarrow> decode_state \<Rightarrow> decode_state" where
  "decode_output event d =
     (let d1 = d\<lparr>chunk_count := chunk_count d + 1\<rparr>;
          d2 = (case output_stage d1 of
                  Some _ \<Rightarrow> d1
                | None \<Rightarrow> d1\<lparr>stages := stages d1 @ [JObj [(''event'', JStr ''output'')]], output_stage := Some (length (stages d1))\<rparr>);
          d3 = take_chunk (event_chunk event) d2
      in case output_stage d3 of
           None \<Rightarrow> d3
         | Some i \<Rightarrow> d3\<lparr>stages := (stages d3)[i := JObj [(''event'', JStr ''output''), (''chunks'', jnat (chunk_count d3)),
               (''bytes'', jnat (byte_total d3))]]\<rparr>)"

definition owner_refusal :: "json \<Rightarrow> json list \<Rightarrow> json" where
  "owner_refusal event sts =
     JObj [(''result_surface'', JStr RESULT_SURFACE), (''version'', JNum 1), (''delivery_mode'', JStr ''sync''),
       (''outcome'', JStr ''refused''), (''effects_possible'', JBool False), (''retry_safe'', JBool True),
       (''refusal'', JObj [(''by'', JStr ''root-owner''), (''reason'', jindex event ''reason''), (''detail'', JNull)]),
       (''wait'', JNull), (''output'', no_output), (''faults'', JArr []), (''stages'', JArr sts)]"

definition begin_work :: "json \<Rightarrow> decode_state \<Rightarrow> decode_state" where
  "begin_work event d =
     (let d1 = d\<lparr>is_started := True\<rparr>
      in case started_exec_error event (stages d1 ! 0) of
           Inr e \<Rightarrow> d1\<lparr>exec_error := e\<rparr>
         | Inl f \<Rightarrow> out_of_order f d1)"

definition close_output :: "json \<Rightarrow> decode_state \<Rightarrow> decode_state" where
  "close_output event d =
     (let d1 = d\<lparr>is_closed := True\<rparr>
      in if as_u64 (jindex event ''bytes'') \<noteq> Some (byte_total d1) then bad_output ''output-byte-count-mismatch'' d1 else d1)"

definition decode_stage :: "json \<Rightarrow> decode_state \<Rightarrow> flow" where
  "decode_stage event d0 =
     (let name = event_name event; d = d0\<lparr>stages := stages d0 @ [event]\<rparr>
      in if name = ''refused'' \<and> length (stages d) = 1 then Return (owner_refusal event (stages d))
         else if name = ''accepted'' \<and> length (stages d) = 1 then GoOn (d\<lparr>is_accepted := True\<rparr>)
         else if name = ''started'' \<and> is_accepted d \<and> \<not> is_started d then GoOn (begin_work event d)
         else if name = ''output-closed'' \<and> is_started d \<and> \<not> is_closed d then GoOn (close_output event d)
         else if name = ''output-failed'' \<and> is_started d then GoOn (bad_output ''owner-output-failed'' d)
         else if name = ''end'' \<and> is_started d then Leave (d\<lparr>terminal_event := Some event\<rparr>)
         else if name \<in> {''launch-failed'', ''launch-unknown''} \<and> is_accepted d \<and> \<not> is_started d
         then Leave (d\<lparr>terminal_event := Some event\<rparr>)
         else if name \<in> {''end-unknown'', ''left-to-successor''} \<and> is_accepted d
         then Leave (d\<lparr>terminal_event := Some event\<rparr>)
         else (let d1 = out_of_order (''unexpected-stage: '' @ name) d
               in if name \<in> {''refused'', ''end'', ''end-unknown'', ''launch-failed'', ''launch-unknown'', ''left-to-successor''}
                  then Leave d1 else GoOn d1))"

definition decode_line :: "(string \<Rightarrow> json option) \<Rightarrow> io_error + string \<Rightarrow> decode_state \<Rightarrow> flow" where
  "decode_line parse line d =
     (case line of
        Inl e \<Rightarrow> Leave (add_fault (''read-failed: '' @ to_string e) d)
      | Inr text \<Rightarrow>
          (case parse text of
             None \<Rightarrow> Leave (out_of_order ''protocol-violation: unparseable stage line'' d)
           | Some event \<Rightarrow> if event_name event = ''output'' then GoOn (decode_output event d) else decode_stage event d))"

fun decode_lines :: "(string \<Rightarrow> json option) \<Rightarrow> (io_error + string) list \<Rightarrow> decode_state \<Rightarrow> decode_state + json" where
  "decode_lines parse [] d = Inl d"
| "decode_lines parse (line # rest) d =
     (case decode_line parse line d of
        GoOn d' \<Rightarrow> decode_lines parse rest d'
      | Leave d' \<Rightarrow> Inl d'
      | Return r \<Rightarrow> Inr r)"

definition trim_incomplete :: "decode_state \<Rightarrow> decode_state" where
  "trim_incomplete d =
     (if byte_total d > length (kept d)
      then (case from_utf8_error (kept d) of Some (valid_up_to, None) \<Rightarrow> d\<lparr>kept := take valid_up_to (kept d)\<rparr> | _ \<Rightarrow> d)
      else d)"

text \<open>The retained record the end names, checked against the first stage and the stream; and the faults.\<close>

definition MISMATCH :: string where "MISMATCH = ''retained-identity-or-stream-mismatch''"

definition check_retained :: "(bytes \<Rightarrow> string) \<Rightarrow> decode_state \<Rightarrow> json \<times> decode_state" where
  "check_retained sha d =
     (let r = (case terminal_event d of Some e \<Rightarrow> jindex e ''retained'' | None \<Rightarrow> JNull)
      in if r \<noteq> JNull \<and> jindex r ''state'' \<noteq> JStr ''unsealed''
         then (let valid = valid_record r \<and>
                     (case stages d of [] \<Rightarrow> False
                      | s # _ \<Rightarrow> jindex s ''work'' = jindex r ''work'' \<and> jindex s ''root_id'' = jindex r ''root_id'');
                   complete_matches = jindex r ''state'' \<noteq> JStr ''complete'' \<or>
                     as_u64 (jindex r ''received'') = Some (byte_total d) \<and> as_u64 (jindex r ''bytes'') = Some (byte_total d) \<and>
                     jindex r ''sha256'' = JStr (sha (streamed d))
               in if \<not> valid \<or> \<not> complete_matches
                  then (JObj [(''state'', JStr ''unknown''), (''reason'', JStr MISMATCH)], add_fault MISMATCH d)
                  else (r, d))
         else (r, d))"

definition presentation :: "decode_state \<Rightarrow> json \<Rightarrow> string \<Rightarrow> json" where
  "presentation d retained delivery =
     (let omitted = byte_total d - length (kept d)
      in JObj [(''delivery'', JStr delivery), (''bytes'', jnat (byte_total d)), (''presented_bytes'', jnat (length (kept d))),
           (''omitted_bytes'', jnat omitted),
           (''remainder'', JStr (if omitted > 0
              then (if jindex retained ''state'' = JStr ''complete'' then ''retained-by-owner''
                    else if jindex retained ''state'' = JStr ''partial'' then ''partial-owner-retention'' else ''discarded'')
              else ''none'')),
           (''retained'', retained), (''reference'', jtext (stage_reference (stages d))),
           (''base64'', JStr (base64 (kept d)))])"

definition unknown_result :: "bool \<Rightarrow> json \<Rightarrow> decode_state \<Rightarrow> string \<Rightarrow> string list \<Rightarrow> string \<Rightarrow> json" where
  "unknown_result sent retained d meaning fs delivery =
     JObj [(''result_surface'', JStr RESULT_SURFACE), (''version'', JNum 1), (''delivery_mode'', JStr ''sync''),
       (''outcome'', JStr ''unknown''), (''meaning'', JStr meaning), (''exec_error'', jtext (exec_error d)),
       (''effects_possible'', JBool True), (''retry_safe'', JBool False), (''refusal'', JNull), (''wait'', JNull),
       (''output'', presentation d retained delivery), (''faults'', jtexts fs), (''stages'', JArr (stages d)),
       (''request_sent'', JBool sent)]"

definition ended_result :: "json \<Rightarrow> decode_state \<Rightarrow> json \<Rightarrow> json \<Rightarrow> json" where
  "ended_result retained d fin w =
     (let fs1 = faults d @ (if \<not> is_closed d then [''output-not-closed''] else []);
          fs2 = fs1 @ (if jindex (jindex fin ''output'') ''state'' \<noteq> JStr ''closed'' \<or>
                          as_u64 (jindex (jindex fin ''output'') ''bytes'') \<noteq> Some (byte_total d)
                       then [''end-output-state-not-closed-with-count''] else []);
          complete = (\<not> output_fault d \<and> fs2 = [])
      in JObj [(''result_surface'', JStr RESULT_SURFACE), (''version'', JNum 1), (''delivery_mode'', JStr ''sync''),
           (''outcome'', JStr (if complete then ''ended'' else ''ended-output-unproven'')),
           (''meaning'', JStr (if exec_error d \<noteq> None then ''requested-program-exec-failed'' else ''work-ended'')),
           (''exec_error'', jtext (exec_error d)), (''effects_possible'', JBool True), (''retry_safe'', JBool False),
           (''refusal'', JNull),
           (''wait'', JObj [(''status'', JStr (str_or_empty (jindex fin ''status''))),
              (''observer'', JStr (str_or_empty (jindex fin ''observer''))), (''exit'', w)]),
           (''output'', presentation d retained (if \<not> complete then ''unproven''
              else if byte_total d > length (kept d) then ''partial'' else ''complete'')),
           (''faults'', jtexts fs2), (''stages'', JArr (stages d))])"

definition not_started_result :: "decode_state \<Rightarrow> json" where
  "not_started_result d =
     JObj [(''result_surface'', JStr RESULT_SURFACE), (''version'', JNum 1), (''delivery_mode'', JStr ''sync''),
       (''outcome'', JStr ''not-started''), (''effects_possible'', JBool False), (''retry_safe'', JBool True),
       (''refusal'', JNull), (''wait'', JNull), (''output'', no_output), (''faults'', jtexts (faults d)),
       (''stages'', JArr (stages d))]"

definition decode_end :: "(bytes \<Rightarrow> string) \<Rightarrow> bool \<Rightarrow> decode_state \<Rightarrow> json" where
  "decode_end sha sent d0 =
     (case check_retained sha (trim_incomplete d0) of
        (retained, d) \<Rightarrow>
          (case (if order_fault d then None else terminal_event d) of
             None \<Rightarrow>
               unknown_result sent retained d
                 (if is_accepted d then ''accepted-end-unknown'' else ''possible-effect-unknown'')
                 (faults d @ (if \<not> order_fault d then [''no-final-stage''] else [])) ''unproven''
           | Some fin \<Rightarrow>
               (let name = event_name fin
                in if name = ''end''
                   then (case wait_status (str_or_empty (jindex fin ''status'')) of
                           Some w \<Rightarrow>
                             if str_or_empty (jindex fin ''observer'') \<noteq> ''work-pid1-wait''
                             then unknown_result sent retained d ''ended-status-unknown''
                                    (faults d @ [''end-without-usable-wait-status'']) ''unproven''
                             else ended_result retained d fin w
                         | None \<Rightarrow>
                             unknown_result sent retained d ''ended-status-unknown''
                               (faults d @ [''end-without-usable-wait-status'']) ''unproven'')
                   else if name = ''launch-failed'' \<and> jindex fin ''not_started'' = JBool True then not_started_result d
                   else unknown_result sent retained d
                          (if name \<in> {''launch-failed'', ''launch-unknown''} then ''possible-effect-unknown''
                           else if name = ''left-to-successor'' then ''left-to-successor''
                           else ''accepted-end-unknown'') (faults d) ''unproven'')))"

definition decode :: "(string \<Rightarrow> json option) \<Rightarrow> (bytes \<Rightarrow> string) \<Rightarrow> (io_error + string) list \<Rightarrow> bool \<Rightarrow> json" where
  "decode parse sha lines sent =
     (case decode_lines parse lines decode_start of Inr r \<Rightarrow> r | Inl d \<Rightarrow> decode_end sha sent d)"

subsection \<open>The asynchronous decoder\<close>

record async_state =
  a_stages :: "json list"
  a_faults :: "string list"
  a_detached :: bool
  a_exec_error :: "string option"
  a_terminal :: "json option"

datatype async_flow = AGoOn async_state | ALeave async_state | AReturn json

definition async_refusal :: "json \<Rightarrow> json list \<Rightarrow> json" where
  "async_refusal event sts =
     (let r = jset (refused ''root-owner'' [] []) ''delivery_mode'' (JStr ''async'');
          r1 = jset r ''refusal'' (jset (jset (jindex r ''refusal'') ''reason'' (jindex event ''reason'')) ''detail'' JNull)
      in jset r1 ''stages'' (JArr sts))"

definition async_fault :: "string \<Rightarrow> async_state \<Rightarrow> async_state" where
  "async_fault f d = d\<lparr>a_faults := a_faults d @ [f]\<rparr>"

definition OWED :: string where "OWED = ''owed-to-requesting-harness''"

definition async_stage :: "json \<Rightarrow> async_state \<Rightarrow> async_flow" where
  "async_stage event d0 =
     (let name = event_name event; d = d0\<lparr>a_stages := a_stages d0 @ [event]\<rparr>; n = length (a_stages d)
      in if name = ''refused'' \<and> n = 1 then AReturn (async_refusal event (a_stages d))
         else if name = ''accepted'' \<and> n = 1 \<and> jindex event ''delivery'' = JStr ''async'' then AGoOn d
         else if name = ''started'' \<and> n = 2
         then (case started_exec_error event (a_stages d ! 0) of
                 Inr e \<Rightarrow> AGoOn (d\<lparr>a_exec_error := e\<rparr>)
               | Inl f \<Rightarrow> ALeave (async_fault f d))
         else if name = ''detached'' \<and> n = 3 \<and> jindex event ''work'' = jindex (a_stages d ! 0) ''work'' \<and>
                 (a_exec_error d = None \<or> jindex event ''completion'' = JStr OWED)
         then ALeave (d\<lparr>a_detached := True\<rparr>)
         else if name \<in> {''launch-failed'', ''launch-unknown''} \<and> n = 2 then ALeave (d\<lparr>a_terminal := Some event\<rparr>)
         else ALeave (async_fault (''unexpected-stage: '' @ name) d))"

fun async_lines :: "(string \<Rightarrow> json option) \<Rightarrow> (io_error + string) list \<Rightarrow> async_state \<Rightarrow> async_state + json" where
  "async_lines parse [] d = Inl d"
| "async_lines parse (line # rest) d =
     (case line of
        Inl e \<Rightarrow> Inl (async_fault (''read-failed: '' @ to_string e) d)
      | Inr text \<Rightarrow>
          (case parse text of
             None \<Rightarrow> Inl (async_fault ''protocol-violation: unparseable stage line'' d)
           | Some event \<Rightarrow>
               (case async_stage event d of
                  AGoOn d' \<Rightarrow> async_lines parse rest d'
                | ALeave d' \<Rightarrow> Inl d'
                | AReturn r \<Rightarrow> Inr r)))"

definition async_base :: "bool \<Rightarrow> async_state \<Rightarrow> string \<Rightarrow> string \<Rightarrow> bool \<Rightarrow> json" where
  "async_base sent d outcome meaning effects =
     JObj [(''result_surface'', JStr RESULT_SURFACE), (''version'', JNum 1), (''delivery_mode'', JStr ''async''),
       (''outcome'', JStr outcome), (''meaning'', JStr meaning), (''effects_possible'', JBool effects),
       (''retry_safe'', JBool (\<not> effects)), (''refusal'', JNull), (''wait'', JNull),
       (''output'', JObj [(''delivery'', JStr ''none''), (''bytes'', JNum 0), (''base64'', JStr []),
          (''reference'', jtext (stage_reference (a_stages d)))]),
       (''faults'', jtexts (a_faults d)), (''stages'', JArr (a_stages d)), (''request_sent'', JBool sent),
       (''exec_error'', jtext (a_exec_error d))]"

definition async_end :: "bool \<Rightarrow> async_state \<Rightarrow> json" where
  "async_end sent d =
     (if a_detached d \<and> a_faults d = []
      then jset (async_base sent d (if a_exec_error d \<noteq> None then ''unknown'' else ''running'')
             (if a_exec_error d \<noteq> None
              then ''requested-program-exec-failed; work end, wait and output owed to the requesting harness as a later input''
              else ''accepted-and-started; end, wait and output owed to the requesting harness as a later input'') True)
           ''completion'' (JObj [(''delivery'', JStr OWED), (''work'', jindex (a_stages d ! 0) ''work''),
              (''root_id'', jindex (a_stages d ! 0) ''root_id'')])
      else case a_terminal d of
             Some fin \<Rightarrow>
               if event_name fin = ''launch-failed'' \<and> jindex fin ''not_started'' = JBool True
               then async_base sent d ''not-started'' ''launch-refused-before-start'' False
               else async_base sent d ''unknown'' ''possible-effect-unknown'' True
           | None \<Rightarrow>
               if (case a_stages d of [] \<Rightarrow> False | s # _ \<Rightarrow> jindex s ''event'' = JStr ''accepted'')
               then jset (async_base sent d ''unknown'' ''accepted-completion-delivery-unknown'' True) ''faults''
                      (jtexts (a_faults d @ (if \<not> a_detached d then [''no-detached-stage''] else [])))
               else (let r = async_base sent d ''unknown'' ''possible-effect-unknown'' True
                     in if a_faults d = [] then jset r ''faults'' (jtexts [''no-final-stage'']) else r))"

definition decode_async :: "(string \<Rightarrow> json option) \<Rightarrow> (io_error + string) list \<Rightarrow> bool \<Rightarrow> json" where
  "decode_async parse lines sent =
     (case async_lines parse lines
        \<lparr>a_stages = [], a_faults = [], a_detached = False, a_exec_error = None, a_terminal = None\<rparr> of
        Inr r \<Rightarrow> r
      | Inl d \<Rightarrow> async_end sent d)"

subsection \<open>One request\<close>

datatype root_delivery = RootSync | RootAsync | Unspecified

text \<open>
  \<^verbatim>\<open>run\<close>: the current directory, the outcome of connecting, whether the request was written and what came
  back are arguments; the result is the request sent, if any, and the object printed.
\<close>

definition root_run ::
  "(string \<Rightarrow> json option) \<Rightarrow> (bytes \<Rightarrow> string) \<Rightarrow> io_error + string option \<Rightarrow> io_error + unit \<Rightarrow> bool \<Rightarrow>
   (io_error + string) list \<Rightarrow> string \<Rightarrow> root_delivery \<Rightarrow> string list \<Rightarrow> string list \<Rightarrow> json option \<times> json" where
  "root_run parse sha current_dir connected sent lines ingress delivery unsupported argv =
     (if delivery = Unspecified
      then (None, refused ''agent-bash'' ''delivery-required-under-root-v1''
              ''root v1 needs an explicit --delivery sync or --delivery async'')
      else if unsupported \<noteq> []
      then (None, refused ''agent-bash'' ''option-unavailable-under-root-v1'' (hd unsupported @ '' has no root v1 equivalent''))
      else if ingress = [] then (None, refused ''agent-bash'' ''no-ingress'' ''OULIPOLY_ROOT_BASH_V1 is empty'')
      else case current_dir of
        Inl e \<Rightarrow> (None, refused ''agent-bash'' ''no-cwd'' (to_string e))
      | Inr None \<Rightarrow> (None, refused ''agent-bash'' ''no-cwd'' ''current directory is not UTF-8'')
      | Inr (Some cwd) \<Rightarrow>
          (case connected of
             Inl e \<Rightarrow> (None, refused ''agent-bash'' ''owner-unreachable'' (to_string e))
           | Inr _ \<Rightarrow>
               (let line = JObj [(''v'', JNum 1), (''op'', JStr ''run''), (''argv'', jtexts argv), (''cwd'', JStr cwd)]
                in if delivery = RootAsync
                   then (Some (jset line ''delivery'' (JStr ''async'')), decode_async parse lines sent)
                   else (Some line, decode parse sha lines sent))))"

subsection \<open>Reading and accepting retained output\<close>

definition output_surface :: string where "output_surface = ''agent-bash-root-v1-output''"

definition retained_refusal :: "string \<Rightarrow> json" where
  "retained_refusal reason =
     JObj [(''result_surface'', JStr output_surface), (''version'', JNum 1), (''outcome'', JStr ''refused''), (''reason'', JStr reason)]"

definition retained_unknown :: "bool \<Rightarrow> json" where
  "retained_unknown sent =
     JObj [(''result_surface'', JStr output_surface), (''version'', JNum 1), (''outcome'', JStr ''unknown''),
       (''reason'', JStr ''reply-missing-or-invalid''), (''request_sent'', JBool sent), (''acceptance'', JStr ''unconfirmed'')]"

text \<open>\<^verbatim>\<open>reader.take(400_000).read_until(b'\n')\<close>, of the bytes the socket yields.\<close>

definition reply_line :: "bytes \<Rightarrow> bytes" where
  "reply_line raw =
     (let s = take 400000 raw; body = takeWhile (\<lambda>c. c \<noteq> CHR 0x0A) s
      in if length body < length s then body @ [CHR 0x0A] else body)"

definition acceptance_ok :: "json \<Rightarrow> string \<Rightarrow> int \<Rightarrow> nat \<Rightarrow> string \<Rightarrow> bool" where
  "acceptance_ok reply root work n h \<longleftrightarrow>
     jindex reply ''event'' = JStr ''output-accepted'' \<and> jindex reply ''durable'' = JBool True \<and>
     (case jindex reply ''repeat'' of JBool _ \<Rightarrow> True | _ \<Rightarrow> False) \<and>
     jindex (jindex reply ''receipt'') ''root_id'' = JStr root \<and> as_i64 (jindex (jindex reply ''receipt'') ''work'') = Some work \<and>
     as_u64 (jindex (jindex reply ''receipt'') ''bytes'') = Some n \<and> jindex (jindex reply ''receipt'') ''sha256'' = JStr h"

definition range_ok :: "json \<Rightarrow> nat \<Rightarrow> nat \<Rightarrow> nat \<Rightarrow> bool" where
  "range_ok reply offset len n \<longleftrightarrow>
     (case event_chunk reply of
        None \<Rightarrow> False
      | Some data \<Rightarrow>
          offset \<le> n \<and>
          (let got = min len (n - offset)
           in jindex reply ''event'' = JStr ''output-range'' \<and> as_u64 (jindex reply ''offset'') = Some offset \<and>
              as_u64 (jindex reply ''length'') = Some got \<and> length data = got \<and>
              as_u64 (jindex reply ''next_offset'') = Some (offset + got) \<and>
              jindex reply ''eof'' = JBool (offset + got = n)))"

text \<open>The answer to a reply line; the last branch is the source's \<^verbatim>\<open>expect\<close>, which a valid record never reaches.\<close>

definition answer_retained :: "(string \<Rightarrow> json option) \<Rightarrow> bool \<Rightarrow> bytes \<Rightarrow> string \<Rightarrow> bool \<Rightarrow> nat \<Rightarrow> nat \<Rightarrow> string \<Rightarrow> int \<Rightarrow> json" where
  "answer_retained parse sent line identity acceptance offset len root work =
     (if line = [] \<or> last line \<noteq> CHR 0x0A then retained_unknown sent
      else case parse line of
        None \<Rightarrow> retained_unknown sent
      | Some reply \<Rightarrow>
          (let r = jindex reply ''retained''
           in if jindex reply ''event'' = JStr ''refused''
              then retained_refusal (case as_str (jindex reply ''reason'') of Some t \<Rightarrow> t | None \<Rightarrow> ''owner-refused'')
              else if \<not> valid_record r \<or> jindex r ''root_id'' \<noteq> JStr root \<or> as_i64 (jindex r ''work'') \<noteq> Some work \<or>
                      parse_identity identity \<noteq> None \<and> jindex r ''identity'' \<noteq> JStr identity
              then retained_unknown sent
              else (case (as_u64 (jindex r ''bytes''), as_str (jindex r ''sha256'')) of
                      (Some n, Some h) \<Rightarrow>
                        if (if acceptance then acceptance_ok reply root work n h else range_ok reply offset len n)
                        then JObj [(''result_surface'', JStr output_surface), (''version'', JNum 1),
                               (''outcome'', JStr (if acceptance then ''accepted'' else ''read'')), (''reply'', reply)]
                        else retained_unknown sent
                    | _ \<Rightarrow> retained_unknown sent)))"

definition retained_request :: "string \<Rightarrow> bool \<Rightarrow> nat \<Rightarrow> nat \<Rightarrow> string \<Rightarrow> int \<Rightarrow> json" where
  "retained_request identity acceptance offset len root work =
     (let request = JObj [(''v'', JNum 1), (''op'', JStr (if acceptance then ''accept'' else ''output'')), (''root_id'', JStr root),
            (''work'', JNum work), (''offset'', jnat offset), (''length'', jnat len)]
      in case parse_identity identity of
           None \<Rightarrow> request
         | Some (_, _, n, h) \<Rightarrow> jset (jset request ''bytes'' (jnat n)) ''sha256'' (JStr h))"

definition root_retained ::
  "(string \<Rightarrow> json option) \<Rightarrow> io_error + unit \<Rightarrow> bool \<Rightarrow> io_error + bytes \<Rightarrow> string \<Rightarrow> bool \<Rightarrow> nat \<Rightarrow> nat \<Rightarrow> json option \<times> json" where
  "root_retained parse connected sent raw identity acceptance offset len =
     (let exact = parse_identity identity;
          target = (case exact of Some (root, work, _, _) \<Rightarrow> Some (root, work)
                    | None \<Rightarrow> if acceptance then None else parse_reference identity)
      in case target of
           None \<Rightarrow> (None, retained_refusal ''bad-identity'')
         | Some (root, work) \<Rightarrow>
             if \<not> acceptance \<and> (len = 0 \<or> len > 256 * 1024 \<or>
                  offset > (case exact of Some (_, _, n, _) \<Rightarrow> n | None \<Rightarrow> 64 * 1024 * 1024))
             then (None, retained_refusal ''bad-range'')
             else case connected of
               Inl _ \<Rightarrow> (None, retained_refusal ''owner-unreachable'')
             | Inr _ \<Rightarrow>
                 (Some (retained_request identity acceptance offset len root work),
                  case raw of
                    Inl _ \<Rightarrow> retained_unknown sent
                  | Inr s \<Rightarrow> answer_retained parse sent (reply_line s) identity acceptance offset len root work))"

end
