(* ===== verification/Root_Ingress_Laws.thy ===== *)
theory Root_Ingress_Laws
  imports Root_Ingress
begin

section \<open>What a decoded reply proves\<close>

text \<open>
  The decoders against the stage lines they read: an invariant that relates the decoder's state to
  the events consumed so far, kept by every line, and what the result object may therefore claim.
\<close>

subsection \<open>The invariant\<close>

text \<open>The lines, read as events.\<close>

definition read_as :: "(string \<Rightarrow> json option) \<Rightarrow> (io_error + string) list \<Rightarrow> json list \<Rightarrow> bool" where
  "read_as parse lines evs \<longleftrightarrow> list_all2 (\<lambda>l e. \<exists>t. l = Inr t \<and> parse t = Some e) lines evs"

definition named :: "string \<Rightarrow> json list \<Rightarrow> json list" where
  "named n evs = filter (\<lambda>e. event_name e = n) evs"

definition stream_of :: "json list \<Rightarrow> bytes" where
  "stream_of evs = concat (map (\<lambda>e. the (event_chunk e)) (named ''output'' evs))"

lemma named_append [simp]: "named n (xs @ ys) = named n xs @ named n ys"
  by (simp add: named_def)

lemma named_one [simp]: "named n [e] = (if event_name e = n then [e] else [])"
  by (simp add: named_def)

lemma named_Nil [simp]: "named n [] = []"
  by (simp add: named_def)

definition counted :: "json list \<Rightarrow> decode_state \<Rightarrow> bool" where
  "counted evs d \<longleftrightarrow>
     byte_total d = length (streamed d) \<and> kept d = take OUTPUT_PREFIX_BYTES (streamed d) \<and> (stages d = [] \<longleftrightarrow> evs = []) \<and>
     (output_stage d \<noteq> None \<longrightarrow> stages d \<noteq> [])"

definition ordered :: "json list \<Rightarrow> decode_state \<Rightarrow> bool" where
  "ordered evs d \<longleftrightarrow>
     (is_accepted d \<longleftrightarrow> evs \<noteq> [] \<and> event_name (hd evs) = ''accepted'') \<and>
     (is_started d \<longleftrightarrow> named ''started'' evs \<noteq> []) \<and> (is_started d \<longrightarrow> is_accepted d) \<and>
     (named ''output'' evs \<noteq> [] \<longrightarrow> is_started d)"

definition faithful :: "json list \<Rightarrow> decode_state \<Rightarrow> bool" where
  "faithful evs d \<longleftrightarrow>
     None \<notin> event_chunk ` set (named ''output'' evs) \<and> streamed d = stream_of evs \<and>
     (is_closed d \<longleftrightarrow> named ''output-closed'' evs \<noteq> []) \<and>
     (\<forall>c \<in> set (named ''output-closed'' evs). as_u64 (jindex c ''bytes'') = Some (byte_total d))"

definition tracks_events :: "json list \<Rightarrow> decode_state \<Rightarrow> bool" where
  "tracks_events evs d \<longleftrightarrow>
     counted evs d \<and> (\<not> order_fault d \<longrightarrow> ordered evs d \<and> (\<not> output_fault d \<longrightarrow> faithful evs d))"

lemma tracks_start: "tracks_events [] decode_start"
  by (simp add: tracks_events_def counted_def ordered_def faithful_def decode_start_def stream_of_def)

lemma take_more: "length xs \<le> n \<Longrightarrow> take n (xs @ ys) = xs @ take (n - length xs) ys"
  by simp

lemma counted_chunk:
  assumes "counted evs d"
  shows "take OUTPUT_PREFIX_BYTES (streamed d @ c) =
     kept d @ take (min (length c) (OUTPUT_PREFIX_BYTES - length (kept d))) c"
  using assms by (auto simp: counted_def min_def)

lemmas fault_simps = add_fault_def out_of_order_def bad_output_def

lemma started_hd: "ordered evs d \<Longrightarrow> is_started d \<Longrightarrow> evs \<noteq> []"
  by (auto simp: ordered_def)

text \<open>Taking a chunk touches neither the stage list nor the flags, and ignores the stage bookkeeping.\<close>

lemma take_chunk_frame [simp]:
  "stages (take_chunk c d) = stages d" "output_stage (take_chunk c d) = output_stage d"
  "is_accepted (take_chunk c d) = is_accepted d" "is_started (take_chunk c d) = is_started d"
  "is_closed (take_chunk c d) = is_closed d" "terminal_event (take_chunk c d) = terminal_event d"
  by (simp_all add: take_chunk_def fault_simps split: option.split)

lemma take_chunk_commute [simp]:
  "take_chunk c (d\<lparr>chunk_count := n\<rparr>) = (take_chunk c d)\<lparr>chunk_count := n\<rparr>"
  "take_chunk c (d\<lparr>stages := sts\<rparr>) = (take_chunk c d)\<lparr>stages := sts\<rparr>"
  "take_chunk c (d\<lparr>output_stage := i\<rparr>) = (take_chunk c d)\<lparr>output_stage := i\<rparr>"
  by (simp_all add: take_chunk_def fault_simps split: option.split)

lemma stages_output: "counted evs d \<Longrightarrow> stages (decode_output e d) \<noteq> []"
  by (cases "output_stage d") (auto simp: decode_output_def counted_def Let_def)

lemma decode_output_fields:
  fixes e d
  defines "d1 \<equiv> take_chunk (event_chunk e) d"
  shows "byte_total (decode_output e d) = byte_total d1" "kept (decode_output e d) = kept d1"
    "streamed (decode_output e d) = streamed d1" "is_accepted (decode_output e d) = is_accepted d"
    "is_started (decode_output e d) = is_started d" "is_closed (decode_output e d) = is_closed d"
    "output_fault (decode_output e d) = output_fault d1" "order_fault (decode_output e d) = order_fault d1"
    "terminal_event (decode_output e d) = terminal_event d"
  unfolding d1_def by (cases "output_stage d"; simp add: decode_output_def Let_def)+

lemma stream_output: "event_name e = ''output'' \<Longrightarrow> stream_of (evs @ [e]) = stream_of evs @ the (event_chunk e)"
  by (simp add: stream_of_def)

lemma stream_other: "event_name e \<noteq> ''output'' \<Longrightarrow> stream_of (evs @ [e]) = stream_of evs"
  by (simp add: stream_of_def)

lemma tracks_output:
  assumes "tracks_events evs d" and "event_name e = ''output''"
  shows "tracks_events (evs @ [e]) (decode_output e d)"
proof -
  have c: "counted evs d" using assms(1) by (simp add: tracks_events_def)
  note fields = decode_output_fields stages_output [OF c] take_chunk_def fault_simps
  show ?thesis
  proof (cases "is_started d")
    case False
    with assms show ?thesis by (simp add: tracks_events_def counted_def fields)
  next
    case started: True
    show ?thesis
    proof (cases "event_chunk e")
      case None
      with started assms show ?thesis by (auto simp: tracks_events_def counted_def ordered_def fields hd_append)
    next
      case (Some x)
      show ?thesis
      proof (cases "is_closed d")
        case True
        with Some started assms show ?thesis by (auto simp: tracks_events_def counted_def ordered_def fields hd_append)
      next
        case False
        then have f: "take_chunk (event_chunk e) d = d\<lparr>streamed := streamed d @ x, byte_total := byte_total d + length x,
            kept := take OUTPUT_PREFIX_BYTES (streamed d @ x)\<rparr>"
          using Some started counted_chunk [OF c, of x] by (simp add: take_chunk_def)
        have "counted (evs @ [e]) (decode_output e d)"
          using c stages_output [OF c] by (simp add: counted_def decode_output_fields f)
        moreover have "ordered evs d \<Longrightarrow> ordered (evs @ [e]) (decode_output e d)"
          using started assms(2) by (auto simp: ordered_def decode_output_fields hd_append)
        moreover have "faithful evs d \<Longrightarrow> faithful (evs @ [e]) (decode_output e d)"
          using Some assms(2) False by (auto simp: faithful_def decode_output_fields f [unfolded Some] stream_output)
        ultimately show ?thesis using assms(1) by (simp add: tracks_events_def decode_output_fields f)
      qed
    qed
  qed
qed

definition ends_reply :: "json \<Rightarrow> decode_state \<Rightarrow> bool" where
  "ends_reply e d \<longleftrightarrow>
     event_name e = ''end'' \<and> is_started d \<or>
     event_name e \<in> {''launch-failed'', ''launch-unknown''} \<and> is_accepted d \<and> \<not> is_started d \<or>
     event_name e \<in> {''end-unknown'', ''left-to-successor''} \<and> is_accepted d"

lemma stage_cases:
  assumes "decode_stage e d = GoOn d' \<or> decode_stage e d = Leave d'"
  obtains (accepted) "event_name e = ''accepted''" "stages d = []" "d' = d\<lparr>stages := [e], is_accepted := True\<rparr>"
    | (started) "event_name e = ''started''" "is_accepted d" "\<not> is_started d" "d' = begin_work e (d\<lparr>stages := stages d @ [e]\<rparr>)"
    | (closed) "event_name e = ''output-closed''" "is_started d" "\<not> is_closed d" "d' = close_output e (d\<lparr>stages := stages d @ [e]\<rparr>)"
    | (failed) "event_name e = ''output-failed''" "d' = bad_output ''owner-output-failed'' (d\<lparr>stages := stages d @ [e]\<rparr>)"
    | (terminal) "ends_reply e d" "decode_stage e d = Leave d'" "d' = d\<lparr>stages := stages d @ [e], terminal_event := Some e\<rparr>"
    | (disorder) f where "d' = out_of_order f (d\<lparr>stages := stages d @ [e]\<rparr>)"
proof -
  let ?d = "d\<lparr>stages := stages d @ [e]\<rparr>"
  define refusal where "refusal \<longleftrightarrow> event_name e = ''refused'' \<and> stages d = []"
  define accept where "accept \<longleftrightarrow> event_name e = ''accepted'' \<and> stages d = []"
  define start where "start \<longleftrightarrow> event_name e = ''started'' \<and> is_accepted d \<and> \<not> is_started d"
  define close where "close \<longleftrightarrow> event_name e = ''output-closed'' \<and> is_started d \<and> \<not> is_closed d"
  define fail where "fail \<longleftrightarrow> event_name e = ''output-failed'' \<and> is_started d"
  define fin where "fin \<longleftrightarrow> event_name e = ''end'' \<and> is_started d"
  define launch where "launch \<longleftrightarrow> event_name e \<in> {''launch-failed'', ''launch-unknown''} \<and> is_accepted d \<and> \<not> is_started d"
  define lost where "lost \<longleftrightarrow> event_name e \<in> {''end-unknown'', ''left-to-successor''} \<and> is_accepted d"
  define breaks where "breaks \<longleftrightarrow> event_name e \<in> {''refused'', ''end'', ''end-unknown'', ''launch-failed'', ''launch-unknown'', ''left-to-successor''}"
  define stray where "stray = out_of_order (''unexpected-stage: '' @ event_name e) ?d"
  have eq: "decode_stage e d =
      (if refusal then Return (owner_refusal e (stages d @ [e])) else if accept then GoOn (?d\<lparr>is_accepted := True\<rparr>)
       else if start then GoOn (begin_work e ?d) else if close then GoOn (close_output e ?d)
       else if fail then GoOn (bad_output ''owner-output-failed'' ?d)
       else if fin then Leave (?d\<lparr>terminal_event := Some e\<rparr>) else if launch then Leave (?d\<lparr>terminal_event := Some e\<rparr>)
       else if lost then Leave (?d\<lparr>terminal_event := Some e\<rparr>) else if breaks then Leave stray else GoOn stray)"
    by (simp add: decode_stage_def Let_def refusal_def accept_def start_def close_def fail_def fin_def launch_def lost_def
        breaks_def stray_def cong: if_cong)
  from assms consider "accept" "d' = ?d\<lparr>is_accepted := True\<rparr>" | "start" "d' = begin_work e ?d" | "close" "d' = close_output e ?d"
    | "fail" "d' = bad_output ''owner-output-failed'' ?d"
    | "fin \<or> launch \<or> lost" "decode_stage e d = Leave d'" "d' = ?d\<lparr>terminal_event := Some e\<rparr>" | "d' = stray"
    unfolding eq by (auto split: if_splits)
  then show ?thesis
  proof cases
    case 1 then show ?thesis using that(1) by (simp add: accept_def)
  next
    case 2 then show ?thesis using that(2) by (simp add: start_def)
  next
    case 3 then show ?thesis using that(3) by (simp add: close_def)
  next
    case 4 then show ?thesis using that(4) by (simp add: fail_def)
  next
    case 5
    then have "ends_reply e d" unfolding ends_reply_def fin_def launch_def lost_def by blast
    with 5 show ?thesis using that(5) by simp
  next
    case 6 then show ?thesis using that(6) unfolding stray_def by blast
  qed
qed

lemma tracks_stage:
  assumes t: "tracks_events evs d" and "event_name e \<noteq> ''output''" and "decode_stage e d = GoOn d' \<or> decode_stage e d = Leave d'"
  shows "tracks_events (evs @ [e]) d'"
  using assms(3)
proof (cases rule: stage_cases)
  case accepted
  with t show ?thesis by (auto simp: tracks_events_def counted_def ordered_def faithful_def stream_of_def)
next
  case started
  with t show ?thesis
    by (auto simp: tracks_events_def counted_def ordered_def faithful_def begin_work_def fault_simps hd_append stream_other Let_def split: sum.split)
next
  case closed
  with t show ?thesis
    by (auto simp: tracks_events_def counted_def ordered_def faithful_def close_output_def fault_simps hd_append stream_other Let_def split: if_splits)
next
  case failed
  with t show ?thesis
    by (auto simp: tracks_events_def counted_def ordered_def fault_simps hd_append)
next
  case terminal
  then have "event_name e \<notin> {''accepted'', ''started'', ''output'', ''output-closed''}" "evs \<noteq> [] \<or> \<not> ordered evs d"
    by (auto simp: ends_reply_def ordered_def)
  with t terminal show ?thesis
    by (auto simp: tracks_events_def counted_def ordered_def faithful_def hd_append stream_other)
next
  case disorder
  with t show ?thesis by (auto simp: tracks_events_def counted_def fault_simps)
qed

subsection \<open>Whole replies\<close>

lemma read_as_Nil [simp]: "read_as parse [] []"
  by (simp add: read_as_def)

lemma read_as_Cons [simp]:
  "read_as parse (l # ls) (e # es) \<longleftrightarrow> (\<exists>t. l = Inr t \<and> parse t = Some e) \<and> read_as parse ls es"
  by (simp add: read_as_def)

text \<open>How the loop over the lines ended: with a final stage, without one, or with the owner's refusal.\<close>

definition reply_state :: "(string \<Rightarrow> json option) \<Rightarrow> (io_error + string) list \<Rightarrow> json list \<Rightarrow> decode_state \<Rightarrow> bool" where
  "reply_state parse lines evs d \<longleftrightarrow>
     (\<exists>k new. read_as parse (take k lines) new \<and> tracks_events (evs @ new) d \<and>
        (terminal_event d = None \<or> (\<exists>init e. new = init @ [e] \<and> terminal_event d = Some e \<and> ends_reply e d)))"

lemma reply_state_start: "tracks_events evs d \<Longrightarrow> terminal_event d = None \<Longrightarrow> reply_state parse lines evs d"
  unfolding reply_state_def by (intro exI [of _ 0] exI [of _ "[]"]) simp

lemma reply_state_Cons:
  assumes "reply_state parse ls (evs @ [e]) d" and "parse t = Some e"
  shows "reply_state parse (Inr t # ls) evs d"
proof -
  obtain k new where "read_as parse (take k ls) new" "tracks_events (evs @ [e] @ new) d"
    "terminal_event d = None \<or> (\<exists>init f. new = init @ [f] \<and> terminal_event d = Some f \<and> ends_reply f d)"
    using assms(1) by (auto simp: reply_state_def)
  with assms(2) show ?thesis
    unfolding reply_state_def by (intro exI [of _ "Suc k"] exI [of _ "e # new"]) auto
qed

lemma stage_goes_on: "decode_stage e d = GoOn d' \<Longrightarrow> terminal_event d' = terminal_event d"
  by (cases rule: stage_cases [of e d d'])
    (auto simp: begin_work_def close_output_def fault_simps Let_def split: sum.split)

lemma stage_leaves:
  "decode_stage e d = Leave d' \<Longrightarrow> terminal_event d' = terminal_event d \<or> terminal_event d' = Some e \<and> ends_reply e d'"
  by (cases rule: stage_cases [of e d d'])
    (auto simp: begin_work_def close_output_def fault_simps ends_reply_def Let_def split: sum.split)

lemma lines_reply:
  "decode_lines parse lines d = Inl d' \<Longrightarrow> tracks_events evs d \<Longrightarrow> terminal_event d = None \<Longrightarrow> reply_state parse lines evs d'"
proof (induction lines arbitrary: d evs)
  case Nil
  then show ?case by (simp add: reply_state_start)
next
  case (Cons l ls)
  show ?case
  proof (cases l)
    case (Inl e)
    with Cons.prems have "d' = add_fault (''read-failed: '' @ to_string e) d" by (simp add: decode_line_def)
    with Cons.prems show ?thesis
      by (intro reply_state_start) (auto simp: tracks_events_def counted_def ordered_def faithful_def fault_simps)
  next
    case (Inr t)
    show ?thesis
    proof (cases "parse t")
      case None
      with Inr Cons.prems have "d' = out_of_order ''protocol-violation: unparseable stage line'' d" by (simp add: decode_line_def)
      with Cons.prems show ?thesis
        by (intro reply_state_start) (auto simp: tracks_events_def counted_def fault_simps)
    next
      case (Some e)
      have go: "reply_state parse (l # ls) evs d'"
        if "decode_lines parse ls d1 = Inl d'" "tracks_events (evs @ [e]) d1" "terminal_event d1 = None" for d1
        using Cons.IH [OF that] Some Inr by (simp add: reply_state_Cons)
      show ?thesis
      proof (cases "event_name e = ''output''")
        case True
        with Inr Some Cons.prems show ?thesis
          by (intro go [of "decode_output e d"]) (auto simp: decode_line_def tracks_output decode_output_fields)
      next
        case False
        note step = tracks_stage [OF Cons.prems(2) False]
        from Inr Some False Cons.prems(1) consider d1 where "decode_stage e d = GoOn d1" "decode_lines parse ls d1 = Inl d'"
          | "decode_stage e d = Leave d'"
          by (auto simp: decode_line_def split: flow.splits)
        then show ?thesis
        proof cases
          case 1
          with step stage_goes_on [OF 1(1)] Cons.prems(3) show ?thesis by (intro go) auto
        next
          case 2
          from stage_leaves [OF this] Cons.prems(3) step 2 Inr Some show ?thesis
            unfolding reply_state_def by (intro exI [of _ 1] exI [of _ "[e]"]) auto
        qed
      qed
    qed
  qed
qed

lemma stage_returns:
  "decode_stage e d = Return r \<Longrightarrow> event_name e = ''refused'' \<and> stages d = [] \<and> r = owner_refusal e [e]"
  by (auto simp: decode_stage_def Let_def split: if_splits)

lemma lines_refused:
  "decode_lines parse lines d = Inr r \<Longrightarrow> tracks_events evs d \<Longrightarrow>
   evs = [] \<and> (\<exists>t e. lines \<noteq> [] \<and> hd lines = Inr t \<and> parse t = Some e \<and> event_name e = ''refused'' \<and> r = owner_refusal e [e])"
proof (induction lines arbitrary: d evs)
  case (Cons l ls)
  then obtain t e where l: "l = Inr t" "parse t = Some e"
    by (auto simp: decode_line_def split: sum.splits option.splits)
  show ?case
  proof (cases "event_name e = ''output''")
    case True
    with l Cons.prems Cons.IH [OF _ tracks_output [OF Cons.prems(2) True]] show ?thesis by (simp add: decode_line_def)
  next
    case False
    from l False Cons.prems(1) consider d1 where "decode_stage e d = GoOn d1" "decode_lines parse ls d1 = Inr r"
      | "decode_stage e d = Return r"
      by (auto simp: decode_line_def split: flow.splits)
    then show ?thesis
    proof cases
      case 1
      with Cons.IH [OF 1(2) tracks_stage [OF Cons.prems(2) False]] show ?thesis by simp
    next
      case 2
      from stage_returns [OF this] Cons.prems(2) l show ?thesis by (auto simp: tracks_events_def counted_def)
    qed
  qed
qed simp

subsection \<open>The result object\<close>

text \<open>Trimming and the check of the retained record change the presented kept and the faults only.\<close>

lemma finish_frame:
  assumes "check_retained sha (trim_incomplete d0) = (retained, d)"
  shows "terminal_event d = terminal_event d0" "is_accepted d = is_accepted d0" "is_started d = is_started d0"
    "is_closed d = is_closed d0" "order_fault d = order_fault d0" "output_fault d = output_fault d0" "byte_total d = byte_total d0"
    "streamed d = streamed d0" "\<exists>n. kept d = take n (kept d0)"
proof -
  have trim: "\<exists>n. trim_incomplete d0 = d0\<lparr>kept := take n (kept d0)\<rparr>"
    unfolding trim_incomplete_def by (auto split: option.split prod.split intro: exI [of _ "length (kept d0)"])
  have "d = trim_incomplete d0 \<or> d = add_fault MISMATCH (trim_incomplete d0)"
    using assms by (simp add: check_retained_def Let_def split: if_splits) blast?
  with trim show "terminal_event d = terminal_event d0" "is_accepted d = is_accepted d0" "is_started d = is_started d0"
    "is_closed d = is_closed d0" "order_fault d = order_fault d0" "output_fault d = output_fault d0"
    "byte_total d = byte_total d0" "streamed d = streamed d0" "\<exists>n. kept d = take n (kept d0)"
    by (auto simp: fault_simps)
qed

lemmas result_simps = unknown_result_def ended_result_def not_started_result_def owner_refusal_def presentation_def Let_def

lemma decode_endE:
  assumes "jindex (decode_end sha sent d0) ''outcome'' = JStr ''ended''"
  obtains retained d fin w where "check_retained sha (trim_incomplete d0) = (retained, d)" "\<not> order_fault d"
    "terminal_event d = Some fin" "event_name fin = ''end''" "wait_status (str_or_empty (jindex fin ''status'')) = Some w"
    "str_or_empty (jindex fin ''observer'') = ''work-pid1-wait''" "decode_end sha sent d0 = ended_result retained d fin w"
    "is_closed d" "\<not> output_fault d" "as_u64 (jindex (jindex fin ''output'') ''bytes'') = Some (byte_total d)"
  using assms
  by (auto simp: decode_end_def result_simps split: prod.splits option.splits if_splits)

lemma decode_end_retry:
  assumes "jindex (decode_end sha sent d0) ''retry_safe'' = JBool True"
  shows "\<exists>fin. \<not> order_fault d0 \<and> terminal_event d0 = Some fin \<and> event_name fin = ''launch-failed'' \<and>
    jindex fin ''not_started'' = JBool True"
proof -
  obtain retained d where c: "check_retained sha (trim_incomplete d0) = (retained, d)" by force
  with assms have "\<exists>fin. \<not> order_fault d \<and> terminal_event d = Some fin \<and> event_name fin = ''launch-failed'' \<and>
      jindex fin ''not_started'' = JBool True"
    by (auto simp: decode_end_def result_simps split: option.splits if_splits)
  then show ?thesis by (simp add: finish_frame [OF c])
qed

subsection \<open>Properties\<close>

text \<open>
  C25. A result that says \<open>ended\<close> is proven by the stage lines: they read as an accepted run that was
  started and whose last stage is an end with a usable wait status observed by the work's own
  \<^verbatim>\<open>PID 1\<close>; every output chunk decoded, the closure and the end both count exactly the bytes of
  the chunks; and the object's byte count is that number, its base64 text decodes to a prefix of the
  stream of at most 64 KiB, and the delivery is called complete only if that prefix is the stream.
\<close>

theorem ended_result_proven:
  assumes "jindex (decode parse sha lines sent) ''outcome'' = JStr ''ended''"
  shows "\<exists>k evs fin p. read_as parse (take k lines) (evs @ [fin]) \<and> event_name (hd (evs @ [fin])) = ''accepted'' \<and>
     named ''started'' (evs @ [fin]) \<noteq> [] \<and> event_name fin = ''end'' \<and>
     wait_status (str_or_empty (jindex fin ''status'')) \<noteq> None \<and> str_or_empty (jindex fin ''observer'') = ''work-pid1-wait'' \<and>
     None \<notin> event_chunk ` set (named ''output'' evs) \<and> named ''output-closed'' evs \<noteq> [] \<and>
     (\<forall>c. c \<in> set (named ''output-closed'' evs) \<longrightarrow> as_u64 (jindex c ''bytes'') = Some (length (stream_of evs))) \<and>
     as_u64 (jindex (jindex fin ''output'') ''bytes'') = Some (length (stream_of evs)) \<and>
     jindex (jindex (decode parse sha lines sent) ''output'') ''bytes'' = jnat (length (stream_of evs)) \<and>
     jindex (jindex (decode parse sha lines sent) ''output'') ''base64'' = JStr (base64 p) \<and>
     p = take (length p) (stream_of evs) \<and> length p \<le> 64 * 1024 \<and>
     (jindex (jindex (decode parse sha lines sent) ''output'') ''delivery'' = JStr ''complete'' \<longrightarrow> p = stream_of evs)"
proof (cases "decode_lines parse lines decode_start")
  case (Inr r)
  with assms lines_refused [OF Inr tracks_start] show ?thesis by (auto simp: decode_def owner_refusal_def)
next
  case (Inl d0)
  have dec: "decode parse sha lines sent = decode_end sha sent d0" using Inl by (simp add: decode_def)
  from assms obtain retained d fin w where c: "check_retained sha (trim_incomplete d0) = (retained, d)"
    and e: "\<not> order_fault d" "terminal_event d = Some fin" "event_name fin = ''end''"
      "wait_status (str_or_empty (jindex fin ''status'')) = Some w" "str_or_empty (jindex fin ''observer'') = ''work-pid1-wait''"
    and res: "decode_end sha sent d0 = ended_result retained d fin w"
    and f: "is_closed d" "\<not> output_fault d" "as_u64 (jindex (jindex fin ''output'') ''bytes'') = Some (byte_total d)"
    unfolding dec by (rule decode_endE)
  note frame = finish_frame [OF c]
  have "terminal_event decode_start = None" by (simp add: decode_start_def)
  from lines_reply [OF Inl tracks_start this] e(2) frame(1) obtain k evs where r:
    "read_as parse (take k lines) (evs @ [fin])" "tracks_events (evs @ [fin]) d0" "ends_reply fin d0"
    by (auto simp: reply_state_def)
  from r(2) e(1) f(2) frame have t: "counted (evs @ [fin]) d0" "ordered (evs @ [fin]) d0" "faithful (evs @ [fin]) d0"
    by (simp_all add: tracks_events_def)
  have st: "stream_of (evs @ [fin]) = stream_of evs" using e(3) by (simp add: stream_other)
  have tot: "byte_total d = length (stream_of evs)" "streamed d = stream_of evs"
    using t(1,3) frame st by (simp_all add: counted_def faithful_def)
  obtain n where n: "kept d = take n (take OUTPUT_PREFIX_BYTES (stream_of evs))"
    using frame(9) t(1,3) st by (auto simp: counted_def faithful_def)
  have p: "kept d = take (length (kept d)) (stream_of evs)" "length (kept d) \<le> 64 * 1024"
    using n by (auto simp: OUTPUT_PREFIX_BYTES_def min_def)
  have complete: "jindex (jindex (ended_result retained d fin w) ''output'') ''delivery'' = JStr ''complete'' \<longrightarrow> kept d = stream_of evs"
    using p(1) tot by (auto simp: result_simps split: if_splits)
  show ?thesis
    unfolding dec res
    by (intro exI [of _ k] exI [of _ evs] exI [of _ fin] exI [of _ "kept d"] conjI r(1) e(3,5) p complete)
      (use t e f r(3) frame tot in \<open>auto simp: ordered_def faithful_def ends_reply_def result_simps\<close>)
qed

subsubsection \<open>Retrying\<close>

lemma jindex_jset: "is_object x \<Longrightarrow> jindex (jset x k v) k' = (if k' = k then v else jindex x k')"
  by (cases x) (simp_all add: is_object_def update_conv)

lemma async_base_retry [simp]:
  "is_object (async_base sent d outcome meaning effects)"
  "jindex (async_base sent d outcome meaning effects) ''retry_safe'' = JBool (\<not> effects)"
  by (simp_all add: async_base_def is_object_def)

lemma async_stage_cases:
  obtains (refusal) "event_name e = ''refused''" "a_stages d = []" "async_stage e d = AReturn (async_refusal e [e])"
    | (accepted) "event_name e = ''accepted''" "a_stages d = []" "async_stage e d = AGoOn (d\<lparr>a_stages := [e]\<rparr>)"
    | (started) x where "length (a_stages d) = 1" "async_stage e d = AGoOn (d\<lparr>a_stages := a_stages d @ [e], a_exec_error := x\<rparr>)"
    | (terminal) "length (a_stages d) = 1" "async_stage e d = ALeave (d\<lparr>a_stages := a_stages d @ [e], a_terminal := Some e\<rparr>)"
    | (other) d' where "async_stage e d = ALeave d'" "a_terminal d' = a_terminal d"
proof -
  let ?d = "d\<lparr>a_stages := a_stages d @ [e]\<rparr>"
  define refusal where "refusal \<longleftrightarrow> event_name e = ''refused'' \<and> a_stages d = []"
  define accept where "accept \<longleftrightarrow> event_name e = ''accepted'' \<and> a_stages d = [] \<and> jindex e ''delivery'' = JStr ''async''"
  define start where "start \<longleftrightarrow> event_name e = ''started'' \<and> length (a_stages d) = 1"
  define detach where "detach \<longleftrightarrow> event_name e = ''detached'' \<and> length (a_stages ?d) = 3 \<and>
      jindex e ''work'' = jindex (a_stages ?d ! 0) ''work'' \<and> (a_exec_error ?d = None \<or> jindex e ''completion'' = JStr OWED)"
  define launch where "launch \<longleftrightarrow> event_name e \<in> {''launch-failed'', ''launch-unknown''} \<and> length (a_stages d) = 1"
  have eq: "async_stage e d =
      (if refusal then AReturn (async_refusal e (a_stages ?d)) else if accept then AGoOn ?d
       else if start then (case started_exec_error e (a_stages ?d ! 0) of Inr x \<Rightarrow> AGoOn (?d\<lparr>a_exec_error := x\<rparr>)
         | Inl f \<Rightarrow> ALeave (async_fault f ?d))
       else if detach then ALeave (?d\<lparr>a_detached := True\<rparr>) else if launch then ALeave (?d\<lparr>a_terminal := Some e\<rparr>)
       else ALeave (async_fault (''unexpected-stage: '' @ event_name e) ?d))"
    by (simp add: async_stage_def Let_def refusal_def accept_def start_def detach_def launch_def numeral_eq_Suc cong: if_cong)
  consider "refusal" | "accept" "\<not> refusal" | "start" "\<not> refusal" "\<not> accept" | "detach" "\<not> refusal" "\<not> accept" "\<not> start"
    | "launch" "\<not> refusal" "\<not> accept" "\<not> start" "\<not> detach" | "\<not> refusal" "\<not> accept" "\<not> start" "\<not> detach" "\<not> launch" by blast
  then show ?thesis
  proof cases
    case 1 with eq that(1) show ?thesis by (simp add: refusal_def)
  next
    case 2 with eq that(2) show ?thesis by (simp add: accept_def)
  next
    case 3 with eq that(3,5) show ?thesis
      by (cases "started_exec_error e (a_stages ?d ! 0)") (simp_all add: start_def async_fault_def)
  next
    case 4 with eq that(5) show ?thesis by simp
  next
    case 5 with eq that(4) show ?thesis by (simp add: launch_def)
  next
    case 6 with eq that(5) show ?thesis by (simp add: async_fault_def)
  qed
qed

lemma async_stage_terminal:
  assumes "a_terminal d = None"
  shows "async_stage e d = AGoOn d' \<Longrightarrow> a_terminal d' = None \<and> a_stages d' = a_stages d @ [e] \<and>
      (a_stages d = [] \<longrightarrow> event_name e = ''accepted'')"
    and "async_stage e d = ALeave d' \<Longrightarrow> a_terminal d' = None \<or> a_terminal d' = Some e \<and> length (a_stages d) = 1"
    and "async_stage e d = AReturn r \<Longrightarrow> a_stages d = [] \<and> event_name e = ''refused''"
  by (cases rule: async_stage_cases [of e d]; use assms in auto)+

lemma async_terminal:
  "async_lines parse lines d = Inl d' \<Longrightarrow> a_terminal d = None \<Longrightarrow> a_terminal d' = Some fin \<Longrightarrow>
   (\<exists>k evs. read_as parse (take k lines) evs \<and> length (a_stages d @ evs) = 2 \<and> last (a_stages d @ evs) = fin \<and>
      (a_stages d = [] \<longrightarrow> event_name (hd evs) = ''accepted''))"
proof (induction lines arbitrary: d)
  case (Cons l ls)
  then obtain t e where l: "l = Inr t" "parse t = Some e"
    by (auto simp: async_fault_def split: sum.splits option.splits)
  show ?case
  proof (cases "async_stage e d")
    case (AGoOn d1)
    note go = async_stage_terminal(1) [OF Cons.prems(2) AGoOn]
    with AGoOn l Cons.prems Cons.IH [of d1] obtain k evs where
      "read_as parse (take k ls) evs" "length (a_stages d @ e # evs) = 2" "last (a_stages d @ e # evs) = fin" by auto
    with go l show ?thesis by (intro exI [of _ "Suc k"] exI [of _ "e # evs"]) auto
  next
    case (ALeave d1)
    with l Cons.prems async_stage_terminal(2) [OF Cons.prems(2) ALeave] show ?thesis
      by (intro exI [of _ 1] exI [of _ "[e]"]) (auto simp: length_Suc_conv)
  next
    case (AReturn r)
    with l Cons.prems(1) show ?thesis by simp
  qed
qed simp

lemma async_refused:
  "async_lines parse lines d = Inr r \<Longrightarrow> a_terminal d = None \<Longrightarrow>
   a_stages d = [] \<and> (\<exists>t e. lines \<noteq> [] \<and> hd lines = Inr t \<and> parse t = Some e \<and> event_name e = ''refused'')"
proof (induction lines arbitrary: d)
  case (Cons l ls)
  then obtain t e where l: "l = Inr t" "parse t = Some e" by (auto split: sum.splits option.splits)
  show ?case
  proof (cases "async_stage e d")
    case (AGoOn d1)
    with l Cons.prems Cons.IH [of d1] async_stage_terminal(1) [OF Cons.prems(2) AGoOn] show ?thesis by simp
  next
    case (ALeave d1)
    with l Cons.prems(1) show ?thesis by simp
  next
    case (AReturn r')
    with l Cons.prems async_stage_terminal(3) [OF Cons.prems(2) AReturn] show ?thesis by simp
  qed
qed simp

lemma async_end_retry:
  assumes "jindex (async_end sent d) ''retry_safe'' = JBool True"
  shows "\<exists>fin. a_terminal d = Some fin \<and> event_name fin = ''launch-failed'' \<and> jindex fin ''not_started'' = JBool True"
  using assms by (cases "a_terminal d") (simp_all add: async_end_def jindex_jset Let_def split: if_splits)

text \<open>Evidence that nothing was started: the owner refused at once, or accepted and then said that the launch failed.\<close>

definition no_start_evidence :: "(string \<Rightarrow> json option) \<Rightarrow> (io_error + string) list \<Rightarrow> bool" where
  "no_start_evidence parse lines \<longleftrightarrow>
     (\<exists>k evs fin. read_as parse (take k lines) (evs @ [fin]) \<and> named ''started'' (evs @ [fin]) = [] \<and>
        named ''output'' (evs @ [fin]) = [] \<and>
        (evs = [] \<and> event_name fin = ''refused'' \<or>
         evs \<noteq> [] \<and> event_name (hd evs) = ''accepted'' \<and> event_name fin = ''launch-failed'' \<and> jindex fin ''not_started'' = JBool True))"

lemma refusal_evidence:
  "lines \<noteq> [] \<Longrightarrow> hd lines = Inr t \<Longrightarrow> parse t = Some e \<Longrightarrow> event_name e = ''refused'' \<Longrightarrow> no_start_evidence parse lines"
  unfolding no_start_evidence_def by (intro exI [of _ 1] exI [of _ "[]"] exI [of _ e]) (cases lines; simp)

text \<open>
  C26. A reply is called safe to retry only on positive evidence that the command was not started:
  the first stage is the owner's refusal, or the first stage is its acceptance and the last one read
  says that the launch failed without a start, with no started or output stage in between. This
  holds for both decoders and every transcript, cut short, out of order or unparseable.
\<close>

theorem retry_safe_means_not_started:
  "(jindex (decode parse sha lines sent) ''retry_safe'' = JBool True \<longrightarrow> no_start_evidence parse lines) \<and>
   (jindex (decode_async parse lines sent) ''retry_safe'' = JBool True \<longrightarrow> no_start_evidence parse lines)"
proof (intro conjI impI)
  assume safe: "jindex (decode parse sha lines sent) ''retry_safe'' = JBool True"
  show "no_start_evidence parse lines"
  proof (cases "decode_lines parse lines decode_start")
    case (Inr r)
    with lines_refused [OF Inr tracks_start] show ?thesis by (auto intro: refusal_evidence)
  next
    case (Inl d0)
    with safe have "jindex (decode_end sha sent d0) ''retry_safe'' = JBool True" by (simp add: decode_def)
    from decode_end_retry [OF this] obtain fin where fin: "\<not> order_fault d0" "terminal_event d0 = Some fin"
      "event_name fin = ''launch-failed''" "jindex fin ''not_started'' = JBool True" by blast
    have "terminal_event decode_start = None" by (simp add: decode_start_def)
    from lines_reply [OF Inl tracks_start this] fin(2) obtain k evs where r:
      "read_as parse (take k lines) (evs @ [fin])" "tracks_events (evs @ [fin]) d0" "ends_reply fin d0"
      by (auto simp: reply_state_def)
    then have "ordered (evs @ [fin]) d0" "is_accepted d0" "\<not> is_started d0"
      using fin(1,3) by (auto simp: tracks_events_def ends_reply_def)
    with r(1) fin show ?thesis
      unfolding no_start_evidence_def
      by (intro exI [of _ k] exI [of _ evs] exI [of _ fin]) (auto simp: ordered_def hd_append split: if_splits)
  qed
next
  let ?start = "\<lparr>a_stages = [], a_faults = [], a_detached = False, a_exec_error = None, a_terminal = None\<rparr>"
  assume safe: "jindex (decode_async parse lines sent) ''retry_safe'' = JBool True"
  show "no_start_evidence parse lines"
  proof (cases "async_lines parse lines ?start")
    case (Inr r)
    from async_refused [OF this] show ?thesis by (auto intro: refusal_evidence)
  next
    case (Inl d)
    with safe have "jindex (async_end sent d) ''retry_safe'' = JBool True" by (simp add: decode_async_def)
    from async_end_retry [OF this] obtain fin where fin: "a_terminal d = Some fin" "event_name fin = ''launch-failed''"
      "jindex fin ''not_started'' = JBool True" by blast
    from async_terminal [OF Inl _ fin(1)] obtain k evs where r: "read_as parse (take k lines) evs" "length evs = 2"
      "last evs = fin" "event_name (hd evs) = ''accepted''" by auto
    then obtain e where "evs = [e] @ [fin]" by (auto simp: numeral_2_eq_2 length_Suc_conv)
    with r fin show ?thesis
      unfolding no_start_evidence_def by (intro exI [of _ k] exI [of _ "[e]"] exI [of _ fin]) (auto simp: named_def)
  qed
qed

subsection \<open>Witnesses\<close>

text \<open>A transcript: accepted, started, two bytes of output, closed, ended; and a refusal.\<close>

definition sample_event :: "string \<Rightarrow> (string \<times> json) list \<Rightarrow> json" where
  "sample_event n kvs = JObj ((''event'', JStr n) # kvs)"

definition sample_parse :: "string \<Rightarrow> json option" where
  "sample_parse = map_of [
     (''a'', sample_event ''accepted'' []), (''s'', sample_event ''started'' []),
     (''o'', sample_event ''output'' [(''b64'', JStr (base64 ''hi''))]),
     (''c'', sample_event ''output-closed'' [(''bytes'', JNum 2)]),
     (''e'', sample_event ''end'' [(''status'', JStr ''code:0''), (''observer'', JStr ''work-pid1-wait''),
        (''output'', JObj [(''state'', JStr ''closed''), (''bytes'', JNum 2)])]),
     (''r'', sample_event ''refused'' [])]"

definition sample_lines :: "(io_error + string) list" where
  "sample_lines = map Inr [''a'', ''s'', ''o'', ''c'', ''e'']"

lemma code_zero: "wait_status ''code:0'' = Some (JObj [(''code'', JNum 0)])"
  by (simp add: wait_status_def strip_prefix_def parse_i32_def digits_val_def digit_val_def i32_range_def)

lemma sample_ended: "jindex (decode sample_parse (\<lambda>_. []) sample_lines True) ''outcome'' = JStr ''ended''"
proof -
  have chunk: "event_chunk (sample_event ''output'' [(''b64'', JStr (base64 ''hi''))]) = Some ''hi''"
    by (simp add: event_chunk_def sample_event_def unbase64_base64)
  let ?d = "\<lparr>stages = [sample_event ''accepted'' [], sample_event ''started'' [],
      JObj [(''event'', JStr ''output''), (''chunks'', jnat 1), (''bytes'', jnat 2)],
      sample_event ''output-closed'' [(''bytes'', JNum 2)], the (sample_parse ''e'')],
      faults = [], kept = ''hi'', byte_total = 2, output_stage = Some 2, chunk_count = 1, streamed = ''hi'', is_accepted = True,
      is_started = True, exec_error = None, is_closed = True, output_fault = False, order_fault = False,
      terminal_event = Some (the (sample_parse ''e''))\<rparr>"
  have "decode_lines sample_parse sample_lines decode_start = Inl ?d"
    using chunk
    by (simp add: sample_lines_def sample_parse_def decode_line_def decode_stage_def decode_start_def begin_work_def close_output_def
        started_exec_error_def decode_output_def take_chunk_def event_name_def str_or_empty_def sample_event_def as_u64_def
        OUTPUT_PREFIX_BYTES_def jnat_def Let_def)
  then show ?thesis
    by (simp add: decode_def decode_end_def check_retained_def trim_incomplete_def ended_result_def sample_parse_def sample_event_def
        event_name_def str_or_empty_def code_zero as_u64_def Let_def)
qed

theorem ended_result_proven_witness:
  "\<exists>k evs fin. read_as sample_parse (take k sample_lines) (evs @ [fin]) \<and> event_name fin = ''end'' \<and>
     jindex (jindex (decode sample_parse (\<lambda>_. []) sample_lines True) ''output'') ''bytes'' = jnat (length (stream_of evs))"
  using ended_result_proven [OF sample_ended] by blast

theorem retry_safe_means_not_started_witness:
  "jindex (decode sample_parse (\<lambda>_. []) [Inr ''r''] True) ''retry_safe'' = JBool True \<and> no_start_evidence sample_parse [Inr ''r'']"
proof -
  have "jindex (decode sample_parse (\<lambda>_. []) [Inr ''r''] True) ''retry_safe'' = JBool True"
    by (simp add: decode_def sample_parse_def decode_line_def decode_stage_def decode_start_def event_name_def str_or_empty_def
        sample_event_def owner_refusal_def Let_def)
  with retry_safe_means_not_started [of sample_parse "\<lambda>_. []" "[Inr ''r'']" True] show ?thesis by blast
qed

end
