(* ===== verification/Root_Selection.thy ===== *)
theory Root_Selection
  imports Root_Ingress Process_Identity
begin

section \<open>Is this run inside a paired root?\<close>

text \<open>
  The selection part of \<^verbatim>\<open>src/src/root_work.rs\<close>. Before a run may be supervised standalone, three witnesses
  of a paired root are consulted: the environment's authority and requirement markers, the
  inherited session keyring, whose kernel description is parsed exactly, and the chain of living
  ancestors. Every doubt is an error, never a standalone run. What the kernel and procfs answer are
  arguments; an ancestor is observed once per step of the walk.
\<close>

subsection \<open>The session keyring\<close>

definition PAIRED_RING_PREFIX :: string where
  "PAIRED_RING_PREFIX = ''oulipoly-paired-original-work-v1:''"

definition EXECUTOR_ARG :: string where
  "EXECUTOR_ARG = ''__root-original-work-v1''"

definition MAX_KEY_DESCRIPTION_BYTES :: nat where
  "MAX_KEY_DESCRIPTION_BYTES = 256"

definition u32_max :: nat where "u32_max = 4294967295"

definition operation_error :: "string \<Rightarrow> io_error \<Rightarrow> io_error" where
  "operation_error operation e = io_new (kind e) (operation @ '': '' @ to_string e)"

definition lower_hex :: "char \<Rightarrow> bool" where
  "lower_hex c \<longleftrightarrow> (let b = of_char c :: nat in 48 \<le> b \<and> b \<le> 57 \<or> 97 \<le> b \<and> b \<le> 102)"

definition valid_paired_ring_uuid :: "string \<Rightarrow> bool" where
  "valid_paired_ring_uuid u \<longleftrightarrow>
     length u = 36 \<and>
     list_all (\<lambda>(i, c). if i \<in> {8, 13, 18, 23} then c = CHR ''-'' else lower_hex c) (enumerate 0 u) \<and>
     u ! 14 = CHR ''4'' \<and> u ! 19 \<in> {CHR ''8'', CHR ''9'', CHR ''a'', CHR ''b''}"

definition canonical_decimal :: "string \<Rightarrow> io_error + nat" where
  "canonical_decimal v =
     (case parse_unsigned u32_max v of
        None \<Rightarrow> Inl (io_other ''invalid session keyring owner'')
      | Some n \<Rightarrow> if nat_dec n \<noteq> v then Inl (io_other ''noncanonical session keyring owner'') else Inr n)"

definition ring_name_ok :: "string \<Rightarrow> bool" where
  "ring_name_ok name \<longleftrightarrow>
     name \<noteq> [] \<and> list_all (\<lambda>c. (of_char c :: nat) < 128) name \<and>
     \<not> list_ex (\<lambda>c. (of_char c :: nat) < 32 \<or> (of_char c :: nat) = 127) name"

definition parse_ring_fields :: "string \<Rightarrow> string \<Rightarrow> string \<Rightarrow> string \<Rightarrow> nat \<Rightarrow> io_error + bool" where
  "parse_ring_fields owner grp permissions name effective_uid =
     (case canonical_decimal owner of
        Inl e \<Rightarrow> Inl e
      | Inr n \<Rightarrow>
          if n \<noteq> effective_uid then Inl (io_other ''session keyring owner UID differs from caller'')
          else
            (case canonical_decimal grp of
               Inl e \<Rightarrow> Inl e
             | Inr _ \<Rightarrow>
                 if length permissions \<noteq> 8 \<or> \<not> list_all is_ascii_hexdigit permissions
                 then Inl (io_other ''invalid session keyring permission description'')
                 else if \<not> ring_name_ok name then Inl (io_other ''invalid session keyring name'')
                 else
                   (case strip_prefix PAIRED_RING_PREFIX name of
                      None \<Rightarrow> Inr False
                    | Some u \<Rightarrow>
                        if valid_paired_ring_uuid u then Inr True
                        else Inl (io_other ''invalid paired session keyring UUID''))))"

definition parse_session_ring_description :: "bytes \<Rightarrow> nat \<Rightarrow> io_error + bool" where
  "parse_session_ring_description description effective_uid =
     (if from_utf8_error description \<noteq> None
      then Inl (io_other ''invalid session keyring description encoding'')
      else
        (case split_at_char (CHR '';'') description of
           [tag, owner, grp, permissions, name] \<Rightarrow>
             if tag = ''keyring'' then parse_ring_fields owner grp permissions name effective_uid
             else Inl (io_other ''invalid session keyring description fields'')
         | _ \<Rightarrow> Inl (io_other ''invalid session keyring description fields'')))"

text \<open>\<^verbatim>\<open>keyctl\<close> answers an identifier or an error; a description with the length the kernel reports.\<close>

definition session_ring_id :: "io_error + int \<Rightarrow> io_error + int" where
  "session_ring_id answer =
     (case answer of
        Inl e \<Rightarrow> Inl e
      | Inr n \<Rightarrow> if n = 0 \<or> n > 2147483647 then Inl (io_other ''invalid session keyring identifier'') else Inr n)"

definition inherited_paired_session_ring ::
  "io_error + int \<Rightarrow> io_error + bytes \<Rightarrow> nat \<Rightarrow> io_error + int \<Rightarrow> nat \<Rightarrow> io_error + bool" where
  "inherited_paired_session_ring first described len again effective_uid =
     (case session_ring_id first of
        Inl e \<Rightarrow> Inl (operation_error ''keyctl GET_KEYRING_ID initial'' e)
      | Inr ring \<Rightarrow>
          (case described of
             Inl e \<Rightarrow> Inl (operation_error ''keyctl DESCRIBE session keyring'' e)
           | Inr buffer \<Rightarrow>
               if len = 0 \<or> len > MAX_KEY_DESCRIPTION_BYTES \<or> len > length buffer \<or> buffer ! (len - 1) \<noteq> CHR 0x00
               then Inl (io_other ''session keyring description is missing or truncated'')
               else
                 (case session_ring_id again of
                    Inl e \<Rightarrow> Inl (operation_error ''keyctl GET_KEYRING_ID recheck'' e)
                  | Inr ring' \<Rightarrow>
                      if ring' \<noteq> ring then Inl (io_other ''session keyring identity changed during classification'')
                      else parse_session_ring_description (take (len - 1) buffer) effective_uid)))"

subsection \<open>Living ancestors\<close>

text \<open>
  One ancestor as one step of the walk sees it: start time and parent, owner, command line (the
  error of opening it or what was read), image, descriptor links, and the start time read again.
\<close>

record ancestor =
  start_before :: "nat option"
  parent_pid :: "pid option"
  owner_uid :: "io_error + nat"
  cmdline_open :: "io_error option"
  cmdline_read :: "io_error + bytes"
  image_id :: "io_error + nat \<times> nat"
  fd_entries :: "io_error + (io_error + string \<times> (io_error + string)) list"
  start_after :: "nat option"

definition strip_suffix :: "string \<Rightarrow> string \<Rightarrow> string option" where
  "strip_suffix p s = map_option rev (strip_prefix (rev p) (rev s))"

fun holds_socket_loop :: "string \<Rightarrow> string list \<Rightarrow> (io_error + string \<times> (io_error + string)) list \<Rightarrow> io_error + bool" where
  "holds_socket_loop dir sockets [] = Inr False"
| "holds_socket_loop dir sockets (entry # rest) =
     (case entry of
        Inl e \<Rightarrow> Inl (operation_error (''enumerate '' @ dir) e)
      | Inr (path, link) \<Rightarrow>
          (case link of
             Inl e \<Rightarrow> Inl (operation_error (''readlink '' @ path) e)
           | Inr target \<Rightarrow>
               if (case strip_prefix ''socket:['' target of
                     None \<Rightarrow> False
                   | Some v \<Rightarrow> (case strip_suffix '']'' v of None \<Rightarrow> False | Some number \<Rightarrow> number \<in> set sockets))
               then Inr True
               else holds_socket_loop dir sockets rest))"

definition ancestor_holds_guardian_socket ::
  "string \<Rightarrow> string list \<Rightarrow> io_error + (io_error + string \<times> (io_error + string)) list \<Rightarrow> io_error + bool" where
  "ancestor_holds_guardian_socket dir sockets entries =
     (case entries of
        Inl e \<Rightarrow> Inl (operation_error (''open '' @ dir) e)
      | Inr es \<Rightarrow> holds_socket_loop dir sockets es)"

definition is_executor :: "bytes \<Rightarrow> bool" where
  "is_executor command \<longleftrightarrow>
     (case split_at_char (CHR 0x00) (take 4096 command) of _ # arg # _ \<Rightarrow> arg = EXECUTOR_ARG | _ \<Rightarrow> False)"

text \<open>The lines of \<^verbatim>\<open>/proc/net/unix\<close> that name a guardian's bound socket, by inode.\<close>

definition guardian_socket_inode :: "nat \<Rightarrow> string \<Rightarrow> string option" where
  "guardian_socket_inode effective_uid line =
     (let fields = split_whitespace line
      in if length fields \<le> 7 then None
         else
           (case strip_prefix (''/tmp/oulipoly-completion-'' @ nat_dec effective_uid @ ''-'') (fields ! 7) of
              None \<Rightarrow> None
            | Some tail \<Rightarrow>
                (case strip_suffix ''/owner.sock'' tail of
                   None \<Rightarrow> None
                 | Some domain \<Rightarrow> if valid_paired_ring_uuid domain then Some (fields ! 6) else None)))"

definition guardian_sockets :: "nat \<Rightarrow> string list \<Rightarrow> string list" where
  "guardian_sockets effective_uid unix_lines = List.map_filter (guardian_socket_inode effective_uid) unix_lines"

text \<open>One step: the verdict when it ends the walk, or the parent to go on with.\<close>

definition proc_path :: "pid \<Rightarrow> string \<Rightarrow> string" where
  "proc_path p leaf = ''/proc/'' @ int_dec p @ leaf"

definition still_same :: "ancestor \<Rightarrow> string \<Rightarrow> (io_error + bool) + pid" where
  "still_same a changed =
     (if start_after a = start_before a then Inl (Inr True) else Inl (Inl (io_other changed)))"

definition ancestor_sockets_step :: "string list \<Rightarrow> pid \<Rightarrow> pid \<Rightarrow> ancestor \<Rightarrow> (io_error + bool) + pid" where
  "ancestor_sockets_step sockets p parent a =
     (case ancestor_holds_guardian_socket (proc_path p ''/fd'') sockets (fd_entries a) of
        Inl e \<Rightarrow> Inl (Inl e)
      | Inr True \<Rightarrow> still_same a ''paired guardian identity changed during classification''
      | Inr False \<Rightarrow>
          if start_after a \<noteq> start_before a \<or> parent = p
          then Inl (Inl (io_other ''ancestor identity changed during paired classification''))
          else Inr parent)"

definition ancestor_step :: "nat \<times> nat \<Rightarrow> string list \<Rightarrow> nat \<Rightarrow> pid \<Rightarrow> ancestor \<Rightarrow> (io_error + bool) + pid" where
  "ancestor_step own_image sockets effective_uid p a =
     (case start_before a of
        None \<Rightarrow> Inl (Inl (io_other (''read/parse /proc/'' @ int_dec p @
                  ''/stat starttime unavailable during paired classification'')))
      | Some _ \<Rightarrow>
          (case parent_pid a of
             None \<Rightarrow> Inl (Inl (io_other (''read/parse /proc/'' @ int_dec p @
                       ''/stat parent unavailable during paired classification'')))
           | Some parent \<Rightarrow>
               (case owner_uid a of
                  Inl e \<Rightarrow> Inl (Inl (operation_error (''stat '' @ proc_path p []) e))
                | Inr u \<Rightarrow>
                    if u \<noteq> effective_uid then Inl (Inr False)
                    else
                      (case cmdline_open a of
                         Some e \<Rightarrow> Inl (Inl (operation_error (''open '' @ proc_path p ''/cmdline'') e))
                       | None \<Rightarrow>
                           (case cmdline_read a of
                              Inl e \<Rightarrow> Inl (Inl (operation_error (''read '' @ proc_path p ''/cmdline'') e))
                            | Inr command \<Rightarrow>
                                if is_executor command
                                then
                                  (case image_id a of
                                     Inl e \<Rightarrow> Inl (Inl (operation_error (''stat '' @ proc_path p ''/exe'') e))
                                   | Inr img \<Rightarrow>
                                       if img = own_image
                                       then still_same a ''paired ancestor identity changed during classification''
                                       else ancestor_sockets_step sockets p parent a)
                                else ancestor_sockets_step sockets p parent a)))))"

fun ancestor_loop ::
  "nat \<times> nat \<Rightarrow> string list \<Rightarrow> nat \<Rightarrow> (nat \<Rightarrow> pid \<Rightarrow> ancestor) \<Rightarrow> nat \<Rightarrow> nat \<Rightarrow> pid \<Rightarrow> io_error + bool" where
  "ancestor_loop own_image sockets effective_uid observe 0 i p =
     Inl (io_other ''paired ancestry exceeds bounded classification depth'')"
| "ancestor_loop own_image sockets effective_uid observe (Suc n) i p =
     (if p \<le> 1 then Inr False
      else
        (case ancestor_step own_image sockets effective_uid p (observe i p) of
           Inl verdict \<Rightarrow> verdict
         | Inr parent \<Rightarrow> ancestor_loop own_image sockets effective_uid observe n (Suc i) parent))"

definition has_paired_custodian_ancestor ::
  "io_error + nat \<times> nat \<Rightarrow> nat \<Rightarrow> io_error + string list \<Rightarrow> io_error + pid \<Rightarrow> (nat \<Rightarrow> pid \<Rightarrow> ancestor) \<Rightarrow> io_error + bool" where
  "has_paired_custodian_ancestor own_image effective_uid unix_lines parent observe =
     (case own_image of
        Inl e \<Rightarrow> Inl (operation_error ''stat /proc/self/exe'' e)
      | Inr img \<Rightarrow>
          (case unix_lines of
             Inl e \<Rightarrow> Inl (operation_error ''read /proc/net/unix'' e)
           | Inr ls \<Rightarrow>
               (case parent of
                  Inl e \<Rightarrow> Inl (operation_error ''read observer parent PID'' e)
                | Inr p \<Rightarrow> ancestor_loop img (guardian_sockets effective_uid ls) effective_uid observe 256 0 p)))"

subsection \<open>Selection\<close>

definition classify_standalone :: "io_error + bool \<Rightarrow> io_error + bool \<Rightarrow> io_error + unit" where
  "classify_standalone ring ancestor =
     (case ring of
        Inr True \<Rightarrow> Inl (io_other ''inherited paired session keyring but original-work authority is missing'')
      | Inl e \<Rightarrow> Inl (operation_error ''standalone selection: session keyring classification'' e)
      | Inr False \<Rightarrow>
          (case ancestor of
             Inr True \<Rightarrow> Inl (io_other
               ''paired worker or guardian ancestor is live but inherited original-work authority is missing'')
           | Inl e \<Rightarrow> Inl (operation_error ''standalone selection: ancestor classification'' e)
           | Inr False \<Rightarrow> Inr ()))"

definition required_marker :: "string option \<Rightarrow> io_error + bool" where
  "required_marker v =
     (case v of
        None \<Rightarrow> Inr False
      | Some s \<Rightarrow> if s = ''1'' then Inr True
                   else Inl (io_other ''paired original-work requirement marker is invalid''))"

definition select_route :: "bool \<Rightarrow> bool \<Rightarrow> bool \<Rightarrow> io_error + bool" where
  "select_route required endpoint authority =
     (if authority
      then if endpoint then Inr True
           else Inl (io_other ''paired root authority is present but endpoint is missing; standalone fallback is forbidden'')
      else if \<not> required then Inr False
      else if endpoint
      then Inl (io_other ''paired root endpoint is present but root authority is missing; standalone fallback is forbidden'')
      else Inl (io_other ''paired original-work context is required but endpoint and root authority are missing''))"

text \<open>\<^verbatim>\<open>selected\<close> up to the report of its errors: the process environment, the two witnesses, the verdict.\<close>

definition selection ::
  "(string \<Rightarrow> string option) \<Rightarrow> io_error + bool \<Rightarrow> io_error + bool \<Rightarrow> io_error + bool" where
  "selection getenv ring ancestor =
     (case required_marker (getenv ''OULIPOLY_ORIGINAL_WORK_REQUIRED_V1'') of
        Inl e \<Rightarrow> Inl e
      | Inr required \<Rightarrow>
          (let authority = getenv ''OULIPOLY_ROOT_AUTHORITY_V1'' \<noteq> None;
               endpoint = getenv ''OULIPOLY_COMPLETION_ENDPOINT'' \<noteq> None
           in case (if \<not> required \<and> \<not> authority then classify_standalone ring ancestor else Inr ()) of
                Inl e \<Rightarrow> Inl e
              | Inr _ \<Rightarrow> select_route required endpoint authority))"

subsection \<open>The description is recognised exactly\<close>

fun join_char :: "char \<Rightarrow> string list \<Rightarrow> string" where
  "join_char d [] = []"
| "join_char d [p] = p"
| "join_char d (p # ps) = p @ d # join_char d ps"

lemma split_at_char_nonempty [simp]: "split_at_char d s \<noteq> []"
  by (cases s) (auto split: list.split)

lemma join_split [simp]: "join_char d (split_at_char d s) = s"
proof (induction s)
  case (Cons c cs)
  obtain p ps where p: "split_at_char d cs = p # ps" using split_at_char_nonempty [of d cs] by (cases "split_at_char d cs") auto
  with Cons show ?case by (cases ps) auto
qed simp

lemma split_at_char_clean: "p \<in> set (split_at_char d s) \<Longrightarrow> d \<notin> set p"
  by (induction s arbitrary: p) (fastforce split: list.splits if_splits)+

lemma split_at_char_first: "d \<notin> set p \<Longrightarrow> split_at_char d (p @ d # s) = p # split_at_char d s"
  by (induction p) auto

lemma split_at_char_none: "d \<notin> set p \<Longrightarrow> split_at_char d p = [p]"
  by (induction p) auto

lemma utf8_ascii: "list_all (\<lambda>b. b < 128) bs \<Longrightarrow> utf8_error n bs = None"
proof (induction bs arbitrary: n)
  case Nil
  then show ?case by (simp add: utf8_error.simps)
next
  case (Cons b bs)
  then show ?case by (subst utf8_error.simps) (simp add: utf8_first_def utf8_width_def between_def)
qed

lemma canonical_decimal_iff: "canonical_decimal v = Inr n \<longleftrightarrow> v = nat_dec n \<and> n \<le> u32_max"
proof
  assume "canonical_decimal v = Inr n"
  then have "parse_unsigned u32_max v = Some n" "nat_dec n = v"
    by (auto simp: canonical_decimal_def split: option.splits if_splits)
  then show "v = nat_dec n \<and> n \<le> u32_max"
    by (auto simp: parse_unsigned_def split: option.splits if_splits)
next
  assume "v = nat_dec n \<and> n \<le> u32_max"
  then show "canonical_decimal v = Inr n" by (simp add: canonical_decimal_def parse_unsigned_nat_dec)
qed

definition plain_ascii :: "string \<Rightarrow> bool" where
  "plain_ascii s \<longleftrightarrow> list_all (\<lambda>c. (of_char c :: nat) < 128 \<and> c \<noteq> CHR '';'') s"

lemma plain_ascii_nat_dec: "plain_ascii (nat_dec n)"
  using nat_dec_digits [of _ n] by (fastforce simp: plain_ascii_def list_all_iff)

lemma plain_ascii_hex: "list_all is_ascii_hexdigit s \<Longrightarrow> plain_ascii s"
  by (fastforce simp: plain_ascii_def list_all_iff is_ascii_hexdigit_def Let_def)

lemma valid_uuid_chars:
  assumes "valid_paired_ring_uuid u" and "c \<in> set u"
  shows "c = CHR ''-'' \<or> lower_hex c"
proof -
  obtain i where i: "i < length u" "u ! i = c" using assms(2) by (auto simp: in_set_conv_nth)
  then have "(i, c) \<in> set (enumerate 0 u)" by (auto simp: in_set_enumerate_eq)
  with assms(1) show ?thesis by (auto simp: valid_paired_ring_uuid_def list_all_iff split: if_splits)
qed

definition printable :: "char \<Rightarrow> bool" where
  "printable c \<longleftrightarrow> 32 \<le> (of_char c :: nat) \<and> (of_char c :: nat) < 127 \<and> c \<noteq> CHR '';''"

lemma printable_plain: "list_all printable s \<Longrightarrow> plain_ascii s"
  unfolding plain_ascii_def by (erule list.pred_mono_strong) (simp add: printable_def)

lemma printable_ring_name: "list_all printable s \<Longrightarrow> s \<noteq> [] \<Longrightarrow> ring_name_ok s"
  unfolding ring_name_ok_def list_ex_iff
proof (intro conjI notI)
  assume p: "list_all printable s"
  show "list_all (\<lambda>c. (of_char c :: nat) < 128) s"
    using p by (rule list.pred_mono_strong) (simp add: printable_def)
  assume "\<exists>c\<in>set s. (of_char c :: nat) < 32 \<or> (of_char c :: nat) = 127"
  then obtain c where "c \<in> set s" and bad: "(of_char c :: nat) < 32 \<or> (of_char c :: nat) = 127" by blast
  then have "printable c" using p by (simp only: list_all_iff)
  with bad show False by (auto simp: printable_def)
qed simp

lemma lower_hex_printable: "c = CHR ''-'' \<or> lower_hex c \<Longrightarrow> printable c"
  by (auto simp: printable_def lower_hex_def Let_def)

lemma paired_name:
  assumes "valid_paired_ring_uuid u"
  shows "plain_ascii (PAIRED_RING_PREFIX @ u)" and "ring_name_ok (PAIRED_RING_PREFIX @ u)"
proof -
  have "list_all printable u"
    using valid_uuid_chars [OF assms] lower_hex_printable by (auto simp: list_all_iff)
  moreover have "list_all printable PAIRED_RING_PREFIX" by code_simp
  ultimately have all: "list_all printable (PAIRED_RING_PREFIX @ u)" by simp
  moreover have "PAIRED_RING_PREFIX @ u \<noteq> []" by (simp add: PAIRED_RING_PREFIX_def)
  ultimately show "plain_ascii (PAIRED_RING_PREFIX @ u)" "ring_name_ok (PAIRED_RING_PREFIX @ u)"
    using printable_plain printable_ring_name by blast+
qed

lemma strip_prefix_Some: "strip_prefix p s = Some t \<longleftrightarrow> s = p @ t"
  unfolding strip_prefix_def by (metis append_eq_conv_conj option.distinct(1) option.inject)

lemma ring_fields_paired:
  "parse_ring_fields owner grp permissions name effective_uid = Inr True \<longleftrightarrow>
     (\<exists>g u. owner = nat_dec effective_uid \<and> effective_uid \<le> u32_max \<and> grp = nat_dec g \<and> g \<le> u32_max \<and>
        length permissions = 8 \<and> list_all is_ascii_hexdigit permissions \<and>
        valid_paired_ring_uuid u \<and> name = PAIRED_RING_PREFIX @ u)"
proof
  assume l: "parse_ring_fields owner grp permissions name effective_uid = Inr True"
  then obtain g u where f: "canonical_decimal owner = Inr effective_uid" "canonical_decimal grp = Inr g"
    "length permissions = 8" "list_all is_ascii_hexdigit permissions" "strip_prefix PAIRED_RING_PREFIX name = Some u"
    "valid_paired_ring_uuid u"
    by (auto simp: parse_ring_fields_def split: sum.splits option.splits if_splits)
  have "name = PAIRED_RING_PREFIX @ u"
    using f(5) by (simp add: strip_prefix_Some)
  with f show "\<exists>g u. owner = nat_dec effective_uid \<and> effective_uid \<le> u32_max \<and> grp = nat_dec g \<and> g \<le> u32_max \<and>
        length permissions = 8 \<and> list_all is_ascii_hexdigit permissions \<and>
        valid_paired_ring_uuid u \<and> name = PAIRED_RING_PREFIX @ u"
    by (auto simp: canonical_decimal_iff)
next
  assume "\<exists>g u. owner = nat_dec effective_uid \<and> effective_uid \<le> u32_max \<and> grp = nat_dec g \<and> g \<le> u32_max \<and>
        length permissions = 8 \<and> list_all is_ascii_hexdigit permissions \<and>
        valid_paired_ring_uuid u \<and> name = PAIRED_RING_PREFIX @ u"
  then obtain g u where f: "canonical_decimal owner = Inr effective_uid" "canonical_decimal grp = Inr g"
    "length permissions = 8" "list_all is_ascii_hexdigit permissions" "valid_paired_ring_uuid u"
    and name: "name = PAIRED_RING_PREFIX @ u"
    by (auto simp: canonical_decimal_iff)
  then show "parse_ring_fields owner grp permissions name effective_uid = Inr True"
    using paired_name(2) [OF f(5)] by (simp add: parse_ring_fields_def strip_prefix_def)
qed

text \<open>
  The paired keyring is recognised exactly. The description of a session keyring is taken as
  that of a paired root if and only if it is the text the kernel gives for one: the caller's own uid
  and some gid as canonical decimals of 32-bit numbers, eight hexadecimal digits of permissions, and
  the paired prefix followed by a random UUID in canonical form. Nothing else, however close, is taken for it.
\<close>

theorem paired_ring_exact:
  "parse_session_ring_description d effective_uid = Inr True \<longleftrightarrow>
     (\<exists>g permissions u. d = ''keyring;'' @ nat_dec effective_uid @ '';'' @ nat_dec g @ '';'' @ permissions @ '';'' @ PAIRED_RING_PREFIX @ u \<and>
        effective_uid \<le> u32_max \<and> g \<le> u32_max \<and> length permissions = 8 \<and> list_all is_ascii_hexdigit permissions \<and>
        valid_paired_ring_uuid u)"
proof
  assume l: "parse_session_ring_description d effective_uid = Inr True"
  then obtain owner grp permissions name where
    f: "split_at_char (CHR '';'') d = [''keyring'', owner, grp, permissions, name]"
    and p: "parse_ring_fields owner grp permissions name effective_uid = Inr True"
    by (auto simp: parse_session_ring_description_def split: if_splits list.splits)
  from join_split [of "CHR '';''" d]
  have "d = ''keyring'' @ CHR '';'' # owner @ CHR '';'' # grp @ CHR '';'' # permissions @ CHR '';'' # name"
    unfolding f by simp
  with p show "\<exists>g permissions u. d = ''keyring;'' @ nat_dec effective_uid @ '';'' @ nat_dec g @ '';'' @ permissions @ '';'' @ PAIRED_RING_PREFIX @ u \<and>
        effective_uid \<le> u32_max \<and> g \<le> u32_max \<and> length permissions = 8 \<and> list_all is_ascii_hexdigit permissions \<and>
        valid_paired_ring_uuid u"
    unfolding ring_fields_paired by auto
next
  assume "\<exists>g permissions u. d = ''keyring;'' @ nat_dec effective_uid @ '';'' @ nat_dec g @ '';'' @ permissions @ '';'' @ PAIRED_RING_PREFIX @ u \<and>
        effective_uid \<le> u32_max \<and> g \<le> u32_max \<and> length permissions = 8 \<and> list_all is_ascii_hexdigit permissions \<and>
        valid_paired_ring_uuid u"
  then obtain g permissions u where
    d: "d = ''keyring'' @ CHR '';'' # nat_dec effective_uid @ CHR '';'' # nat_dec g @ CHR '';'' # permissions @ CHR '';'' # (PAIRED_RING_PREFIX @ u)"
    and f: "effective_uid \<le> u32_max" "g \<le> u32_max" "length permissions = 8" "list_all is_ascii_hexdigit permissions"
      "valid_paired_ring_uuid u" by auto
  note plain = plain_ascii_nat_dec [of effective_uid] plain_ascii_nat_dec [of g] plain_ascii_hex [OF f(4)] paired_name(1) [OF f(5)]
  have clean: "CHR '';'' \<notin> set s" if "plain_ascii s" for s using that by (auto simp: plain_ascii_def list_all_iff)
  have split: "split_at_char (CHR '';'') d = [''keyring'', nat_dec effective_uid, nat_dec g, permissions, PAIRED_RING_PREFIX @ u]"
    unfolding d using plain [THEN clean]
    by (subst split_at_char_first, simp)+ (simp only: split_at_char_none simp_thms)
  have "list_all (\<lambda>c. (of_char c :: nat) < 128) d"
    unfolding d using plain by (auto simp: plain_ascii_def list_all_iff)
  then have "from_utf8_error d = None"
    unfolding from_utf8_error_def by (intro utf8_ascii) (simp add: list_all_iff)
  moreover have "parse_ring_fields (nat_dec effective_uid) (nat_dec g) permissions (PAIRED_RING_PREFIX @ u) effective_uid = Inr True"
    unfolding ring_fields_paired using f by blast
  ultimately show "parse_session_ring_description d effective_uid = Inr True"
    by (simp add: parse_session_ring_description_def split)
qed

subsection \<open>A standalone run has no paired witness\<close>

text \<open>
  What is positively known of an ancestor the walk has passed: everything could be read, it is the same
  process before and after, it is this user's, it is not this program run as a paired worker, and no
  descriptor of it is a guardian's bound socket.
\<close>

definition examined :: "nat \<times> nat \<Rightarrow> string list \<Rightarrow> nat \<Rightarrow> ancestor \<Rightarrow> bool" where
  "examined own_image sockets effective_uid a \<longleftrightarrow>
     start_before a \<noteq> None \<and> start_after a = start_before a \<and> owner_uid a = Inr effective_uid \<and> cmdline_open a = None \<and>
     (\<exists>command. cmdline_read a = Inr command \<and> (is_executor command \<longrightarrow> (\<exists>img. image_id a = Inr img \<and> img \<noteq> own_image))) \<and>
     (\<exists>es. fd_entries a = Inr es \<and>
        (\<forall>e\<in>set es. \<exists>path target. e = Inr (path, Inr target) \<and>
           (\<forall>number\<in>set sockets. target \<noteq> ''socket:['' @ number @ '']'')))"

text \<open>
  A walk that found nothing: the pids visited from \<open>p\<close> on, each the parent read of the one before it, all
  but the last examined, and the last the init process or a process of another user.
\<close>

definition cleared_walk :: "nat \<times> nat \<Rightarrow> string list \<Rightarrow> nat \<Rightarrow> (nat \<Rightarrow> pid \<Rightarrow> ancestor) \<Rightarrow> nat \<Rightarrow> pid list \<Rightarrow> bool" where
  "cleared_walk own_image sockets effective_uid observe i ps \<longleftrightarrow>
     (\<forall>j. Suc j < length ps \<longrightarrow>
        1 < ps ! j \<and> examined own_image sockets effective_uid (observe (i + j) (ps ! j)) \<and>
        parent_pid (observe (i + j) (ps ! j)) = Some (ps ! Suc j)) \<and>
     (last ps \<le> 1 \<or> (\<exists>u. owner_uid (observe (i + (length ps - 1)) (last ps)) = Inr u \<and> u \<noteq> effective_uid))"

lemma strip_suffix_append: "strip_suffix q (t @ q) = Some t"
  by (simp add: strip_suffix_def strip_prefix_def)

lemma holds_socket_clean:
  "holds_socket_loop dir sockets es = Inr False \<Longrightarrow>
     \<forall>e\<in>set es. \<exists>path target. e = Inr (path, Inr target) \<and> (\<forall>number\<in>set sockets. target \<noteq> ''socket:['' @ number @ '']'')"
proof (induction es)
  case (Cons e es)
  then obtain path target where e: "e = Inr (path, Inr target)" and rest: "holds_socket_loop dir sockets es = Inr False"
    by (auto split: sum.splits prod.splits if_splits)
  have seen: "strip_prefix ''socket:['' (''socket:['' @ number @ '']'') = Some (number @ '']'')" for number
    by (simp only: strip_prefix_Some)
  have "target \<noteq> ''socket:['' @ number @ '']''" if "number \<in> set sockets" for number
    using Cons.prems e seen [of number] strip_suffix_append [of "'']''" number] that by (auto split: if_splits)
  with e Cons.IH [OF rest] show ?case by auto
qed simp

lemma sockets_step_clean:
  "ancestor_sockets_step sockets p parent a = Inr q \<Longrightarrow>
     q = parent \<and> start_after a = start_before a \<and>
     (\<exists>es. fd_entries a = Inr es \<and>
        (\<forall>e\<in>set es. \<exists>path target. e = Inr (path, Inr target) \<and> (\<forall>number\<in>set sockets. target \<noteq> ''socket:['' @ number @ '']'')))"
  "ancestor_sockets_step sockets p parent a \<noteq> Inl (Inr False)"
proof -
  show "ancestor_sockets_step sockets p parent a \<noteq> Inl (Inr False)"
    by (auto simp: ancestor_sockets_step_def still_same_def split: sum.splits bool.splits)
  assume s: "ancestor_sockets_step sockets p parent a = Inr q"
  then obtain es where es: "fd_entries a = Inr es" "holds_socket_loop (proc_path p ''/fd'') sockets es = Inr False"
    and rest: "q = parent" "start_after a = start_before a"
    by (auto simp: ancestor_sockets_step_def still_same_def ancestor_holds_guardian_socket_def split: sum.splits bool.splits if_splits)
  with holds_socket_clean [OF es(2)] show "q = parent \<and> start_after a = start_before a \<and>
     (\<exists>es. fd_entries a = Inr es \<and>
        (\<forall>e\<in>set es. \<exists>path target. e = Inr (path, Inr target) \<and> (\<forall>number\<in>set sockets. target \<noteq> ''socket:['' @ number @ '']'')))"
    by blast
qed

lemma step_goes_on:
  assumes "ancestor_step own_image sockets effective_uid p a = Inr q"
  shows "parent_pid a = Some q \<and> examined own_image sockets effective_uid a"
proof -
  obtain parent command where s: "ancestor_sockets_step sockets p parent a = Inr q" "parent_pid a = Some parent"
    "owner_uid a = Inr effective_uid" "start_before a \<noteq> None" "cmdline_open a = None" "cmdline_read a = Inr command"
    "is_executor command \<longrightarrow> (\<exists>img. image_id a = Inr img \<and> img \<noteq> own_image)"
    using assms by (auto simp: ancestor_step_def still_same_def split: option.splits sum.splits if_splits)
  from sockets_step_clean(1) [OF s(1)] s(2-7) show ?thesis unfolding examined_def by blast
qed

lemma step_clears:
  "ancestor_step own_image sockets effective_uid p a = Inl (Inr False) \<Longrightarrow> \<exists>u. owner_uid a = Inr u \<and> u \<noteq> effective_uid"
  using sockets_step_clean(2) [of sockets p _ a]
  by (auto simp: ancestor_step_def still_same_def split: option.splits sum.splits if_splits)

lemma cleared_walk_Cons:
  assumes "1 < p" and "examined own_image sockets effective_uid (observe i p)" and "parent_pid (observe i p) = Some (hd ps)"
    and "ps \<noteq> []" and "cleared_walk own_image sockets effective_uid observe (Suc i) ps"
  shows "cleared_walk own_image sockets effective_uid observe i (p # ps)"
proof -
  have last: "last (p # ps) = last ps" "i + (length (p # ps) - 1) = Suc i + (length ps - 1)" using assms(4) by auto
  have "1 < (p # ps) ! j \<and> examined own_image sockets effective_uid (observe (i + j) ((p # ps) ! j)) \<and>
      parent_pid (observe (i + j) ((p # ps) ! j)) = Some ((p # ps) ! Suc j)" if "Suc j < length (p # ps)" for j
    using that assms by (cases j) (auto simp: cleared_walk_def hd_conv_nth)
  then show ?thesis using assms(5) unfolding cleared_walk_def last by blast
qed

lemma walk_clean:
  "ancestor_loop own_image sockets effective_uid observe n i p = Inr False \<Longrightarrow>
   \<exists>ps. ps \<noteq> [] \<and> length ps \<le> n \<and> hd ps = p \<and> cleared_walk own_image sockets effective_uid observe i ps"
proof (induction n arbitrary: i p)
  case (Suc n)
  consider "p \<le> 1" | "1 < p" "ancestor_step own_image sockets effective_uid p (observe i p) = Inl (Inr False)"
    | q where "1 < p" "ancestor_step own_image sockets effective_uid p (observe i p) = Inr q"
      "ancestor_loop own_image sockets effective_uid observe n (Suc i) q = Inr False"
    using Suc.prems by (auto split: if_splits sum.splits)
  then show ?case
  proof cases
    case 1
    then show ?thesis by (intro exI [of _ "[p]"]) (simp add: cleared_walk_def)
  next
    case 2
    then show ?thesis using step_clears [OF 2(2)] by (intro exI [of _ "[p]"]) (simp add: cleared_walk_def)
  next
    case (3 q)
    from Suc.IH [OF 3(3)] obtain ps where ps: "ps \<noteq> []" "length ps \<le> n" "hd ps = q"
      "cleared_walk own_image sockets effective_uid observe (Suc i) ps" by blast
    from step_goes_on [OF 3(2)] have "cleared_walk own_image sockets effective_uid observe i (p # ps)"
      using 3(1) ps by (intro cleared_walk_Cons) auto
    then show ?thesis using ps(2) by (intro exI [of _ "p # ps"]) simp
  qed
qed simp

lemma ring_unpaired:
  assumes "inherited_paired_session_ring first described len again effective_uid = Inr False"
  shows "\<exists>ring buffer. session_ring_id first = Inr ring \<and> session_ring_id again = Inr ring \<and> described = Inr buffer \<and>
     0 < len \<and> len \<le> MAX_KEY_DESCRIPTION_BYTES \<and> len \<le> length buffer \<and> buffer ! (len - 1) = CHR 0x00 \<and>
     parse_session_ring_description (take (len - 1) buffer) effective_uid = Inr False"
  using assms by (auto simp: inherited_paired_session_ring_def split: sum.splits if_splits)

text \<open>
  C28. A standalone run has no paired witness, and everything that could be one was read. If selection
  sends a run to standalone supervision, the environment carries neither the requirement marker nor a
  root authority; the inherited keyring had one identity before and after its whole description was
  read, and that description is a valid one of an unpaired ring; this program's image, the table of
  sockets and the parent could be read; and the walk from the parent over at most 256 pids reached init
  or a process of another user, while for every process before it the start time, owner, command line,
  if it runs as an executor its image, and every entry of its descriptor directory were read: it is
  the same process before and after, it is not this program as a paired worker, and none of its
  descriptors is a guardian's bound socket.
\<close>

theorem standalone_has_no_paired_witness:
  assumes "selection getenv (inherited_paired_session_ring first described len again effective_uid)
      (has_paired_custodian_ancestor own_image effective_uid unix_lines parent observe) = Inr False"
  shows "getenv ''OULIPOLY_ORIGINAL_WORK_REQUIRED_V1'' = None \<and> getenv ''OULIPOLY_ROOT_AUTHORITY_V1'' = None \<and>
     (\<exists>ring buffer. session_ring_id first = Inr ring \<and> session_ring_id again = Inr ring \<and> described = Inr buffer \<and>
        0 < len \<and> len \<le> MAX_KEY_DESCRIPTION_BYTES \<and> len \<le> length buffer \<and> buffer ! (len - 1) = CHR 0x00 \<and>
        parse_session_ring_description (take (len - 1) buffer) effective_uid = Inr False) \<and>
     (\<exists>img ls p ps. own_image = Inr img \<and> unix_lines = Inr ls \<and> parent = Inr p \<and> ps \<noteq> [] \<and> length ps \<le> 256 \<and> hd ps = p \<and>
        cleared_walk img (guardian_sockets effective_uid ls) effective_uid observe 0 ps)"
proof -
  let ?ring = "inherited_paired_session_ring first described len again effective_uid"
  let ?walk = "has_paired_custodian_ancestor own_image effective_uid unix_lines parent observe"
  have env: "getenv ''OULIPOLY_ORIGINAL_WORK_REQUIRED_V1'' = None \<and> getenv ''OULIPOLY_ROOT_AUTHORITY_V1'' = None"
    and "classify_standalone ?ring ?walk = Inr ()"
    using assms
    by (auto simp: selection_def Let_def required_marker_def select_route_def split: option.splits sum.splits if_splits)
  then have ring: "?ring = Inr False" and walk: "?walk = Inr False"
    by (auto simp: classify_standalone_def split: sum.splits bool.splits)
  from walk obtain img ls p where known: "own_image = Inr img" "unix_lines = Inr ls" "parent = Inr p"
    and "ancestor_loop img (guardian_sockets effective_uid ls) effective_uid observe 256 0 p = Inr False"
    by (auto simp: has_paired_custodian_ancestor_def split: sum.splits)
  from walk_clean [OF this(4)] known env ring_unpaired [OF ring] show ?thesis by blast
qed

definition sample_ancestor :: "nat \<Rightarrow> pid \<Rightarrow> ancestor" where
  "sample_ancestor i p = \<lparr>start_before = Some 5, parent_pid = Some (p - 1), owner_uid = Inr 1000, cmdline_open = None,
     cmdline_read = Inr ''bash'', image_id = Inr (1, 2), fd_entries = Inr [Inr (''/proc/2/fd/3'', Inr ''socket:[71]'')], start_after = Some 5\<rparr>"

definition sample_description :: bytes where
  "sample_description = ''keyring;1000;1000;3f030000;_ses'' @ [CHR 0x00]"

lemma sample_ring: "inherited_paired_session_ring (Inr 7) (Inr sample_description) (length sample_description) (Inr 7) 1000 = Inr False"
proof -
  have "nat_dec 1000 = ''1000''" by code_simp
  then have owner: "canonical_decimal ''1000'' = Inr 1000" by (simp add: canonical_decimal_iff u32_max_def)
  have "parse_session_ring_description ''keyring;1000;1000;3f030000;_ses'' 1000 =
      parse_ring_fields ''1000'' ''1000'' ''3f030000'' ''_ses'' 1000"
    by (simp add: parse_session_ring_description_def from_utf8_error_def utf8_ascii)
  also have "\<dots> = Inr False"
    by (simp add: parse_ring_fields_def owner is_ascii_hexdigit_def ring_name_ok_def PAIRED_RING_PREFIX_def strip_prefix_def Let_def)
  finally show ?thesis
    by (simp add: inherited_paired_session_ring_def session_ring_id_def sample_description_def MAX_KEY_DESCRIPTION_BYTES_def)
qed

theorem standalone_has_no_paired_witness_witness:
  "\<exists>ps. hd ps = 3 \<and> cleared_walk (1, 3) [] 1000 sample_ancestor 0 ps"
proof -
  have "selection (\<lambda>_. None) (inherited_paired_session_ring (Inr 7) (Inr sample_description) (length sample_description) (Inr 7) 1000)
      (has_paired_custodian_ancestor (Inr (1, 3)) 1000 (Inr []) (Inr 3) sample_ancestor) = Inr False"
    unfolding sample_ring by code_simp
  from standalone_has_no_paired_witness [OF this] show ?thesis by (auto simp: guardian_sockets_def map_filter_simps)
qed

end
