(* ===== verification/Root_Work.thy ===== *)
theory Root_Work
  imports Event_Loop Root_Selection
begin

section \<open>Original work handed to a root\<close>

text \<open>
  The protocol part of \<^verbatim>\<open>src/src/root_work.rs\<close>: a run inside a paired root writes its intent into the handle
  directory, connects to the root's guardian, authenticates it, sends one frame with four
  descriptors, and reads one answer; a cancellation of accepted work goes the same way. Every phase
  leaves a line in a bounded diagnostic file.

  What is sent to the guardian is \<^const>\<open>wire\<close>, what it answers \<^const>\<open>heard\<close>. The broker's socket is
  another connection and is not logged. JSON text and SHA-256 are the crates' work: \<open>codec\<close> gives them.
  The process environment, the identity of this process and the namespace links are arguments
  (\<open>context\<close>). The feature \<^verbatim>\<open>private-v30-admission\<close> is off, as in the default build.
\<close>

subsection \<open>Data\<close>

definition PROTOCOL :: string where "PROTOCOL = ''original-work-v1''"
definition ROOT_PROTOCOL :: string where "ROOT_PROTOCOL = ''root-authority-v1''"
definition LEGACY_CONTROL_PROTOCOL :: string where "LEGACY_CONTROL_PROTOCOL = ''stream-control-v1''"
definition SOURCE_CONTROL_PROTOCOL :: string where "SOURCE_CONTROL_PROTOCOL = ''source-control-v2''"
definition ROOT_AUTHORITY_ENV :: string where "ROOT_AUTHORITY_ENV = ''OULIPOLY_ROOT_AUTHORITY_V1''"
definition ROOT_WORK_ID_ENV :: string where "ROOT_WORK_ID_ENV = ''OULIPOLY_ROOT_WORK_ID''"
definition ROOT_PARENT_CAPABILITY_ENV :: string where "ROOT_PARENT_CAPABILITY_ENV = ''OULIPOLY_ROOT_PARENT_CAPABILITY_V1''"
definition ENDPOINT_ENV :: string where "ENDPOINT_ENV = ''OULIPOLY_COMPLETION_ENDPOINT''"

definition INTENT_FILE :: fname where "INTENT_FILE = Extra ''root-work-intent-v1.json''"
definition ACCEPTED_FILE :: fname where "ACCEPTED_FILE = Extra ''root-work-accepted-v1.json''"
definition DIAGNOSTIC_FILE :: fname where "DIAGNOSTIC_FILE = Extra ''root-work-diagnostic-v1.jsonl''"
definition DIAGNOSTIC_LOCK_FILE :: fname where "DIAGNOSTIC_LOCK_FILE = Extra ''root-work-diagnostic-v1.lock''"
definition DIAGNOSTIC_ROTATED_FILE :: fname where "DIAGNOSTIC_ROTATED_FILE = Extra ''root-work-diagnostic-v1.jsonl.1''"
definition MAX_DIAGNOSTIC_BYTES :: nat where "MAX_DIAGNOSTIC_BYTES = 1024 * 1024"
definition MAX_DIAGNOSTIC_RECORD_BYTES :: nat where "MAX_DIAGNOSTIC_RECORD_BYTES = 128 * 1024"
definition MAX_RESPONSE_BYTES :: nat where "MAX_RESPONSE_BYTES = 64 * 1024"
definition MAX_SOURCE_WITNESS_BYTES :: nat where "MAX_SOURCE_WITNESS_BYTES = 2048"
definition MAX_WORK_FRAME_BYTES :: nat where "MAX_WORK_FRAME_BYTES = 64 * 1024"

record process_ref =
  pr_pid :: int
  pr_boot_id :: string
  pr_starttime_ticks :: nat

definition process_ref_of :: "caller_entry \<Rightarrow> process_ref" where
  "process_ref_of e = \<lparr>pr_pid = ce_pid e, pr_boot_id = ce_boot_id e, pr_starttime_ticks = starttime_ticks e\<rparr>"

record root_authority_grant =
  gr_protocol :: string
  gr_control_protocol :: string
  gr_completion_protocol :: string
  gr_domain_id :: string
  gr_supervisor_authority_id :: string
  gr_root_id :: string
  gr_capability :: string
  gr_root_identity :: process_ref
  gr_guardian_identity :: process_ref

datatype source_scope = ScopeRoot | ScopeNested string | ScopeCancelOutside string

record source_socket_witness =
  sw_root_id :: string
  sw_domain_id :: string
  sw_supervisor_id :: string
  sw_guardian :: process_ref
  sw_source :: process_ref
  sw_scope :: source_scope
  sw_delegated :: "string option"

datatype work_registration = RegRoot | RegNested string string

record work_submission =
  ws_protocol :: string
  ws_root_authority :: root_authority_grant
  ws_work_id :: string
  ws_request_sha256 :: string
  ws_registration :: work_registration
  ws_cancel_capability :: string

record cancel_submission =
  cs_protocol :: string
  cs_root_id :: string
  cs_supervisor_authority_id :: string
  cs_work_id :: string
  cs_cancel_capability :: string

record work_response =
  wr_protocol :: string
  wr_work_id :: string
  wr_status :: string
  wr_root_id :: string
  wr_supervisor_authority_id :: string
  worker_identity :: "process_ref option"
  wr_detail :: "string option"

record work_intent =
  in_protocol :: string
  in_work_id :: string
  in_root_id :: string
  in_domain_id :: string
  in_control_protocol :: string
  in_root_identity :: "process_ref option"
  in_root_endpoint :: bytes
  in_supervisor_authority_id :: string
  in_guardian_identity :: process_ref
  in_cancel_capability :: string
  in_handle :: string
  in_state_root :: string
  in_meta :: meta
  in_argv :: "string list"
  in_completion_scope :: string
  in_ready_sentinel :: "string option"
  in_registration_authority :: "bytes option"
  in_environment :: "(bytes \<times> bytes) list"
  in_cancel_owner :: "process_ref option"

record diagnostic =
  dg_protocol :: string
  dg_work_id :: string
  dg_phase :: string
  dg_initiator_pid :: pid
  dg_root_id :: "string option"
  dg_supervisor_authority_id :: "string option"
  dg_worker_pid :: "int option"
  dg_worker_starttime_ticks :: "nat option"
  dg_detail :: "string option"

text \<open>The crates' encodings. A diagnostic is encoded with the identities of this process and of the root.\<close>

record codec =
  intent_to_vec :: "work_intent \<Rightarrow> io_error + bytes"
  intent_from_slice :: "bytes \<Rightarrow> io_error + work_intent"
  submission_to_vec :: "work_submission \<Rightarrow> io_error + bytes"
  cancel_to_vec :: "cancel_submission \<Rightarrow> io_error + bytes"
  witness_to_vec :: "source_socket_witness \<Rightarrow> io_error + bytes"
  response_from_slice :: "bytes \<Rightarrow> io_error + work_response"
  grant_from_str :: "string \<Rightarrow> io_error + root_authority_grant"
  value_from_slice :: "bytes \<Rightarrow> io_error + json"
  diagnostic_to_vec :: "diagnostic \<Rightarrow> bytes"
  hex_digest :: "bytes \<Rightarrow> string"

text \<open>
  What a process can read of itself: its environment, user and pid, and the reads of
  \<^verbatim>\<open>host_observed_source\<close> in their order (the observer's identity, \<^verbatim>\<open>/proc/self/stat\<close>, the same file by
  pid, the observer twice more, the boot id), and the pid namespaces.
\<close>

record root_context =
  var :: "string \<Rightarrow> string option"
  vars_os :: "(bytes \<times> bytes) list"
  geteuid :: nat
  process_id :: pid
  observer_first :: "io_error + nat \<times> nat"
  self_stat :: "io_error + string"
  stat_by_pid :: "pid \<Rightarrow> io_error + string"
  observer_again :: "io_error + nat \<times> nat"
  observer_last :: "io_error + nat \<times> nat"
  source_boot :: "io_error + string"
  own_pid_ns :: "io_error + string"
  pid_ns_of :: "int \<Rightarrow> io_error + string"

subsection \<open>Registrations read back\<close>

text \<open>\<^verbatim>\<open>Deserialize for WorkRegistration\<close>: the fields of an object, each taken out once.\<close>

definition text_field :: "string \<Rightarrow> (string \<times> json) list \<Rightarrow> string option" where
  "text_field k kvs = (case map_of kvs k of Some (JStr s) \<Rightarrow> Some s | _ \<Rightarrow> None)"

definition filled_field :: "string \<Rightarrow> (string \<times> json) list \<Rightarrow> string option" where
  "filled_field k kvs = (case text_field k kvs of Some s \<Rightarrow> if s = [] then None else Some s | None \<Rightarrow> None)"

definition work_registration_of :: "(string \<times> json) list \<Rightarrow> string + work_registration" where
  "work_registration_of object =
     (let rest = AList.delete ''kind'' object
      in case text_field ''kind'' object of
           None \<Rightarrow> Inl ''work registration kind is required''
         | Some k \<Rightarrow>
             if k = ''root''
             then if rest = [] then Inr RegRoot else Inl ''root work registration has conflicting fields''
             else if k = ''nested''
             then
               (case filled_field ''parent_work_id'' rest of
                  None \<Rightarrow> Inl ''nested parent_work_id is required''
                | Some parent \<Rightarrow>
                    (let rest1 = AList.delete ''parent_work_id'' rest
                     in case filled_field ''parent_capability'' rest1 of
                          None \<Rightarrow> Inl ''nested parent_capability is required''
                        | Some capability \<Rightarrow>
                            if AList.delete ''parent_capability'' rest1 \<noteq> []
                            then Inl ''unknown nested work registration field''
                            else Inr (RegNested parent capability)))
             else Inl ''unknown work registration kind'')"

subsection \<open>Calls on sockets\<close>

abbreviation ask_socket :: "(socket_answer \<Rightarrow> 'a) \<Rightarrow> 'a io" where
  "ask_socket q \<equiv> ask (\<lambda>e t. q (socket_answers e t))"

definition sock_call :: "unit io" where
  "sock_call = bind (ask_socket sock_error) (\<lambda>r. case r of None \<Rightarrow> ret () | Some e \<Rightarrow> raise e)"

definition put_wire :: "bytes \<Rightarrow> unit io" where
  "put_wire bs w = (Done (), w\<lparr>wire := wire w @ bs\<rparr>)"

definition put_heard :: "char \<Rightarrow> unit io" where
  "put_heard b w = (Done (), w\<lparr>heard := heard w @ [b]\<rparr>)"

definition write_all :: "bytes \<Rightarrow> unit io" where
  "write_all bs =
     bind (ask_socket (\<lambda>a. (sock_error a, bytes_taken a))) (\<lambda>(r, n).
       case r of None \<Rightarrow> put_wire bs | Some e \<Rightarrow> seq (put_wire (take n bs)) (raise e))"

definition send_with_fds :: "bytes \<Rightarrow> unit io" where
  "send_with_fds bs = seq sock_call (seq (put_wire (take 1 bs)) (write_all (drop 1 bs)))"

definition unexpected_eof :: io_error where
  "unexpected_eof = io_new UnexpectedEof ''failed to fill whole buffer''"

definition lift_result :: "io_error + 'a \<Rightarrow> 'a io" where
  "lift_result r = (case r of Inl e \<Rightarrow> raise e | Inr a \<Rightarrow> ret a)"

definition newline_char :: char where "newline_char = CHR 0x0A"

text \<open>\<open>n\<close> is how many bytes the frame may still have.\<close>

fun read_response_loop :: "(bytes \<Rightarrow> io_error + 'a) \<Rightarrow> nat \<Rightarrow> bytes \<Rightarrow> 'a io" where
  "read_response_loop parse 0 acc = raise (io_other ''root response exceeds bounded frame'')"
| "read_response_loop parse (Suc n) acc =
     bind (ask_socket sock_read) (\<lambda>r.
       case r of
         Inl e \<Rightarrow> raise e
       | Inr [] \<Rightarrow> raise unexpected_eof
       | Inr (b # _) \<Rightarrow>
           seq (put_heard b)
             (if b = newline_char then lift_result (parse acc) else read_response_loop parse n (acc @ [b])))"

definition read_response :: "(bytes \<Rightarrow> io_error + 'a) \<Rightarrow> 'a io" where
  "read_response parse = read_response_loop parse MAX_RESPONSE_BYTES []"

subsection \<open>Diagnostics\<close>

definition text_length :: "node option \<Rightarrow> nat" where
  "text_length n = (case n of Some (Regular (Text t)) \<Rightarrow> length t | _ \<Rightarrow> 0)"

definition sys_len :: "fname \<Rightarrow> nat io" where
  "sys_len f = sys (bind (lookup_file f) (\<lambda>n. ret (text_length n)))"

definition sys_append :: "fname \<Rightarrow> bytes \<Rightarrow> unit io" where
  "sys_append f bs =
     sys (bind (lookup_file f) (\<lambda>n.
       set_file f (Some (Regular (Text ((case n of Some (Regular (Text t)) \<Rightarrow> t | _ \<Rightarrow> []) @ bs))))))"

definition saturating_add_u64 :: "nat \<Rightarrow> nat \<Rightarrow> nat" where
  "saturating_add_u64 a b = min u64_max (a + b)"

definition diagnostic_record :: "codec \<Rightarrow> diagnostic \<Rightarrow> bytes" where
  "diagnostic_record cd d =
     (let r = diagnostic_to_vec cd d
      in (if length r > MAX_DIAGNOSTIC_RECORD_BYTES
          then diagnostic_to_vec cd (d\<lparr>dg_detail := Some ''diagnostic record exceeded the bounded record size; detail omitted''\<rparr>)
          else r) @ [newline_char])"

definition rotate_diagnostics :: "unit io" where
  "rotate_diagnostics =
     bind (sys_len DIAGNOSTIC_FILE) (\<lambda>current_len.
     seq sys_sync
    (seq (handle_err (sys_unlink DIAGNOSTIC_ROTATED_FILE)
            (\<lambda>e. if kind e = NotFound then ret () else raise e) ret)
    (seq (if current_len \<le> MAX_DIAGNOSTIC_BYTES then sys_rename DIAGNOSTIC_FILE DIAGNOSTIC_ROTATED_FILE
          else sys_unlink DIAGNOSTIC_FILE)
       (sys_create_new DIAGNOSTIC_FILE))))"

definition append_diagnostic :: "codec \<Rightarrow> diagnostic \<Rightarrow> unit io" where
  "append_diagnostic cd d =
     (let record = diagnostic_record cd d
      in seq (sys_open_create DIAGNOSTIC_LOCK_FILE)
        (seq lock_file_exclusive
        (seq (sys_open_create DIAGNOSTIC_FILE)
        (bind (sys_len DIAGNOSTIC_FILE) (\<lambda>len.
         seq (if saturating_add_u64 len (length record) > MAX_DIAGNOSTIC_BYTES then rotate_diagnostics else ret ())
        (seq (sys_append DIAGNOSTIC_FILE record)
        (seq sys_sync (seq sys_open_dir sys_sync))))))))"

definition parse_grant :: "codec \<Rightarrow> root_context \<Rightarrow> io_error + root_authority_grant" where
  "parse_grant cd cx =
     (case var cx ROOT_AUTHORITY_ENV of
        None \<Rightarrow> Inl (io_other ''root authority capability missing'')
      | Some v \<Rightarrow> grant_from_str cd v)"

definition preaccept_failure :: "codec \<Rightarrow> root_context \<Rightarrow> string \<Rightarrow> meta \<Rightarrow> io_error \<Rightarrow> 'a io" where
  "preaccept_failure cd cx hdl m e =
     (let grant = (case parse_grant cd cx of Inr g \<Rightarrow> Some g | Inl _ \<Rightarrow> None)
      in seq (ignore_err (append_diagnostic cd
                \<lparr>dg_protocol = PROTOCOL, dg_work_id = hdl, dg_phase = ''preaccept_failed'', dg_initiator_pid = process_id cx,
                 dg_root_id = map_option gr_root_id grant,
                 dg_supervisor_authority_id = map_option gr_supervisor_authority_id grant,
                 dg_worker_pid = None, dg_worker_starttime_ticks = None, dg_detail = Some (to_string e)\<rparr>))
        (seq (ignore_err (record_root_preaccept_failure m (to_string e)))
          (raise e)))"

text \<open>\<^verbatim>\<open>map_err(preaccept_failure)\<close>\<close>

definition or_preaccept :: "codec \<Rightarrow> root_context \<Rightarrow> string \<Rightarrow> meta \<Rightarrow> 'a io \<Rightarrow> 'a io" where
  "or_preaccept cd cx hdl m op = catch op (preaccept_failure cd cx hdl m)"

definition selected :: "codec \<Rightarrow> root_context \<Rightarrow> string \<Rightarrow> meta \<Rightarrow> io_error + bool \<Rightarrow> io_error + bool \<Rightarrow> bool io" where
  "selected cd cx hdl m ring ancestor =
     or_preaccept cd cx hdl m (lift_result (selection (var cx) ring ancestor))"

subsection \<open>Who is at the other end\<close>

definition control_route :: "string \<Rightarrow> io_error + unit" where
  "control_route protocol =
     (if protocol = LEGACY_CONTROL_PROTOCOL \<or> protocol = SOURCE_CONTROL_PROTOCOL then Inr ()
      else Inl (io_other ''unsupported root control protocol''))"

text \<open>The twentieth field after the last closing parenthesis.\<close>

definition start_field :: "string \<Rightarrow> nat option" where
  "start_field stat =
     (case rfind '')'' stat of
        None \<Rightarrow> None
      | Some i \<Rightarrow>
          (let fields = split_whitespace (drop (i + 1) stat)
           in if length fields \<le> 19 then None else parse_u64 (fields ! 19)))"

definition stat_starttime :: "string \<Rightarrow> nat option" where
  "stat_starttime stat = (case start_field stat of Some t \<Rightarrow> if t > 0 then Some t else None | None \<Rightarrow> None)"

definition stat_pid :: "string \<Rightarrow> int option" where
  "stat_pid stat = (case split_whitespace stat of [] \<Rightarrow> None | f # _ \<Rightarrow> parse_i32 f)"

definition host_observed_source :: "root_context \<Rightarrow> io_error + process_ref" where
  "host_observed_source cx =
     (case (observer_first cx, self_stat cx) of
        (Inl e, _) \<Rightarrow> Inl e
      | (_, Inl e) \<Rightarrow> Inl e
      | (Inr observer, Inr stat) \<Rightarrow>
          (case stat_pid stat of
             None \<Rightarrow> Inl (io_other ''invalid procfs observer source PID'')
           | Some p \<Rightarrow>
               if \<not> p > 0 then Inl (io_other ''invalid procfs observer source PID'')
               else
                 (case stat_starttime stat of
                    None \<Rightarrow> Inl (io_other ''invalid procfs observer source starttime'')
                  | Some ticks \<Rightarrow>
                      (case stat_by_pid cx p of
                         Inl e \<Rightarrow> Inl e
                       | Inr direct \<Rightarrow>
                           if stat_pid direct \<noteq> Some p \<or> stat_starttime direct \<noteq> Some ticks
                           then Inl (io_other ''procfs source observer changed'')
                           else
                             (case observer_again cx of
                                Inl e \<Rightarrow> Inl e
                              | Inr again \<Rightarrow>
                                  if fst again \<noteq> fst observer then Inl (io_other ''procfs source observer changed'')
                                  else
                                    (case observer_last cx of
                                       Inl e \<Rightarrow> Inl e
                                     | Inr last_seen \<Rightarrow>
                                         if snd last_seen \<noteq> snd observer
                                         then Inl (io_other ''procfs source observer changed'')
                                         else
                                           (case source_boot cx of
                                              Inl e \<Rightarrow> Inl e
                                            | Inr b \<Rightarrow>
                                                if trim b = [] then Inl (io_other ''procfs source boot identity missing'')
                                                else Inr \<lparr>pr_pid = p, pr_boot_id = trim b, pr_starttime_ticks = ticks\<rparr>)))))))"

definition process_identity_live :: "process_ref \<Rightarrow> bool io" where
  "process_identity_live expected =
     bind (ask stat_files) (\<lambda>rd. bind current_boot_id (\<lambda>b.
       ret (case rd (pr_pid expected) of
              Inl _ \<Rightarrow> False
            | Inr stat \<Rightarrow>
                (case start_field stat of
                   None \<Rightarrow> False
                 | Some t \<Rightarrow> t = pr_starttime_ticks expected \<and> b = pr_boot_id expected))))"

definition authenticate_peer :: "root_context \<Rightarrow> process_ref \<Rightarrow> unit io" where
  "authenticate_peer cx expected =
     bind (ask_socket peer_creds) (\<lambda>creds.
       case creds of
         None \<Rightarrow> raise (io_other ''root endpoint peer identity mismatch'')
       | Some (u, p) \<Rightarrow>
           if u \<noteq> geteuid cx \<or> p \<noteq> pr_pid expected then raise (io_other ''root endpoint peer identity mismatch'')
           else bind (process_identity_live expected) (\<lambda>alive.
             if alive then ret () else raise (io_other ''root endpoint peer identity mismatch'')))"

definition verify_source_socket_v2_at :: "codec \<Rightarrow> source_socket_witness \<Rightarrow> nat \<Rightarrow> unit io" where
  "verify_source_socket_v2_at cd witness expected_broker_uid =
     bind (lift_result (witness_to_vec cd witness)) (\<lambda>body.
       if length body > MAX_SOURCE_WITNESS_BYTES then raise (io_other ''source socket witness too large'')
       else seq sock_call
        (bind (ask_socket peer_creds) (\<lambda>creds.
           if (case creds of None \<Rightarrow> True | Some (u, _) \<Rightarrow> u \<noteq> expected_broker_uid)
           then raise (io_other ''broker peer is not host root'')
           else bind (bind (ask_socket sock_read) lift_result) (\<lambda>challenge.
             if length challenge < 16 then raise unexpected_eof
             else
               (let request = CHR ''s'' # take 16 challenge @ body
                in bind (ask_socket bytes_taken) (\<lambda>n.
                     if n \<noteq> length request then raise (io_other ''short source control verification request'')
                     else bind (bind (ask_socket sock_read) lift_result) (\<lambda>answer.
                       if take 257 answer \<noteq> ''verified-source-v2 '' @ sw_root_id witness @ [newline_char]
                       then raise (io_other ''host source control verification refused'')
                       else ret ())))))))"

definition authenticate_control ::
  "codec \<Rightarrow> root_context \<Rightarrow> string \<Rightarrow> string \<Rightarrow> string \<Rightarrow> string \<Rightarrow> process_ref \<Rightarrow> source_scope \<Rightarrow> unit io" where
  "authenticate_control cd cx protocol root_id domain_id supervisor_id guardian scp =
     (if protocol = LEGACY_CONTROL_PROTOCOL then authenticate_peer cx guardian
      else if protocol = SOURCE_CONTROL_PROTOCOL
      then bind (lift_result (host_observed_source cx)) (\<lambda>source.
        if \<not> i32_range (pr_pid guardian) then raise (io_other ''invalid guardian host PID'')
        else verify_source_socket_v2_at cd
          \<lparr>sw_root_id = root_id, sw_domain_id = domain_id, sw_supervisor_id = supervisor_id, sw_guardian = guardian,
           sw_source = source, sw_scope = scp,
           sw_delegated = (if scp = ScopeRoot then var cx ''AGE319_PRIVATE_DELEGATED_ROOT_H_REQUEST_ID'' else None)\<rparr> 0)
      else raise (io_other ''unsupported root control protocol''))"

subsection \<open>Submission\<close>

definition validate_response :: "work_response \<Rightarrow> work_submission \<Rightarrow> io_error + unit" where
  "validate_response r s =
     (if wr_protocol r \<noteq> PROTOCOL \<or> wr_work_id r \<noteq> ws_work_id s \<or> wr_root_id r \<noteq> gr_root_id (ws_root_authority s) \<or>
         wr_supervisor_authority_id r \<noteq> gr_supervisor_authority_id (ws_root_authority s)
      then Inl (io_other ''root original-work response identity conflict'')
      else if wr_status r = ''accepted'' \<and> worker_identity r = None
      then Inl (io_other ''accepted original work has no exact worker identity'')
      else Inr ())"

datatype submit_disposition = DispAccepted | DispRejectedPreaccept | DispEffectsPossibleNoReplay

definition submit_response_disposition :: "work_response \<Rightarrow> work_submission \<Rightarrow> submit_disposition" where
  "submit_response_disposition r s =
     (case validate_response r s of
        Inl _ \<Rightarrow> DispEffectsPossibleNoReplay
      | Inr _ \<Rightarrow>
          if wr_status r = ''accepted'' \<or> wr_status r = ''already_accepted_no_replay'' then DispAccepted
          else if wr_status r = ''rejected_preaccept'' then DispRejectedPreaccept
          else DispEffectsPossibleNoReplay)"

definition without_dashes :: "string \<Rightarrow> string" where
  "without_dashes s = filter (\<lambda>c. c \<noteq> CHR ''-'') s"

fun capability_loop :: "nat \<Rightarrow> string \<Rightarrow> string io" where
  "capability_loop 0 acc = halt"
| "capability_loop (Suc n) acc =
     (if length acc \<ge> 64 then ret (take 64 acc)
      else bind (bind (ask_socket sock_read) lift_result) (\<lambda>text. capability_loop n (acc @ without_dashes (trim text))))"

definition new_capability :: "string io" where
  "new_capability w = capability_loop (patience (env w)) [] w"

definition nonempty :: "string option \<Rightarrow> string option" where
  "nonempty v = (case v of Some s \<Rightarrow> if s = [] then None else Some s | None \<Rightarrow> None)"

definition registration_mode :: "root_context \<Rightarrow> io_error + work_registration" where
  "registration_mode cx =
     (case (nonempty (var cx ROOT_WORK_ID_ENV), nonempty (var cx ROOT_PARENT_CAPABILITY_ENV)) of
        (Some parent, Some capability) \<Rightarrow> Inr (RegNested parent capability)
      | (None, None) \<Rightarrow> Inr RegRoot
      | _ \<Rightarrow> Inl (io_other ''incomplete inherited causal-parent authority''))"

definition scope_name :: "completion_scope \<Rightarrow> string" where
  "scope_name c = (case c of TreeScope \<Rightarrow> ''tree'' | RootScope \<Rightarrow> ''root'')"

definition make_intent ::
  "root_context \<Rightarrow> root_authority_grant \<Rightarrow> string \<Rightarrow> string \<Rightarrow> string \<Rightarrow> meta \<Rightarrow> string list \<Rightarrow> completion_scope \<Rightarrow>
   string option \<Rightarrow> bytes option \<Rightarrow> string \<Rightarrow> work_intent" where
  "make_intent cx grant endpoint hdl root_dir m args scp sentinel_text authority capability =
     \<lparr>in_protocol = PROTOCOL, in_work_id = hdl, in_root_id = gr_root_id grant, in_domain_id = gr_domain_id grant,
      in_control_protocol = gr_control_protocol grant, in_root_identity = Some (gr_root_identity grant),
      in_root_endpoint = endpoint, in_supervisor_authority_id = gr_supervisor_authority_id grant,
      in_guardian_identity = gr_guardian_identity grant, in_cancel_capability = capability, in_handle = hdl,
      in_state_root = root_dir, in_meta = m, in_argv = args, in_completion_scope = scope_name scp,
      in_ready_sentinel = sentinel_text, in_registration_authority = authority,
      in_environment = filter (\<lambda>(k, _). k \<noteq> ROOT_WORK_ID_ENV \<and> k \<noteq> ROOT_PARENT_CAPABILITY_ENV) (vars_os cx),
      in_cancel_owner = map_option process_ref_of (cancel_owner m)\<rparr>"

definition submit_diagnostic ::
  "root_context \<Rightarrow> string \<Rightarrow> root_authority_grant \<Rightarrow> string \<Rightarrow> process_ref option \<Rightarrow> string option \<Rightarrow> diagnostic" where
  "submit_diagnostic cx hdl grant phase worker detail =
     \<lparr>dg_protocol = PROTOCOL, dg_work_id = hdl, dg_phase = phase, dg_initiator_pid = process_id cx,
      dg_root_id = Some (gr_root_id grant), dg_supervisor_authority_id = Some (gr_supervisor_authority_id grant),
      dg_worker_pid = map_option pr_pid worker, dg_worker_starttime_ticks = map_option pr_starttime_ticks worker,
      dg_detail = detail\<rparr>"

text \<open>\<^verbatim>\<open>let _ = append_diagnostic(..)\<close> and then the failure before acceptance.\<close>

definition noted_preaccept :: "codec \<Rightarrow> root_context \<Rightarrow> string \<Rightarrow> meta \<Rightarrow> (io_error \<Rightarrow> diagnostic) \<Rightarrow> 'a io \<Rightarrow> 'a io" where
  "noted_preaccept cd cx hdl m d op =
     catch op (\<lambda>e. seq (ignore_err (append_diagnostic cd (d e))) (preaccept_failure cd cx hdl m e))"

definition outcome_unknown :: "codec \<Rightarrow> diagnostic \<Rightarrow> startup_outcome io" where
  "outcome_unknown cd d = seq (ignore_err (append_diagnostic cd d)) (ret RootEffectsPossibleNoReplay)"

definition pin_descriptors :: "unit io" where
  "pin_descriptors = seq sock_call (seq (sys_open_read INTENT_FILE) (seq sock_call sys_open_dir))"

definition work_frame :: "codec \<Rightarrow> work_submission \<Rightarrow> io_error + bytes" where
  "work_frame cd s =
     (case submission_to_vec cd s of
        Inl e \<Rightarrow> Inl e
      | Inr body \<Rightarrow>
          (let frame = ''work!'' @ [newline_char] @ body @ [newline_char]
           in if length frame \<ge> MAX_WORK_FRAME_BYTES then Inl (io_other ''root work frame exceeds bounded size'')
              else Inr frame))"

definition registration_scope :: "work_registration \<Rightarrow> source_scope" where
  "registration_scope r = (case r of RegRoot \<Rightarrow> ScopeRoot | RegNested parent _ \<Rightarrow> ScopeNested parent)"

text \<open>After the answer: what the root said decides, and only a positive rejection is an error.\<close>

definition conclude_submission ::
  "codec \<Rightarrow> root_context \<Rightarrow> string \<Rightarrow> meta \<Rightarrow> work_submission \<Rightarrow> work_response \<Rightarrow> startup_outcome io" where
  "conclude_submission cd cx hdl m s r =
     (let d = submit_diagnostic cx hdl (ws_root_authority s)
      in seq (case validate_response r s of
                Inl e \<Rightarrow> ignore_err (append_diagnostic cd
                           (d ''response_identity_conflict'' (worker_identity r) (Some (to_string e))))
              | Inr _ \<Rightarrow> ret ())
        (seq (ignore_err (append_diagnostic cd (d (wr_status r) (worker_identity r) (wr_detail r))))
          (case submit_response_disposition r s of
             DispAccepted \<Rightarrow> ret RootAccepted
           | DispRejectedPreaccept \<Rightarrow>
               preaccept_failure cd cx hdl m
                 (io_other (case wr_detail r of Some t \<Rightarrow> t | None \<Rightarrow> wr_status r))
           | DispEffectsPossibleNoReplay \<Rightarrow> ret RootEffectsPossibleNoReplay)))"

text \<open>From the first byte on the wire.\<close>

definition transmit_submission ::
  "codec \<Rightarrow> root_context \<Rightarrow> string \<Rightarrow> meta \<Rightarrow> work_submission \<Rightarrow> bytes \<Rightarrow> startup_outcome io" where
  "transmit_submission cd cx hdl m s frame =
     (let d = submit_diagnostic cx hdl (ws_root_authority s) ''acceptance_outcome_unknown'' None
      in handle_err (send_with_fds frame)
           (\<lambda>e. outcome_unknown cd (d (Some (to_string e))))
           (\<lambda>_. handle_err (if gr_control_protocol (ws_root_authority s) = SOURCE_CONTROL_PROTOCOL then sock_call else ret ())
              (\<lambda>_. outcome_unknown cd (d (Some ''root frame half-close failed; replay forbidden'')))
              (\<lambda>_. handle_err (read_response (response_from_slice cd))
                 (\<lambda>_. outcome_unknown cd (d (Some ''root reply lost; replay forbidden'')))
                 (conclude_submission cd cx hdl m s))))"

definition open_submission ::
  "codec \<Rightarrow> root_context \<Rightarrow> string \<Rightarrow> meta \<Rightarrow> work_submission \<Rightarrow> bytes io" where
  "open_submission cd cx hdl m s =
     (let grant = ws_root_authority s; d = submit_diagnostic cx hdl grant
      in seq (noted_preaccept cd cx hdl m (\<lambda>_. d ''transport_failed_preaccept'' None (Some ''root endpoint connect failed'')) sock_call)
        (bind (or_preaccept cd cx hdl m (lift_result (work_frame cd s))) (\<lambda>frame.
         seq (noted_preaccept cd cx hdl m (\<lambda>e. d ''peer_identity_rejected_preaccept'' None (Some (to_string e)))
                (authenticate_control cd cx (gr_control_protocol grant) (gr_root_id grant) (gr_domain_id grant)
                   (gr_supervisor_authority_id grant) (gr_guardian_identity grant) (registration_scope (ws_registration s))))
           (ret frame))))"

definition submission_authority ::
  "codec \<Rightarrow> root_context \<Rightarrow> io_error + bytes \<times> root_authority_grant \<times> work_registration" where
  "submission_authority cd cx =
     (case var cx ENDPOINT_ENV of
        None \<Rightarrow> Inl (io_other ''root endpoint missing; original work was not dispatched'')
      | Some endpoint \<Rightarrow>
          (case parse_grant cd cx of
             Inl e \<Rightarrow> Inl e
           | Inr grant \<Rightarrow>
               if gr_protocol grant \<noteq> ROOT_PROTOCOL then Inl (io_other ''unsupported root authority protocol'')
               else
                 (case control_route (gr_control_protocol grant) of
                    Inl e \<Rightarrow> Inl e
                  | Inr _ \<Rightarrow>
                      (case registration_mode cx of
                         Inl e \<Rightarrow> Inl e
                       | Inr reg \<Rightarrow> Inr (endpoint, grant, reg)))))"

definition prepare_submission ::
  "codec \<Rightarrow> root_context \<Rightarrow> string \<Rightarrow> string \<Rightarrow> meta \<Rightarrow> string list \<Rightarrow> completion_scope \<Rightarrow> string option \<Rightarrow> bytes option \<Rightarrow>
   bytes \<Rightarrow> root_authority_grant \<Rightarrow> work_registration \<Rightarrow> work_submission io" where
  "prepare_submission cd cx hdl root_dir m args scp sentinel_text authority endpoint grant reg =
     (let d = submit_diagnostic cx hdl grant
      in bind new_capability (\<lambda>capability.
         bind (or_preaccept cd cx hdl m (lift_result (intent_to_vec cd
                 (make_intent cx grant endpoint hdl root_dir m args scp sentinel_text authority capability)))) (\<lambda>intent_bytes.
         seq (noted_preaccept cd cx hdl m (\<lambda>e. d ''intent_persist_failed_preaccept'' None (Some (to_string e)))
                (atomic_write INTENT_FILE (Text intent_bytes)))
        (seq (or_preaccept cd cx hdl m (append_diagnostic cd (d ''initiated'' None None)))
        (seq (noted_preaccept cd cx hdl m (\<lambda>e. d ''descriptor_pin_failed_preaccept'' None (Some (to_string e))) pin_descriptors)
           (ret \<lparr>ws_protocol = PROTOCOL, ws_root_authority = grant, ws_work_id = hdl,
                 ws_request_sha256 = hex_digest cd intent_bytes, ws_registration = reg,
                 ws_cancel_capability = capability\<rparr>))))))"

definition submit_inner ::
  "codec \<Rightarrow> root_context \<Rightarrow> string \<Rightarrow> string \<Rightarrow> meta \<Rightarrow> string list \<Rightarrow> completion_scope \<Rightarrow> string option \<Rightarrow> bytes option \<Rightarrow>
   startup_outcome io" where
  "submit_inner cd cx hdl root_dir m args scp sentinel_text authority =
     bind (or_preaccept cd cx hdl m (lift_result (submission_authority cd cx))) (\<lambda>(endpoint, grant, reg).
     bind (prepare_submission cd cx hdl root_dir m args scp sentinel_text authority endpoint grant reg) (\<lambda>s.
     bind (open_submission cd cx hdl m s) (\<lambda>frame.
     transmit_submission cd cx hdl m s frame)))"

subsection \<open>Cancellation of accepted work\<close>

definition scope_for_namespaces :: "string \<Rightarrow> string \<Rightarrow> string option \<Rightarrow> string \<Rightarrow> source_scope" where
  "scope_for_namespaces current guardian parent_work work =
     (if current = guardian then ScopeCancelOutside work
      else case nonempty parent_work of Some p \<Rightarrow> ScopeNested p | None \<Rightarrow> ScopeRoot)"

definition cancel_scope :: "root_context \<Rightarrow> work_intent \<Rightarrow> string option \<Rightarrow> io_error + source_scope" where
  "cancel_scope cx i parent_work =
     (if in_domain_id i = [] \<or> in_root_identity i = None
      then Inl (io_other ''pinned cancellation intent has no root/domain binding'')
      else
        (case (own_pid_ns cx, pid_ns_of cx (pr_pid (in_guardian_identity i))) of
           (Inl e, _) \<Rightarrow> Inl e
         | (_, Inl e) \<Rightarrow> Inl e
         | (Inr own, Inr guardian) \<Rightarrow> Inr (scope_for_namespaces own guardian parent_work (in_work_id i))))"

definition cancel_diagnostic :: "root_context \<Rightarrow> cancel_submission \<Rightarrow> string \<Rightarrow> string option \<Rightarrow> diagnostic" where
  "cancel_diagnostic cx s phase detail =
     \<lparr>dg_protocol = PROTOCOL, dg_work_id = cs_work_id s, dg_phase = phase, dg_initiator_pid = process_id cx,
      dg_root_id = Some (cs_root_id s), dg_supervisor_authority_id = Some (cs_supervisor_authority_id s),
      dg_worker_pid = None, dg_worker_starttime_ticks = None, dg_detail = detail\<rparr>"

text \<open>\<^verbatim>\<open>inspect_err\<close>: the error is noted and passed on.\<close>

definition noted_err :: "codec \<Rightarrow> (io_error \<Rightarrow> diagnostic) \<Rightarrow> 'a io \<Rightarrow> 'a io" where
  "noted_err cd d op = catch op (\<lambda>e. seq (ignore_err (append_diagnostic cd (d e))) (raise e))"

definition cancel_frame :: "codec \<Rightarrow> cancel_submission \<Rightarrow> io_error + bytes" where
  "cancel_frame cd s =
     (case cancel_to_vec cd s of
        Inl e \<Rightarrow> Inl e
      | Inr body \<Rightarrow>
          (let frame = ''cancel'' @ [newline_char] @ body @ [newline_char]
           in if length frame \<ge> MAX_WORK_FRAME_BYTES then Inl (io_other ''root cancellation frame exceeds bounded size'')
              else Inr frame))"

definition cancel_prewire :: "codec \<Rightarrow> root_context \<Rightarrow> work_intent \<Rightarrow> cancel_submission \<Rightarrow> bytes option io" where
  "cancel_prewire cd cx i s =
     (let v2 = (in_control_protocol i = SOURCE_CONTROL_PROTOCOL)
      in bind (if v2 then bind (lift_result (cancel_frame cd s)) (\<lambda>f. ret (Some f)) else ret None) (\<lambda>frame.
         bind (if v2 then lift_result (cancel_scope cx i (var cx ROOT_WORK_ID_ENV)) else ret (ScopeCancelOutside (cs_work_id s))) (\<lambda>scp.
         seq (authenticate_control cd cx (in_control_protocol i) (in_root_id i) (in_domain_id i)
                (in_supervisor_authority_id i) (in_guardian_identity i) scp)
           (ret frame))))"

definition cancel_exchange :: "codec \<Rightarrow> cancel_submission \<Rightarrow> bytes option \<Rightarrow> work_response io" where
  "cancel_exchange cd s frame =
     seq (case frame of
            Some f \<Rightarrow> seq (write_all f) sock_call
          | None \<Rightarrow>
              seq (write_all (''cancel'' @ [newline_char]))
                (bind (lift_result (cancel_to_vec cd s)) (\<lambda>body. seq (write_all body) (write_all [newline_char]))))
       (read_response (response_from_slice cd))"

definition cancel_reply_bound :: "work_response \<Rightarrow> cancel_submission \<Rightarrow> bool" where
  "cancel_reply_bound r s \<longleftrightarrow>
     \<not> (wr_protocol r \<noteq> PROTOCOL \<or> wr_work_id r \<noteq> cs_work_id s \<or> wr_root_id r \<noteq> cs_root_id s \<or>
        wr_supervisor_authority_id r \<noteq> cs_supervisor_authority_id s)"

definition cancel_submission_of :: "work_intent \<Rightarrow> cancel_submission" where
  "cancel_submission_of i =
     \<lparr>cs_protocol = PROTOCOL, cs_root_id = in_root_id i, cs_supervisor_authority_id = in_supervisor_authority_id i,
      cs_work_id = in_work_id i, cs_cancel_capability = in_cancel_capability i\<rparr>"

definition cancel_intent :: "codec \<Rightarrow> root_context \<Rightarrow> work_intent \<Rightarrow> work_response io" where
  "cancel_intent cd cx i =
     (let s = cancel_submission_of i; d = cancel_diagnostic cx s
      in seq (lift_result (control_route (in_control_protocol i)))
        (seq (append_diagnostic cd (d ''cancellation_initiated'' None))
        (seq (noted_err cd (\<lambda>e. d ''cancellation_transport_failed'' (Some (to_string e))) sock_call)
        (bind (noted_err cd (\<lambda>e. d ''cancellation_source_refused_pre_wire'' (Some (to_string e))) (cancel_prewire cd cx i s)) (\<lambda>frame.
         bind (noted_err cd (\<lambda>e. d ''cancellation_outcome_unknown'' (Some (to_string e))) (cancel_exchange cd s frame)) (\<lambda>r.
           if \<not> cancel_reply_bound r s
           then (let e = io_other ''root cancellation response conflict''
                 in seq (ignore_err (append_diagnostic cd (d ''cancellation_response_identity_conflict'' (Some (to_string e)))))
                      (raise e))
           else seq (append_diagnostic cd (d (wr_status r) (wr_detail r))) (ret r)))))))"

definition cancel_root_work :: "codec \<Rightarrow> root_context \<Rightarrow> work_response option io" where
  "cancel_root_work cd cx =
     bind (try_exists ACCEPTED_FILE) (\<lambda>accepted.
       if \<not> accepted then ret None
       else bind (read_file_text INTENT_FILE) (\<lambda>bs.
            bind (lift_result (intent_from_slice cd bs)) (\<lambda>i.
            bind (cancel_intent cd cx i) (\<lambda>r. ret (Some r)))))"

definition is_root_owned :: "bool io" where
  "is_root_owned = handle_err (sys_lstat ACCEPTED_FILE) (\<lambda>_. ret False) (\<lambda>_. ret True)"

subsection \<open>The owner witness of accepted work\<close>

record owner_witness =
  cw_session_id :: string
  cw_invocation_uuid :: string
  cw_registration_authority :: bytes

definition bounded_read :: "fname \<Rightarrow> nat \<Rightarrow> bytes io" where
  "bounded_read f maximum =
     bind (sys_open_read f) (\<lambda>c. bind (sys (text_of c)) (\<lambda>t.
       if length t > maximum then raise (io_other ''source is not a bounded regular file'') else ret t))"

definition intent_binds :: "codec \<Rightarrow> string \<Rightarrow> string \<Rightarrow> bytes \<Rightarrow> work_intent \<Rightarrow> json \<Rightarrow> bool" where
  "intent_binds cd hdl root_dir intent_bytes i accepted \<longleftrightarrow>
     \<not> (in_protocol i \<noteq> PROTOCOL \<or> in_handle i \<noteq> hdl \<or> in_work_id i \<noteq> hdl \<or> in_state_root i \<noteq> root_dir \<or>
        jindex accepted ''protocol'' \<noteq> JStr PROTOCOL \<or> jindex accepted ''work_id'' \<noteq> JStr hdl \<or>
        jindex accepted ''root_id'' \<noteq> JStr (in_root_id i) \<or>
        jindex accepted ''supervisor_authority_id'' \<noteq> JStr (in_supervisor_authority_id i) \<or>
        jindex accepted ''request_sha256'' \<noteq> JStr (hex_digest cd intent_bytes))"

definition owner_witness_of :: "string \<Rightarrow> meta \<Rightarrow> string \<Rightarrow> work_intent \<Rightarrow> io_error + owner_witness" where
  "owner_witness_of helper_path m helper_sha256 i =
     (case (owner_session_id (in_meta i), owner_invocation_uuid (in_meta i), in_registration_authority i, delivery_helper (in_meta i)) of
        (Some session, Some invocation, Some authority, Some helper) \<Rightarrow>
          if session = [] \<or> invocation = [] \<or> length authority \<noteq> 64 \<or> \<not> list_all lower_hex authority \<or>
             owner_session_id m \<noteq> Some session \<or> owner_invocation_uuid m \<noteq> Some invocation \<or>
             map_option sha256 (delivery_helper m) \<noteq> Some helper_sha256 \<or> sha256 helper \<noteq> helper_sha256 \<or>
             prov_path helper \<noteq> helper_path
          then Inl (io_other ''accepted owner witness differs from handle'')
          else Inr \<lparr>cw_session_id = session, cw_invocation_uuid = invocation, cw_registration_authority = authority\<rparr>
      | _ \<Rightarrow> Inl (io_other ''accepted owner witness is incomplete''))"

definition completion_owner_witness ::
  "codec \<Rightarrow> string \<Rightarrow> string \<Rightarrow> string \<Rightarrow> meta \<Rightarrow> string \<Rightarrow> owner_witness option io" where
  "completion_owner_witness cd hdl root_dir helper_path m helper_sha256 =
     bind (handle_err (sys_lstat INTENT_FILE) (\<lambda>_. ret False) (\<lambda>_. ret True)) (\<lambda>intended.
       if \<not> intended
       then bind is_root_owned (\<lambda>accepted.
              if accepted then raise (io_other ''accepted work has no original intent'') else ret None)
       else
         bind (bounded_read INTENT_FILE (1024 * 1024)) (\<lambda>intent_bytes.
         bind (lift_result (intent_from_slice cd intent_bytes)) (\<lambda>i.
         bind (bounded_read ACCEPTED_FILE (1024 * 1024)) (\<lambda>accepted_bytes.
         bind (lift_result (value_from_slice cd accepted_bytes)) (\<lambda>accepted.
           if \<not> intent_binds cd hdl root_dir intent_bytes i accepted
           then raise (io_other ''accepted owner intent binding conflict'')
           else bind (lift_result (owner_witness_of helper_path m helper_sha256 i)) (\<lambda>witness.
                seq ask_v2 (ret (Some witness))))))))"

subsection \<open>The executor's side\<close>

text \<open>\<^verbatim>\<open>run_internal\<close> up to the supervisor it starts: descriptors, intent, environment, capability.\<close>

definition parse_fd :: "string option \<Rightarrow> io_error + int" where
  "parse_fd v =
     (case v of
        None \<Rightarrow> Inl (io_other ''missing original-work descriptor'')
      | Some s \<Rightarrow> (case parse_i32 s of Some n \<Rightarrow> Inr n | None \<Rightarrow> Inl (io_other ''invalid original-work descriptor'')))"

fun restore_environment :: "(bytes \<times> bytes) list \<Rightarrow> (bytes \<times> bytes) list \<Rightarrow> io_error + (bytes \<times> bytes) list" where
  "restore_environment done [] = Inr done"
| "restore_environment done ((k, v) # rest) =
     (if CHR 0x00 \<in> set k \<or> CHR 0x00 \<in> set v then Inl (io_other ''original-work environment contains NUL'')
      else restore_environment (AList.update k v done) rest)"

definition executor_environment :: "work_intent \<Rightarrow> io_error + (bytes \<times> bytes) list" where
  "executor_environment i =
     (case restore_environment [] (in_environment i) of
        Inl e \<Rightarrow> Inl e
      | Inr vs \<Rightarrow> Inr (AList.delete ROOT_PARENT_CAPABILITY_ENV (AList.update ROOT_WORK_ID_ENV (in_work_id i) vs)))"

definition child_capability_ok :: "string \<Rightarrow> bool" where
  "child_capability_ok c \<longleftrightarrow> length c = 64 \<and> list_all is_ascii_hexdigit c"

definition scope_of_name :: "string \<Rightarrow> io_error + completion_scope" where
  "scope_of_name s =
     (if s = ''tree'' then Inr TreeScope else if s = ''root'' then Inr RootScope
      else Inl (io_other ''invalid original-work completion scope''))"

definition executor_intent_ok :: "work_intent \<Rightarrow> bool" where
  "executor_intent_ok i \<longleftrightarrow> \<not> (in_protocol i \<noteq> PROTOCOL \<or> in_work_id i \<noteq> in_handle i)"

end
