(* ===== verification/Continuation.thy ===== *)
theory Continuation
  imports Root_Work
begin

section \<open>Source custody and the launch fence\<close>

text \<open>
  The source side of the completion continuation, \<^verbatim>\<open>src/src/continuation.rs\<close>. A handle registered
  with a runner keeps a registration, a launch fence and a local record as JSON documents, next to
  evidence that is written once. The fence decides whether the workload may start: it is created
  \<^verbatim>\<open>unreleased\<close>, a committed registration receipt moves it to \<^verbatim>\<open>may_launch\<close>, the supervisor moves it to
  \<^verbatim>\<open>launched\<close> when it has forked the workload, and the registration worker (or a recovery that has seen
  the worker gone) moves an unreleased one to \<^verbatim>\<open>revoked_never_launched\<close>.

  Arguments stand for \<^verbatim>\<open>serde_json\<close> and \<^verbatim>\<open>sha2\<close> (the codec) and for what a process reads of itself and of
  \<^verbatim>\<open>/proc\<close>. The fault barriers of the source are compiled out of a normal build.
\<close>

definition CONTINUATION_PROTOCOL :: string where "CONTINUATION_PROTOCOL = ''completion-continuation-v2''"
definition SOURCE_OUTCOME :: fname where "SOURCE_OUTCOME = Extra ''source-outcome-v2.json''"
definition FENCE :: fname where "FENCE = Extra ''source-launch-v2.json''"
definition CONFIRMATION :: fname where "CONFIRMATION = Extra ''registration-confirmation-v2.json''"
definition RECEIPT :: fname where "RECEIPT = Extra ''registration-receipt-v2.json''"
definition LOCAL_RECORD :: fname where "LOCAL_RECORD = Extra ''continuation-v2.json''"
definition SELECTION :: fname where "SELECTION = Extra ''output-selection-v2.json''"
definition SELECTED_LOG :: fname where "SELECTED_LOG = Extra ''selected-log-v2.bin''"
definition OBSERVATION :: fname where "OBSERVATION = Extra ''source-observation-v2.json''"
definition OUTPUT_BODY :: fname where "OUTPUT_BODY = Extra ''completion-output-v2.bin''"
definition CANCELLATION_RECEIPT :: fname where "CANCELLATION_RECEIPT = Extra ''source-cancellation-v2.json''"
definition CAUSAL_CANCEL :: fname where "CAUSAL_CANCEL = Extra ''root-work-cancel-v1.json''"
definition RECOVERY_IMAGE :: fname where "RECOVERY_IMAGE = Extra ''agent-bash-recovery-v2''"
definition LAUNCH_LOCK :: fname where "LAUNCH_LOCK = Extra ''launch.lock''"
definition CONTINUATION_LOCK :: fname where "CONTINUATION_LOCK = Extra ''continuation.lock''"
definition MAX_SOURCE :: nat where "MAX_SOURCE = 1024 * 1024"

lemmas source_file_defs =
  SOURCE_OUTCOME_def FENCE_def CONFIRMATION_def RECEIPT_def LOCAL_RECORD_def SELECTION_def SELECTED_LOG_def
  OBSERVATION_def OUTPUT_BODY_def CANCELLATION_RECEIPT_def CAUSAL_CANCEL_def RECOVERY_IMAGE_def LAUNCH_LOCK_def
  CONTINUATION_LOCK_def REGISTRATION_def SNAPSHOT_def SOURCE_BUNDLE_def INTENT_FILE_def ACCEPTED_FILE_def

record json_codec =
  json_to_vec :: "json \<Rightarrow> io_error + bytes"
  json_from_slice :: "bytes \<Rightarrow> io_error + json"
  sha_hex :: "bytes \<Rightarrow> string"

record source_paths =
  sp_root :: string
  sp_handle :: string
  sp_state_dir :: string

subsection \<open>Documents\<close>

definition json_bytes :: "json_codec \<Rightarrow> json \<Rightarrow> io_error + bytes" where
  "json_bytes jc v = (case json_to_vec jc v of Inl e \<Rightarrow> Inl e | Inr bs \<Rightarrow> Inr (bs @ [newline_char]))"

definition source_value :: "json_codec \<Rightarrow> fname \<Rightarrow> json io" where
  "source_value jc f = bind (bounded_read f MAX_SOURCE) (\<lambda>d. lift_result (json_from_slice jc d))"

definition save_document :: "json_codec \<Rightarrow> fname \<Rightarrow> json \<Rightarrow> unit io" where
  "save_document jc f v = bind (lift_result (json_bytes jc v)) (\<lambda>d. atomic_write f (Text d))"

text \<open>\<^verbatim>\<open>fs::hard_link\<close>\<close>

definition sys_link :: "fname \<Rightarrow> fname \<Rightarrow> unit io" where
  "sys_link a b =
     sys (bind (lookup_file a) (\<lambda>n.
       case n of
         None \<Rightarrow> raise err_not_found
       | Some node \<Rightarrow> bind (lookup_file b) (\<lambda>m. if m \<noteq> None then raise err_exists else set_file b (Some node))))"

definition attempt :: "'a io \<Rightarrow> (io_error + 'a) io" where
  "attempt m = handle_err m (\<lambda>e. ret (Inl e)) (\<lambda>a. ret (Inr a))"

text \<open>
  Evidence is written to a temporary of its own and linked into place: a name that exists already is
  compared, never replaced.
\<close>

fun entry_name :: "fname \<Rightarrow> string" where
  "entry_name (F x) = file_name x"
| "entry_name (Extra n) = n"
| "entry_name (Tmp f _ _) = entry_name f"

definition link_new :: "fname \<Rightarrow> bytes \<Rightarrow> (fname \<times> (io_error + unit)) io" where
  "link_new f data =
     bind (atomic_temp_path f) (\<lambda>tmp.
     seq (sys_create_new tmp)
    (seq (sys_write tmp (Text data))
    (seq sys_sync
    (bind (attempt (sys_link tmp f)) (\<lambda>linked. ret (tmp, linked))))))"

definition immutable :: "fname \<Rightarrow> bytes \<Rightarrow> unit io" where
  "immutable f data =
     bind (try_exists f) (\<lambda>there.
       if there
       then bind (bounded_read f (32 * MAX_SOURCE)) (\<lambda>old.
              if old = data then ret () else raise (io_other (''immutable source conflict: '' @ entry_name f)))
       else
         bind (link_new f data) (\<lambda>(tmp, linked).
         seq (sys_unlink tmp)
        (seq (case linked of
                Inr _ \<Rightarrow> ret ()
              | Inl e \<Rightarrow>
                  if kind e \<noteq> AlreadyExists then raise e
                  else bind (bounded_read f (32 * MAX_SOURCE)) (\<lambda>old. if old \<noteq> data then raise e else ret ()))
        (seq sys_open_dir sys_sync))))"

definition immutable_document :: "json_codec \<Rightarrow> fname \<Rightarrow> json \<Rightarrow> unit io" where
  "immutable_document jc f v = bind (lift_result (json_bytes jc v)) (immutable f)"

definition named_lock :: "fname \<Rightarrow> unit io" where
  "named_lock f = seq (sys_open_create f) lock_file_exclusive"

subsection \<open>Who a document belongs to\<close>

fun copy_keys :: "string list \<Rightarrow> json \<Rightarrow> json \<Rightarrow> json" where
  "copy_keys [] src out = out"
| "copy_keys (k # ks) src out = copy_keys ks src (jset out k (jindex src k))"

definition common :: "json \<Rightarrow> string \<Rightarrow> json" where
  "common registration dg =
     copy_keys [''protocol'', ''domain_id'', ''source_id'', ''handle'', ''registration_id''] registration
       (JObj [(''registration_digest'', JStr dg)])"

fun exact_entries :: "(string \<times> json) list \<Rightarrow> json \<Rightarrow> io_error + unit" where
  "exact_entries [] reply = Inr ()"
| "exact_entries ((k, expected) # kvs) reply =
     (if expected = JNull \<or> jget reply k \<noteq> Some expected
      then Inl (io_other (''continuation identity conflict: '' @ k))
      else exact_entries kvs reply)"

definition exact :: "json \<Rightarrow> json \<Rightarrow> io_error + unit" where
  "exact cm reply =
     (case cm of JObj kvs \<Rightarrow> exact_entries kvs reply | _ \<Rightarrow> Inl (io_other ''invalid identity''))"

definition relative_names :: "(string \<times> string) list" where
  "relative_names =
     [(''meta_relative'', ''meta.json''), (''log_relative'', ''log''), (''rc_relative'', ''rc''),
      (''registration_relative'', ''source-registration-v2.json''),
      (''outcome_relative'', ''source-outcome-v2.json''),
      (''snapshot_relative'', ''completion-snapshot-v2.json'')]"

definition binding_conflict :: "source_paths \<Rightarrow> json \<Rightarrow> string option" where
  "binding_conflict sp registration =
     (if jindex registration ''protocol'' \<noteq> JStr CONTINUATION_PROTOCOL \<or>
         jindex registration ''handle'' \<noteq> JStr (sp_handle sp) \<or>
         as_str (jindex registration ''handle_dir'') \<noteq> Some (sp_state_dir sp)
      then Some ''registration source binding conflict''
      else case find (\<lambda>(k, v). jindex registration k \<noteq> JStr v) relative_names of
             Some (k, _) \<Rightarrow> Some (''source path conflict: '' @ k)
           | None \<Rightarrow>
               if as_str (jindex registration ''spool_root'') \<noteq> Some (sp_root sp) \<or>
                  jindex registration ''source_evidence_protocol'' \<noteq> JStr CONTINUATION_PROTOCOL
               then Some ''source root/protocol conflict''
               else None)"

definition source_binding :: "json_codec \<Rightarrow> source_paths \<Rightarrow> (json \<times> json) io" where
  "source_binding jc sp =
     bind (bounded_read REGISTRATION MAX_SOURCE) (\<lambda>d.
     bind (lift_result (json_from_slice jc d)) (\<lambda>registration.
       case binding_conflict sp registration of
         Some detail \<Rightarrow> raise (io_other detail)
       | None \<Rightarrow>
           (let cm = common registration (sha_hex jc d)
            in seq (lift_result (exact cm cm)) (ret (registration, cm)))))"

definition completion_kind :: "string \<Rightarrow> io_error + string" where
  "completion_kind m =
     (if m = ''exit'' then Inr ''exit'' else if m = ''sentinel'' then Inr ''ready''
      else Inl (io_other ''invalid local completion mode''))"

definition valid_digest :: "string \<Rightarrow> bool" where
  "valid_digest v \<longleftrightarrow> length v = 64 \<and> list_all lower_hex v"

definition json_of_entry :: "caller_entry \<Rightarrow> json" where
  "json_of_entry e =
     JObj [(''pid'', JNum (ce_pid e)), (''starttime_ticks'', jnat (starttime_ticks e)), (''boot_id'', JStr (ce_boot_id e))]"

definition entry_of_json :: "json \<Rightarrow> io_error + caller_entry" where
  "entry_of_json v =
     (case (jindex v ''pid'', as_u64 (jindex v ''starttime_ticks''), as_str (jindex v ''boot_id'')) of
        (JNum p, Some t, Some b) \<Rightarrow>
          if - 2147483648 \<le> p \<and> p \<le> 2147483647
          then Inr \<lparr>ce_pid = p, starttime_ticks = t, ce_boot_id = b\<rparr>
          else Inl (io_other ''invalid value'')
      | _ \<Rightarrow> Inl (io_other ''missing field''))"

subsection \<open>Preparing a source\<close>

record source_facts =
  canonical_dir :: "io_error + string"
  own_image :: "io_error + bytes"
  new_uuids :: "(io_error + string) \<times> (io_error + string)"
  own_identity :: "io_error + caller_entry"

definition registration_document ::
  "source_paths \<Rightarrow> meta \<Rightarrow> helper_provenance \<Rightarrow> string \<Rightarrow> string \<Rightarrow> string \<Rightarrow> string \<Rightarrow> string \<Rightarrow> string \<Rightarrow>
   string \<Rightarrow> string \<Rightarrow> caller_entry \<Rightarrow> json" where
  "registration_document sp m helper kd session invocation domain scp source_id registration_id recovery_hash worker =
     JObj
      [(''protocol'', JStr CONTINUATION_PROTOCOL), (''domain_id'', JStr domain), (''source_id'', JStr source_id),
       (''registration_id'', JStr registration_id), (''handle'', JStr (sp_handle sp)),
       (''handle_dir'', JStr (sp_state_dir sp)), (''spool_root'', JStr (sp_root sp)),
       (''meta_relative'', JStr ''meta.json''), (''log_relative'', JStr ''log''), (''rc_relative'', JStr ''rc''),
       (''registration_relative'', JStr ''source-registration-v2.json''),
       (''outcome_relative'', JStr ''source-outcome-v2.json''),
       (''snapshot_relative'', JStr ''completion-snapshot-v2.json''),
       (''owner_session_id'', JStr session), (''owner_invocation_uuid'', JStr invocation),
       (''registering_caller'', json_of_entry worker),
       (''delivery_mode'', JStr (delivery_mode_as_str (delivery_mode m))), (''completion_kind'', JStr kd),
       (''completion_scope'', JStr scp),
       (''helper'', JObj [(''path'', JStr (prov_path helper)), (''sha256'', JStr (sha256 helper)),
          (''environment_sha256'', jtext (environment_sha256 helper))]),
       (''recovery'', JObj [(''path'', JStr (path_join (sp_state_dir sp) ''agent-bash-recovery-v2'')),
          (''sha256'', JStr recovery_hash), (''environment_sha256'', jtext (environment_sha256 helper))]),
       (''source_evidence_protocol'', JStr CONTINUATION_PROTOCOL), (''listener_revision'', JNum 1),
       (''listeners'', JArr [JObj [(''listener_id'', JStr invocation), (''session_id'', JStr session),
          (''owner_invocation_uuid'', JStr invocation)]])]"

definition fence_document :: "json \<Rightarrow> caller_entry \<Rightarrow> json" where
  "fence_document cm worker =
     jset (jset (jset (jset cm ''revision'' (JNum 0)) ''phase'' (JStr ''unreleased''))
       ''registration_worker'' (json_of_entry worker)) ''workload_identity'' JNull"

definition require :: "string \<Rightarrow> 'a option \<Rightarrow> 'a io" where
  "require detail x = (case x of None \<Rightarrow> raise (io_other detail) | Some a \<Rightarrow> ret a)"

definition copy_recovery_image :: "json_codec \<Rightarrow> io_error + bytes \<Rightarrow> string io" where
  "copy_recovery_image jc exe =
     bind (lift_result exe) (\<lambda>bs.
     seq (sys_create_new RECOVERY_IMAGE)
    (seq (sys_write RECOVERY_IMAGE (Text bs))
    (seq sys_sync
    (bind (bounded_read RECOVERY_IMAGE (512 * MAX_SOURCE)) (\<lambda>copied. ret (sha_hex jc copied))))))"

definition retain_registration :: "json_codec \<Rightarrow> json \<Rightarrow> caller_entry \<Rightarrow> unit io" where
  "retain_registration jc registration worker =
     bind (lift_result (json_bytes jc registration)) (\<lambda>d.
       (let cm = common registration (sha_hex jc d)
        in seq (named_lock LAUNCH_LOCK)
          (seq (immutable REGISTRATION d)
          (seq (immutable_document jc FENCE (fence_document cm worker))
               (save_document jc LOCAL_RECORD
                  (jset (jset cm ''registration'' (JStr ''intent'')) ''enqueue'' (JStr ''waiting_evidence'')))))))"

definition prepare :: "json_codec \<Rightarrow> source_paths \<Rightarrow> source_facts \<Rightarrow> meta \<Rightarrow> string \<Rightarrow> string \<Rightarrow> unit io" where
  "prepare jc sp sf m domain scp =
     bind (lift_result (completion_kind (run_mode m))) (\<lambda>kd.
     bind (require ''missing pinned helper'' (delivery_helper m)) (\<lambda>helper.
     bind (require ''missing owner session'' (owner_session_id m)) (\<lambda>session.
     bind (require ''missing owner invocation'' (owner_invocation_uuid m)) (\<lambda>invocation.
     bind (lift_result (canonical_dir sf)) (\<lambda>canonical.
       if canonical \<noteq> sp_state_dir sp \<or> \<not> (case environment_sha256 helper of None \<Rightarrow> False | Some h \<Rightarrow> valid_digest h)
       then raise (io_other ''noncanonical source directory or missing sealed environment'')
       else
         bind (copy_recovery_image jc (own_image sf)) (\<lambda>recovery_hash.
         bind (lift_result (own_identity sf)) (\<lambda>worker.
         bind (lift_result (fst (new_uuids sf))) (\<lambda>source_id.
         bind (lift_result (snd (new_uuids sf))) (\<lambda>registration_id.
           retain_registration jc
             (registration_document sp m helper kd session invocation domain scp source_id registration_id
                recovery_hash worker) worker)))))))))"

subsection \<open>The launch fence\<close>

definition transition :: "json_codec \<Rightarrow> json \<Rightarrow> string \<Rightarrow> unit io" where
  "transition jc fence phase =
     bind (require ''invalid launch revision'' (as_u64 (jindex fence ''revision''))) (\<lambda>revision.
       if revision = u64_max then raise (io_other ''launch revision overflow'')
       else save_document jc FENCE
              (jset (jset fence ''revision'' (jnat (revision + 1))) ''phase'' (JStr phase)))"

definition fence_value :: "json_codec \<Rightarrow> json \<Rightarrow> json io" where
  "fence_value jc cm = bind (source_value jc FENCE) (\<lambda>fence. seq (lift_result (exact cm fence)) (ret fence))"

definition committed_receipt :: "json \<Rightarrow> json \<Rightarrow> json \<Rightarrow> bool" where
  "committed_receipt registration cm reply \<longleftrightarrow>
     (as_str (jindex reply ''status'') = Some ''registered'' \<or> as_str (jindex reply ''status'') = Some ''already_registered'') \<and>
     jindex reply ''registration_committed'' = JBool True \<and>
     jindex reply ''continuation_owner_domain'' = jindex cm ''domain_id'' \<and>
     jindex reply ''listener_revision'' = jindex registration ''listener_revision'' \<and>
     jindex reply ''listeners'' = jindex registration ''listeners''"

text \<open>Assigning a field of a value that is neither an object nor null panics.\<close>

definition set_local :: "json_codec \<Rightarrow> string \<Rightarrow> string \<Rightarrow> unit io" where
  "set_local jc k v =
     seq (named_lock CONTINUATION_LOCK)
       (bind (source_value jc LOCAL_RECORD) (\<lambda>local.
          if is_object local \<or> local = JNull then save_document jc LOCAL_RECORD (jset local k (JStr v)) else halt))"

definition confirm_launch :: "json_codec \<Rightarrow> source_paths \<Rightarrow> io_error + caller_entry \<Rightarrow> json \<Rightarrow> unit io" where
  "confirm_launch jc sp me reply =
     bind (source_binding jc sp) (\<lambda>(registration, cm).
     seq (lift_result (exact cm reply))
       (if \<not> committed_receipt registration cm reply
        then raise (io_other ''not an exact committed registration receipt'')
        else
          seq (named_lock LAUNCH_LOCK)
            (bind (fence_value jc cm) (\<lambda>fence.
             bind (lift_result (entry_of_json (jindex fence ''registration_worker''))) (\<lambda>worker.
             bind (lift_result me) (\<lambda>self.
               if worker \<noteq> self \<or> jindex fence ''phase'' \<noteq> JStr ''unreleased''
               then raise (io_other ''original launch authority is not spendable'')
               else
                 seq (immutable_document jc RECEIPT reply)
                (seq (transition jc fence ''may_launch'')
                     (set_local jc ''registration'' ''confirmed''))))))))"

definition abandon :: "json_codec \<Rightarrow> source_paths \<Rightarrow> io_error + caller_entry \<Rightarrow> unit io" where
  "abandon jc sp me =
     bind v2_enabled (\<lambda>v2.
       if \<not> v2 then ret ()
       else
         seq (named_lock LAUNCH_LOCK)
           (bind (source_binding jc sp) (\<lambda>(registration, cm).
            bind (fence_value jc cm) (\<lambda>fence.
            bind (lift_result (entry_of_json (jindex fence ''registration_worker''))) (\<lambda>worker.
            bind (lift_result me) (\<lambda>self.
              if worker = self \<and> jindex fence ''phase'' = JStr ''unreleased''
              then transition jc fence ''revoked_never_launched'' else ret ()))))))"

definition launched :: "json_codec \<Rightarrow> source_paths \<Rightarrow> io_error + caller_entry \<Rightarrow> caller_entry option io" where
  "launched jc sp child =
     bind v2_enabled (\<lambda>v2.
       if \<not> v2 then ret None
       else
         seq (named_lock LAUNCH_LOCK)
           (bind (source_binding jc sp) (\<lambda>(registration, cm).
            bind (fence_value jc cm) (\<lambda>fence.
              if jindex fence ''phase'' \<noteq> JStr ''may_launch'' then raise (io_other ''launch fence conflict'')
              else
                bind (lift_result child) (\<lambda>identity.
                seq (transition jc (jset fence ''workload_identity'' (json_of_entry identity)) ''launched'')
                    (ret (Some identity)))))))"

text \<open>
  The part of \<^verbatim>\<open>reconcile\<close> that decides about the fence, under the launch lock: the answer is a pending
  reply, or none when recovery goes on.
\<close>

definition reconcile_fence ::
  "json_codec \<Rightarrow> (caller_entry \<Rightarrow> identity_evidence) \<Rightarrow> json \<Rightarrow> json \<Rightarrow> json option io" where
  "reconcile_fence jc evidence cm confirmation =
     seq (named_lock LAUNCH_LOCK)
       (bind (fence_value jc cm) (\<lambda>fence.
        bind (if jindex fence ''phase'' = JStr ''unreleased''
              then bind (lift_result (entry_of_json (jindex fence ''registration_worker''))) (\<lambda>worker.
                     if evidence worker \<noteq> Gone \<and> evidence worker \<noteq> Mismatch
                     then ret (Some (jset (jset cm ''status'' (JStr ''pending'')) ''reason''
                            (JStr ''registration_worker_not_proven_gone'')))
                     else seq (transition jc fence ''revoked_never_launched'') (ret None))
              else ret None) (\<lambda>pending.
          case pending of
            Some reply \<Rightarrow> ret (Some reply)
          | None \<Rightarrow> seq (immutable_document jc CONFIRMATION confirmation) (ret None))))"

definition completion_only :: "json \<Rightarrow> bool" where
  "completion_only confirmation \<longleftrightarrow>
     jindex confirmation ''status'' = JStr ''exact_committed'' \<and>
     jindex confirmation ''authority'' = JStr ''completion_only'' \<and>
     jindex confirmation ''registration_committed'' = JBool True"

text \<open>\<^verbatim>\<open>reconcile\<close> up to the decision: its own image, the registered environment and the confirmation must agree.\<close>

definition reconcile_authority ::
  "json_codec \<Rightarrow> source_paths \<Rightarrow> io_error + bytes \<Rightarrow> io_error + json \<Rightarrow> (json \<times> json) io" where
  "reconcile_authority jc sp exe confirmation =
     bind (source_binding jc sp) (\<lambda>(registration, cm).
     bind (lift_result confirmation) (\<lambda>cf.
     seq (lift_result (exact cm cf))
       (if \<not> completion_only cf then raise (io_other ''no completion-only authority'')
        else
          bind (lift_result exe) (\<lambda>bs.
            if jindex (jindex registration ''recovery'') ''sha256'' \<noteq> JStr (sha_hex jc bs)
            then raise (io_other ''pinned recovery identity conflict'')
            else
              bind (bounded_read (F DeliveryHelperEnvironment) MAX_SOURCE) (\<lambda>sealed.
                if jindex (jindex registration ''recovery'') ''environment_sha256'' \<noteq> JStr (sha_hex jc sealed)
                then raise (io_other ''pinned recovery identity conflict'')
                else ret (cm, cf))))))"

definition reconcile_launch ::
  "json_codec \<Rightarrow> source_paths \<Rightarrow> io_error + bytes \<Rightarrow> io_error + json \<Rightarrow> (caller_entry \<Rightarrow> identity_evidence) \<Rightarrow> json option io" where
  "reconcile_launch jc sp exe confirmation evidence =
     bind (reconcile_authority jc sp exe confirmation) (\<lambda>(cm, cf). reconcile_fence jc evidence cm cf)"

subsection \<open>What a receipt establishes\<close>

definition local_value :: "json_codec \<Rightarrow> json \<Rightarrow> json io" where
  "local_value jc cm = bind (source_value jc LOCAL_RECORD) (\<lambda>local. seq (lift_result (exact cm local)) (ret local))"

definition registration_confirmed :: "json \<Rightarrow> bool" where
  "registration_confirmed local \<longleftrightarrow>
     as_str (jindex local ''registration'') = Some ''confirmed'' \<or>
     as_str (jindex local ''registration'') = Some ''completion_only_confirmed''"

definition notification_owned :: "json_codec \<Rightarrow> source_paths \<Rightarrow> bool io" where
  "notification_owned jc sp =
     bind (source_binding jc sp) (\<lambda>(registration, cm). bind (local_value jc cm) (\<lambda>local. ret (registration_confirmed local)))"

definition handed_off :: "json_codec \<Rightarrow> source_paths \<Rightarrow> bool io" where
  "handed_off jc sp =
     bind (source_binding jc sp) (\<lambda>(registration, cm). bind (local_value jc cm) (\<lambda>local.
       if registration_confirmed local then try_exists SNAPSHOT else ret False))"

definition confirmed_owner_binding :: "json_codec \<Rightarrow> source_paths \<Rightarrow> string \<Rightarrow> string \<Rightarrow> string \<Rightarrow> unit io" where
  "confirmed_owner_binding jc sp session invocation helper_sha256 =
     bind (source_binding jc sp) (\<lambda>(registration, cm).
       if jindex registration ''owner_session_id'' \<noteq> JStr session \<or>
          jindex registration ''owner_invocation_uuid'' \<noteq> JStr invocation \<or>
          jindex (jindex registration ''helper'') ''sha256'' \<noteq> JStr helper_sha256
       then raise (io_other ''registration owner or helper binding conflict'')
       else
         bind (handle_err (source_value jc RECEIPT)
                 (\<lambda>e. if kind e = NotFound then bind (source_value jc CONFIRMATION) (\<lambda>r. ret (r, True)) else raise e)
                 (\<lambda>r. ret (r, False))) (\<lambda>(reply, recovered).
         seq (lift_result (exact cm reply))
           (if jindex reply ''registration_committed'' \<noteq> JBool True
            then raise (io_other ''registration receipt does not prove commitment'')
            else if recovered
            then if jindex reply ''status'' \<noteq> JStr ''exact_committed'' \<or> jindex reply ''authority'' \<noteq> JStr ''completion_only''
                 then raise (io_other ''registration confirmation has wrong authority'') else ret ()
            else if \<not> committed_receipt registration cm reply
                 then raise (io_other ''registration receipt does not match original source'') else ret ())))"

definition original_request :: "string \<Rightarrow> json list \<Rightarrow> bool" where
  "original_request owner dispositions =
     (case filter (\<lambda>row. jindex row ''listener_id'' = JStr owner) dispositions of
        [request] \<Rightarrow>
          \<not> no_text (jindex request ''requested_at'') \<and>
          jindex request ''request_basis'' = JStr ''explicit_listener_activation_unattributed''
      | _ \<Rightarrow> False)"

definition activation_committed :: "json_codec \<Rightarrow> source_paths \<Rightarrow> json \<Rightarrow> bool io" where
  "activation_committed jc sp reply =
     bind (source_binding jc sp) (\<lambda>(registration, cm).
     seq (lift_result (exact cm reply))
       (if jindex reply ''status'' \<noteq> JStr ''exact_committed'' \<or> jindex reply ''registration_committed'' \<noteq> JBool True
        then ret False
        else
          (let owner = jindex registration ''owner_invocation_uuid''
           in if no_text owner then raise (io_other ''missing original activation listener'')
              else case jindex reply ''notification_dispositions'' of
                     JArr dispositions \<Rightarrow> ret (original_request (str_or_empty owner) dispositions)
                   | _ \<Rightarrow> ret False)))"

subsection \<open>Acceptance of a completion\<close>

definition ACCEPTED_KEYS :: "string list" where
  "ACCEPTED_KEYS = [''snapshot_sha256'', ''outcome_sha256'', ''payload_sha256'', ''payload_byte_len'']"

fun merge_accepted :: "string list \<Rightarrow> json \<Rightarrow> json \<Rightarrow> io_error + json" where
  "merge_accepted [] reply local = Inr local"
| "merge_accepted (k # ks) reply local =
     (if (case jget local k of None \<Rightarrow> False | Some prior \<Rightarrow> prior \<noteq> jindex reply k)
      then Inl (io_other ''accepted payload conflict'')
      else merge_accepted ks reply (jset local k (jindex reply k)))"

definition stale_listeners :: "json \<Rightarrow> json \<Rightarrow> bool" where
  "stale_listeners registration reply \<longleftrightarrow>
     (case as_u64 (jindex reply ''listener_revision'') of
        None \<Rightarrow> True
      | Some revision \<Rightarrow>
          revision < (case as_u64 (jindex registration ''listener_revision'') of Some n \<Rightarrow> n | None \<Rightarrow> u64_max))"

definition not_acceptance :: "io_error" where
  "not_acceptance = io_other ''not an exact completion acceptance receipt''"

definition accept :: "json_codec \<Rightarrow> source_paths \<Rightarrow> json \<Rightarrow> unit io" where
  "accept jc sp reply =
     bind (source_binding jc sp) (\<lambda>(registration, cm).
     seq (lift_result (exact cm reply))
       (if as_str (jindex reply ''status'') \<noteq> Some ''accepted'' \<and> as_str (jindex reply ''status'') \<noteq> Some ''already_accepted''
        then raise not_acceptance
        else
          bind (bounded_read SNAPSHOT (16 * MAX_SOURCE)) (\<lambda>snapshot.
            if jindex reply ''snapshot_sha256'' \<noteq> JStr (sha_hex jc snapshot) then raise not_acceptance
            else
              bind (bounded_read SOURCE_OUTCOME MAX_SOURCE) (\<lambda>outcome.
                if jindex reply ''outcome_sha256'' \<noteq> JStr (sha_hex jc outcome) \<or>
                   \<not> (case as_str (jindex reply ''payload_sha256'') of None \<Rightarrow> False | Some h \<Rightarrow> valid_digest h) \<or>
                   as_u64 (jindex reply ''payload_byte_len'') = None \<or> stale_listeners registration reply
                then raise not_acceptance
                else
                  seq (named_lock CONTINUATION_LOCK)
                    (bind (source_value jc LOCAL_RECORD) (\<lambda>local.
                       if \<not> is_object local \<and> local \<noteq> JNull then halt
                       else
                         bind (lift_result (merge_accepted ACCEPTED_KEYS reply local)) (\<lambda>merged.
                           save_document jc LOCAL_RECORD (jset merged ''enqueue'' (JStr ''accepted'')))))))))"

subsection \<open>The selected event\<close>

record observation =
  ob_kind :: string
  ob_root_wait_status :: "int option"
  ob_tree_drained :: bool
  ob_output_closed :: bool
  ob_ready_sentinel :: "string option"
  ob_output_trusted :: bool

record storage_facts =
  dir_stat :: "io_error + nat \<times> nat"
  pin_stat :: "nat \<times> nat \<times> nat"

text \<open>
  The selected log is a second name of the log. The model's files are values, so the second name holds
  the log as it is when the link is made, and what is appended to the log later does not show under it.
\<close>

definition pin_output :: "storage_facts \<Rightarrow> json io" where
  "pin_output st =
     seq (sys_link (F Log) SELECTED_LOG)
       (bind (sys_lstat SELECTED_LOG) (\<lambda>n.
          case n of
            Regular c \<Rightarrow>
              (case pin_stat st of (dev, ino, links) \<Rightarrow>
                 seq sys_open_dir
                (seq sys_sync
                  (ret (JObj [(''byte_len'', jnat (text_length (Some n))), (''device'', jnat dev), (''inode'', jnat ino),
                              (''link_count'', jnat links)]))))
          | _ \<Rightarrow> raise (io_other ''selected log is not a regular file'')))"

definition select_event_output :: "json_codec \<Rightarrow> storage_facts \<Rightarrow> json option \<Rightarrow> bool \<Rightarrow> unit io" where
  "select_event_output jc st observed trusted =
     bind v2_enabled (\<lambda>v2.
     bind (if v2 then try_exists SELECTION else ret True) (\<lambda>skip.
       if skip then ret ()
       else
         bind (lift_result (dir_stat st)) (\<lambda>(dev, ino).
         bind (if trusted
               then catch (pin_output st) (\<lambda>e. ret (JObj [(''missing'', JStr (to_string e))]))
               else ret (JObj [(''missing'', JStr ''output capture incomplete or unverified'')])) (\<lambda>selection.
           (let noted = (case observed of None \<Rightarrow> selection | Some v \<Rightarrow> jset selection ''observation'' v)
            in immutable_document jc SELECTION
                 (jset noted ''directory'' (JObj [(''device'', jnat dev), (''inode'', jnat ino)])))))))"

definition json_option :: "('a \<Rightarrow> json) \<Rightarrow> 'a option \<Rightarrow> json" where
  "json_option f x = (case x of None \<Rightarrow> JNull | Some a \<Rightarrow> f a)"

text \<open>The basis of a cancellation: the accepted marker, the owner's lease, or the root's receipts.\<close>

definition paired_basis :: "json_codec \<Rightarrow> source_paths \<Rightarrow> meta \<Rightarrow> json \<Rightarrow> json io" where
  "paired_basis jc sp m cm =
     bind (bounded_read INTENT_FILE MAX_SOURCE) (\<lambda>intent.
     bind (bounded_read ACCEPTED_FILE MAX_SOURCE) (\<lambda>accepted.
     bind (lift_result (json_from_slice jc intent)) (\<lambda>iv.
     bind (lift_result (json_from_slice jc accepted)) (\<lambda>av.
       if jindex iv ''protocol'' \<noteq> JStr PROTOCOL \<or> jindex av ''protocol'' \<noteq> JStr PROTOCOL \<or>
          jindex iv ''work_id'' \<noteq> JStr (sp_handle sp) \<or> jindex av ''work_id'' \<noteq> JStr (sp_handle sp) \<or>
          jindex iv ''root_id'' \<noteq> jindex av ''root_id'' \<or> jindex av ''request_sha256'' \<noteq> JStr (sha_hex jc intent)
       then raise (io_other ''paired cancellation acceptance identity conflict'')
       else
         (let receipt = jset (jset cm ''accepted_work_sha256'' (JStr (sha_hex jc accepted))) ''root_id'' (jindex av ''root_id'')
          in if completion_reason m = Some ''causal-parent-cancelled''
             then
               bind (bounded_read CAUSAL_CANCEL MAX_SOURCE) (\<lambda>causal.
               bind (lift_result (json_from_slice jc causal)) (\<lambda>cv.
                 if jindex cv ''protocol'' \<noteq> JStr PROTOCOL \<or> jindex cv ''work_id'' \<noteq> JStr (sp_handle sp) \<or>
                    jindex cv ''root_id'' \<noteq> jindex av ''root_id'' \<or> jindex cv ''cause'' \<noteq> JStr ''causal_parent_cancelled'' \<or>
                    jindex cv ''requester'' \<noteq> JNull
                 then raise (io_other ''causal cancellation receipt identity conflict'')
                 else ret (jset (jset receipt ''basis'' (JStr ''root_causal_receipt''))
                        ''root_cancel_sha256'' (JStr (sha_hex jc causal)))))
             else
               ret (jset (jset receipt ''basis'' (JStr ''paired_worker_root_loss_observation''))
                      ''guardian_identity'' (jindex iv ''guardian_identity'')))))))"

definition cancellation_basis :: "json_codec \<Rightarrow> source_paths \<Rightarrow> meta \<Rightarrow> json \<Rightarrow> json io" where
  "cancellation_basis jc sp m cm =
     bind (durable_marker_exists (F AcceptedCancel)) (\<lambda>requested.
       if requested
       then bind (bounded_read (F AcceptedCancel) MAX_SOURCE) (\<lambda>d.
              ret (jset (jset cm ''basis'' (JStr ''explicit_request'')) ''request_sha256'' (JStr (sha_hex jc d))))
       else if completion_reason m = Some ''owner-exit'' \<and> cancel_owner m \<noteq> None
       then ret (jset (jset cm ''basis'' (JStr ''registered_owner_lease''))
              ''owner_identity'' (json_option json_of_entry (cancel_owner m)))
       else if completion_reason m = Some ''causal-parent-cancelled'' \<or> completion_reason m = Some ''root-authority-lost''
       then paired_basis jc sp m cm
       else raise (io_other ''missing accepted cancellation basis''))"

definition cancellation_identity :: "json_codec \<Rightarrow> source_paths \<Rightarrow> meta \<Rightarrow> string io" where
  "cancellation_identity jc sp m =
     bind (source_binding jc sp) (\<lambda>(registration, cm).
     bind (cancellation_basis jc sp m cm) (\<lambda>receipt.
     bind (lift_result (json_bytes jc receipt)) (\<lambda>d.
     seq (immutable CANCELLATION_RECEIPT d) (ret (sha_hex jc d)))))"

definition outcome_identity :: "json \<Rightarrow> json" where
  "outcome_identity outcome =
     copy_keys [''protocol'', ''domain_id'', ''source_id'', ''handle'', ''registration_id'', ''registration_digest'',
       ''completion_revision''] outcome (JObj [])"

definition event_status :: "string \<Rightarrow> string" where
  "event_status k =
     (if k = ''ready'' then ''ready''
      else if k = ''never_launched'' \<or> k = ''ceased_status_unknown'' \<or> k = ''cancelled'' then ''error''
      else ''completed'')"

definition event_outcome :: "json \<Rightarrow> json \<Rightarrow> observation \<Rightarrow> caller_entry \<Rightarrow> json \<Rightarrow> json" where
  "event_outcome cm fence ob observer cancellation_id =
     jset (jset (jset (jset (jset (jset (jset (jset (jset cm ''completion_revision'' (JNum 1))
       ''launch_fence_revision'' (jindex fence ''revision'')) ''kind'' (JStr (ob_kind ob)))
       ''root_wait_status'' (json_option JNum (ob_root_wait_status ob)))
       ''original_tree_drained'' (JBool (ob_tree_drained ob))) ''output_closed'' (JBool (ob_output_closed ob)))
       ''observer'' (json_of_entry observer)) ''ready_sentinel'' (jtext (ob_ready_sentinel ob)))
       ''cancellation_id'' cancellation_id"

definition staged_event :: "meta \<Rightarrow> observation \<Rightarrow> json \<Rightarrow> json" where
  "staged_event m ob outcome =
     JObj [(''outcome'', outcome),
           (''snapshot'', jset (jset (outcome_identity outcome) ''rc'' (json_option JNum (rc m)))
              ''status'' (JStr (event_status (ob_kind ob))))]"

definition select_observed_event ::
  "json_codec \<Rightarrow> source_paths \<Rightarrow> storage_facts \<Rightarrow> io_error + caller_entry \<Rightarrow> meta \<Rightarrow> observation \<Rightarrow> unit io" where
  "select_observed_event jc sp st me m ob =
     bind v2_enabled (\<lambda>v2.
     bind (if v2 then try_exists OBSERVATION else ret True) (\<lambda>skip.
     bind (if skip then ret True else try_exists SELECTION) (\<lambda>skip'.
       if skip' then ret ()
       else
         bind (source_binding jc sp) (\<lambda>(registration, cm).
         bind (fence_value jc cm) (\<lambda>fence.
           if ob_kind ob = ''cancelled'' \<and> (\<not> ob_tree_drained ob \<or> \<not> ob_output_closed ob)
           then raise (io_other ''cancellation observation requires original drain and output close'')
           else
             bind (lift_result me) (\<lambda>observer.
             bind (if ob_kind ob = ''cancelled''
                   then bind (cancellation_identity jc sp m) (\<lambda>i. ret (JStr i)) else ret JNull) (\<lambda>cancellation_id.
               select_event_output jc st
                 (Some (staged_event m ob (event_outcome cm fence ob observer cancellation_id)))
                 (ob_output_trusted ob))))))))"

definition restore_selected_event :: "json_codec \<Rightarrow> source_paths \<Rightarrow> unit io" where
  "restore_selected_event jc sp =
     bind (source_value jc SELECTION) (\<lambda>selection.
     bind (require ''original selection has no retained event; cannot relabel'' (jget selection ''observation'')) (\<lambda>staged.
     bind (source_binding jc sp) (\<lambda>(registration, cm).
     seq (lift_result (exact cm (jindex staged ''outcome'')))
    (seq (lift_result (exact cm (jindex staged ''snapshot'')))
         (immutable_document jc OBSERVATION staged)))))"

definition retain_event ::
  "json_codec \<Rightarrow> source_paths \<Rightarrow> storage_facts \<Rightarrow> io_error + caller_entry \<Rightarrow> meta \<Rightarrow> observation \<Rightarrow> unit io" where
  "retain_event jc sp st me m ob =
     seq (select_observed_event jc sp st me m ob)
       (bind (try_exists OBSERVATION) (\<lambda>there. if there then ret () else restore_selected_event jc sp))"

subsection \<open>The bundle and its two projections\<close>

definition finish_snapshot :: "json_codec \<Rightarrow> source_paths \<Rightarrow> unit io" where
  "finish_snapshot jc sp =
     bind (bounded_read SOURCE_BUNDLE (32 * MAX_SOURCE)) (\<lambda>d.
     bind (lift_result (json_from_slice jc d)) (\<lambda>bundle.
     bind (require ''missing bundled outcome'' (as_str (jindex bundle ''outcome_bytes_utf8''))) (\<lambda>outcome.
     bind (require ''missing bundled snapshot'' (as_str (jindex bundle ''snapshot_bytes_utf8''))) (\<lambda>snapshot.
     bind (lift_result (json_from_slice jc snapshot)) (\<lambda>parsed.
     bind (lift_result (json_from_slice jc outcome)) (\<lambda>outcome_value.
     bind (source_binding jc sp) (\<lambda>(registration, cm).
     seq (lift_result (exact cm parsed))
    (seq (lift_result (exact cm outcome_value))
       (if jindex parsed ''outcome_sha256'' \<noteq> JStr (sha_hex jc outcome) \<or>
           jindex parsed ''outcome_byte_len'' \<noteq> jnat (length outcome)
        then raise (io_other ''snapshot/outcome conflict'')
        else seq (immutable SOURCE_OUTCOME outcome) (immutable SNAPSHOT snapshot))))))))))"

definition finish_observation_with_output :: "json_codec \<Rightarrow> source_paths \<Rightarrow> json \<Rightarrow> unit io" where
  "finish_observation_with_output jc sp descriptor =
     bind (source_value jc OBSERVATION) (\<lambda>staged.
     bind (source_binding jc sp) (\<lambda>(registration, cm).
       (let outcome = jindex staged ''outcome''; snapshot = jindex staged ''snapshot''
        in seq (lift_result (exact cm outcome))
          (seq (lift_result (exact cm snapshot))
          (bind (lift_result (json_bytes jc outcome)) (\<lambda>outcome_bytes.
             (let labelled = (if jindex descriptor ''representation'' = JStr ''missing-original-output-v1''
                              then jset snapshot ''status'' (JStr ''original_output_unavailable'') else snapshot);
                  final = jset (jset (jset labelled ''output'' descriptor)
                    ''outcome_sha256'' (JStr (sha_hex jc outcome_bytes))) ''outcome_byte_len'' (jnat (length outcome_bytes))
              in bind (lift_result (json_bytes jc final)) (\<lambda>snapshot_bytes.
                   if length snapshot_bytes > 16 * MAX_SOURCE
                   then raise (io_other ''full event snapshot exceeds paired bound; retained source needs disposition'')
                   else
                     seq (immutable_document jc SOURCE_BUNDLE
                            (JObj [(''outcome_bytes_utf8'', JStr outcome_bytes), (''snapshot_bytes_utf8'', JStr snapshot_bytes)]))
                         (finish_snapshot jc sp)))))))))"

end
