(* ===== verification/Supervisor_Start.thy ===== *)
theory Supervisor_Start
  imports Continuation Guardian
begin

section \<open>Registration and the start of a supervisor\<close>

text \<open>
  How a supervisor comes to release a workload: \<^verbatim>\<open>prepare_continuation\<close>, \<^verbatim>\<open>register\<close> and
  \<^verbatim>\<open>run_structured_helper\<close> of \<^verbatim>\<open>src/src/delivery.rs\<close>, and of \<^verbatim>\<open>src/src/supervisor.rs\<close> the standalone
  \<^verbatim>\<open>register_and_start_supervisor\<close> with \<^verbatim>\<open>daemonization_child\<close>, the paired \<^verbatim>\<open>run_root_worker\<close> with its control
  channel, and \<^verbatim>\<open>run_supervisor\<close>. Bytes sent on the control channel (or to the launcher) are in
  \<^const>\<open>wire\<close>, bytes read from it in \<^const>\<open>heard\<close>; releasing the start gate of the forked workload logs
  \<^verbatim>\<open>workload\<close> among the processes started. The answers of the kernel and of libraries that these
  functions meet once each are fields of an argument.
\<close>

record start_facts =
  source_facts_of :: source_facts
  endpoint :: "string option"
  has_authority :: bool
  capability_output :: "io_error + bool \<times> bytes"
  connected :: "io_error + nat option"
  euid :: nat
  hello_sent :: "io_error option"
  hello_reply :: "io_error + bytes"
  helper_attempt :: "io_error + string"
  helper_sha256 :: string
  worker_pid :: pid
  session_started :: bool
  subreaper_error :: "io_error option"
  role_error :: "io_error option"
  supervisor_fork :: "io_error + bool"
  sigchld_error :: "io_error option"
  image_owner_error :: "io_error option"
  cgroup_result :: "cgroup_meta \<times> bool"
  workload_fork :: "io_error + pid"
  root_pidfd_opened :: bool
  owner_local_pid :: "pid option"
  owner_pidfd_opened :: bool
  child_identity :: "io_error + caller_entry"
  compile_regex :: "string \<Rightarrow> string + regex"

record supervisor_config =
  config_paths :: source_paths
  config_meta :: meta
  config_argv :: "string list"
  config_scope :: completion_scope
  config_sentinel :: "string option"

subsection \<open>Preparing the continuation\<close>

definition from_option :: "io_error option \<Rightarrow> unit io" where
  "from_option x = (case x of None \<Rightarrow> ret () | Some e \<Rightarrow> raise e)"

text \<open>The hello of the owner: the same user, the same domain and endpoint, two live identities.\<close>

definition live_identity :: "json \<Rightarrow> unit io" where
  "live_identity v =
     bind (lift_result (entry_of_json v)) (\<lambda>identity.
     bind current_boot_id (\<lambda>b. bind (ask stat_files) (\<lambda>rd.
       if process_identity_is_live rd b identity then ret () else raise (io_other ''owner identity not live''))))"

definition check_hello :: "json_codec \<Rightarrow> start_facts \<Rightarrow> string \<Rightarrow> string \<Rightarrow> unit io" where
  "check_hello jc sf ep domain =
     bind (lift_result (connected sf)) (\<lambda>peer.
       if peer \<noteq> Some (euid sf) then raise (io_other ''owner peer is not same UID'')
       else
         seq (from_option (hello_sent sf))
           (bind (lift_result (hello_reply sf)) (\<lambda>bs.
              if length bs > 8192 then raise (io_other ''owner hello exceeds bound'')
              else
                bind (lift_result (json_from_slice jc bs)) (\<lambda>hello.
                  if jindex hello ''protocol'' \<noteq> JStr CONTINUATION_PROTOCOL \<or> jindex hello ''domain_id'' \<noteq> JStr domain \<or>
                     jindex hello ''endpoint'' \<noteq> JStr ep
                  then raise (io_other ''owner hello domain conflict'')
                  else seq (live_identity (jindex hello ''guardian_identity'')) (live_identity (jindex hello ''driver_identity''))))))"

definition prepare_continuation :: "json_codec \<Rightarrow> start_facts \<Rightarrow> source_paths \<Rightarrow> meta \<Rightarrow> string \<Rightarrow> unit io" where
  "prepare_continuation jc sf sp m scp =
     (case endpoint sf of
        None \<Rightarrow> if has_authority sf then raise (io_other ''native continuation endpoint missing'') else ret ()
      | Some ep \<Rightarrow>
          bind (lift_result (capability_output sf)) (\<lambda>(success, out).
            if \<not> success then raise (io_other ''v2 domain capability unavailable; no launch'')
            else
              bind (lift_result (json_from_slice jc out)) (\<lambda>capability.
              bind (require ''missing capability domain'' (as_str (jindex capability ''domain_id''))) (\<lambda>domain.
                if jindex capability ''protocol'' \<noteq> JStr CONTINUATION_PROTOCOL
                then raise (io_other ''unsupported completion protocol'')
                else seq (check_hello jc sf ep domain) (prepare jc sp (source_facts_of sf) m domain scp)))))"

subsection \<open>Registering\<close>

definition attempt_name :: "string \<Rightarrow> string \<Rightarrow> string" where
  "attempt_name op attempt_id = ''continuation-'' @ op @ ''-'' @ attempt_id"

definition attempt_file :: "string \<Rightarrow> string \<Rightarrow> string \<Rightarrow> fname" where
  "attempt_file op attempt_id ext = Extra (attempt_name op attempt_id @ ''.'' @ ext)"

definition attempt_path :: "source_paths \<Rightarrow> string \<Rightarrow> string" where
  "attempt_path sp n = sp_state_dir sp @ ''/'' @ n"

text \<open>\<^verbatim>\<open>map_err\<close> to one of the two helper errors, ending the operation.\<close>

definition or_helper_error :: "(io_error \<Rightarrow> helper_command_error) \<Rightarrow> 'a io \<Rightarrow> ('a \<Rightarrow> (helper_command_error + 'b) io) \<Rightarrow> (helper_command_error + 'b) io" where
  "or_helper_error c m f = handle_err m (\<lambda>e. ret (Inl (c e))) f"

definition helper_descriptor ::
  "source_paths \<Rightarrow> start_facts \<Rightarrow> string \<Rightarrow> string \<Rightarrow> string \<Rightarrow> nat option \<Rightarrow> string \<Rightarrow> json" where
  "helper_descriptor sp sf op attempt_id dg ticks boot =
     JObj [(''attempt_id'', JStr attempt_id), (''operation'', JStr op), (''registration_sha256'', JStr dg),
       (''worker_pid'', JNum (worker_pid sf)),
       (''worker_starttime_ticks'', case ticks of None \<Rightarrow> JNull | Some t \<Rightarrow> jnat t),
       (''boot_id'', JStr boot), (''helper_sha256'', JStr (helper_sha256 sf)),
       (''stdout'', JStr (attempt_path sp (entry_name (attempt_file op attempt_id ''stdout'')))),
       (''stderr'', JStr (attempt_path sp (entry_name (attempt_file op attempt_id ''stderr''))))]"

definition structured_reply ::
  "json_codec \<Rightarrow> source_paths \<Rightarrow> string \<Rightarrow> string \<Rightarrow> int \<Rightarrow> (helper_command_error + json) io" where
  "structured_reply jc sp op attempt_id st =
     or_helper_error Admitted (seq (sys_open_read (attempt_file op attempt_id ''stdout'')) sys_sync) (\<lambda>_.
     or_helper_error Admitted (seq (sys_open_read (attempt_file op attempt_id ''stderr'')) sys_sync) (\<lambda>_.
     or_helper_error Admitted (save_document jc (attempt_file op attempt_id ''wait.json'')
        (JObj [(''attempt_id'', JStr attempt_id), (''operation'', JStr op), (''wait_status'', JNum st)])) (\<lambda>_.
       if st \<noteq> 0
       then ret (Inl (Admitted (io_other (''structured helper failed; retained '' @ attempt_path sp (attempt_name op attempt_id)))))
       else or_helper_error Admitted (bounded_read (attempt_file op attempt_id ''stdout'') (1024 * 1024)) (\<lambda>d.
              ret (case json_from_slice jc d of Inl e \<Rightarrow> Inl (Admitted e) | Inr v \<Rightarrow> Inr v)))))"

definition run_structured_helper ::
  "json_codec \<Rightarrow> source_paths \<Rightarrow> start_facts \<Rightarrow> string \<Rightarrow> (helper_command_error + json) io" where
  "run_structured_helper jc sp sf op =
     or_helper_error NotStarted (lift_result (helper_attempt sf)) (\<lambda>attempt_id.
     or_helper_error NotStarted (sys_create_new (attempt_file op attempt_id ''stdout'')) (\<lambda>_.
     or_helper_error NotStarted (sys_create_new (attempt_file op attempt_id ''stderr'')) (\<lambda>_.
     or_helper_error NotStarted (bounded_read REGISTRATION (1024 * 1024)) (\<lambda>registration.
     bind (ask stat_files) (\<lambda>rd. bind current_boot_id (\<lambda>boot.
     or_helper_error NotStarted (save_document jc (attempt_file op attempt_id ''intent.json'')
        (helper_descriptor sp sf op attempt_id (sha_hex jc registration) (process_starttime_ticks rd (worker_pid sf)) boot)) (\<lambda>_.
     bind (spawn_helper op) (\<lambda>r.
       case r of
         SpawnFails e \<Rightarrow> ret (Inl (NotStarted (io_new (kind e) (''spawn structured helper for '' @ op @ '': '' @ to_string e))))
       | WaitFails e \<Rightarrow> ret (Inl (Admitted (io_new (kind e) (''wait structured helper for '' @ op @ '': '' @ to_string e))))
       | Exits st out err \<Rightarrow>
           seq (set_file (attempt_file op attempt_id ''stdout'') (Some (Regular (Text out))))
          (seq (set_file (attempt_file op attempt_id ''stderr'') (Some (Regular (Text err))))
               (structured_reply jc sp op attempt_id st))))))))))"

definition register_request :: "start_facts \<Rightarrow> meta \<Rightarrow> io_error + unit" where
  "register_request sf m =
     (let owner = (case (owner_session_id m, owner_invocation_uuid m) of
                     (Some s, Some i) \<Rightarrow> if s \<noteq> [] \<and> i \<noteq> [] then Inr True else Inl ()
                   | (None, None) \<Rightarrow> Inr False
                   | _ \<Rightarrow> Inl ())
      in case owner of
           Inl _ \<Rightarrow> Inl (io_other ''incomplete resolved completion owner binding'')
         | Inr bound \<Rightarrow>
             if has_authority sf \<and> \<not> bound
             then Inl (io_other ''native registration requires a resolved completion owner binding'')
             else Inr ())"

definition register :: "json_codec \<Rightarrow> start_facts \<Rightarrow> source_paths \<Rightarrow> meta \<Rightarrow> (helper_command_error + unit) io" where
  "register jc sf sp m =
     (case register_request sf m of
        Inl e \<Rightarrow> ret (Inl (NotStarted (io_new (kind e) (''build completion registration request: '' @ to_string e))))
      | Inr _ \<Rightarrow>
          bind v2_enabled (\<lambda>v2.
            if v2
            then bind (run_structured_helper jc sp sf ''register'') (\<lambda>r.
                   case r of
                     Inl e \<Rightarrow> ret (Inl e)
                   | Inr response \<Rightarrow>
                       or_helper_error Admitted (confirm_launch jc sp (own_identity (source_facts_of sf)) response) (\<lambda>_. ret (Inr ())))
            else run_required_delivery_helper_command_detailed ''register'' False))"

text \<open>
  What both kinds of supervisor do first. An error of the metadata write has a flag of its own: the
  standalone worker records nothing for it.
\<close>

datatype registration_failure = NotPrepared io_error | NotWritten io_error | HelperFailure helper_command_error

definition scope_text :: "completion_scope \<Rightarrow> string" where
  "scope_text sc = (case sc of TreeScope \<Rightarrow> ''tree'' | RootScope \<Rightarrow> ''root'')"

definition register_source ::
  "json_codec \<Rightarrow> start_facts \<Rightarrow> supervisor_config \<Rightarrow> (registration_failure + unit) io" where
  "register_source jc sf cf =
     handle_err (prepare_continuation jc sf (config_paths cf) (config_meta cf) (scope_text (config_scope cf)))
       (\<lambda>e. ret (Inl (NotPrepared e)))
       (\<lambda>_. bind v2_enabled (\<lambda>v2.
          handle_err (if v2 then write_meta_atomic ((config_meta cf)\<lparr>schema_version := 4\<rparr>) else ret ())
            (\<lambda>e. seq (ignore_err (abandon jc (config_paths cf) (own_identity (source_facts_of sf)))) (ret (Inl (NotWritten e))))
            (\<lambda>_. bind (register jc sf (config_paths cf) (config_meta cf)) (\<lambda>r.
               case r of
                 Inr _ \<Rightarrow> ret (Inr ())
               | Inl e \<Rightarrow>
                   seq (ignore_err (abandon jc (config_paths cf) (own_identity (source_facts_of sf))))
                       (ret (Inl (HelperFailure e)))))))"

definition record_registration_failure :: "meta \<Rightarrow> registration_failure \<Rightarrow> unit io" where
  "record_registration_failure m f =
     ignore_err
       (case f of
          NotPrepared e \<Rightarrow> record_pre_admission_registration_error m (to_string e)
        | NotWritten e \<Rightarrow> record_pre_admission_registration_error m (to_string e)
        | HelperFailure (NotStarted e) \<Rightarrow> record_pre_admission_registration_error m (to_string e)
        | HelperFailure (Admitted e) \<Rightarrow> record_admitted_registration_unknown m (to_string e))"

subsection \<open>The supervisor up to its event loop\<close>

definition supervisor_meta :: "io_error + caller_entry \<Rightarrow> meta \<Rightarrow> meta io" where
  "supervisor_meta me m =
     (let identity = (case me of Inr i \<Rightarrow> Some i | Inl _ \<Rightarrow> None)
      in touch_now (m\<lparr>supervisor_pid := map_option ce_pid identity,
           supervisor_pid_starttime_ticks := map_option starttime_ticks identity,
           process_boot_id := map_option ce_boot_id identity\<rparr>))"

text \<open>The log is opened and its metadata is read; what \<^verbatim>\<open>sys_open_create\<close> opens is a regular file.\<close>

definition open_supervisor_log :: "unit io" where
  "open_supervisor_log = seq (sys_open_create (F Log)) sys_sync"

definition persist_supervisor_meta_best_effort :: "meta \<Rightarrow> unit io" where
  "persist_supervisor_meta_best_effort m = ignore_err (write_meta_atomic m)"

definition give_up :: "bool \<Rightarrow> meta \<Rightarrow> string \<Rightarrow> bool \<Rightarrow> (int + 'a) io" where
  "give_up role m message log = seq (ignore_err (record_supervisor_error role m message log)) (ret (Inl EX_SOFTWARE))"

definition validate_cstring_argv :: "string list \<Rightarrow> bool" where
  "validate_cstring_argv args \<longleftrightarrow> list_all (\<lambda>a. CHR 0x00 \<notin> set a) args"

definition owner_pidfd_of :: "start_facts \<Rightarrow> meta \<Rightarrow> bool io" where
  "owner_pidfd_of sf m =
     (case cancel_owner m of
        None \<Rightarrow> ret False
      | Some owner \<Rightarrow>
          bind current_boot_id (\<lambda>b. bind (ask stat_files) (\<lambda>rd.
            if \<not> process_identity_is_live rd b owner \<or> owner_local_pid sf = None \<or> \<not> owner_pidfd_opened sf then ret False
            else bind current_boot_id (\<lambda>b'. bind (ask stat_files) (\<lambda>rd'. ret (process_identity_is_live rd' b' owner))))))"

definition apply_spawn_metadata :: "pid \<Rightarrow> bool \<Rightarrow> caller_entry option \<Rightarrow> meta \<Rightarrow> meta io" where
  "apply_spawn_metadata child pidfd observed m =
     touch_now (m\<lparr>workload_pid := map_option ce_pid observed,
       workload_pid_starttime_ticks := map_option starttime_ticks observed,
       workload_pgid := Some child, workload_pidfd := pidfd\<rparr>)"

text \<open>One byte opens the start gate; a gate that is only closed makes the forked child exit without executing anything.\<close>

fun open_gate :: "nat \<Rightarrow> unit io" where
  "open_gate 0 = halt"
| "open_gate (Suc n) =
     handle_err (seq sock_call (log_spawn ''workload'')) (\<lambda>e. if kind e = Interrupted then open_gate n else raise e) ret"

definition release_workload :: "bool \<Rightarrow> unit io" where
  "release_workload launch_published = (if launch_published then (\<lambda>w. open_gate (patience (env w)) w) else ret ())"

text \<open>From the fork of the workload to the state the event loop starts in.\<close>

definition after_fork ::
  "json_codec \<Rightarrow> start_facts \<Rightarrow> supervisor_config \<Rightarrow> bool \<Rightarrow> bool \<Rightarrow> pid \<Rightarrow> meta \<Rightarrow> (int + event_loop) io" where
  "after_fork jc sf cf role control child m =
     bind (if control then ret False else owner_pidfd_of sf m) (\<lambda>opfd.
     bind (attempt (launched jc (config_paths cf) (child_identity sf))) (\<lambda>launch.
     bind (apply_spawn_metadata child (root_pidfd_opened sf)
             (case launch of Inr (Some i) \<Rightarrow> Some i
              | Inr None \<Rightarrow> (case child_identity sf of Inr i \<Rightarrow> Some i | Inl _ \<Rightarrow> None)
              | Inl _ \<Rightarrow> None) m) (\<lambda>m1.
       (let m2 = (case launch of Inl e \<Rightarrow> m1\<lparr>error := Some (''launch identity publication failed: '' @ to_string e)\<rparr> | Inr _ \<Rightarrow> m1)
        in bind (attempt (release_workload (case launch of Inr _ \<Rightarrow> True | Inl _ \<Rightarrow> False))) (\<lambda>released.
             (let m3 = (case released of Inl e \<Rightarrow> m2\<lparr>error := Some (''workload start gate failed: '' @ to_string e)\<rparr> | Inr _ \<Rightarrow> m2)
              in seq (persist_supervisor_meta_best_effort m3)
                   (case sentinel_matcher_of (compile_regex sf) (config_sentinel cf) of
                      Inl e \<Rightarrow> give_up role m3 (''invalid ready sentinel after fork: '' @ e) True
                    | Inr sm \<Rightarrow>
                        ret (Inr (event_loop_state m3 child (root_pidfd_opened sf) opfd (config_scope cf) sm control)))))))))"

definition fail_step :: "bool \<Rightarrow> meta \<Rightarrow> string \<Rightarrow> bool \<Rightarrow> io_error option \<Rightarrow> (int + 'a) io \<Rightarrow> (int + 'a) io" where
  "fail_step role m prefix_text log x n =
     (case x of Some e \<Rightarrow> give_up role m (prefix_text @ to_string e) log | None \<Rightarrow> n)"

definition start_supervisor ::
  "json_codec \<Rightarrow> start_facts \<Rightarrow> supervisor_config \<Rightarrow> bool \<Rightarrow> bool \<Rightarrow> (int + event_loop) io" where
  "start_supervisor jc sf cf role control =
     bind (supervisor_meta (own_identity (source_facts_of sf)) (config_meta cf)) (\<lambda>m0.
     bind v2_enabled (\<lambda>v2.
       (let m = (if v2 then m0\<lparr>schema_version := 4\<rparr> else m0)
        in handle_err open_supervisor_log
             (\<lambda>e. give_up role m (''open log failed: '' @ to_string e) False)
             (\<lambda>_. fail_step role m ''PR_SET_CHILD_SUBREAPER failed: '' True (subreaper_error sf)
                 (fail_step role m ''signalfd failed: '' True (sigchld_error sf)
                   (seq (persist_supervisor_meta_best_effort m)
                     (fail_step role m ''image custodian bootstrap failed: '' True (image_owner_error sf)
                       (bind (touch_now (m\<lparr>cgroup := fst (cgroup_result sf)\<rparr>)) (\<lambda>m'.
                        seq (persist_supervisor_meta_best_effort m')
                          (if \<not> validate_cstring_argv (config_argv cf)
                           then give_up role m' ''workload argv contains NUL byte'' True
                           else
                             (case workload_fork sf of
                                Inl e \<Rightarrow> give_up role m' (''spawn failed: '' @ to_string e) True
                              | Inr child \<Rightarrow> after_fork jc sf cf role control child m')))))))))))"

definition run_supervisor ::
  "json_codec \<Rightarrow> (int \<Rightarrow> string) \<Rightarrow> nat \<Rightarrow> start_facts \<Rightarrow> supervisor_config \<Rightarrow> bool \<Rightarrow> bool \<Rightarrow> int io" where
  "run_supervisor jc strerror fuel sf cf role control =
     bind (start_supervisor jc sf cf role control) (\<lambda>r.
       case r of
         Inl code \<Rightarrow> ret code
       | Inr l \<Rightarrow>
           bind (attempt (run_event_loop strerror role (snd (cgroup_result sf)) fuel l)) (\<lambda>x.
             ret (event_loop_exit_code (case x of Inl e \<Rightarrow> Inl e | Inr _ \<Rightarrow> Inr ()))))"

subsection \<open>The control channel of a root worker\<close>

definition write_control_byte :: "char \<Rightarrow> unit io" where
  "write_control_byte b = seq sock_call (put_wire [b])"

fun poll_wait :: "nat \<Rightarrow> unit io" where
  "poll_wait 0 = halt"
| "poll_wait (Suc n) = handle_err sock_call (\<lambda>e. if kind e = Interrupted then poll_wait n else raise e) ret"

definition poll_control :: "unit io" where
  "poll_control w = poll_wait (patience (env w)) w"

fun write_control_loop :: "char \<Rightarrow> nat \<Rightarrow> unit io" where
  "write_control_loop b 0 = halt"
| "write_control_loop b (Suc n) =
     handle_err (write_control_byte b)
       (\<lambda>e. if kind e = Interrupted then write_control_loop b n
            else if kind e = WouldBlock then seq poll_control (write_control_loop b n)
            else raise e)
       ret"

definition write_control_byte_wait :: "char \<Rightarrow> unit io" where
  "write_control_byte_wait b w = write_control_loop b (patience (env w)) w"

fun read_control_loop_wait :: "nat \<Rightarrow> char io" where
  "read_control_loop_wait 0 = halt"
| "read_control_loop_wait (Suc n) =
     bind (ask_socket sock_read) (\<lambda>r.
       case r of
         Inr (b # _) \<Rightarrow> seq (put_heard b) (ret b)
       | Inr [] \<Rightarrow> raise (io_new UnexpectedEof ''root control closed'')
       | Inl e \<Rightarrow>
           if kind e = Interrupted then read_control_loop_wait n
           else if kind e = WouldBlock then seq poll_control (read_control_loop_wait n)
           else raise e)"

definition read_control_byte_wait :: "char io" where
  "read_control_byte_wait w = read_control_loop_wait (patience (env w)) w"

datatype root_execution_grant = Granted | GrantCancelled cancellation_cause

definition grant_of_byte :: "char \<Rightarrow> io_error + root_execution_grant" where
  "grant_of_byte b =
     (if b = CHR ''G'' then Inr Granted
      else if b = CHR ''C'' then Inr (GrantCancelled ExplicitRequest)
      else if b = CHR ''O'' then Inr (GrantCancelled OwnerExit)
      else if b = CHR ''K'' then Inr (GrantCancelled CausalParent)
      else if b = CHR ''F'' then Inr (GrantCancelled RootAuthorityLost)
      else Inl (io_other ''invalid root execution-grant phase''))"

definition await_root_execution_grant :: "root_execution_grant io" where
  "await_root_execution_grant =
     seq (write_control_byte_wait (CHR ''P'')) (bind read_control_byte_wait (\<lambda>b. lift_result (grant_of_byte b)))"

fun await_settlement :: "nat \<Rightarrow> unit io" where
  "await_settlement 0 = halt"
| "await_settlement (Suc n) =
     handle_err read_control_byte_wait (\<lambda>_. ret ())
       (\<lambda>b. if b = CHR ''S'' \<or> b = CHR ''C'' \<or> b = CHR ''O'' then ret () else await_settlement n)"

definition root_terminal_handshake :: "unit io" where
  "root_terminal_handshake =
     seq (write_control_byte_wait (CHR ''R''))
    (seq (\<lambda>w. await_settlement (patience (env w)) w)
         (write_control_byte_wait (CHR ''T'')))"

subsection \<open>Completing without a launch\<close>

text \<open>
  The cancelled observation of a source that was never released; the publication of the v2 source is
  one answer of the environment. \<open>fuel\<close> bounds the retries, whose delays are not modelled.
\<close>

fun complete_loop :: "bool \<Rightarrow> cancellation_cause \<Rightarrow> nat \<Rightarrow> meta \<Rightarrow> meta io" where
  "complete_loop role cause 0 m = halt"
| "complete_loop role cause (Suc n) m =
     bind (if cause = ExplicitRequest then attempt record_explicit_cancel_acceptance else ret (Inr True)) (\<lambda>accepted.
       case accepted of
         Inl _ \<Rightarrow> complete_loop role cause n m
       | Inr _ \<Rightarrow>
           handle_err (publish_terminal_with_delivery_disposition role m True (CancellationProposal cause) ClaimPending)
             (\<lambda>_. complete_loop role cause n m)
             (\<lambda>(result, m').
                handle_err (seq lock_completion (bind v2_enabled (\<lambda>v2. if v2 then ask_v2 else ret True)))
                  (\<lambda>_. complete_loop role cause n m')
                  (\<lambda>_. seq (ignore_err (reconcile_completion_delivery role)) (ret m'))))"

definition complete_without_launch ::
  "nat \<Rightarrow> start_facts \<Rightarrow> supervisor_config \<Rightarrow> bool \<Rightarrow> cancellation_cause \<Rightarrow> int io" where
  "complete_without_launch fuel sf cf role cause =
     bind (supervisor_meta (own_identity (source_facts_of sf)) (config_meta cf)) (\<lambda>m.
       handle_err open_supervisor_log
         (\<lambda>_. seq (ignore_err root_terminal_handshake) (ret EX_SOFTWARE))
         (\<lambda>_. seq (persist_supervisor_meta_best_effort m)
            (seq (complete_loop role cause fuel m)
            (seq (ignore_err root_terminal_handshake)
                 (ret (ts_rc cancellation_terminal_status))))))"

definition complete_root_loss_before_launch :: "nat \<Rightarrow> start_facts \<Rightarrow> supervisor_config \<Rightarrow> bool \<Rightarrow> io_error \<Rightarrow> int io" where
  "complete_root_loss_before_launch fuel sf cf role e = complete_without_launch fuel sf cf role RootAuthorityLost"

subsection \<open>The two kinds of supervisor\<close>

text \<open>
  The root worker up to its event loop: it registers, asks for the grant, and starts, or completes
  without a launch.
\<close>

definition start_root_worker ::
  "json_codec \<Rightarrow> nat \<Rightarrow> start_facts \<Rightarrow> supervisor_config \<Rightarrow> bool \<Rightarrow> (int + event_loop) io" where
  "start_root_worker jc fuel sf cf role =
     bind (register_source jc sf cf) (\<lambda>r.
       case r of
         Inl failure \<Rightarrow>
           seq (record_registration_failure (config_meta cf) failure)
          (seq (ignore_err root_terminal_handshake) (ret (Inl EX_SOFTWARE)))
       | Inr _ \<Rightarrow>
           bind (attempt await_root_execution_grant) (\<lambda>grant.
             case grant of
               Inr Granted \<Rightarrow> start_supervisor jc sf cf role True
             | Inr (GrantCancelled cause) \<Rightarrow> bind (complete_without_launch fuel sf cf role cause) (\<lambda>c. ret (Inl c))
             | Inl e \<Rightarrow> bind (complete_root_loss_before_launch fuel sf cf role e) (\<lambda>c. ret (Inl c))))"

definition run_root_worker ::
  "json_codec \<Rightarrow> (int \<Rightarrow> string) \<Rightarrow> nat \<Rightarrow> start_facts \<Rightarrow> supervisor_config \<Rightarrow> bool \<Rightarrow> int io" where
  "run_root_worker jc strerror fuel sf cf role =
     bind (start_root_worker jc fuel sf cf role) (\<lambda>r.
       case r of
         Inl code \<Rightarrow> ret code
       | Inr l \<Rightarrow>
           bind (attempt (run_event_loop strerror role (snd (cgroup_result sf)) fuel l)) (\<lambda>x.
             ret (event_loop_exit_code (case x of Inl e \<Rightarrow> Inl e | Inr _ \<Rightarrow> Inr ()))))"

definition send_registration_result :: "nat \<Rightarrow> bytes \<Rightarrow> unit io" where
  "send_registration_result code detail = ignore_err (seq sock_call (put_wire (char_of code # detail)))"

definition with_schema :: "meta \<Rightarrow> meta io" where
  "with_schema m = bind v2_enabled (\<lambda>v2. ret (if v2 then m\<lparr>schema_version := 4\<rparr> else m))"

text \<open>
  The standalone supervisor process becomes a session of its own, takes custody and forks; the child
  runs the supervisor and the parent guards it.
\<close>

definition daemonization_child ::
  "json_codec \<Rightarrow> (int \<Rightarrow> string) \<Rightarrow> nat \<Rightarrow> start_facts \<Rightarrow> supervisor_config \<Rightarrow> bool \<Rightarrow> int io" where
  "daemonization_child jc strerror fuel sf cf role =
     (if \<not> session_started sf then ret EX_SOFTWARE
      else case subreaper_error sf of
        Some e \<Rightarrow>
          bind (with_schema (config_meta cf)) (\<lambda>m.
          seq (ignore_err (record_supervisor_error role m (''PR_SET_CHILD_SUBREAPER failed: '' @ to_string e) False)) (ret EX_SOFTWARE))
      | None \<Rightarrow>
          handle_err (seq (from_option (role_error sf)) begin_physical_custody)
            (\<lambda>_. ret EX_SOFTWARE)
            (\<lambda>_. case supervisor_fork sf of
               Inl e \<Rightarrow>
                 seq (ignore_err end_physical_custody)
                (bind (with_schema (config_meta cf)) (\<lambda>m.
                 seq (ignore_err (record_supervisor_error role m (''agent-bash: supervisor fork failed: '' @ to_string e) False))
                     (ret EX_SOFTWARE)))
             | Inr True \<Rightarrow> run_supervisor jc strerror fuel sf cf role False
             | Inr False \<Rightarrow> guard_supervisor_exit role fuel))"

definition register_and_start_supervisor ::
  "json_codec \<Rightarrow> (int \<Rightarrow> string) \<Rightarrow> nat \<Rightarrow> start_facts \<Rightarrow> supervisor_config \<Rightarrow> bool \<Rightarrow> int io" where
  "register_and_start_supervisor jc strerror fuel sf cf role =
     bind (register_source jc sf cf) (\<lambda>r.
       case r of
         Inl (NotPrepared e) \<Rightarrow>
           (let detail = ''prepare completion continuation: '' @ to_string e
            in seq (ignore_err (record_pre_admission_registration_error (config_meta cf) detail))
              (seq (send_registration_result 0 detail) (ret EX_SOFTWARE)))
       | Inl (NotWritten e) \<Rightarrow> ret EX_SOFTWARE
       | Inl (HelperFailure (NotStarted e)) \<Rightarrow>
           seq (ignore_err (record_pre_admission_registration_error (config_meta cf) (to_string e)))
          (seq (send_registration_result 0 (to_string e)) (ret EX_SOFTWARE))
       | Inl (HelperFailure (Admitted e)) \<Rightarrow>
           seq (ignore_err (record_admitted_registration_unknown (config_meta cf) (to_string e)))
          (seq (send_registration_result 2 []) (ret EX_SOFTWARE))
       | Inr _ \<Rightarrow> seq (send_registration_result 1 []) (daemonization_child jc strerror fuel sf cf role))"

text \<open>What the launcher reads back: one byte, and the detail of a refusal.\<close>

definition receive_registration_result :: "io_error + char \<Rightarrow> io_error + string \<Rightarrow> io_error + startup_outcome" where
  "receive_registration_result outcome rest =
     (case outcome of
        Inl e \<Rightarrow> Inl (io_new (kind e) (''read supervisor registration outcome: '' @ to_string e))
      | Inr b \<Rightarrow>
          if b = char_of (1::nat) then Inr StRunning
          else if b = char_of (2::nat) then Inr RegistrationOutcomeUnknown
          else (case rest of
                  Inl e \<Rightarrow> Inl (io_new (kind e) (''read supervisor registration detail: '' @ to_string e))
                | Inr detail \<Rightarrow> Inl (io_other detail)))"

text \<open>The launcher's side of the fork; the other side is \<^const>\<open>register_and_start_supervisor\<close>.\<close>

definition fork_registered_supervisor ::
  "string option \<Rightarrow> string option \<Rightarrow> io_error + char \<Rightarrow> io_error + string \<Rightarrow> io_error + startup_outcome" where
  "fork_registered_supervisor socketpair_error fork_error outcome rest =
     (case socketpair_error of
        Some e \<Rightarrow> Inl (io_other (''create standalone registration socketpair: '' @ e))
      | None \<Rightarrow>
          (case fork_error of
             Some e \<Rightarrow> Inl (io_other (''fork standalone registration worker: '' @ e))
           | None \<Rightarrow> receive_registration_result outcome rest))"

definition validate_argv :: "string list \<Rightarrow> string + unit" where
  "validate_argv args =
     (if args = [] then Inl ''agent-bash: missing workload command''
      else if \<not> validate_cstring_argv args then Inl ''agent-bash: workload argv contains NUL byte''
      else Inr ())"

end
