(* ===== verification/Root_Work_Laws.thy ===== *)
theory Root_Work_Laws
  imports Root_Work Guardian
begin

section \<open>What a submission may report\<close>

text \<open>
  Up to the first byte nothing is on the wire, whatever fails; from the first byte on only an answer
  that names this very work can be an error or an acceptance. And the diagnostic files stay bounded.
\<close>

subsection \<open>Rules of the calls on the wire\<close>

lemma spec_put_wire [wp_rules]: "Q () (s\<lparr>vwire := vwire s @ bs\<rparr>) \<Longrightarrow> spec (put_wire bs) s Q E H"
  by (auto simp: spec_def put_wire_def view_of_def)

lemma spec_put_heard [wp_rules]: "Q () (s\<lparr>vheard := vheard s @ [b]\<rparr>) \<Longrightarrow> spec (put_heard b) s Q E H"
  by (auto simp: spec_def put_heard_def view_of_def)

lemma spec_sock_call [wp_rules]: "Q () s \<Longrightarrow> (\<And>e. E e s) \<Longrightarrow> spec sock_call s Q E H"
  unfolding sock_call_def by (auto intro!: spec_bind spec_ask spec_ret spec_raise split: option.split)

lemma spec_lift_result [wp_rules]: "(\<And>a. r = Inr a \<Longrightarrow> Q a s) \<Longrightarrow> (\<And>e. E e s) \<Longrightarrow> spec (lift_result r) s Q E H"
  unfolding lift_result_def by (cases r) (auto intro: spec_ret spec_raise)

lemma keeps_lift_result [keeps_rules]: "keeps I (lift_result r)"
  unfolding lift_result_def by (intro keeps_rules)

lemma keeps_sock_call [keeps_rules]: "keeps I sock_call"
  unfolding sock_call_def by (intro keeps_rules)

subsection \<open>Diagnostics leave the wire alone\<close>

lemma keeps_sys_len [keeps_rules]: "\<not> is_tmp f \<Longrightarrow> keeps I (sys_len f)"
  unfolding sys_len_def by (intro keepsI spec_sys spec_bind spec_lookup spec_ret) auto

lemma keeps_sys_append [keeps_rules]: "ignores I f \<Longrightarrow> \<not> is_tmp f \<Longrightarrow> keeps I (sys_append f bs)"
  unfolding sys_append_def
  by (intro keepsI spec_sys spec_bind spec_lookup spec_set_file) (auto dest: ignoresD)

lemma ignores_twice:
  "ignores I f \<Longrightarrow> ignores I g \<Longrightarrow> I s \<Longrightarrow> I (s\<lparr>vfiles := (vfiles s)(f := x, g := y)\<rparr>)"
  using ignoresD [of I g "put f x s" y] ignoresD [of I f s x] by simp

lemma keeps_rename [keeps_rules]:
  "ignores I f \<Longrightarrow> ignores I g \<Longrightarrow> \<not> is_tmp f \<Longrightarrow> \<not> is_tmp g \<Longrightarrow> keeps I (sys_rename f g)"
  unfolding sys_rename_def
  by (intro keepsI spec_sys spec_bind spec_lookup spec_option spec_if spec_raise spec_set_file)
    (auto intro!: spec_set_file intro: ignores_twice ignoresD)

lemma keeps_append_diagnostic:
  "ignores I DIAGNOSTIC_FILE \<Longrightarrow> ignores I DIAGNOSTIC_LOCK_FILE \<Longrightarrow> ignores I DIAGNOSTIC_ROTATED_FILE \<Longrightarrow>
   keeps I (append_diagnostic cd d)"
  unfolding append_diagnostic_def rotate_diagnostics_def Let_def
  by (intro keeps_rules) (simp_all add: DIAGNOSTIC_FILE_def DIAGNOSTIC_LOCK_FILE_def DIAGNOSTIC_ROTATED_FILE_def)

definition on_wire :: "bytes \<Rightarrow> bytes \<Rightarrow> view \<Rightarrow> bool" where
  "on_wire a b s \<longleftrightarrow> vwire s = a \<and> vheard s = b"

lemma on_wire_ignores [simp]: "ignores (on_wire a b) f"
  by (simp add: ignores_def on_wire_def)

lemma on_wireD: "on_wire a b s \<Longrightarrow> vwire s = a" "on_wire a b s \<Longrightarrow> vheard s = b"
  by (simp_all add: on_wire_def)

lemma on_wire_sent: "on_wire a b s \<Longrightarrow> on_wire (a @ x) b (s\<lparr>vwire := vwire s @ x\<rparr>)"
  and on_wire_heard: "on_wire a b s \<Longrightarrow> on_wire a (b @ y) (s\<lparr>vheard := vheard s @ y\<rparr>)"
  by (simp_all add: on_wire_def)

lemma keeps_capability [keeps_rules]: "keeps I new_capability"
proof -
  have "keeps I (capability_loop n acc)" for n acc
  proof (induction n arbitrary: acc)
    case 0
    show ?case using keeps_halt [of I] by (simp add: halt_def [abs_def])
  qed (auto intro!: keeps_rules)
  then show ?thesis unfolding new_capability_def [abs_def] by (rule keeps_patience)
qed

lemma keeps_authenticate [keeps_rules]: "keeps I (authenticate_control cd cx p r d s g scp)"
  unfolding authenticate_control_def authenticate_peer_def process_identity_live_def verify_source_socket_v2_at_def Let_def
  by (intro keeps_rules)

subsection \<open>The contract of everything but the wire\<close>

text \<open>
  A relation that diagnostics keep and that does not depend on other files is kept by every part of a
  submission before its first byte; if it does not depend on the wire either, by the whole of
  submission and cancellation.
\<close>

locale unsent_frame =
  fixes I :: "view \<Rightarrow> bool" and cd :: codec
  assumes noting: "keeps I (append_diagnostic cd d)"
    and elsewhere: "f \<noteq> DIAGNOSTIC_FILE \<Longrightarrow> f \<noteq> DIAGNOSTIC_LOCK_FILE \<Longrightarrow> f \<noteq> DIAGNOSTIC_ROTATED_FILE \<Longrightarrow> ignores I f"
begin

lemma meta_files: "ignores I (F f)" "ignores I INTENT_FILE"
  by (rule elsewhere; simp add: DIAGNOSTIC_FILE_def DIAGNOSTIC_LOCK_FILE_def DIAGNOSTIC_ROTATED_FILE_def INTENT_FILE_def)+

lemma keeps_failure: "keeps I (preaccept_failure cd cx hdl m e)"
  unfolding preaccept_failure_def Let_def record_root_preaccept_failure_def record_if_running_def
    write_meta_atomic_def write_rc_atomic_def lock_completion_def
  by (intro keeps_rules noting meta_files) simp_all

lemma keeps_noted:
  "keeps I op \<Longrightarrow> keeps I (noted_preaccept cd cx hdl m d op)" "keeps I op \<Longrightarrow> keeps I (or_preaccept cd cx hdl m op)"
  "keeps I op \<Longrightarrow> keeps I (noted_err cd d op)" "keeps I (outcome_unknown cd dg)"
  unfolding noted_preaccept_def or_preaccept_def outcome_unknown_def noted_err_def
  by (intro keeps_rules noting keeps_failure; assumption?)+

lemma keeps_prepare: "keeps I (prepare_submission cd cx hdl root_dir m args scp st au ep grant reg)"
  unfolding prepare_submission_def pin_descriptors_def Let_def
  by (intro keeps_rules keeps_noted noting meta_files) (simp_all add: INTENT_FILE_def)

lemma keeps_open: "keeps I (open_submission cd cx hdl m s)"
  unfolding open_submission_def Let_def by (intro keeps_rules keeps_noted)

end

locale wire_frame = unsent_frame +
  assumes sending: "keeps I (put_wire bs)" and hearing: "keeps I (put_heard b)"
begin

lemma keeps_write_all: "keeps I (write_all bs)"
  unfolding write_all_def by (intro keeps_rules sending)

lemma keeps_response: "keeps I (read_response parse)"
proof -
  have "keeps I (read_response_loop parse n acc)" for n acc
  proof (induction n arbitrary: acc)
    case (Suc n)
    show ?case
      unfolding read_response_loop.simps
      by (rule keeps_bind [OF keeps_ask])
        (auto split: sum.split list.split intro!: keeps_raise keeps_bind hearing Suc keeps_lift_result)
  qed (simp add: keeps_raise)
  then show ?thesis unfolding read_response_def .
qed

lemma keeps_submit: "keeps I (submit_inner cd cx hdl root_dir m args scp st au)"
proof -
  have concluding: "keeps I (conclude_submission cd cx hdl m s r)" for s r
    unfolding conclude_submission_def Let_def
    by (intro keeps_bind keeps_sum keeps_ignore_err noting keeps_ret)
      (auto split: submit_disposition.split intro!: keeps_ret keeps_failure)
  show ?thesis
    unfolding submit_inner_def transmit_submission_def send_with_fds_def Let_def
    by (intro keeps_rules keeps_noted keeps_prepare keeps_open sending keeps_write_all keeps_response concluding)
qed

lemma keeps_cancel: "keeps I (cancel_root_work cd cx)"
proof -
  have look: "keeps I (try_exists ACCEPTED_FILE)" "keeps I (read_file_text INTENT_FILE)"
    unfolding try_exists_def by (intro keeps_rules; simp add: ACCEPTED_FILE_def INTENT_FILE_def)+
  show ?thesis
    unfolding cancel_root_work_def cancel_intent_def cancel_prewire_def cancel_exchange_def Let_def
    by (intro look keeps_rules keeps_noted noting keeps_write_all keeps_response)
qed

end

interpretation wired: unsent_frame "on_wire a b" cd for a b cd
  by unfold_locales (auto intro: keeps_append_diagnostic)

subsection \<open>From the first byte on\<close>

definition answered :: "codec \<Rightarrow> bytes \<Rightarrow> view \<Rightarrow> work_response \<Rightarrow> bool" where
  "answered cd before t r \<longleftrightarrow>
     (\<exists>line. vheard t = before @ line @ [newline_char] \<and> response_from_slice cd line = Inr r)"

lemma spec_read_loop:
  assumes "on_wire a b s"
  shows "spec (read_response_loop parse n acc) s
     (\<lambda>r t. vwire t = a \<and> (\<exists>line. vheard t = b @ line @ [newline_char] \<and> parse (acc @ line) = Inr r))
     (\<lambda>_ t. vwire t = a) (\<lambda>t. vwire t = a)" (is "spec _ s (?Q b acc) ?E ?H")
  using assms
proof (induction n arbitrary: acc b s)
  case 0
  then show ?case by (auto intro!: spec_raise dest: on_wireD)
next
  case (Suc n)
  have last: "spec (lift_result (parse acc)) t (?Q b acc) ?E ?H" if "on_wire a (b @ [newline_char]) t" for t
    using on_wireD [OF that] by (intro spec_lift_result) (auto intro!: exI [of _ "[]"])
  have more: "spec (read_response_loop parse n (acc @ [c])) t (?Q b acc) ?E ?H" if "on_wire a (b @ [c]) t" for c t
    by (rule spec_mono [OF Suc.IH [OF that]]) (metis append.assoc append_Cons append_Nil)+
  have step: "spec (seq (put_heard c) (if c = newline_char then lift_result (parse acc) else read_response_loop parse n (acc @ [c]))) s
      (?Q b acc) ?E ?H" for c
    by (intro spec_bind spec_put_heard spec_if last more) (use on_wire_heard [OF Suc.prems] in auto)
  show ?case
    unfolding read_response_loop.simps
  proof (rule spec_bind, rule spec_ask)
    fix r :: "io_error + bytes"
    show "spec (case r of Inl e \<Rightarrow> raise e | Inr [] \<Rightarrow> raise unexpected_eof | Inr (c # _) \<Rightarrow>
        seq (put_heard c) (if c = newline_char then lift_result (parse acc) else read_response_loop parse n (acc @ [c]))) s
      (?Q b acc) ?E ?H"
      using on_wireD(1) [OF Suc.prems] step by (cases r; cases "projr r") (simp_all add: spec_raise)
  qed
qed

lemma spec_read_response:
  "on_wire a b s \<Longrightarrow> spec (read_response (response_from_slice cd)) s (\<lambda>r t. vwire t = a \<and> answered cd b t r)
     (\<lambda>_ t. vwire t = a) (\<lambda>t. vwire t = a)"
  unfolding read_response_def
  by (rule spec_mono [OF spec_read_loop]) (auto simp: answered_def)

lemma spec_send:
  assumes "on_wire a b s" and "f \<noteq> []"
  shows "spec (send_with_fds f) s (\<lambda>_. on_wire (a @ f) b) (\<lambda>_ t. \<exists>k. on_wire (a @ take k f) b t) (\<lambda>_. True)"
proof -
  obtain c cs where f: "f = c # cs" using assms(2) by (cases f) auto
  have part: "on_wire ((a @ [c]) @ take k cs) b t \<Longrightarrow> \<exists>k. on_wire (a @ take k f) b t" for k t
    by (rule exI [of _ "Suc k"]) (simp add: f)
  have first: "\<exists>k. on_wire (a @ take k f) b s" by (rule exI [of _ 0]) (simp add: assms(1))
  have rest: "spec (write_all cs) t (\<lambda>_. on_wire ((a @ [c]) @ cs) b) (\<lambda>_ t. \<exists>k. on_wire (a @ take k f) b t) (\<lambda>_. True)"
    if "on_wire (a @ [c]) b t" for t
    unfolding write_all_def
    by (rule spec_bind, rule spec_ask)
      (auto split: option.split prod.split intro!: spec_put_wire spec_bind spec_raise part on_wire_sent [OF that]
        simp del: append_assoc)
  have "a @ f = (a @ [c]) @ cs" by (simp add: f)
  then show ?thesis
    unfolding send_with_fds_def
    by (intro spec_bind [of sock_call] spec_sock_call spec_bind [of "put_wire _"] spec_put_wire)
      (use rest on_wire_sent [OF assms(1), of "[c]"] first in \<open>auto simp: f\<close>)
qed

definition sent_part :: "bytes \<Rightarrow> bytes \<Rightarrow> view \<Rightarrow> bool" where
  "sent_part a f t \<longleftrightarrow> (\<exists>k. vwire t = a @ take k f)"

definition submit_report :: "codec \<Rightarrow> bytes \<Rightarrow> work_submission \<Rightarrow> startup_outcome \<Rightarrow> view \<Rightarrow> bool" where
  "submit_report cd before s oc t \<longleftrightarrow>
     oc = RootEffectsPossibleNoReplay \<or>
     oc = RootAccepted \<and> (\<exists>r. answered cd before t r \<and> submit_response_disposition r s = DispAccepted)"

definition submit_refusal :: "codec \<Rightarrow> bytes \<Rightarrow> work_submission \<Rightarrow> view \<Rightarrow> bool" where
  "submit_refusal cd before s t \<longleftrightarrow>
     (\<exists>r. answered cd before t r \<and> submit_response_disposition r s = DispRejectedPreaccept)"

lemma answered_stable: "on_wire a b t \<Longrightarrow> on_wire a b u \<Longrightarrow> answered cd c t r \<Longrightarrow> answered cd c u r"
  by (simp add: answered_def on_wire_def)

lemma spec_conclude:
  assumes "vwire u = a" and "answered cd b u r"
  shows "spec (conclude_submission cd cx hdl m s r) u
     (\<lambda>oc t. vwire t = a \<and> submit_report cd b s oc t) (\<lambda>_ t. vwire t = a \<and> submit_refusal cd b s t) (\<lambda>t. vwire t = a)"
proof -
  let ?I = "on_wire a (vheard u)"
  have start: "?I u" using assms(1) by (simp add: on_wire_def)
  have heard: "answered cd b t r" "vwire t = a" if "?I t" for t
    using answered_stable [OF start that assms(2)] on_wireD [OF that] by simp_all
  have noted: "spec (ignore_err (append_diagnostic cd d)) t (\<lambda>_. ?I) (\<lambda>_ _. False) ?I" if "?I t" for d t
    by (rule spec_ignore_err, rule keepsD [OF wired.noting that])
  then have noted_if: "spec (case x of Inl e \<Rightarrow> ignore_err (append_diagnostic cd (d e)) | Inr _ \<Rightarrow> ret ()) t (\<lambda>_. ?I) (\<lambda>_ _. False) ?I"
    if "?I t" for x :: "io_error + unit" and d t
    using that by (cases x) (simp_all add: spec_ret)
  have verdict: "spec (case submit_response_disposition r s of DispAccepted \<Rightarrow> ret RootAccepted
        | DispRejectedPreaccept \<Rightarrow> preaccept_failure cd cx hdl m e
        | DispEffectsPossibleNoReplay \<Rightarrow> ret RootEffectsPossibleNoReplay) t
      (\<lambda>oc t. vwire t = a \<and> submit_report cd b s oc t) (\<lambda>_ t. vwire t = a \<and> submit_refusal cd b s t) (\<lambda>t. vwire t = a)"
    if "?I t" for e t
  proof (cases "submit_response_disposition r s")
    case DispRejectedPreaccept
    have never: "spec (preaccept_failure cd cx hdl m e) t (\<lambda>_ _. False) (\<lambda>_ _. True) (\<lambda>_. True)" for t
      unfolding preaccept_failure_def Let_def
      by (intro spec_bind spec_raise spec_mono [OF reaches_any]) (auto intro!: spec_raise)
    show ?thesis
      unfolding DispRejectedPreaccept submit_disposition.case
      by (rule spec_mono [OF spec_conj [OF never keepsD [OF wired.keeps_failure that]]])
        (use DispRejectedPreaccept heard in \<open>auto simp: submit_refusal_def\<close>)
  qed (use that heard in \<open>auto intro!: spec_ret simp: submit_report_def\<close>)
  show ?thesis
    unfolding conclude_submission_def Let_def
  proof (rule spec_bind, rule spec_mono [OF noted_if [OF start]])
    fix t assume t: "?I t"
    show "spec (seq (ignore_err (append_diagnostic cd (submit_diagnostic cx hdl (ws_root_authority s) (wr_status r) (worker_identity r) (wr_detail r))))
        (case submit_response_disposition r s of DispAccepted \<Rightarrow> ret RootAccepted
         | DispRejectedPreaccept \<Rightarrow> preaccept_failure cd cx hdl m (io_other (case wr_detail r of None \<Rightarrow> wr_status r | Some t \<Rightarrow> t))
         | DispEffectsPossibleNoReplay \<Rightarrow> ret RootEffectsPossibleNoReplay)) t
      (\<lambda>oc t. vwire t = a \<and> submit_report cd b s oc t) (\<lambda>_ t. vwire t = a \<and> submit_refusal cd b s t) (\<lambda>t. vwire t = a)"
      by (rule spec_bind, rule spec_mono [OF noted [OF t]]) (auto intro: verdict heard)
  qed (auto intro: heard)
qed

lemma spec_transmit:
  assumes "on_wire a b u" and "f \<noteq> []"
  shows "spec (transmit_submission cd cx hdl m s f) u
     (\<lambda>oc t. sent_part a f t \<and> submit_report cd b s oc t) (\<lambda>_ t. sent_part a f t \<and> submit_refusal cd b s t) (\<lambda>_. True)"
    (is "spec _ u ?Q ?E ?H")
proof -
  have unknown: "spec (outcome_unknown cd d) t ?Q ?E ?H" if "sent_part a f t" for d t
  proof -
    have here: "on_wire (vwire t) (vheard t) t" by (simp add: on_wire_def)
    show ?thesis
      unfolding outcome_unknown_def
      by (intro spec_bind spec_ignore_err, rule spec_mono [OF keepsD [OF wired.noting here]])
        (use that in \<open>auto intro!: spec_ret simp: submit_report_def sent_part_def on_wire_def\<close>)
  qed
  have part: "on_wire (a @ take k f) b t \<Longrightarrow> sent_part a f t" for k t by (auto simp: sent_part_def dest: on_wireD)
  have all: "sent_part a f t" if "vwire t = a @ f" for t using that by (auto simp: sent_part_def intro: exI [of _ "length f"])
  have answer: "spec (handle_err (read_response (response_from_slice cd)) (\<lambda>_. outcome_unknown cd d) (conclude_submission cd cx hdl m s)) t ?Q ?E ?H"
    if "on_wire (a @ f) b t" for d t
    by (rule spec_handle_err, rule spec_mono [OF spec_read_response [OF that]])
      (auto intro!: unknown all elim!: spec_mono [OF spec_conclude])
  have closed: "spec (handle_err (if c then sock_call else ret ()) (\<lambda>_. outcome_unknown cd d)
      (\<lambda>_. handle_err (read_response (response_from_slice cd)) (\<lambda>_. outcome_unknown cd d') (conclude_submission cd cx hdl m s))) t ?Q ?E ?H"
    if "on_wire (a @ f) b t" for c d d' t
    using that by (intro spec_handle_err spec_if spec_sock_call spec_ret answer) (auto intro!: unknown all dest: on_wireD)
  show ?thesis
    unfolding transmit_submission_def Let_def
    by (rule spec_handle_err, rule spec_mono [OF spec_send [OF assms]], erule closed, erule exE, rule unknown, erule part, rule TrueI)
qed

lemma work_frame_bounded: "work_frame cd s = Inr f \<Longrightarrow> f \<noteq> [] \<and> length f < MAX_WORK_FRAME_BYTES"
  by (auto simp: work_frame_def Let_def split: sum.splits if_splits)

lemma open_submission_frame:
  "spec (open_submission cd cx hdl m s) u (\<lambda>f _. f \<noteq> [] \<and> length f < MAX_WORK_FRAME_BYTES) (\<lambda>_ _. True) (\<lambda>_. True)"
proof -
  have failed: "reaches (preaccept_failure cd cx hdl m e) t (\<lambda>f _. False)" for e t
    unfolding preaccept_failure_def Let_def
    by (intro spec_bind spec_raise spec_mono [OF reaches_any]) (auto intro!: spec_raise)
  have frame: "spec (or_preaccept cd cx hdl m (lift_result (work_frame cd s))) t (\<lambda>f _. f \<noteq> [] \<and> length f < MAX_WORK_FRAME_BYTES) (\<lambda>_ _. True) (\<lambda>_. True)" for t
    unfolding or_preaccept_def
    by (intro spec_catch spec_lift_result) (auto dest: work_frame_bounded intro: spec_mono [OF failed])
  show ?thesis
    unfolding open_submission_def Let_def
    by (rule reaches_skip, rule spec_bind, rule spec_mono [OF frame], rule reaches_skip) (auto intro: spec_ret)
qed

subsection \<open>The whole submission\<close>

definition names_work :: "work_response \<Rightarrow> string \<Rightarrow> root_authority_grant \<Rightarrow> bool" where
  "names_work r hdl g \<longleftrightarrow>
     wr_protocol r = PROTOCOL \<and> wr_work_id r = hdl \<and> wr_root_id r = gr_root_id g \<and>
     wr_supervisor_authority_id r = gr_supervisor_authority_id g"

lemma disposition_names:
  "submit_response_disposition r s = DispAccepted \<Longrightarrow>
     names_work r (ws_work_id s) (ws_root_authority s) \<and>
     (wr_status r = ''accepted'' \<and> worker_identity r \<noteq> None \<or> wr_status r = ''already_accepted_no_replay'')"
  "submit_response_disposition r s = DispRejectedPreaccept \<Longrightarrow>
     names_work r (ws_work_id s) (ws_root_authority s) \<and> wr_status r = ''rejected_preaccept''"
  by (auto simp: submit_response_disposition_def validate_response_def names_work_def split: if_splits)

definition submission_for :: "codec \<Rightarrow> root_context \<Rightarrow> string \<Rightarrow> work_submission \<Rightarrow> bool" where
  "submission_for cd cx hdl s \<longleftrightarrow> ws_work_id s = hdl \<and> parse_grant cd cx = Inr (ws_root_authority s)"

lemma authority_grant: "submission_authority cd cx = Inr (ep, g, reg) \<Longrightarrow> parse_grant cd cx = Inr g"
  by (auto simp: submission_authority_def split: option.splits sum.splits if_splits)

lemma failed_never_done: "reaches (preaccept_failure cd cx hdl m e) t (\<lambda>_ _. False)"
  unfolding preaccept_failure_def Let_def
  by (intro spec_bind spec_raise spec_mono [OF reaches_any]) (auto intro!: spec_raise)

lemma prepared_submission:
  "reaches (prepare_submission cd cx hdl root_dir m args scp st au ep g reg) t
     (\<lambda>s _. ws_work_id s = hdl \<and> ws_root_authority s = g)"
  unfolding prepare_submission_def Let_def
  by (rule reaches_skip, rule reaches_skip, rule reaches_skip, rule reaches_skip, rule reaches_skip) (simp add: spec_ret)

definition submit_post :: "codec \<Rightarrow> root_context \<Rightarrow> string \<Rightarrow> bytes \<Rightarrow> bytes \<Rightarrow> startup_outcome outcome \<Rightarrow> view \<Rightarrow> bool" where
  "submit_post cd cx hdl a b r t \<longleftrightarrow>
     (case r of
        Raise _ \<Rightarrow> vwire t = a \<or> (\<exists>s. submission_for cd cx hdl s \<and> submit_refusal cd b s t)
      | Done oc \<Rightarrow> \<exists>s. submission_for cd cx hdl s \<and> submit_report cd b s oc t
      | Halted \<Rightarrow> True) \<and>
     (r \<noteq> Halted \<longrightarrow> (\<exists>sent. vwire t = a @ sent \<and> length sent < MAX_WORK_FRAME_BYTES))"

lemma spec_submit:
  assumes "on_wire a b u"
  shows "spec (submit_inner cd cx hdl root_dir m args scp st au) u
     (\<lambda>oc. submit_post cd cx hdl a b (Done oc)) (\<lambda>e. submit_post cd cx hdl a b (Raise e)) (\<lambda>_. True)"
proof -
  have unsent: "submit_post cd cx hdl a b (Raise e) t" if "on_wire a b t" for e t
    using on_wireD [OF that] by (simp add: submit_post_def MAX_WORK_FRAME_BYTES_def)
  have bounded: "\<exists>sent. vwire t = a @ sent \<and> length sent < MAX_WORK_FRAME_BYTES"
    if "sent_part a f t" "length f < MAX_WORK_FRAME_BYTES" for f t
    using that by (auto simp: sent_part_def)
  have wired: "spec (transmit_submission cd cx hdl m s f) t
      (\<lambda>oc. submit_post cd cx hdl a b (Done oc)) (\<lambda>e. submit_post cd cx hdl a b (Raise e)) (\<lambda>_. True)"
    if "on_wire a b t" "submission_for cd cx hdl s" "f \<noteq> []" "length f < MAX_WORK_FRAME_BYTES" for s f t
    by (rule spec_mono [OF spec_transmit [OF that(1,3)]]) (use that(2,4) bounded in \<open>auto simp: submit_post_def\<close>)
  have opened: "spec (bind (open_submission cd cx hdl m s) (transmit_submission cd cx hdl m s)) t
      (\<lambda>oc. submit_post cd cx hdl a b (Done oc)) (\<lambda>e. submit_post cd cx hdl a b (Raise e)) (\<lambda>_. True)"
    if "on_wire a b t" "submission_for cd cx hdl s" for s t
    by (rule spec_bind, rule spec_mono [OF spec_conj [OF keepsD [OF wired.keeps_open that(1)] open_submission_frame]])
      (use that(2) in \<open>auto intro!: wired unsent\<close>)
  have prepared: "spec (bind (prepare_submission cd cx hdl root_dir m args scp st au ep g reg) (\<lambda>s.
        bind (open_submission cd cx hdl m s) (transmit_submission cd cx hdl m s))) t
      (\<lambda>oc. submit_post cd cx hdl a b (Done oc)) (\<lambda>e. submit_post cd cx hdl a b (Raise e)) (\<lambda>_. True)"
    if "on_wire a b t" "parse_grant cd cx = Inr g" for ep g reg t
    by (rule spec_bind, rule spec_mono [OF spec_conj [OF keepsD [OF wired.keeps_prepare that(1)] prepared_submission]])
      ((rule opened; simp add: submission_for_def that(2)), simp_all add: unsent)
  have granted: "spec (or_preaccept cd cx hdl m (lift_result (submission_authority cd cx))) u
      (\<lambda>(ep, g, reg) t. on_wire a b t \<and> parse_grant cd cx = Inr g) (\<lambda>_. on_wire a b) (\<lambda>_. True)"
    unfolding or_preaccept_def
    by (intro spec_catch spec_lift_result)
      (use assms in \<open>auto dest: authority_grant
        intro!: spec_mono [OF spec_conj [OF failed_never_done keepsD [OF wired.keeps_failure assms]]]\<close>)
  show ?thesis
    unfolding submit_inner_def
    by (rule spec_bind, rule spec_mono [OF granted]) (auto intro!: prepared unsent)
qed

text \<open>
  C27. A submission to a root never reports more than it knows. An error is returned only if not one
  byte of the work frame reached the root's socket, or if the root itself answered with a line that
  names this very work, root and authority and rejects it before acceptance. Acceptance is reported only on such a
  line saying so (with the worker's identity for a fresh acceptance). In every other case, once a byte may be out,
  the outcome is "effects possible, no replay". Nothing sent reaches the frame bound. This holds for
  every placement of I/O errors in files, descriptors, sockets, peer and broker.
\<close>

theorem submission_reports_truthfully:
  assumes "submit_inner cd cx hdl root_dir m args scp sentinel_text authority w = (r, w')" and "r \<noteq> Halted"
  shows "(\<exists>sent. wire w' = wire w @ sent \<and> length sent < MAX_WORK_FRAME_BYTES) \<and>
    (\<forall>e. r = Raise e \<longrightarrow> wire w' = wire w \<or>
       (\<exists>g line resp. parse_grant cd cx = Inr g \<and> heard w' = heard w @ line @ [newline_char] \<and>
          response_from_slice cd line = Inr resp \<and> names_work resp hdl g \<and> wr_status resp = ''rejected_preaccept'')) \<and>
    (\<forall>oc. r = Done oc \<longrightarrow> oc = RootEffectsPossibleNoReplay \<or>
       oc = RootAccepted \<and> (\<exists>g line resp. parse_grant cd cx = Inr g \<and> heard w' = heard w @ line @ [newline_char] \<and>
          response_from_slice cd line = Inr resp \<and> names_work resp hdl g \<and>
          (wr_status resp = ''accepted'' \<and> worker_identity resp \<noteq> None \<or> wr_status resp = ''already_accepted_no_replay'')))"
proof -
  have "on_wire (wire w) (heard w) (view_of w)" by (simp add: on_wire_def view_of_def)
  from spec_run [OF spec_submit [OF this, where cd = cd and cx = cx and hdl = hdl and root_dir = root_dir and m = m
        and args = args and scp = scp and st = sentinel_text and au = authority]] assms
  have post: "submit_post cd cx hdl (wire w) (heard w) r (view_of w')" by (cases r) auto
  have seen: "vwire (view_of w') = wire w'" "vheard (view_of w') = heard w'" by (simp_all add: view_of_def)
  show ?thesis
    using post assms(2) disposition_names
    unfolding submit_post_def submit_report_def submit_refusal_def answered_def submission_for_def seen
    by (cases r) (simp_all, blast+)
qed

subsection \<open>A submission that is accepted\<close>

definition sample_ref :: process_ref where
  "sample_ref = \<lparr>pr_pid = 50, pr_boot_id = ''b'', pr_starttime_ticks = 7\<rparr>"

definition sample_grant :: root_authority_grant where
  "sample_grant = \<lparr>gr_protocol = ROOT_PROTOCOL, gr_control_protocol = LEGACY_CONTROL_PROTOCOL, gr_completion_protocol = [],
     gr_domain_id = ''d'', gr_supervisor_authority_id = ''s'', gr_root_id = ''r'', gr_capability = [],
     gr_root_identity = sample_ref, gr_guardian_identity = sample_ref\<rparr>"

definition sample_response :: work_response where
  "sample_response = \<lparr>wr_protocol = PROTOCOL, wr_work_id = ''ab_1'', wr_status = ''accepted'', wr_root_id = ''r'',
     wr_supervisor_authority_id = ''s'', worker_identity = Some sample_ref, wr_detail = None\<rparr>"

definition sample_codec :: codec where
  "sample_codec = \<lparr>intent_to_vec = (\<lambda>_. Inr ''i''), intent_from_slice = (\<lambda>_. Inl unexpected_eof),
     submission_to_vec = (\<lambda>_. Inr ''s''), cancel_to_vec = (\<lambda>_. Inr ''c''), witness_to_vec = (\<lambda>_. Inr ''w''),
     response_from_slice = (\<lambda>_. Inr sample_response), grant_from_str = (\<lambda>_. Inr sample_grant),
     value_from_slice = (\<lambda>_. Inr JNull), diagnostic_to_vec = (\<lambda>_. ''d''), hex_digest = (\<lambda>_. ''h'')\<rparr>"

definition sample_context :: root_context where
  "sample_context = \<lparr>var = [ENDPOINT_ENV \<mapsto> ''/tmp/s'', ROOT_AUTHORITY_ENV \<mapsto> ''g''], vars_os = [], geteuid = 1000,
     process_id = 9, observer_first = Inr (0, 0), self_stat = Inr [], stat_by_pid = (\<lambda>_. Inr []),
     observer_again = Inr (0, 0), observer_last = Inr (0, 0), source_boot = Inr [], own_pid_ns = Inr [],
     pid_ns_of = (\<lambda>_. Inr [])\<rparr>"

definition sample_capability :: string where
  "sample_capability = replicate 64 (CHR ''a'')"

definition sample_stat :: string where
  "sample_stat = ''50 (x'' @ CHR '')'' # CHR '' '' # join_space (replicate 19 ''1'' @ [''7''])"

definition rooted_world :: world where
  "rooted_world = quiet_world\<lparr>env := quiet_env\<lparr>patience := Suc (Suc 0), boot_file := (\<lambda>_. Inr ''b''),
     stat_files := (\<lambda>_ _. Inr sample_stat),
     socket_answers := (\<lambda>_. \<lparr>sock_error = None, peer_creds = Some (1000, 50), bytes_taken = 0,
       sock_read = Inr (newline_char # sample_capability)\<rparr>)\<rparr>\<rparr>"

lemma trim_newline_graphic:
  assumes "list_all graphic s" and "s \<noteq> []"
  shows "trim (newline_char # s) = s"
proof -
  obtain c cs where s: "s = c # cs" "graphic c" using assms by (cases s) auto
  have "ws_len (newline_char # s) = 1" by (simp add: ws_len_def byte_at_def newline_char_def)
  then have start: "trim_start (newline_char # s) = s"
    by (subst trim_start.simps) (simp add: s trim_start_graphic)
  have "ws_end_len s = 0" by (rule ws_end_len_graphic [OF assms(1)])
  then show ?thesis unfolding trim_def start by (subst trim_end.simps) simp
qed

lemma rfind_last_char:
  assumes "c \<notin> set rest"
  shows "rfind [c] (pre @ c # rest) = Some (length pre)"
proof (induction pre)
  case Nil
  have "\<not> occurs [c] rest" using assms by (auto simp: occurs_sublist sublist_def)
  then show ?case by (simp add: rfind_None_iff [THEN iffD2])
qed simp

lemma stat_sample: "start_field sample_stat = Some 7"
proof -
  let ?ts = "replicate 19 ''1'' @ [''7'']"
  have tokens: "list_all token ?ts" by (simp add: token_def graphic_def list_all_iff)
  have "split_whitespace (CHR '' '' # join_space ?ts) = split_whitespace (join_space ?ts)"
    by (subst (1 2) split_whitespace.simps) (simp add: trim_start_space)
  then have fields: "split_whitespace (CHR '' '' # join_space ?ts) = ?ts" by (simp only: split_whitespace_tokens [OF tokens])
  have "CHR '')'' \<notin> set (CHR '' '' # join_space ?ts)" by (simp add: numeral_eq_Suc)
  from rfind_last_char [OF this, of "''50 (x''"] have "rfind '')'' sample_stat = Some 5" by (simp add: sample_stat_def)
  then show ?thesis
    unfolding start_field_def by (simp add: sample_stat_def fields nth_append Let_def) (simp add: parse_u64_def parse_unsigned_def digits_val_def digit_val_def)
qed

lemma trim_b: "trim ''b'' = ''b''"
  by code_simp

lemma sample_capability_long: "length (without_dashes (trim (newline_char # sample_capability))) = 64"
  by (subst trim_newline_graphic) (simp_all add: sample_capability_def without_dashes_def graphic_def list_all_iff)

lemmas sample_facts = stat_sample trim_b sample_capability_long

lemma read_response_numeral:
  "read_response_loop parse (numeral k) acc =
     bind (ask_socket sock_read) (\<lambda>r.
       case r of
         Inl e \<Rightarrow> raise e
       | Inr [] \<Rightarrow> raise unexpected_eof
       | Inr (b # _) \<Rightarrow>
           seq (put_heard b)
             (if b = newline_char then lift_result (parse acc) else read_response_loop parse (pred_numeral k) (acc @ [b])))"
  by (simp only: numeral_eq_Suc read_response_loop.simps)

lemmas submit_run_simps =
  loop_run_simps rooted_world_def sample_codec_def sample_context_def sample_grant_def sample_ref_def sample_response_def
  submit_inner_def or_preaccept_def catch_def lift_result_def submission_authority_def parse_grant_def control_route_def
  registration_mode_def nonempty_def prepare_submission_def new_capability_def noted_preaccept_def append_diagnostic_def
  diagnostic_record_def sys_len_def text_length_def sys_append_def saturating_add_u64_def pin_descriptors_def sock_call_def
  open_submission_def work_frame_def authenticate_control_def authenticate_peer_def process_identity_live_def
  transmit_submission_def send_with_fds_def put_wire_def write_all_def read_response_def put_heard_def
  conclude_submission_def validate_response_def submit_response_disposition_def
  ENDPOINT_ENV_def ROOT_AUTHORITY_ENV_def ROOT_WORK_ID_ENV_def ROOT_PARENT_CAPABILITY_ENV_def PROTOCOL_def ROOT_PROTOCOL_def
  LEGACY_CONTROL_PROTOCOL_def SOURCE_CONTROL_PROTOCOL_def INTENT_FILE_def DIAGNOSTIC_FILE_def DIAGNOSTIC_LOCK_FILE_def
  MAX_DIAGNOSTIC_BYTES_def MAX_DIAGNOSTIC_RECORD_BYTES_def MAX_WORK_FRAME_BYTES_def MAX_RESPONSE_BYTES_def
  read_response_numeral ignore_err_def current_boot_id_def read_boot_id_from_def lock_file_exclusive_def

lemma rooted_run:
  "fst (submit_inner sample_codec sample_context ''ab_1'' ''/s'' bare_meta [] TreeScope None None rooted_world) = Done RootAccepted"
  by (simp add: submit_run_simps sample_facts Let_def)

theorem submission_reports_truthfully_witness:
  "\<exists>w' g line resp. submit_inner sample_codec sample_context ''ab_1'' ''/s'' bare_meta [] TreeScope None None rooted_world =
       (Done RootAccepted, w') \<and>
     parse_grant sample_codec sample_context = Inr g \<and> heard w' = heard rooted_world @ line @ [newline_char] \<and>
     response_from_slice sample_codec line = Inr resp \<and> names_work resp ''ab_1'' g"
proof -
  let ?w = "snd (submit_inner sample_codec sample_context ''ab_1'' ''/s'' bare_meta [] TreeScope None None rooted_world)"
  have run: "submit_inner sample_codec sample_context ''ab_1'' ''/s'' bare_meta [] TreeScope None None rooted_world =
      (Done RootAccepted, ?w)"
    using rooted_run by (rule done_run [where m = "submit_inner _ _ _ _ _ _ _ _ _"])
  from submission_reports_truthfully [OF run] show ?thesis using run by blast
qed

subsection \<open>The diagnostic history stays bounded\<close>

definition diagnostics_fit :: "view \<Rightarrow> bool" where
  "diagnostics_fit s \<longleftrightarrow>
     text_length (vfiles s DIAGNOSTIC_FILE) \<le> MAX_DIAGNOSTIC_BYTES \<and>
     text_length (vfiles s DIAGNOSTIC_ROTATED_FILE) \<le> MAX_DIAGNOSTIC_BYTES"

text \<open>The record as it is written when its detail is too long.\<close>

definition detail_omitted :: "diagnostic \<Rightarrow> diagnostic" where
  "detail_omitted d = d\<lparr>dg_detail := Some ''diagnostic record exceeded the bounded record size; detail omitted''\<rparr>"

lemma diagnostic_names [simp]:
  "\<not> is_tmp DIAGNOSTIC_FILE" "\<not> is_tmp DIAGNOSTIC_ROTATED_FILE" "\<not> is_tmp DIAGNOSTIC_LOCK_FILE"
  "DIAGNOSTIC_FILE \<noteq> DIAGNOSTIC_ROTATED_FILE" "DIAGNOSTIC_ROTATED_FILE \<noteq> DIAGNOSTIC_FILE"
  "DIAGNOSTIC_LOCK_FILE \<noteq> DIAGNOSTIC_FILE" "DIAGNOSTIC_LOCK_FILE \<noteq> DIAGNOSTIC_ROTATED_FILE"
  by (simp_all add: DIAGNOSTIC_FILE_def DIAGNOSTIC_ROTATED_FILE_def DIAGNOSTIC_LOCK_FILE_def)

lemma fit_ignores: "f \<noteq> DIAGNOSTIC_FILE \<Longrightarrow> f \<noteq> DIAGNOSTIC_ROTATED_FILE \<Longrightarrow> ignores diagnostics_fit f"
  by (simp add: ignores_def diagnostics_fit_def)

lemma text_length_empty [simp]: "text_length (Some (Regular (Text []))) = 0" "text_length None = 0"
  by (simp_all add: text_length_def)

lemma record_length:
  "length (diagnostic_to_vec cd (detail_omitted d)) < MAX_DIAGNOSTIC_BYTES \<Longrightarrow> length (diagnostic_record cd d) \<le> MAX_DIAGNOSTIC_BYTES"
  by (auto simp: diagnostic_record_def detail_omitted_def Let_def Suc_le_eq MAX_DIAGNOSTIC_RECORD_BYTES_def MAX_DIAGNOSTIC_BYTES_def)

lemma spec_sys_len:
  "\<not> is_tmp f \<Longrightarrow> Q (text_length (vfiles s f)) s \<Longrightarrow> (\<And>e. hard e \<Longrightarrow> E e s) \<Longrightarrow> H s \<Longrightarrow> spec (sys_len f) s Q E H"
  unfolding sys_len_def by (intro spec_sys spec_bind spec_lookup spec_ret)

lemma spec_rename:
  assumes "\<not> is_tmp f" and "\<not> is_tmp g"
    and "\<And>n. vfiles s f = Some n \<Longrightarrow> Q () (s\<lparr>vfiles := (vfiles s)(f := None, g := Some n)\<rparr>)"
    and "\<And>e. E e s" and "H s"
  shows "spec (sys_rename f g) s Q E H"
  unfolding sys_rename_def
  by (intro spec_sys spec_bind spec_lookup spec_option spec_if spec_raise spec_set_file)
    (use assms in \<open>auto intro!: spec_set_file\<close>)

lemma spec_rotate:
  assumes "diagnostics_fit s"
  shows "spec rotate_diagnostics s (\<lambda>_ t. diagnostics_fit t \<and> text_length (vfiles t DIAGNOSTIC_FILE) = 0)
     (\<lambda>_. diagnostics_fit) diagnostics_fit"
proof -
  let ?fresh = "\<lambda>_ t. diagnostics_fit t \<and> text_length (vfiles t DIAGNOSTIC_FILE) = 0"
  have create: "spec (sys_create_new DIAGNOSTIC_FILE) t ?fresh (\<lambda>_. diagnostics_fit) diagnostics_fit" if "diagnostics_fit t" for t
    using that by (intro spec_create_new) (auto simp: diagnostics_fit_def)
  have move: "spec (seq (if n \<le> MAX_DIAGNOSTIC_BYTES then sys_rename DIAGNOSTIC_FILE DIAGNOSTIC_ROTATED_FILE else sys_unlink DIAGNOSTIC_FILE)
      (sys_create_new DIAGNOSTIC_FILE)) t ?fresh (\<lambda>_. diagnostics_fit) diagnostics_fit" if "diagnostics_fit t" for n t
    by (intro spec_bind spec_if spec_rename spec_unlink create) (use that in \<open>auto simp: diagnostics_fit_def\<close>)
  show ?thesis
    unfolding rotate_diagnostics_def
    by (intro spec_bind [of "sys_len _"] spec_sys_len spec_bind [of sys_sync] spec_sync
        spec_bind [of "handle_err _ _ _"] spec_handle_err spec_unlink spec_if spec_raise spec_ret move)
      (use assms in \<open>auto simp: diagnostics_fit_def intro!: spec_ret spec_raise move\<close>)
qed

lemma keeps_fit:
  assumes "length (diagnostic_to_vec cd (detail_omitted d)) < MAX_DIAGNOSTIC_BYTES"
  shows "keeps diagnostics_fit (append_diagnostic cd d)"
proof (rule keepsI)
  let ?r = "diagnostic_record cd d"
  have rest: "spec (seq (sys_append DIAGNOSTIC_FILE ?r) (seq sys_sync (seq sys_open_dir sys_sync))) t
      (\<lambda>_. diagnostics_fit) (\<lambda>_. diagnostics_fit) diagnostics_fit"
    if "diagnostics_fit t" "text_length (vfiles t DIAGNOSTIC_FILE) + length ?r \<le> MAX_DIAGNOSTIC_BYTES" for t
    unfolding sys_append_def
    by (intro spec_bind spec_sys spec_lookup spec_set_file)
      (use that in \<open>auto simp: diagnostics_fit_def text_length_def split: option.splits node.splits content.splits
        intro!: spec_sync spec_bind spec_open_dir\<close>)
  have writing: "spec (seq (if saturating_add_u64 (text_length (vfiles t DIAGNOSTIC_FILE)) (length ?r) > MAX_DIAGNOSTIC_BYTES
      then rotate_diagnostics else ret ()) (seq (sys_append DIAGNOSTIC_FILE ?r) (seq sys_sync (seq sys_open_dir sys_sync)))) t
      (\<lambda>_. diagnostics_fit) (\<lambda>_. diagnostics_fit) diagnostics_fit" if "diagnostics_fit t" for t
    by (rule spec_bind, intro spec_if spec_ret, rule spec_mono [OF spec_rotate [OF that]])
      (use that record_length [OF assms] in \<open>auto intro!: rest simp: saturating_add_u64_def MAX_DIAGNOSTIC_BYTES_def\<close>)
  have measured: "spec (bind (sys_len DIAGNOSTIC_FILE) (\<lambda>len. seq (if saturating_add_u64 len (length ?r) > MAX_DIAGNOSTIC_BYTES
      then rotate_diagnostics else ret ()) (seq (sys_append DIAGNOSTIC_FILE ?r) (seq sys_sync (seq sys_open_dir sys_sync))))) t
      (\<lambda>_. diagnostics_fit) (\<lambda>_. diagnostics_fit) diagnostics_fit" if "diagnostics_fit t" for t
    using that by (intro spec_bind [of "sys_len _"] spec_sys_len writing) auto
  have opened: "keeps diagnostics_fit (sys_open_create DIAGNOSTIC_FILE)"
    by (auto intro!: keepsI spec_open_create simp: diagnostics_fit_def)
  have locked: "keeps diagnostics_fit (sys_open_create DIAGNOSTIC_LOCK_FILE)"
    by (intro keeps_open_create fit_ignores) simp_all
  fix s assume "diagnostics_fit s"
  then show "yields (append_diagnostic cd d) s diagnostics_fit"
    unfolding append_diagnostic_def Let_def
    by (intro spec_bind [of "sys_open_create _"] keeps_spec [OF locked] spec_bind [of lock_file_exclusive]
        keeps_spec [OF keeps_lock_file_exclusive] keeps_spec [OF opened] measured)
qed

text \<open>
  C29. The diagnostic history of root work is bounded, however long the detail of a record is. Whatever
  an append meets, and wherever it fails or dies, the diagnostic file and its rotated predecessor each
  stay within a mebibyte, if they were and the record's encoding without its own detail is shorter than that.
\<close>

theorem diagnostics_bounded:
  assumes "length (diagnostic_to_vec cd (detail_omitted d)) < MAX_DIAGNOSTIC_BYTES"
    and "text_length (files w DIAGNOSTIC_FILE) \<le> MAX_DIAGNOSTIC_BYTES"
    and "text_length (files w DIAGNOSTIC_ROTATED_FILE) \<le> MAX_DIAGNOSTIC_BYTES"
    and "append_diagnostic cd d w = (r, w')"
  shows "text_length (files w' DIAGNOSTIC_FILE) \<le> MAX_DIAGNOSTIC_BYTES \<and>
     text_length (files w' DIAGNOSTIC_ROTATED_FILE) \<le> MAX_DIAGNOSTIC_BYTES"
proof -
  have "diagnostics_fit (view_of w)" using assms(2,3) by (simp add: diagnostics_fit_def view_files)
  from keeps_run [OF keeps_fit [OF assms(1)] this] assms(4) have "diagnostics_fit (view_of w')" by simp
  then show ?thesis by (simp add: diagnostics_fit_def view_files)
qed

text \<open>
  A codec whose encoding grows with the detail, and a record whose detail alone is longer than a file
  may be: it is written without it, after the full history was rotated away.
\<close>

definition detailed_codec :: codec where
  "detailed_codec = sample_codec\<lparr>diagnostic_to_vec := (\<lambda>d. case dg_detail d of None \<Rightarrow> ''d'' | Some t \<Rightarrow> t)\<rparr>"

definition long_diagnostic :: diagnostic where
  "long_diagnostic = \<lparr>dg_protocol = PROTOCOL, dg_work_id = ''ab_1'', dg_phase = ''preaccept_failed'', dg_initiator_pid = 7, dg_root_id = None,
     dg_supervisor_authority_id = None, dg_worker_pid = None, dg_worker_starttime_ticks = None, dg_detail = Some (replicate 2000000 (CHR ''x''))\<rparr>"

definition full_history_world :: world where
  "full_history_world = quiet_world\<lparr>files := [DIAGNOSTIC_FILE \<mapsto> Regular (Text (replicate 1048576 (CHR ''d'')))]\<rparr>"

theorem diagnostics_bounded_witness:
  "text_length (files (snd (append_diagnostic detailed_codec long_diagnostic full_history_world)) DIAGNOSTIC_FILE) \<le> MAX_DIAGNOSTIC_BYTES \<and>
   length (diagnostic_to_vec detailed_codec long_diagnostic) > MAX_DIAGNOSTIC_BYTES"
proof -
  have "length (diagnostic_to_vec detailed_codec (detail_omitted long_diagnostic)) < MAX_DIAGNOSTIC_BYTES"
    by (simp add: detailed_codec_def detail_omitted_def long_diagnostic_def MAX_DIAGNOSTIC_BYTES_def)
  moreover have "text_length (files full_history_world DIAGNOSTIC_FILE) \<le> MAX_DIAGNOSTIC_BYTES"
    "text_length (files full_history_world DIAGNOSTIC_ROTATED_FILE) \<le> MAX_DIAGNOSTIC_BYTES"
    by (simp_all add: full_history_world_def text_length_def MAX_DIAGNOSTIC_BYTES_def DIAGNOSTIC_FILE_def DIAGNOSTIC_ROTATED_FILE_def)
  ultimately have "text_length (files (snd (append_diagnostic detailed_codec long_diagnostic full_history_world)) DIAGNOSTIC_FILE)
      \<le> MAX_DIAGNOSTIC_BYTES"
    using diagnostics_bounded [of detailed_codec long_diagnostic full_history_world] by (metis surjective_pairing)
  then show ?thesis by (simp add: detailed_codec_def long_diagnostic_def MAX_DIAGNOSTIC_BYTES_def)
qed

text \<open>Neither a submission nor a cancellation of root work starts a helper.\<close>

interpretation helperless: wire_frame "\<lambda>s. vspawned s = x" cd for x cd
proof unfold_locales
  show "keeps (\<lambda>s. vspawned s = x) (append_diagnostic cd d)" for d
    by (rule keeps_append_diagnostic) (simp_all add: ignores_def)
qed (auto simp: ignores_def intro!: keepsI spec_put_wire spec_put_heard)

lemma root_work_starts_nothing:
  "spawned (snd (submit_inner cd cx hdl root_dir m args scp sentinel_text authority w)) = spawned w"
  "spawned (snd (cancel_root_work cd cx w)) = spawned w"
  using keeps_run [OF helperless.keeps_submit, of w] keeps_run [OF helperless.keeps_cancel, of w] by (simp_all add: view_of_def)

end
