(* ===== verification/Launch_Fence.thy ===== *)
theory Launch_Fence
  imports Continuation Root_Work_Laws
begin

section \<open>The launch fence and the evidence it leaves\<close>

text \<open>
  Evidence is never replaced, whatever fails and wherever a process dies; and every operation on the
  fence is a step of a four-state automaton, so one registration releases at most one workload.
\<close>

subsection \<open>Rules of the documents\<close>

lemma source_files [simp]:
  "\<not> is_tmp SOURCE_OUTCOME" "\<not> is_tmp FENCE" "\<not> is_tmp CONFIRMATION" "\<not> is_tmp RECEIPT" "\<not> is_tmp LOCAL_RECORD"
  "\<not> is_tmp SELECTION" "\<not> is_tmp SELECTED_LOG" "\<not> is_tmp OBSERVATION" "\<not> is_tmp CANCELLATION_RECEIPT"
  "\<not> is_tmp CAUSAL_CANCEL" "\<not> is_tmp RECOVERY_IMAGE" "\<not> is_tmp LAUNCH_LOCK" "\<not> is_tmp CONTINUATION_LOCK"
  "\<not> is_tmp REGISTRATION" "\<not> is_tmp SNAPSHOT" "\<not> is_tmp SOURCE_BUNDLE" "\<not> is_tmp INTENT_FILE" "\<not> is_tmp ACCEPTED_FILE"
  by (simp_all add: source_file_defs)

lemma spec_bounded_read [wp_rules]:
  assumes "\<not> is_tmp f" and "\<And>t. vfiles s f = Some (Regular (Text t)) \<Longrightarrow> Q t s" and "\<And>e. E e s" and "H s"
  shows "spec (bounded_read f n) s Q E H"
  unfolding bounded_read_def text_of_def
  by (intro spec_bind spec_open_read spec_sys)
    (use assms in \<open>auto split: content.splits intro!: spec_raise spec_ret spec_if\<close>)

lemma keeps_bounded_read [keeps_rules]: "\<not> is_tmp f \<Longrightarrow> keeps I (bounded_read f n)"
  by (auto intro!: keepsI spec_bounded_read)

lemma spec_try_exists [wp_rules]:
  assumes "\<not> is_tmp f" and "Q (vfiles s f \<noteq> None) s" and "\<And>e. E e s" and "H s"
  shows "spec (try_exists f) s Q E H"
  unfolding try_exists_def
  by (intro spec_handle_err spec_lstat) (use assms in \<open>auto dest: hardD intro!: spec_raise spec_ret\<close>)

lemma keeps_require [keeps_rules]: "keeps I (require d x)"
  unfolding require_def by (intro keeps_rules)

lemma spec_require [wp_rules]: "(\<And>a. x = Some a \<Longrightarrow> Q a s) \<Longrightarrow> (\<And>e. E e s) \<Longrightarrow> spec (require d x) s Q E H"
  unfolding require_def by (cases x) (auto intro: spec_ret spec_raise)

lemma spec_unlink_tmp: "is_tmp f \<Longrightarrow> Q () s \<Longrightarrow> (\<And>e. E e s) \<Longrightarrow> H s \<Longrightarrow> spec (sys_unlink f) s Q E H"
  unfolding sys_unlink_def
  by (intro spec_sys spec_bind spec_lookup_tmp)
    (auto split: option.splits node.splits intro!: spec_raise spec_set_file)

lemma keeps_named_lock [keeps_rules]: "ignores I f \<Longrightarrow> \<not> is_tmp f \<Longrightarrow> keeps I (named_lock f)"
  unfolding named_lock_def by (intro keeps_rules)

lemma keeps_source_value [keeps_rules]: "\<not> is_tmp f \<Longrightarrow> keeps I (source_value jc f)"
  unfolding source_value_def by (intro keeps_rules)

lemma keeps_save_document [keeps_rules]: "ignores I f \<Longrightarrow> \<not> is_tmp f \<Longrightarrow> keeps I (save_document jc f v)"
  unfolding save_document_def by (intro keeps_rules)

subsection \<open>Evidence is linked into place\<close>

definition linked_once :: "fname \<Rightarrow> bytes \<Rightarrow> world \<Rightarrow> (fname \<times> (io_error + unit)) outcome \<Rightarrow> world \<Rightarrow> bool" where
  "linked_once f data w0 r w \<longleftrightarrow>
     (case r of
        Done (tmp, Inr _) \<Rightarrow>
          is_tmp tmp \<and> files w0 f = None \<and> view_of w = put f (Some (Regular (Text data))) (view_of w0)
      | Done (tmp, Inl _) \<Rightarrow> is_tmp tmp \<and> view_of w = view_of w0
      | _ \<Rightarrow> view_of w = view_of w0)"

lemma wrun_link:
  "files w a = Some n \<Longrightarrow>
   (files w b = None \<Longrightarrow> P (Done (Inr ())) (next_tick w\<lparr>files := (files w)(b \<mapsto> n)\<rparr>)) \<Longrightarrow>
   (\<And>e. P (Done (Inl e)) (next_tick w)) \<Longrightarrow> P Halted (next_tick w) \<Longrightarrow> wrun (attempt (sys_link a b)) w P"
  unfolding sys_link_def attempt_def sys_def sys_by_def
  by (auto simp: wrun_def handle_err_def bind_def lookup_file_def set_file_def raise_def ret_def next_tick_def
      split: fault.splits)

lemma wrun_link_new:
  assumes "\<not> is_tmp f"
  shows "wrun (link_new f data) w (linked_once f data w)"
proof -
  have vis: "visible (m(Tmp f p n := x)) = visible m" "visible (m(f := x)) = (visible m)(f := x)" "Tmp f p n \<noteq> f"
    "f \<noteq> Tmp f p n" for m :: "fname \<rightharpoonup> node" and p n x
    using assms by (auto simp: visible_def fun_eq_iff)
  note view = linked_once_def view_of_def next_tick_def vis
  have start: "wrun (atomic_temp_path f) w P"
    if "P (Done (Tmp f (self_pid (env w)) (temp_counter w))) (w\<lparr>temp_counter := Suc (temp_counter w)\<rparr>)" for P
    using that by (simp add: wrun_def atomic_temp_path_def)
  have finish: "wrun (ret a) u P" if "P (Done a) u" for a u P
    using that by (simp add: wrun_def ret_def)
  show ?thesis
    unfolding link_new_def
    apply (rule wrun_bind, rule start, simp)
    apply (rule wrun_bind, rule wrun_create_new; simp add: view)
    apply (rule wrun_bind, rule wrun_write; simp add: view)
    apply (rule wrun_bind, rule wrun_sync; simp add: view)
    apply (rule wrun_bind, rule wrun_link, simp; simp add: view)
     apply (rule finish; simp add: view)+
    done
qed

lemma spec_link_new:
  assumes "\<not> is_tmp f"
    and "\<And>tmp. is_tmp tmp \<Longrightarrow> vfiles s f = None \<Longrightarrow> Q (tmp, Inr ()) (put f (Some (Regular (Text data))) s)"
    and "\<And>tmp e. is_tmp tmp \<Longrightarrow> Q (tmp, Inl e) s" and "\<And>e. E e s" and "H s"
  shows "spec (link_new f data) s Q E H"
  unfolding spec_def
proof (intro allI impI)
  fix w assume s: "view_of w = s"
  obtain r w' where run: "link_new f data w = (r, w')" by force
  from wrun_link_new [OF assms(1), of data w] have "linked_once f data w r w'" by (simp add: wrun_def run)
  then show "case link_new f data w of (Done a, w') \<Rightarrow> Q a (view_of w') | (Raise e, w') \<Rightarrow> E e (view_of w')
     | (Halted, w') \<Rightarrow> H (view_of w')"
    using assms(2-) view_files [OF assms(1), of w] s
    by (cases r; (cases "case r of Done a \<Rightarrow> snd a")?) (auto simp: run linked_once_def split: sum.splits)
qed

lemma spec_immutable:
  assumes "\<not> is_tmp f"
    and "vfiles s f = None \<Longrightarrow> Q () (put f (Some (Regular (Text data))) s)"
    and "vfiles s f = Some (Regular (Text data)) \<Longrightarrow> Q () s"
    and "\<And>e. E e s" and "\<And>e. vfiles s f = None \<Longrightarrow> E e (put f (Some (Regular (Text data))) s)"
    and "H s" and "vfiles s f = None \<Longrightarrow> H (put f (Some (Regular (Text data))) s)"
  shows "spec (immutable f data) s Q E H"
  unfolding immutable_def
  by (intro spec_bind spec_try_exists spec_if spec_bounded_read spec_link_new assms(1))
    (use assms in \<open>auto intro!: spec_bind spec_unlink_tmp spec_ret spec_raise spec_bounded_read spec_open_dir spec_sync
       split: if_splits\<close>)

lemma keeps_immutable [keeps_rules]: "ignores I f \<Longrightarrow> \<not> is_tmp f \<Longrightarrow> keeps I (immutable f data)"
  by (auto intro!: keepsI spec_immutable dest: ignoresD)

text \<open>A file that is there stays as it is, whichever file is published.\<close>

lemma keeps_evidence: "\<not> is_tmp f \<Longrightarrow> keeps (\<lambda>s. vfiles s g = Some n) (immutable f data)"
  by (auto intro!: keepsI spec_immutable)

subsection \<open>The automaton\<close>

datatype launch_phase = Unreleased | MayLaunch | Launched | Revoked

fun phase_name :: "launch_phase \<Rightarrow> string" where
  "phase_name Unreleased = ''unreleased''"
| "phase_name MayLaunch = ''may_launch''"
| "phase_name Launched = ''launched''"
| "phase_name Revoked = ''revoked_never_launched''"

inductive moves :: "launch_phase \<Rightarrow> launch_phase \<Rightarrow> bool" where
  confirmed: "moves Unreleased MayLaunch"
| revoked: "moves Unreleased Revoked"
| released: "moves MayLaunch Launched"

inductive_simps moves_simps [simp]:
  "moves p Unreleased" "moves p MayLaunch" "moves p Launched" "moves p Revoked" "moves Launched q" "moves Revoked q"

lemma phase_name_inj [simp]: "phase_name p = phase_name q \<longleftrightarrow> p = q"
  by (cases p; cases q) simp_all

text \<open>What the crates' encoding keeps: every field of a value reads back after a round trip.\<close>

definition faithful_codec :: "json_codec \<Rightarrow> bool" where
  "faithful_codec jc \<longleftrightarrow>
     (\<forall>v d. json_to_vec jc v = Inr d \<longrightarrow>
        (\<exists>u. json_from_slice jc (d @ [newline_char]) = Inr u \<and> (\<forall>k. jindex u k = jindex v k)))"

definition document_in :: "json_codec \<Rightarrow> node option \<Rightarrow> json option" where
  "document_in jc n =
     (case n of
        Some (Regular (Text d)) \<Rightarrow> (case json_from_slice jc d of Inr v \<Rightarrow> Some v | Inl _ \<Rightarrow> None)
      | _ \<Rightarrow> None)"

text \<open>
  The type of a fence document in a phase: the revision counts the transitions made, the worker is an
  identity, and the workload is one exactly after the launch.
\<close>

fun phase_revision :: "launch_phase \<Rightarrow> nat" where
  "phase_revision Unreleased = 0"
| "phase_revision MayLaunch = 1"
| "phase_revision Launched = 2"
| "phase_revision Revoked = 1"

definition fence_typed :: "launch_phase \<Rightarrow> json \<Rightarrow> bool" where
  "fence_typed p v \<longleftrightarrow>
     jindex v ''phase'' = JStr (phase_name p) \<and> jindex v ''revision'' = jnat (phase_revision p) \<and>
     (\<exists>i. jindex v ''registration_worker'' = json_of_entry i) \<and>
     (if p = Launched then \<exists>i. jindex v ''workload_identity'' = json_of_entry i else jindex v ''workload_identity'' = JNull)"

text \<open>A registered handle whose fence is in a given phase.\<close>

definition fenced :: "json_codec \<Rightarrow> launch_phase \<Rightarrow> view \<Rightarrow> bool" where
  "fenced jc p s \<longleftrightarrow> vfiles s REGISTRATION \<noteq> None \<and> (\<exists>v. document_in jc (vfiles s FENCE) = Some v \<and> fence_typed p v)"

lemma fenced_unique: "fenced jc p s \<Longrightarrow> fenced jc q s \<Longrightarrow> p = q"
  by (auto simp: fenced_def fence_typed_def)

lemma fenced_ignores [simp]: "f \<noteq> FENCE \<Longrightarrow> f \<noteq> REGISTRATION \<Longrightarrow> ignores (fenced jc p) f"
  by (simp add: ignores_def fenced_def)

lemma fence_files [simp]:
  "LAUNCH_LOCK \<noteq> FENCE" "LAUNCH_LOCK \<noteq> REGISTRATION" "CONTINUATION_LOCK \<noteq> FENCE" "CONTINUATION_LOCK \<noteq> REGISTRATION"
  "RECEIPT \<noteq> FENCE" "RECEIPT \<noteq> REGISTRATION" "LOCAL_RECORD \<noteq> FENCE" "LOCAL_RECORD \<noteq> REGISTRATION"
  "CONFIRMATION \<noteq> FENCE" "CONFIRMATION \<noteq> REGISTRATION" "REGISTRATION \<noteq> FENCE" "FENCE \<noteq> REGISTRATION"
  "RECOVERY_IMAGE \<noteq> FENCE" "RECOVERY_IMAGE \<noteq> REGISTRATION"
  by (simp_all add: source_file_defs)

lemma keeps_binding [keeps_rules]: "keeps I (source_binding jc sp)"
  unfolding source_binding_def Let_def by (intro keeps_rules) simp_all

lemma spec_fence_value:
  assumes "fenced jc p s" and "\<And>v. fence_typed p v \<Longrightarrow> Q v s" and "\<And>e. E e s" and "H s"
  shows "spec (fence_value jc cm) s Q E H"
  unfolding fence_value_def source_value_def
  by (intro spec_bind spec_bounded_read spec_lift_result spec_ret)
    (use assms in \<open>auto simp: fenced_def document_in_def\<close>)

definition between :: "json_codec \<Rightarrow> launch_phase \<Rightarrow> launch_phase \<Rightarrow> view \<Rightarrow> bool" where
  "between jc p q s \<longleftrightarrow> fenced jc p s \<or> fenced jc q s"

lemma jindex_of_jset [simp]: "jindex (jset v k x) j = (if j = k then x else jindex (if is_object v then v else JObj []) j)"
  by (cases v) (auto simp: is_object_def update_conv')

lemma is_object_jset [simp]: "is_object (jset v k x)"
  by (cases v) (simp_all add: is_object_def)

lemma fence_typed_object: "fence_typed p v \<Longrightarrow> is_object v"
  by (cases v) (auto simp: fence_typed_def is_object_def)

lemma fenced_written:
  assumes "faithful_codec jc" and "fence_typed p v" and "json_bytes jc v = Inr d" and "vfiles s REGISTRATION \<noteq> None"
  shows "fenced jc p (put FENCE (Some (Regular (Text d))) s)"
proof -
  from assms(3) obtain b where "json_to_vec jc v = Inr b" "d = b @ [newline_char]"
    by (auto simp: json_bytes_def split: sum.splits)
  with assms(1) obtain u where "json_from_slice jc d = Inr u" "\<forall>k. jindex u k = jindex v k"
    unfolding faithful_codec_def by blast
  with assms(2,4) show ?thesis by (simp add: fenced_def document_in_def fence_typed_def)
qed

text \<open>The next document; a transition to \<^verbatim>\<open>launched\<close> carries the identity of the workload.\<close>

lemma fence_typed_next:
  assumes "fence_typed p v" and "moves p q"
    and "u = (if q = Launched then jset v ''workload_identity'' (json_of_entry i) else v)"
  shows "fence_typed q (jset (jset u ''revision'' (jnat (phase_revision p + 1))) ''phase'' (JStr (phase_name q)))"
    and "as_u64 (jindex u ''revision'') = Some (phase_revision p)"
  using assms(2,1) assms(3) fence_typed_object [OF assms(1)]
  by (cases rule: moves.cases; auto simp: fence_typed_def as_u64_def jnat_def)+

lemma spec_transition:
  assumes jc: "faithful_codec jc" and s: "fenced jc p s" and v: "fence_typed p v" and "moves p q"
    and "u = (if q = Launched then jset v ''workload_identity'' (json_of_entry i) else v)"
  shows "spec (transition jc u (phase_name q)) s (\<lambda>_. fenced jc q) (\<lambda>_. between jc p q) (between jc p q)"
proof -
  note step = fence_typed_next [OF v assms(4,5)]
  have new: "fenced jc q (put FENCE (Some (Regular (Text d))) s)"
    if "json_bytes jc (jset (jset u ''revision'' (jnat (phase_revision p + 1))) ''phase'' (JStr (phase_name q))) = Inr d" for d
    by (rule fenced_written [OF jc step(1) that]) (use s in \<open>simp add: fenced_def\<close>)
  show ?thesis
    unfolding transition_def save_document_def step(2)
    by (intro spec_bind spec_require spec_if spec_raise spec_lift_result spec_atomic_write)
      (use new s in \<open>auto simp: between_def\<close>)
qed

subsection \<open>The operations are steps of the automaton\<close>

definition stepped :: "json_codec \<Rightarrow> launch_phase \<Rightarrow> view \<Rightarrow> bool" where
  "stepped jc p s \<longleftrightarrow> fenced jc p s \<or> (\<exists>q. moves p q \<and> fenced jc q s)"

lemma steppedI: "fenced jc p s \<Longrightarrow> stepped jc p s" "moves p q \<Longrightarrow> fenced jc q s \<Longrightarrow> stepped jc p s"
  "moves p q \<Longrightarrow> between jc p q s \<Longrightarrow> stepped jc p s"
  by (auto simp: stepped_def between_def)

lemma stepped_ignores [simp]: "f \<noteq> FENCE \<Longrightarrow> f \<noteq> REGISTRATION \<Longrightarrow> ignores (stepped jc p) f"
  by (auto simp: ignores_def stepped_def fenced_def)

abbreviation fence_spec where
  "fence_spec jc p m s Q \<equiv> spec m s Q (\<lambda>_. stepped jc p) (stepped jc p)"

lemma spec_fenced:
  assumes "fenced jc p s" and "keeps (fenced jc p) m" and "\<And>a t. fenced jc p t \<Longrightarrow> fence_spec jc p (f a) t Q"
  shows "fence_spec jc p (bind m f) s Q"
  by (rule spec_bind, rule keeps_spec [OF assms(2,1)]) (use assms(3) in \<open>auto intro: steppedI\<close>)

lemma spec_at_fence:
  assumes "fenced jc p s" and "\<And>v. fence_typed p v \<Longrightarrow> fence_spec jc p (f v) s Q"
  shows "fence_spec jc p (bind (fence_value jc cm) f) s Q"
  by (rule spec_bind, rule spec_fence_value [OF assms(1)]) (use assms in \<open>auto intro: steppedI\<close>)

lemma spec_fenced_raise: "fenced jc p s \<Longrightarrow> fence_spec jc p (raise e) s Q"
  by (auto intro: spec_raise steppedI)

lemma spec_last_move:
  assumes "faithful_codec jc" and "fenced jc p s" and "fence_typed p v" and "moves p q" and "x = phase_name q"
    and "u = (if q = Launched then jset v ''workload_identity'' (json_of_entry i) else v)" and "\<And>t. fenced jc q t \<Longrightarrow> Q () t"
  shows "fence_spec jc p (transition jc u x) s Q"
  unfolding assms(5)
  by (rule spec_mono [OF spec_transition [OF assms(1-4,6)]]) (use assms(4,7) steppedI(3) in auto)

lemma spec_move:
  assumes "faithful_codec jc" and "fenced jc p s" and "fence_typed p v" and "moves p q" and "x = phase_name q"
    and "u = (if q = Launched then jset v ''workload_identity'' (json_of_entry i) else v)"
    and "\<And>t. fenced jc q t \<Longrightarrow> fence_spec jc p n t Q"
  shows "fence_spec jc p (seq (transition jc u x) n) s Q"
  by (rule spec_bind, rule spec_last_move [OF assms(1-6)]) (rule assms(7))

text \<open>The phase a decision was taken on.\<close>

lemma phase_read:
  "fence_typed p v \<Longrightarrow> jindex v ''phase'' = JStr ''unreleased'' \<longleftrightarrow> p = Unreleased"
  "fence_typed p v \<Longrightarrow> jindex v ''phase'' = JStr ''may_launch'' \<longleftrightarrow> p = MayLaunch"
  by (cases p; simp add: fence_typed_def)+

lemma keeps_fence_lock: "keeps (fenced jc p) (named_lock LAUNCH_LOCK)"
  by (intro keeps_rules) simp_all

lemma keeps_set_local: "keeps (fenced jc p) (set_local jc k v)"
  unfolding set_local_def halt_def [abs_def] by (intro keeps_rules keeps_halt) simp_all

lemma keeps_immutable_document [keeps_rules]:
  "ignores I f \<Longrightarrow> \<not> is_tmp f \<Longrightarrow> keeps I (immutable_document jc f v)"
  unfolding immutable_document_def by (intro keeps_rules)

lemma spec_enabled: "fenced jc p s \<Longrightarrow> Q True s \<Longrightarrow> H s \<Longrightarrow> spec v2_enabled s Q E H"
  unfolding v2_enabled_def
  by (intro spec_handle_err spec_lstat spec_ret) (auto simp: fenced_def dest: hardD)

lemma spec_confirm_launch:
  assumes jc: "faithful_codec jc" and s: "fenced jc p s"
  shows "fence_spec jc p (confirm_launch jc sp me reply) s (\<lambda>_ t. p = Unreleased \<and> fenced jc MayLaunch t)"
proof -
  have last: "fence_spec jc p (set_local jc k x) u (\<lambda>_ u. p = Unreleased \<and> fenced jc MayLaunch u)"
    if "fenced jc MayLaunch u" "p = Unreleased" for u k x
    by (rule keeps_spec [OF keeps_set_local that(1)]) (use that(2) steppedI(2) [OF confirmed] in auto)
  have decided: "fence_spec jc p (if b \<or> jindex v ''phase'' \<noteq> JStr ''unreleased'' then raise e
      else seq (immutable_document jc RECEIPT reply) (seq (transition jc v ''may_launch'') (set_local jc k x))) t
      (\<lambda>_ u. p = Unreleased \<and> fenced jc MayLaunch u)"
    if "fenced jc p t" "fence_typed p v" for b v e t k x
    by (rule spec_if, rule spec_fenced_raise [OF that(1)], rule spec_fenced [OF that(1)], intro keeps_rules, simp_all)
      (rule spec_move [OF jc _ that(2), of _ MayLaunch], use phase_read [OF that(2)] last in auto)
  show ?thesis
    unfolding confirm_launch_def
    by (rule spec_fenced [OF s keeps_binding], clarsimp split del: if_split,
        rule spec_fenced [OF _ keeps_lift_result], assumption, rule spec_if, erule spec_fenced_raise,
        rule spec_fenced [OF _ keeps_fence_lock], assumption, rule spec_at_fence, assumption,
        rule spec_fenced [OF _ keeps_lift_result], assumption, rule spec_fenced [OF _ keeps_lift_result], assumption,
        rule decided)
qed

text \<open>The common beginning of the operations that first ask whether the handle is registered.\<close>

lemma spec_registered:
  assumes "fenced jc p s"
    and "\<And>cm v t. fenced jc p t \<Longrightarrow> fence_typed p v \<Longrightarrow> fence_spec jc p (f cm v) t Q"
  shows "fence_spec jc p (bind v2_enabled (\<lambda>v2. if \<not> v2 then ret a
      else seq (named_lock LAUNCH_LOCK) (bind (source_binding jc sp) (\<lambda>(registration, cm). bind (fence_value jc cm) (f cm))))) s Q"
proof -
  have "fence_spec jc p (seq (named_lock LAUNCH_LOCK) (bind (source_binding jc sp)
      (\<lambda>(registration, cm). bind (fence_value jc cm) (f cm)))) s Q"
    by (rule spec_fenced [OF assms(1) keeps_fence_lock], erule spec_fenced [OF _ keeps_binding], clarsimp)
      (rule spec_at_fence, use assms(2) in auto)
  then show ?thesis
    by (intro spec_bind spec_enabled [OF assms(1)]) (use assms(1) steppedI(1) in auto)
qed

lemma spec_abandon:
  assumes jc: "faithful_codec jc" and s: "fenced jc p s"
  shows "fence_spec jc p (abandon jc sp me) s (\<lambda>_. stepped jc p)"
proof -
  have "fence_spec jc p (if b \<and> jindex v ''phase'' = JStr ''unreleased'' then transition jc v ''revoked_never_launched''
      else ret ()) t (\<lambda>_. stepped jc p)"
    if "fenced jc p t" "fence_typed p v" for b v t
    by (rule spec_if, rule spec_last_move [OF jc that, of Revoked])
      (use phase_read [OF that(2)] that(1) steppedI(2) [OF revoked] in \<open>auto intro!: spec_ret intro: steppedI(1)\<close>)
  then show ?thesis
    unfolding abandon_def
    by (intro spec_registered [OF s] spec_fenced [OF _ keeps_lift_result])
qed

lemma spec_launched:
  assumes jc: "faithful_codec jc" and s: "fenced jc p s"
  shows "fence_spec jc p (launched jc sp child) s (\<lambda>_ t. p = MayLaunch \<and> fenced jc Launched t)"
proof -
  have "fence_spec jc p (if jindex v ''phase'' \<noteq> JStr ''may_launch'' then raise e
      else bind (lift_result child) (\<lambda>identity.
        seq (transition jc (jset v ''workload_identity'' (json_of_entry identity)) ''launched'') (ret (Some identity)))) t
      (\<lambda>_ u. p = MayLaunch \<and> fenced jc Launched u)"
    if "fenced jc p t" "fence_typed p v" for v t e
    by (rule spec_if, rule spec_fenced_raise [OF that(1)], rule spec_fenced [OF that(1) keeps_lift_result],
        rule spec_move [OF jc _ that(2), of _ Launched]) (use phase_read [OF that(2)] in \<open>auto intro: spec_ret\<close>)
  then show ?thesis unfolding launched_def by (intro spec_registered [OF s])
qed

lemma keeps_authority [keeps_rules]: "keeps I (reconcile_authority jc sp exe confirmation)"
  unfolding reconcile_authority_def by (intro keeps_rules) simp_all

text \<open>Recovery revokes an unreleased fence, and only when the registration worker is proven gone.\<close>

lemma spec_reconcile_launch:
  assumes jc: "faithful_codec jc" and s: "fenced jc p s"
  shows "fence_spec jc p (reconcile_launch jc sp exe confirmation evidence) s (\<lambda>_. stepped jc p)"
proof -
  have rest: "fence_spec jc p (case r of Some reply \<Rightarrow> ret (Some reply)
      | None \<Rightarrow> seq (immutable_document jc CONFIRMATION cf) (ret None)) t (\<lambda>_. stepped jc p)"
    if "stepped jc p t" for r :: "json option" and cf t
  proof -
    have "keeps (stepped jc p) (case r of Some reply \<Rightarrow> ret (Some reply)
        | None \<Rightarrow> seq (immutable_document jc CONFIRMATION cf) (ret None))"
      by (intro keeps_rules) simp_all
    then show ?thesis using that by (rule keepsD)
  qed
  have decided: "fence_spec jc p (if jindex v ''phase'' = JStr ''unreleased''
      then bind (lift_result w) (\<lambda>worker. if b worker then ret (g worker)
        else seq (transition jc v ''revoked_never_launched'') (ret None)) else ret None) t (\<lambda>_. stepped jc p)"
    if "fenced jc p t" "fence_typed p v"
    for v t w and b :: "caller_entry \<Rightarrow> bool" and g :: "caller_entry \<Rightarrow> json option"
  proof (rule spec_if)
    assume "jindex v ''phase'' = JStr ''unreleased''"
    then have p: "p = Unreleased" using phase_read [OF that(2)] by simp
    show "fence_spec jc p (bind (lift_result w) (\<lambda>worker. if b worker then ret (g worker)
        else seq (transition jc v ''revoked_never_launched'') (ret None))) t (\<lambda>_. stepped jc p)"
      by (rule spec_fenced [OF that(1) keeps_lift_result], rule spec_if, rule spec_ret, erule steppedI(1),
          erule spec_move [OF jc _ that(2), of _ Revoked]) (auto simp: p intro!: spec_ret intro: steppedI(2) [OF revoked])
  qed (auto intro: spec_ret steppedI that)
  have "fence_spec jc p (reconcile_fence jc evidence cm cf) t (\<lambda>_. stepped jc p)" if "fenced jc p t" for cm cf t
    unfolding reconcile_fence_def
    by (rule spec_fenced [OF that keeps_fence_lock], rule spec_at_fence, assumption, rule spec_bind,
        rule spec_mono [OF decided], assumption, assumption) (auto intro: rest)
  then show ?thesis
    unfolding reconcile_launch_def by (intro spec_fenced [OF s keeps_authority]) auto
qed

subsection \<open>Any sequence of operations\<close>

text \<open>
  The launch lock makes the operations of different processes follow one another. Each call may fail
  or end with the death of its process; the answer is whether it told its caller to release the
  workload, that is whether \<^verbatim>\<open>launched\<close> returned \<^verbatim>\<open>Ok\<close>.
\<close>

datatype fence_call =
    ConfirmCall "io_error + caller_entry" json
  | AbandonCall "io_error + caller_entry"
  | LaunchCall "io_error + caller_entry"
  | ReconcileCall "io_error + bytes" "io_error + json" "caller_entry \<Rightarrow> identity_evidence"

definition call_fence :: "json_codec \<Rightarrow> source_paths \<Rightarrow> fence_call \<Rightarrow> bool io" where
  "call_fence jc sp c =
     (case c of
        ConfirmCall me reply \<Rightarrow> seq (confirm_launch jc sp me reply) (ret False)
      | AbandonCall me \<Rightarrow> seq (abandon jc sp me) (ret False)
      | LaunchCall child \<Rightarrow> seq (launched jc sp child) (ret True)
      | ReconcileCall exe confirmation evidence \<Rightarrow> seq (reconcile_launch jc sp exe confirmation evidence) (ret False))"

definition releases :: "bool outcome \<Rightarrow> bool" where
  "releases r \<longleftrightarrow> r = Done True"

fun fence_calls :: "json_codec \<Rightarrow> source_paths \<Rightarrow> fence_call list \<Rightarrow> world \<Rightarrow> nat \<times> world" where
  "fence_calls jc sp [] w = (0, w)"
| "fence_calls jc sp (c # cs) w =
     (case call_fence jc sp c w of (r, w1) \<Rightarrow>
        case fence_calls jc sp cs w1 of (n, w2) \<Rightarrow> ((if releases r then Suc n else n), w2))"

lemma spec_call_fence:
  assumes "faithful_codec jc" and "fenced jc p s"
  shows "fence_spec jc p (call_fence jc sp c) s (\<lambda>r t. stepped jc p t \<and> (r \<longrightarrow> p = MayLaunch \<and> fenced jc Launched t))"
  unfolding call_fence_def
  by (cases c)
    (auto intro!: spec_bind spec_ret intro: steppedI(2) confirmed released
      spec_mono [OF spec_confirm_launch [OF assms]] spec_mono [OF spec_abandon [OF assms]]
      spec_mono [OF spec_launched [OF assms]] spec_mono [OF spec_reconcile_launch [OF assms]])

lemma call_fence_moves:
  assumes "faithful_codec jc" and "fenced jc p (view_of w)"
  shows "\<exists>q. fenced jc q (view_of (snd (call_fence jc sp c w))) \<and> (p = q \<or> moves p q) \<and>
    (releases (fst (call_fence jc sp c w)) \<longrightarrow> p = MayLaunch \<and> q = Launched)"
  using spec_call_fence [OF assms, of sp c]
  unfolding spec_def releases_def stepped_def
  by (cases "call_fence jc sp c w"; cases "fst (call_fence jc sp c w)") (fastforce dest: fenced_unique)+

lemma moves_from_launched: "moves\<^sup>*\<^sup>* p q \<Longrightarrow> p = Launched \<Longrightarrow> q = Launched"
  by (induction rule: rtranclp_induct) auto

lemma fence_calls_moves:
  assumes "faithful_codec jc" and "fenced jc p (view_of w)"
  shows "\<exists>q. fenced jc q (view_of (snd (fence_calls jc sp cs w))) \<and> moves\<^sup>*\<^sup>* p q \<and>
    fst (fence_calls jc sp cs w) \<le> (if q = Launched \<and> p \<noteq> Launched then 1 else 0)"
  using assms(2)
proof (induction cs arbitrary: p w)
  case Nil
  then show ?case by auto
next
  case (Cons c cs)
  obtain r w1 where run: "call_fence jc sp c w = (r, w1)" by force
  from call_fence_moves [OF assms(1) Cons.prems, of sp c] obtain p1 where
    p1: "fenced jc p1 (view_of w1)" "p = p1 \<or> moves p p1" "releases r \<longrightarrow> p = MayLaunch \<and> p1 = Launched"
    by (auto simp: run)
  from Cons.IH [OF p1(1)] obtain q where
    q: "fenced jc q (view_of (snd (fence_calls jc sp cs w1)))" "moves\<^sup>*\<^sup>* p1 q"
      "fst (fence_calls jc sp cs w1) \<le> (if q = Launched \<and> p1 \<noteq> Launched then 1 else 0)" by blast
  have "moves\<^sup>*\<^sup>* p q" using p1(2) q(2) by (auto intro: converse_rtranclp_into_rtranclp)
  with q p1 show ?case
    using moves_from_launched [OF q(2)]
    by (auto simp: run split: prod.splits if_splits intro!: exI [of _ q])
qed

subsection \<open>A prepared source is unreleased\<close>

lemma spec_immutable_holds:
  assumes "\<not> is_tmp f"
  shows "spec (immutable f data) s (\<lambda>_ t. t = put f (Some (Regular (Text data))) s) (\<lambda>_ _. True) (\<lambda>_. True)"
  by (rule spec_immutable [OF assms]) (simp_all add: put_same)

lemma spec_retain_registration:
  assumes "faithful_codec jc"
  shows "spec (retain_registration jc registration worker) s (\<lambda>_. fenced jc Unreleased) (\<lambda>_ _. True) (\<lambda>_. True)"
proof -
  have "fence_typed Unreleased (fence_document cm worker)" for cm
    by (auto simp: fence_document_def fence_typed_def jnat_def)
  note fenced = fenced_written [OF assms this]
  have saved: "spec (save_document jc LOCAL_RECORD v) t (\<lambda>_. fenced jc Unreleased) (\<lambda>_ _. True) (\<lambda>_. True)"
    if "fenced jc Unreleased t" for v t
    by (rule keeps_spec [of "fenced jc Unreleased"]) (use that in \<open>auto intro!: keeps_rules\<close>)
  have fence: "spec (immutable_document jc FENCE (fence_document cm worker)) t (\<lambda>_. fenced jc Unreleased) (\<lambda>_ _. True) (\<lambda>_. True)"
    if "vfiles t REGISTRATION \<noteq> None" for t cm
    unfolding immutable_document_def
    by (intro spec_bind spec_lift_result) (use fenced that in \<open>auto intro!: spec_mono [OF spec_immutable_holds]\<close>)
  show ?thesis
    unfolding retain_registration_def Let_def
    by (rule spec_bind, rule spec_lift_result, rule spec_bind, rule keeps_spec [OF keeps_const [of True]], simp,
        rule spec_bind, rule spec_mono [OF spec_immutable_holds], simp, rule spec_bind, rule spec_mono [OF fence])
      (auto intro: saved)
qed

lemma reaches_then: "(\<And>a t. reaches (f a) t Q) \<Longrightarrow> reaches (bind m f) s Q"
  by (rule spec_bind, rule keeps_spec [OF keeps_const [of True]]) simp_all

lemma spec_prepare: "faithful_codec jc \<Longrightarrow> reaches (prepare jc sp sf m domain scp) s (\<lambda>_. fenced jc Unreleased)"
  unfolding prepare_def by (intro reaches_then spec_if spec_raise spec_retain_registration) simp_all

subsection \<open>One registration releases at most one workload\<close>

definition fence_phase :: "json_codec \<Rightarrow> world \<Rightarrow> json" where
  "fence_phase jc w = (case document_in jc (files w FENCE) of Some v \<Rightarrow> jindex v ''phase'' | None \<Rightarrow> JNull)"

text \<open>
  C8. The launch fence, through any sequence of operations by any processes after the source was
  prepared, each of which may fail at any system call or end with the death of its process there: the
  fence on disk is always in one of the four phases, reached from \<^verbatim>\<open>unreleased\<close> along the edges
  unreleased to may_launch to launched and unreleased to revoked; at most one call of \<^verbatim>\<open>launched\<close> ever tells
  a supervisor to release the workload, and none does unless the fence ends up launched, so a revoked
  source has never been released.
\<close>

theorem workload_released_once:
  assumes "faithful_codec jc" and "prepare jc sp sf m domain scp w = (Done (), w1)"
    and "fence_calls jc sp cs w1 = (n, w2)"
  shows "\<exists>q. fence_phase jc w2 = JStr (phase_name q) \<and> moves\<^sup>*\<^sup>* Unreleased q \<and> n \<le> (if q = Launched then 1 else 0)"
proof -
  from spec_run(1) [OF spec_prepare [OF assms(1)] assms(2)] have "fenced jc Unreleased (view_of w1)" .
  from fence_calls_moves [OF assms(1) this, of sp cs] obtain q where
    q: "fenced jc q (view_of w2)" "moves\<^sup>*\<^sup>* Unreleased q" "n \<le> (if q = Launched then 1 else 0)"
    by (auto simp: assms(3) simp del: phase_name.simps)
  from q(1) have "fence_phase jc w2 = JStr (phase_name q)"
    by (auto simp: fenced_def fence_phase_def fence_typed_def view_files)
  with q(2,3) show ?thesis by blast
qed

text \<open>
  C12. The launch fence, likewise through any sequence of operations that may fail or die anywhere: the
  document on disk always decodes to a well-typed fence of its phase. Its revision is the number of
  transitions made, so the checked increment never overflows; its registration worker is a process
  identity; and its workload identity is null until the launch and an identity after it.
\<close>

theorem fence_document_typed:
  assumes "faithful_codec jc" and "prepare jc sp sf m domain scp w = (Done (), w1)"
    and "fence_calls jc sp cs w1 = (n, w2)"
  shows "\<exists>q v. document_in jc (files w2 FENCE) = Some v \<and> fence_typed q v"
proof -
  from spec_run(1) [OF spec_prepare [OF assms(1)] assms(2)] have "fenced jc Unreleased (view_of w1)" .
  from fence_calls_moves [OF assms(1) this, of sp cs] show ?thesis
    by (force simp: assms(3) fenced_def view_files)
qed

text \<open>A codec that knows the documents of one run: the \<open>i\<close>-th is written as \<open>i\<close> characters.\<close>

fun table_index :: "json list \<Rightarrow> json \<Rightarrow> nat option" where
  "table_index [] v = None"
| "table_index (x # xs) v = (if x = v then Some 0 else map_option Suc (table_index xs v))"

definition table_codec :: "json list \<Rightarrow> json_codec" where
  "table_codec docs =
     \<lparr>json_to_vec = (\<lambda>v. case table_index docs v of None \<Rightarrow> Inl (io_other ''unknown'') | Some i \<Rightarrow> Inr (replicate i CHR ''x'')),
      json_from_slice = (\<lambda>d. if 0 < length d \<and> length d \<le> length docs then Inr (docs ! (length d - 1)) else Inl (io_other ''unknown'')),
      sha_hex = (\<lambda>d. ''h'')\<rparr>"

lemma table_index_nth: "table_index xs v = Some i \<Longrightarrow> i < length xs \<and> xs ! i = v"
  by (induction xs v arbitrary: i rule: table_index.induct) (auto split: if_splits)

lemma table_codec_faithful: "faithful_codec (table_codec docs)"
  by (auto simp: faithful_codec_def table_codec_def dest!: table_index_nth split: option.splits)

definition worker0 :: caller_entry where
  "worker0 = \<lparr>ce_pid = 41, starttime_ticks = 5, ce_boot_id = ''b''\<rparr>"

definition child0 :: caller_entry where
  "child0 = \<lparr>ce_pid = 42, starttime_ticks = 6, ce_boot_id = ''b''\<rparr>"

definition helper0 :: helper_provenance where
  "helper0 = \<lparr>prov_schema_version = 5, prov_path = ''/h'', device = 1, inode = 2, size_bytes = 3, modified_seconds = 0,
     modified_nanoseconds = 0, file_mode = 0, sha256 = ''s'', environment = [],
     environment_sha256 = Some (replicate 64 CHR ''a''), interpreter = None\<rparr>"

definition meta0 :: meta where
  "meta0 = bare_meta\<lparr>owner_session_id := Some ''s1'', owner_invocation_uuid := Some ''i1'', delivery_helper := Some helper0\<rparr>"

definition paths0 :: source_paths where
  "paths0 = \<lparr>sp_root = ''/r'', sp_handle = ''ab_1'', sp_state_dir = ''/r/ab_1''\<rparr>"

definition facts0 :: source_facts where
  "facts0 = \<lparr>canonical_dir = Inr ''/r/ab_1'', own_image = Inr ''elf'', new_uuids = (Inr ''u1'', Inr ''u2''), own_identity = Inr worker0\<rparr>"

definition registration0 :: json where
  "registration0 = registration_document paths0 meta0 helper0 ''exit'' ''s1'' ''i1'' ''dom'' ''tree'' ''u1'' ''u2'' ''h'' worker0"

definition fence0 :: json where
  "fence0 = fence_document (common registration0 ''h'') worker0"

definition fence1 :: json where
  "fence1 = jset (jset fence0 ''revision'' (JNum 1)) ''phase'' (JStr ''may_launch'')"

definition fence2 :: json where
  "fence2 = jset (jset (jset fence1 ''workload_identity'' (json_of_entry child0)) ''revision'' (JNum 2)) ''phase'' (JStr ''launched'')"

definition local0 :: json where
  "local0 = jset (jset (common registration0 ''h'') ''registration'' (JStr ''intent'')) ''enqueue'' (JStr ''waiting_evidence'')"

definition receipt0 :: json where
  "receipt0 = jset (jset (jset (jset (jset (common registration0 ''h'') ''status'' (JStr ''registered''))
     ''registration_committed'' (JBool True)) ''continuation_owner_domain'' (JStr ''dom''))
     ''listener_revision'' (JNum 1)) ''listeners'' (jindex registration0 ''listeners'')"

definition codec0 :: json_codec where
  "codec0 = table_codec [registration0, fence0, local0, receipt0, fence1, jset local0 ''registration'' (JStr ''confirmed''), fence2]"

definition calls0 :: "fence_call list" where
  "calls0 = [LaunchCall (Inr child0), ConfirmCall (Inr worker0) receipt0, LaunchCall (Inr child0), LaunchCall (Inr child0)]"

abbreviation cm0 :: json where "cm0 \<equiv> common registration0 ''h''"
abbreviation local1 :: json where "local1 \<equiv> jset local0 ''registration'' (JStr ''confirmed'')"

lemma encoded0:
  "json_bytes codec0 registration0 = Inr [newline_char]"
  "json_bytes codec0 fence0 = Inr (''x'' @ [newline_char])"
  "json_bytes codec0 local0 = Inr (''xx'' @ [newline_char])"
  "json_bytes codec0 receipt0 = Inr (''xxx'' @ [newline_char])"
  "json_bytes codec0 fence1 = Inr (''xxxx'' @ [newline_char])"
  "json_bytes codec0 local1 = Inr (''xxxxx'' @ [newline_char])"
  "json_bytes codec0 fence2 = Inr (''xxxxxx'' @ [newline_char])"
  by code_simp+

lemma decoded0:
  "json_from_slice codec0 [newline_char] = Inr registration0"
  "json_from_slice codec0 [CHR ''x'', newline_char] = Inr fence0"
  "json_from_slice codec0 [CHR ''x'', CHR ''x'', newline_char] = Inr local0"
  "json_from_slice codec0 [CHR ''x'', CHR ''x'', CHR ''x'', CHR ''x'', newline_char] = Inr fence1"
  "json_from_slice codec0 [CHR ''x'', CHR ''x'', CHR ''x'', CHR ''x'', CHR ''x'', CHR ''x'', newline_char] = Inr fence2" "sha_hex codec0 d = ''h''"
  by (simp_all add: codec0_def table_codec_def)

lemma fields0:
  "jindex registration0 ''protocol'' = JStr CONTINUATION_PROTOCOL" "jindex registration0 ''domain_id'' = JStr ''dom''"
  "jindex registration0 ''source_id'' = JStr ''u1''" "jindex registration0 ''handle'' = JStr ''ab_1''"
  "jindex registration0 ''registration_id'' = JStr ''u2''" "jindex registration0 ''handle_dir'' = JStr ''/r/ab_1''"
  "jindex registration0 ''spool_root'' = JStr ''/r''" "jindex registration0 ''listener_revision'' = JNum 1"
  "jindex registration0 ''source_evidence_protocol'' = JStr CONTINUATION_PROTOCOL"
  "list_all (\<lambda>(k, v). jindex registration0 k = JStr v) relative_names"
  by (simp_all add: registration0_def registration_document_def paths0_def relative_names_def)

lemma cm0_fields:
  "cm0 = JObj [(''registration_digest'', JStr ''h''), (''protocol'', JStr CONTINUATION_PROTOCOL), (''domain_id'', JStr ''dom''),
     (''source_id'', JStr ''u1''), (''handle'', JStr ''ab_1''), (''registration_id'', JStr ''u2'')]"
  by (simp add: common_def fields0)

lemma jget_jindex: "is_object v \<Longrightarrow> x \<noteq> JNull \<Longrightarrow> jget v k = Some x \<longleftrightarrow> jindex v k = x"
  by (cases v) (auto simp: is_object_def split: option.splits)

lemma exact0:
  assumes "is_object v" and "\<forall>k \<in> {''registration_digest'', ''protocol'', ''domain_id'', ''source_id'', ''handle'', ''registration_id''}.
    jindex v k = jindex cm0 k"
  shows "exact cm0 v = Inr ()"
  using assms by (simp add: exact_def cm0_fields jget_jindex)

lemma checked0:
  "binding_conflict paths0 registration0 = None" "exact cm0 cm0 = Inr ()" "exact cm0 fence0 = Inr ()" "exact cm0 fence1 = Inr ()"
  "exact cm0 fence2 = Inr ()" "exact cm0 receipt0 = Inr ()" "committed_receipt registration0 cm0 receipt0"
  "jindex fence0 ''phase'' = JStr ''unreleased''" "jindex fence1 ''phase'' = JStr ''may_launch''"
  "jindex fence2 ''phase'' = JStr ''launched''"
  "entry_of_json (jindex fence0 ''registration_worker'') = Inr worker0"
  "entry_of_json (jindex fence1 ''registration_worker'') = Inr worker0"
  "as_u64 (jindex fence0 ''revision'') = Some 0"
  "as_u64 (jindex fence1 ''revision'') = Some 1" "is_object fence0" "is_object fence1" "is_object local0"
proof -
  have none: "find (\<lambda>(k, v). jindex registration0 k \<noteq> JStr v) relative_names = None"
    using fields0(10) by (auto simp: find_None_iff list_all_iff)
  show "binding_conflict paths0 registration0 = None"
    unfolding binding_conflict_def none by (simp add: fields0 paths0_def)
  have obj: "is_object cm0" by (simp add: cm0_fields is_object_def)
  show "exact cm0 cm0 = Inr ()" by (rule exact0 [OF obj]) simp
  show "exact cm0 fence0 = Inr ()" by (rule exact0) (simp_all add: fence0_def fence_document_def obj)
  show "exact cm0 fence1 = Inr ()" by (rule exact0) (simp_all add: fence1_def fence0_def fence_document_def obj)
  show "exact cm0 fence2 = Inr ()" by (rule exact0) (simp_all add: fence2_def fence1_def fence0_def fence_document_def obj)
  show "exact cm0 receipt0 = Inr ()" by (rule exact0) (simp_all add: receipt0_def obj)
  show "committed_receipt registration0 cm0 receipt0"
    by (simp add: committed_receipt_def receipt0_def fields0 cm0_fields)
qed (simp_all add: fence0_def fence1_def fence2_def fence_document_def local0_def entry_of_json_def json_of_entry_def worker0_def
    child0_def as_u64_def jnat_def)

lemmas folded0 =
  registration0_def [symmetric] fence0_def [symmetric] fence1_def [symmetric] fence2_def [symmetric] local0_def [symmetric]

lemmas fence_run_simps =
  run_simps sys_lstat_def sys_open_create_def sys_open_read_def sys_unlink_def sys_link_def attempt_def lock_file_exclusive_def
  flock_wait.simps text_of_def bounded_read_def try_exists_def lift_result_def require_def named_lock_def link_new_def
  immutable_def immutable_document_def save_document_def source_value_def MAX_SOURCE_def v2_enabled_def
  err_not_found_def err_exists_def Let_def

definition prepared0 :: world where
  "prepared0 = snd (prepare codec0 paths0 facts0 meta0 ''dom'' ''tree'' quiet_world)"

lemma copied0:
  "copy_recovery_image codec0 (Inr ''elf'') quiet_world =
     (Done ''h'', quiet_world\<lparr>tick := 5, files := [RECOVERY_IMAGE \<mapsto> Regular (Text ''elf'')]\<rparr>)"
  by (simp add: copy_recovery_image_def fence_run_simps decoded0 source_file_defs hard_def)

lemma facts0_run:
  "prepare codec0 paths0 facts0 meta0 ''dom'' ''tree'' =
     bind (copy_recovery_image codec0 (Inr ''elf'')) (\<lambda>recovery_hash. retain_registration codec0
       (registration_document paths0 meta0 helper0 ''exit'' ''s1'' ''i1'' ''dom'' ''tree'' ''u1'' ''u2'' recovery_hash worker0) worker0)"
  by (rule ext) (simp add: prepare_def facts0_def paths0_def meta0_def bare_meta_def meta_new_def completion_kind_def helper0_def
      valid_digest_def lower_hex_def list_all_iff require_def lift_result_def bind_def ret_def)

lemma prepare0:
  "\<exists>w. prepare codec0 paths0 facts0 meta0 ''dom'' ''tree'' quiet_world = (Done (), w) \<and> env w = quiet_env \<and> dir_exists w \<and>
     files w REGISTRATION = Some (Regular (Text [newline_char])) \<and> files w FENCE = Some (Regular (Text (''x'' @ [newline_char]))) \<and>
     files w LOCAL_RECORD = Some (Regular (Text (''xx'' @ [newline_char]))) \<and>
     files w LAUNCH_LOCK = Some (Regular (Text [])) \<and> files w CONTINUATION_LOCK = None \<and> files w RECEIPT = None \<and>
     (\<forall>f p n. files w (Tmp f p n) = None)"
  unfolding facts0_run retain_registration_def bind_def copied0
  by (simp add: folded0 encoded0 decoded0 fence_run_simps source_file_defs hard_def)

definition stage0 :: "bytes \<Rightarrow> bytes \<Rightarrow> world \<Rightarrow> bool" where
  "stage0 fence_bytes local_bytes w \<longleftrightarrow>
     env w = quiet_env \<and> dir_exists w \<and> files w LAUNCH_LOCK = Some (Regular (Text [])) \<and>
     files w REGISTRATION = Some (Regular (Text [newline_char])) \<and>
     files w FENCE = Some (Regular (Text (fence_bytes @ [newline_char]))) \<and>
     files w LOCAL_RECORD = Some (Regular (Text (local_bytes @ [newline_char])))"

lemmas call_run_simps =
  stage0_def source_binding_def fence_value_def transition_def set_local_def encoded0 decoded0 checked0 fence_run_simps
  fence1_def [symmetric] fence2_def [symmetric] jnat_def

lemma launch_refused0:
  assumes "stage0 ''x'' ''xx'' w"
  shows "\<exists>w' e. call_fence codec0 paths0 (LaunchCall (Inr child0)) w = (Raise e, w') \<and> stage0 ''x'' ''xx'' w' \<and> files w' = files w"
  using assms by (simp add: call_fence_def launched_def call_run_simps)

lemma confirmed0:
  assumes "stage0 ''x'' ''xx'' w" "files w RECEIPT = None" "files w CONTINUATION_LOCK = None"
    "\<forall>f p n. files w (Tmp f p n) = None"
  shows "\<exists>w'. call_fence codec0 paths0 (ConfirmCall (Inr worker0) receipt0) w = (Done False, w') \<and> stage0 ''xxxx'' ''xxxxx'' w' \<and>
    (\<forall>f p n. files w' (Tmp f p n) = None)"
  using assms by (simp add: call_fence_def confirm_launch_def call_run_simps source_file_defs)

lemma launch_granted0:
  assumes "stage0 ''xxxx'' l w" "\<forall>f p n. files w (Tmp f p n) = None"
  shows "\<exists>w'. call_fence codec0 paths0 (LaunchCall (Inr child0)) w = (Done True, w') \<and> stage0 ''xxxxxx'' l w'"
  using assms by (simp add: call_fence_def launched_def call_run_simps source_file_defs)

lemma launch_spent0:
  assumes "stage0 ''xxxxxx'' l w"
  shows "\<exists>w' e. call_fence codec0 paths0 (LaunchCall (Inr child0)) w = (Raise e, w') \<and> stage0 ''xxxxxx'' l w'"
  using assms by (simp add: call_fence_def launched_def call_run_simps)

text \<open>
  Prepared, refused before the receipt, confirmed, released once, refused after that.
\<close>

theorem workload_released_once_witness:
  "\<exists>w1 w2. prepare codec0 paths0 facts0 meta0 ''dom'' ''tree'' quiet_world = (Done (), w1) \<and>
     fence_calls codec0 paths0 calls0 w1 = (1, w2) \<and> fence_phase codec0 w2 = JStr ''launched''"
proof -
  obtain w1 where w1: "prepare codec0 paths0 facts0 meta0 ''dom'' ''tree'' quiet_world = (Done (), w1)"
    and s1: "stage0 ''x'' ''xx'' w1" "files w1 RECEIPT = None" "files w1 CONTINUATION_LOCK = None" "\<forall>f p n. files w1 (Tmp f p n) = None"
    using prepare0 by (auto simp: stage0_def)
  obtain e2 w2 where w2: "call_fence codec0 paths0 (LaunchCall (Inr child0)) w1 = (Raise e2, w2)" "stage0 ''x'' ''xx'' w2"
    "files w2 = files w1" using launch_refused0 [OF s1(1)] by blast
  obtain w3 where w3: "call_fence codec0 paths0 (ConfirmCall (Inr worker0) receipt0) w2 = (Done False, w3)"
    "stage0 ''xxxx'' ''xxxxx'' w3" "\<forall>f p n. files w3 (Tmp f p n) = None"
    using confirmed0 [OF w2(2)] s1 w2(3) by auto
  obtain w4 where w4: "call_fence codec0 paths0 (LaunchCall (Inr child0)) w3 = (Done True, w4)" "stage0 ''xxxxxx'' ''xxxxx'' w4"
    using launch_granted0 [OF w3(2,3)] by blast
  obtain e5 w5 where w5: "call_fence codec0 paths0 (LaunchCall (Inr child0)) w4 = (Raise e5, w5)"
    using launch_spent0 [OF w4(2)] by blast
  have run: "fence_calls codec0 paths0 calls0 w1 = (1, w5)"
    by (simp add: calls0_def w2(1) w3(1) w4(1) w5 releases_def)
  have "faithful_codec codec0" unfolding codec0_def by (rule table_codec_faithful)
  from workload_released_once [OF this w1 run]
  obtain q where "fence_phase codec0 w5 = JStr (phase_name q)" "1 \<le> (if q = Launched then 1 else 0 :: nat)" by blast
  then have "fence_phase codec0 w5 = JStr ''launched''" by (cases "q = Launched") auto
  with w1 run show ?thesis by blast
qed

theorem fence_document_typed_witness:
  "\<exists>w1 q v. prepare codec0 paths0 facts0 meta0 ''dom'' ''tree'' quiet_world = (Done (), w1) \<and>
     document_in codec0 (files (snd (fence_calls codec0 paths0 [AbandonCall (Inr worker0)] w1)) FENCE) = Some v \<and> fence_typed q v"
proof -
  obtain w1 where w1: "prepare codec0 paths0 facts0 meta0 ''dom'' ''tree'' quiet_world = (Done (), w1)"
    using prepare0 by blast
  have "faithful_codec codec0" unfolding codec0_def by (rule table_codec_faithful)
  from fence_document_typed [OF this w1, of "[AbandonCall (Inr worker0)]"] w1 show ?thesis
    by (metis prod.collapse)
qed

end
