(* ===== verification/Source_Evidence.thy ===== *)
theory Source_Evidence
  imports Launch_Fence
begin

section \<open>The evidence a source leaves\<close>

text \<open>
  Registration, receipts, the selected event, the bundle and its two projections are written once:
  no operation, whatever fails in it, replaces one that exists. And the snapshot a runner reads binds
  the outcome beside it by digest and length.
\<close>

subsection \<open>Every operation retains what is there\<close>

definition EVIDENCE :: "fname list" where
  "EVIDENCE = [REGISTRATION, RECEIPT, CONFIRMATION, SELECTION, OBSERVATION, CANCELLATION_RECEIPT, SOURCE_BUNDLE,
     SOURCE_OUTCOME, SNAPSHOT]"

datatype source_op =
    OpPrepare source_facts meta string string
  | OpFence fence_call
  | OpAccept json
  | OpRetain storage_facts "io_error + caller_entry" meta observation
  | OpRestore
  | OpFinish json
  | OpFinishSnapshot

definition source_op :: "json_codec \<Rightarrow> source_paths \<Rightarrow> source_op \<Rightarrow> unit io" where
  "source_op jc sp x =
     (case x of
        OpPrepare sf m domain scp \<Rightarrow> prepare jc sp sf m domain scp
      | OpFence c \<Rightarrow> seq (call_fence jc sp c) (ret ())
      | OpAccept reply \<Rightarrow> accept jc sp reply
      | OpRetain st me m ob \<Rightarrow> retain_event jc sp st me m ob
      | OpRestore \<Rightarrow> restore_selected_event jc sp
      | OpFinish descriptor \<Rightarrow> finish_observation_with_output jc sp descriptor
      | OpFinishSnapshot \<Rightarrow> finish_snapshot jc sp)"

fun source_ops :: "json_codec \<Rightarrow> source_paths \<Rightarrow> source_op list \<Rightarrow> world \<Rightarrow> world" where
  "source_ops jc sp [] w = w"
| "source_ops jc sp (x # xs) w = source_ops jc sp xs (snd (source_op jc sp x w))"

locale retained_file =
  fixes f :: fname and n :: node
  assumes recorded: "f \<in> set EVIDENCE"
begin

abbreviation I :: "view \<Rightarrow> bool" where
  "I s \<equiv> vfiles s f = Some n"

lemma elsewhere:
  "ignores I FENCE" "ignores I LOCAL_RECORD" "ignores I LAUNCH_LOCK" "ignores I CONTINUATION_LOCK" "ignores I RECOVERY_IMAGE"
  "ignores I SELECTED_LOG" "ignores I (F x)"
  using recorded by (auto simp: EVIDENCE_def ignores_def source_file_defs)

lemma keeps_once: "\<not> is_tmp g \<Longrightarrow> keeps I (immutable g data)" "\<not> is_tmp g \<Longrightarrow> keeps I (immutable_document jc g v)"
  unfolding immutable_document_def by (intro keeps_bind keeps_lift_result keeps_evidence; assumption)+

lemma keeps_documents:
  "keeps I (named_lock LAUNCH_LOCK)" "keeps I (named_lock CONTINUATION_LOCK)" "keeps I (save_document jc FENCE v)"
  "keeps I (save_document jc LOCAL_RECORD v)" "keeps I (transition jc v p)" "keeps I (fence_value jc cm)"
  "keeps I (set_local jc k x)"
  unfolding transition_def fence_value_def set_local_def halt_def [abs_def]
  by (intro keeps_rules keeps_halt elsewhere; simp)+

lemmas retains =
  keeps_bind keeps_if keeps_raise keeps_ret keeps_lift_result keeps_require keeps_option keeps_prod keeps_catch keeps_create_new
  keeps_write keeps_sync keeps_open_dir keeps_lstat keeps_bounded_read keeps_source_value keeps_binding keeps_v2 keeps_try_exists
  keeps_durable_marker_exists keeps_authority keeps_documents keeps_once elsewhere

lemma keeps_prepare: "keeps I (prepare jc sp sf m domain scp)"
  unfolding prepare_def retain_registration_def copy_recovery_image_def Let_def by (intro retains) simp_all

lemma keeps_call_fence: "keeps I (call_fence jc sp c)"
  unfolding call_fence_def confirm_launch_def abandon_def launched_def reconcile_launch_def reconcile_fence_def
  by (cases c; simp only: fence_call.case; intro retains; simp)

lemma keeps_accept: "keeps I (accept jc sp reply)"
  unfolding accept_def halt_def [abs_def] by (intro retains keeps_halt) simp_all

lemma keeps_link_log: "keeps I (sys_link (F Log) SELECTED_LOG)"
  unfolding sys_link_def
  by (intro keepsI spec_sys spec_bind spec_lookup spec_option spec_raise)
    (auto intro!: spec_bind spec_lookup spec_raise spec_set_file ignoresD [OF elsewhere(6)])

lemma keeps_pin: "keeps I (pin_output st)"
  unfolding pin_output_def
  by (intro keeps_bind keeps_link_log keeps_lstat) (auto split: node.split intro!: retains)

lemma keeps_cancellation: "keeps I (cancellation_identity jc sp m)"
  unfolding cancellation_identity_def cancellation_basis_def paired_basis_def Let_def by (intro retains) simp_all

lemma keeps_select_output: "keeps I (select_event_output jc st x b)"
  unfolding select_event_output_def Let_def by (intro retains keeps_pin) simp_all

lemma keeps_select: "keeps I (select_observed_event jc sp st me m ob)"
  unfolding select_observed_event_def by (intro retains keeps_cancellation keeps_select_output) simp_all

lemma keeps_restore: "keeps I (restore_selected_event jc sp)"
  unfolding restore_selected_event_def by (intro retains) simp_all

lemma keeps_finish_snapshot: "keeps I (finish_snapshot jc sp)"
  unfolding finish_snapshot_def by (intro retains) simp_all

lemma keeps_finish: "keeps I (finish_observation_with_output jc sp d)"
  unfolding finish_observation_with_output_def Let_def by (intro retains keeps_finish_snapshot) simp_all

lemma keeps_source_op: "keeps I (source_op jc sp x)"
  unfolding source_op_def retain_event_def
  by (cases x; simp only: source_op.case;
      intro retains keeps_prepare keeps_call_fence keeps_accept keeps_select keeps_restore keeps_finish keeps_finish_snapshot; simp)

lemma source_ops_retain: "files w f = Some n \<Longrightarrow> files (source_ops jc sp xs w) f = Some n"
proof (induction xs arbitrary: w)
  case (Cons x xs)
  have f: "\<not> is_tmp f" using recorded by (auto simp: EVIDENCE_def source_file_defs)
  with keeps_run [OF keeps_source_op, of w jc sp x] Cons.prems have "files (snd (source_op jc sp x w)) f = Some n"
    by (simp add: view_files)
  then show ?case by (simp add: Cons.IH)
qed simp

end

interpretation registration_kept: retained_file REGISTRATION n for n
  by unfold_locales (simp add: EVIDENCE_def)

interpretation bundle_kept: retained_file SOURCE_BUNDLE n for n
  by unfold_locales (simp add: EVIDENCE_def)

lemma evidence_retained:
  assumes "f \<in> set EVIDENCE" and "files w f = Some n"
  shows "files (source_ops jc sp xs w) f = Some n"
proof -
  have "retained_file f" by unfold_locales (rule assms(1))
  then show ?thesis using assms(2) by (rule retained_file.source_ops_retain)
qed

text \<open>
  C10. Evidence is written once: whatever sequence of preparation, fence, acceptance, event-retention
  and publication operations runs on a source, each free to fail at any system call or to die there,
  a registration, receipt, confirmation, selection, observation, cancellation receipt, bundle, outcome
  or snapshot that exists keeps its exact content.
\<close>

theorem evidence_written_once:
  assumes "f \<in> set EVIDENCE" and "files w f = Some n"
  shows "files (source_ops jc sp xs w) f = Some n"
  using assms by (rule evidence_retained)

theorem evidence_written_once_witness:
  "files (source_ops codec0 paths0 [OpPrepare facts0 meta0 ''dom'' ''tree'', OpRestore, OpFinish (JStr ''d'')]
     (quiet_world\<lparr>files := [REGISTRATION \<mapsto> Regular (Text ''other'')]\<rparr>)) REGISTRATION = Some (Regular (Text ''other''))"
  by (rule evidence_written_once) (simp_all add: EVIDENCE_def)

subsection \<open>The snapshot binds the outcome\<close>

lemma reaches_result: "(\<And>a. r = Inr a \<Longrightarrow> reaches (f a) s Q) \<Longrightarrow> reaches (bind (lift_result r) f) s Q"
  by (intro spec_bind spec_lift_result) simp_all

lemma reaches_require: "(\<And>a. x = Some a \<Longrightarrow> reaches (f a) s Q) \<Longrightarrow> reaches (bind (require d x) f) s Q"
  by (intro spec_bind spec_require) simp_all

lemma reaches_read:
  "\<not> is_tmp g \<Longrightarrow> (\<And>t. vfiles s g = Some (Regular (Text t)) \<Longrightarrow> reaches (f t) s Q) \<Longrightarrow> reaches (bind (bounded_read g n) f) s Q"
  by (intro spec_bind spec_bounded_read) simp_all

lemma reaches_bound: "(\<And>a. reaches (f a) s Q) \<Longrightarrow> reaches (bind (source_binding jc sp) f) s Q"
  by (rule spec_bind, rule keeps_spec [OF keeps_binding [of "\<lambda>t. t = s"]]) auto

lemma reaches_once:
  "\<not> is_tmp g \<Longrightarrow> reaches n (put g (Some (Regular (Text data))) s) Q \<Longrightarrow> reaches (seq (immutable g data) n) s Q"
  by (rule spec_bind, rule spec_mono [OF spec_immutable_holds]) simp_all

lemma as_str_iff: "as_str v = Some x \<longleftrightarrow> v = JStr x"
  by (cases v) auto

lemma publication_files [simp]: "SOURCE_OUTCOME \<noteq> SNAPSHOT" "SNAPSHOT \<noteq> SOURCE_OUTCOME"
  by (simp_all add: source_file_defs)

definition bound_pair :: "json_codec \<Rightarrow> bytes \<Rightarrow> bytes \<Rightarrow> bool" where
  "bound_pair jc outcome snapshot \<longleftrightarrow>
     (\<exists>v. json_from_slice jc snapshot = Inr v \<and> jindex v ''outcome_sha256'' = JStr (sha_hex jc outcome) \<and>
        jindex v ''outcome_byte_len'' = jnat (length outcome))"

definition published_pair :: "bytes \<Rightarrow> bytes \<Rightarrow> view \<Rightarrow> bool" where
  "published_pair outcome snapshot s \<longleftrightarrow>
     vfiles s SOURCE_OUTCOME = Some (Regular (Text outcome)) \<and> vfiles s SNAPSHOT = Some (Regular (Text snapshot))"

lemma reaches_finish_snapshot:
  assumes "vfiles s SOURCE_BUNDLE = Some (Regular (Text d))" and "json_from_slice jc d = Inr b"
    and "jindex b ''outcome_bytes_utf8'' = JStr outcome" and "jindex b ''snapshot_bytes_utf8'' = JStr snapshot"
  shows "reaches (finish_snapshot jc sp) s (\<lambda>_ t. published_pair outcome snapshot t \<and> bound_pair jc outcome snapshot)"
  unfolding finish_snapshot_def
  by (rule reaches_read, simp, rule reaches_result, rule reaches_require, rule reaches_require, rule reaches_result,
      rule reaches_result, rule reaches_bound, clarsimp split del: if_split, rule reaches_result, rule reaches_result,
      rule spec_if, rule spec_raise, simp, rule reaches_once, simp, rule spec_mono [OF spec_immutable_holds])
    (use assms in \<open>auto simp: as_str_iff published_pair_def bound_pair_def\<close>)

lemma json_bytes_back:
  assumes "faithful_codec jc" and "json_bytes jc v = Inr d"
  obtains u where "json_from_slice jc d = Inr u" "\<And>k. jindex u k = jindex v k"
  using assms unfolding json_bytes_def faithful_codec_def by (auto split: sum.splits) blast

lemma reaches_finish_observation:
  assumes jc: "faithful_codec jc"
  shows "reaches (finish_observation_with_output jc sp descriptor) s
    (\<lambda>_ t. \<exists>outcome snapshot v. published_pair outcome snapshot t \<and> bound_pair jc outcome snapshot \<and>
       json_from_slice jc snapshot = Inr v \<and> jindex v ''output'' = descriptor)"
proof -
  have last: "reaches (seq (immutable_document jc SOURCE_BUNDLE
      (JObj [(''outcome_bytes_utf8'', JStr ob), (''snapshot_bytes_utf8'', JStr sb)])) (finish_snapshot jc sp)) t
      (\<lambda>_ t. \<exists>outcome snapshot v. published_pair outcome snapshot t \<and> bound_pair jc outcome snapshot \<and>
       json_from_slice jc snapshot = Inr v \<and> jindex v ''output'' = descriptor)" (is "reaches (seq (immutable_document jc _ ?b) _) t ?Q")
    if fin: "json_bytes jc final = Inr sb" and out: "jindex final ''output'' = descriptor" for ob sb final t
  proof -
    obtain v where v: "json_from_slice jc sb = Inr v" "jindex v ''output'' = descriptor"
      using json_bytes_back [OF jc fin] out by metis
    have pair: "reaches (finish_snapshot jc sp) (put SOURCE_BUNDLE (Some (Regular (Text d))) t) ?Q"
      if bundled: "json_bytes jc ?b = Inr d" for d
    proof -
      obtain u where u: "json_from_slice jc d = Inr u" "\<And>k. jindex u k = jindex ?b k" using json_bytes_back [OF jc bundled] by metis
      show ?thesis
        by (rule spec_mono [OF reaches_finish_snapshot [OF _ u(1), of _ ob sb]]) (use u(2) v in auto)
    qed
    have "reaches (immutable_document jc SOURCE_BUNDLE ?b) t (\<lambda>_ t'. reaches (finish_snapshot jc sp) t' ?Q)"
      unfolding immutable_document_def
      by (rule reaches_result, rule spec_mono [OF spec_immutable_holds]) (use pair in auto)
    then show ?thesis by (rule spec_bind)
  qed
  show ?thesis
    unfolding finish_observation_with_output_def Let_def
    apply (rule reaches_then, rule reaches_bound, simp only: split_beta)
    apply (rule reaches_result, rule reaches_result, rule reaches_result, rule reaches_result)
    apply (rule spec_if, rule spec_raise, simp)
        apply (erule last) 
       apply simp_all
    done
qed

text \<open>
  C11. When the publication of a source succeeds, from whatever state, the outcome and the snapshot on
  disk belong together: the snapshot decodes to a document that names the SHA-256 and the length of
  exactly the outcome file beside it, and it describes exactly the output artifact it was given.
\<close>

theorem snapshot_binds_outcome:
  assumes "faithful_codec jc" and "finish_observation_with_output jc sp descriptor w = (Done (), w')"
  shows "\<exists>outcome snapshot v. files w' SOURCE_OUTCOME = Some (Regular (Text outcome)) \<and>
    files w' SNAPSHOT = Some (Regular (Text snapshot)) \<and> json_from_slice jc snapshot = Inr v \<and>
    jindex v ''outcome_sha256'' = JStr (sha_hex jc outcome) \<and> jindex v ''outcome_byte_len'' = jnat (length outcome) \<and>
    jindex v ''output'' = descriptor"
  using spec_run(1) [OF reaches_finish_observation [OF assms(1)] assms(2)]
  by (auto simp: published_pair_def bound_pair_def view_files)

definition outcome1 :: json where "outcome1 = jset cm0 ''kind'' (JStr ''exit_tree'')"
definition snapshot1 :: json where "snapshot1 = jset cm0 ''status'' (JStr ''completed'')"
definition staged1 :: json where "staged1 = JObj [(''outcome'', outcome1), (''snapshot'', snapshot1)]"
definition descriptor1 :: json where "descriptor1 = JObj [(''sha256'', JStr ''h'')]"

definition final1 :: json where
  "final1 = jset (jset (jset snapshot1 ''output'' descriptor1) ''outcome_sha256'' (JStr ''h'')) ''outcome_byte_len'' (JNum 3)"

definition bundle1 :: json where
  "bundle1 = JObj [(''outcome_bytes_utf8'', JStr [CHR ''x'', CHR ''x'', newline_char]),
     (''snapshot_bytes_utf8'', JStr [CHR ''x'', CHR ''x'', CHR ''x'', newline_char])]"

definition codec1 :: json_codec where
  "codec1 = table_codec [registration0, staged1, outcome1, final1, bundle1]"

definition observed1 :: world where
  "observed1 = quiet_world\<lparr>files := [REGISTRATION \<mapsto> Regular (Text [newline_char]), OBSERVATION \<mapsto> Regular (Text [CHR ''x'', newline_char])]\<rparr>"

lemma encoded1:
  "json_bytes codec1 outcome1 = Inr [CHR ''x'', CHR ''x'', newline_char]"
  "json_bytes codec1 final1 = Inr [CHR ''x'', CHR ''x'', CHR ''x'', newline_char]"
  "json_bytes codec1 bundle1 = Inr [CHR ''x'', CHR ''x'', CHR ''x'', CHR ''x'', newline_char]"
  by code_simp+

lemma decoded1:
  "json_from_slice codec1 [newline_char] = Inr registration0"
  "json_from_slice codec1 [CHR ''x'', newline_char] = Inr staged1"
  "json_from_slice codec1 [CHR ''x'', CHR ''x'', newline_char] = Inr outcome1"
  "json_from_slice codec1 [CHR ''x'', CHR ''x'', CHR ''x'', newline_char] = Inr final1"
  "json_from_slice codec1 [CHR ''x'', CHR ''x'', CHR ''x'', CHR ''x'', newline_char] = Inr bundle1" "sha_hex codec1 d = ''h''"
  by (simp_all add: codec1_def table_codec_def)

lemma checked1:
  "jindex staged1 ''outcome'' = outcome1" "jindex staged1 ''snapshot'' = snapshot1"
  "exact cm0 outcome1 = Inr ()" "exact cm0 snapshot1 = Inr ()" "exact cm0 final1 = Inr ()"
  "jindex final1 ''outcome_sha256'' = JStr ''h''" "jindex final1 ''outcome_byte_len'' = JNum 3"
  "jindex descriptor1 ''representation'' = JNull"
  "as_str (jindex bundle1 ''outcome_bytes_utf8'') = Some [CHR ''x'', CHR ''x'', newline_char]"
  "as_str (jindex bundle1 ''snapshot_bytes_utf8'') = Some [CHR ''x'', CHR ''x'', CHR ''x'', newline_char]"
proof -
  have obj: "is_object cm0" by (simp add: cm0_fields is_object_def)
  show "exact cm0 outcome1 = Inr ()" by (rule exact0) (simp_all add: outcome1_def obj)
  show "exact cm0 snapshot1 = Inr ()" by (rule exact0) (simp_all add: snapshot1_def obj)
  show "exact cm0 final1 = Inr ()" by (rule exact0) (simp_all add: final1_def snapshot1_def obj)
qed (simp_all add: staged1_def final1_def descriptor1_def bundle1_def)

lemma finished1: "\<exists>w'. finish_observation_with_output codec1 paths0 descriptor1 observed1 = (Done (), w')"
  by (simp add: finish_observation_with_output_def finish_snapshot_def source_binding_def fence_run_simps observed1_def encoded1 decoded1
      checked0 checked1 final1_def [symmetric] bundle1_def [symmetric] jnat_def source_file_defs hard_def)

theorem snapshot_binds_outcome_witness:
  "\<exists>w' outcome snapshot. finish_observation_with_output codec1 paths0 descriptor1 observed1 = (Done (), w') \<and>
     files w' SOURCE_OUTCOME = Some (Regular (Text outcome)) \<and> files w' SNAPSHOT = Some (Regular (Text snapshot))"
proof -
  have "faithful_codec codec1" unfolding codec1_def by (rule table_codec_faithful)
  moreover obtain w' where run: "finish_observation_with_output codec1 paths0 descriptor1 observed1 = (Done (), w')"
    using finished1 by blast
  ultimately show ?thesis using snapshot_binds_outcome by blast
qed

end
