(* ===== verification/Supervisor_Start_Laws.thy ===== *)
theory Supervisor_Start_Laws
  imports Supervisor_Start Source_Evidence
begin

section \<open>No workload without a grant\<close>

text \<open>
  What the start of a supervisor guarantees: a root worker releases its workload at most once, only after the
  root answered its request with a grant, and with the launch fence of a v2 source moved to
  \<^verbatim>\<open>launched\<close> before. The locale \<open>bystander\<close> collects the operations that neither release a workload
  nor touch the fence.
\<close>

subsection \<open>Operations that neither release nor fence\<close>

lemma handle_file_free [simp]: "F x \<noteq> FENCE" "F x \<noteq> REGISTRATION" "cleanup_error_file \<noteq> FENCE" "cleanup_error_file \<noteq> REGISTRATION"
  by (simp_all add: source_file_defs REGISTRATION_def cleanup_error_file_def)

lemma keeps_finalized [keeps_rules]:
  "keeps I m \<Longrightarrow> (\<And>p. keeps I (f p)) \<Longrightarrow> keeps I (case x of DeferredForAcceptedCancel \<Rightarrow> m | Publish p \<Rightarrow> f p)"
  by (cases x) simp_all

lemma keeps_attempt: "keeps I m \<Longrightarrow> keeps I (attempt m)"
  unfolding attempt_def by (intro keeps_rules)

lemma keeps_halted: "keeps I halt"
  by (simp add: keeps_def spec_def halt_def)

locale bystander =
  fixes I :: "view \<Rightarrow> bool"
  assumes free: "f \<noteq> FENCE \<Longrightarrow> f \<noteq> REGISTRATION \<Longrightarrow> ignores I f"
    and other_process: "op \<noteq> ''workload'' \<Longrightarrow> I s \<Longrightarrow> I (started op s)"
begin

lemma free_names: "ignores I (F f)" "ignores I cleanup_error_file"
  by (simp_all add: free)

end

sublocale bystander \<subseteq> handle_frame I
  by unfold_locales (auto intro: free_names other_process)

context bystander
begin

lemma keeps_recorded:
  "keeps I (record_pre_admission_registration_error m d)" "keeps I (record_admitted_registration_unknown m d)"
  "keeps I (record_supervisor_error role m d log)"
proof -
  have "keeps I (record_if_running m f)" for f
    unfolding record_if_running_def by (intro keeps_rules keeps_locks keeps_writes)
  then show "keeps I (record_pre_admission_registration_error m d)" "keeps I (record_admitted_registration_unknown m d)"
    unfolding record_pre_admission_registration_error_def record_admitted_registration_unknown_def by blast+
  show "keeps I (record_supervisor_error role m d log)"
    unfolding record_supervisor_error_def by (intro keeps_rules keeps_publish)
qed

lemma keeps_failure: "keeps I (record_registration_failure m failure)"
  unfolding record_registration_failure_def
  by (auto split: registration_failure.split helper_command_error.split intro!: keeps_ignore_err keeps_recorded)

lemma keeps_give_up: "keeps I (give_up role m d log)"
  unfolding give_up_def by (intro keeps_rules keeps_recorded)

lemma keeps_persist: "keeps I (persist_supervisor_meta_best_effort m)"
  unfolding persist_supervisor_meta_best_effort_def by (intro keeps_rules keeps_writes)

lemma keeps_log: "keeps I open_supervisor_log"
  unfolding open_supervisor_log_def by (intro keeps_rules free) simp_all

lemma keeps_complete_loop: "keeps I (complete_loop role cause n m)"
proof (induction n arbitrary: m)
  case (Suc n)
  then show ?case
    unfolding complete_loop.simps record_explicit_cancel_acceptance_def
    by (intro keeps_rules keeps_attempt keeps_locks keeps_publish keeps_reconcile) (simp_all add: free)
qed (simp add: keeps_halted)

end

text \<open>An invariant that looks at no file is also kept by everything done for the registration.\<close>

locale onlooker = bystander +
  assumes no_file: "ignores I f"
begin

lemma keeps_recovery_image: "keeps I (copy_recovery_image jc d)"
  unfolding copy_recovery_image_def by (intro keeps_rules no_file) simp_all

lemma keeps_prepare: "keeps I (prepare jc sp sf m domain scp)"
  unfolding prepare_def retain_registration_def Let_def
  by (intro keeps_rules keeps_recovery_image no_file) simp_all

lemma keeps_transition: "keeps I (transition jc v p)"
  unfolding transition_def by (intro keeps_rules no_file) simp_all

lemma keeps_abandon: "keeps I (abandon jc sp me)"
  unfolding abandon_def fence_value_def by (intro keeps_rules keeps_transition no_file) simp_all

lemma keeps_set_local_record: "keeps I (set_local jc k v)"
  unfolding set_local_def by (intro keeps_rules keeps_halted no_file) simp_all

lemma keeps_confirm: "keeps I (confirm_launch jc sp me reply)"
  unfolding confirm_launch_def fence_value_def
  by (intro keeps_rules keeps_transition keeps_set_local_record no_file) simp_all

lemma keeps_launched: "keeps I (launched jc sp child)"
  unfolding launched_def fence_value_def by (intro keeps_rules keeps_transition no_file) simp_all

end

lemma keeps_or_helper_error:
  "keeps I m \<Longrightarrow> (\<And>a. keeps I (f a)) \<Longrightarrow> keeps I (or_helper_error c m f)"
  unfolding or_helper_error_def by (intro keeps_rules)

lemma keeps_reply_case:
  "(\<And>e. keeps I (f e)) \<Longrightarrow> (\<And>e. keeps I (g e)) \<Longrightarrow> (\<And>st x y. keeps I (h st x y)) \<Longrightarrow>
   keeps I (case r of SpawnFails e \<Rightarrow> f e | WaitFails e \<Rightarrow> g e | Exits st x y \<Rightarrow> h st x y)"
  by (cases r) simp_all

context onlooker begin

lemma keeps_spawn: "op \<noteq> ''workload'' \<Longrightarrow> keeps I (spawn_helper op)"
  by (rule keepsI, rule spec_spawn_helper) (auto intro: other_process)

lemma keeps_put: "\<not> is_tmp f \<Longrightarrow> keeps I (set_file f n)"
  by (rule keepsI, rule spec_set_file) (auto intro: ignoresD [OF no_file])

lemma keeps_structured: "op \<noteq> ''workload'' \<Longrightarrow> keeps I (run_structured_helper jc sp sf op)"
  unfolding run_structured_helper_def structured_reply_def attempt_file_def
  by (intro keeps_or_helper_error keeps_rules keeps_spawn keeps_put no_file keeps_reply_case) simp_all

lemma keeps_register: "keeps I (register jc sf sp m)"
  unfolding register_def
  by (intro keeps_rules keeps_or_helper_error keeps_structured keeps_confirm keeps_helpers) simp_all

lemma keeps_prepare_continuation: "keeps I (prepare_continuation jc sf sp m scp)"
  unfolding prepare_continuation_def check_hello_def live_identity_def from_option_def
  by (intro keeps_rules keeps_prepare)

lemma keeps_register_source: "keeps I (register_source jc sf cf)"
  unfolding register_source_def
  by (intro keeps_rules keeps_prepare_continuation keeps_writes keeps_abandon keeps_register)

end

subsection \<open>What holds of the wire, the processes and the fence\<close>

definition unreleased_workload :: "view \<Rightarrow> bool" where
  "unreleased_workload s \<longleftrightarrow> ''workload'' \<notin> set (vspawned s)"

definition idle :: "bytes \<Rightarrow> bytes \<Rightarrow> view \<Rightarrow> bool" where
  "idle a b s \<longleftrightarrow> on_wire a b s \<and> unreleased_workload s"

definition launch_proven :: "json_codec \<Rightarrow> view \<Rightarrow> bool" where
  "launch_proven jc s \<longleftrightarrow>
     vfiles s REGISTRATION = None \<or> (\<exists>v. document_in jc (vfiles s FENCE) = Some v \<and> jindex v ''phase'' = JStr ''launched'')"

definition ready :: "json_codec \<Rightarrow> bytes \<Rightarrow> bytes \<Rightarrow> view \<Rightarrow> bool" where
  "ready jc a b s \<longleftrightarrow> idle a b s \<and> launch_proven jc s"

definition granted :: "json_codec \<Rightarrow> bytes \<Rightarrow> bytes \<Rightarrow> view \<Rightarrow> bool" where
  "granted jc a b s \<longleftrightarrow> on_wire a b s \<and> count_list (vspawned s) ''workload'' = 1 \<and> launch_proven jc s"

definition lawful :: "json_codec \<Rightarrow> bytes \<Rightarrow> bytes \<Rightarrow> view \<Rightarrow> bool" where
  "lawful jc a b s \<longleftrightarrow> unreleased_workload s \<or> granted jc a b s"

lemmas start_state_defs = unreleased_workload_def idle_def launch_proven_def ready_def granted_def lawful_def

interpretation unreleased: onlooker unreleased_workload
  by unfold_locales (auto simp: start_state_defs ignores_def)

interpretation idling: onlooker "idle a b" for a b
  by unfold_locales (auto simp: start_state_defs ignores_def on_wire_def)

interpretation prepared: bystander "ready jc a b" for jc a b
  by unfold_locales (auto simp: start_state_defs ignores_def on_wire_def)

interpretation lawfully: bystander "lawful jc a b" for jc a b
  by unfold_locales (auto simp: start_state_defs ignores_def on_wire_def)

subsection \<open>The control channel\<close>

lemma spec_poll_control: "Q () s \<Longrightarrow> (\<And>e. E e s) \<Longrightarrow> H s \<Longrightarrow> spec poll_control s Q E H"
proof -
  have "keeps I (poll_wait n)" for I n
  proof (induction n)
    case (Suc n)
    then show ?case unfolding poll_wait.simps by (intro keeps_rules)
  qed (simp add: keeps_halted)
  then have "keeps I poll_control" for I
    unfolding poll_control_def [abs_def] by (rule keeps_patience [where m = poll_wait])
  then show "Q () s \<Longrightarrow> (\<And>e. E e s) \<Longrightarrow> H s \<Longrightarrow> spec poll_control s Q E H"
    by (intro keeps_spec [of "\<lambda>t. t = s"]) simp_all
qed

lemma spec_halted: "H s \<Longrightarrow> spec halt s Q E H"
  by (simp add: spec_def halt_def)

lemma spec_write_control_byte_wait:
  assumes "Q () (s\<lparr>vwire := vwire s @ [b]\<rparr>)" and "\<And>e. E e s" and "H s"
  shows "spec (write_control_byte_wait b) s Q E H"
proof -
  have "spec (write_control_loop b n) s Q E H" for n
  proof (induction n)
    case (Suc n)
    then show ?case
      unfolding write_control_loop.simps write_control_byte_def
      by (intro spec_handle_err spec_bind spec_sock_call spec_put_wire spec_ret spec_if spec_raise spec_poll_control)
        (use assms in auto)
  qed (use assms in \<open>simp add: spec_halted\<close>)
  then show ?thesis unfolding write_control_byte_wait_def [abs_def] by (rule spec_patience [where m = "write_control_loop b"])
qed

lemma spec_read_control_byte_wait:
  assumes "\<And>b. Q b (s\<lparr>vheard := vheard s @ [b]\<rparr>)" and "\<And>e. E e s" and "H s"
  shows "spec read_control_byte_wait s Q E H"
proof -
  have "spec (read_control_loop_wait n) s Q E H" for n
  proof (induction n)
    case (Suc n)
    have "spec (case r of Inr (b # bs) \<Rightarrow> seq (put_heard b) (ret b) | Inr [] \<Rightarrow> raise (io_new UnexpectedEof ''root control closed'')
        | Inl e \<Rightarrow> if kind e = Interrupted then read_control_loop_wait n
            else if kind e = WouldBlock then seq poll_control (read_control_loop_wait n) else raise e) s Q E H" for r
      by (cases r; cases "projr r")
        (use assms Suc in \<open>auto intro!: spec_bind spec_put_heard spec_ret spec_raise spec_poll_control\<close>)
    then show ?case unfolding read_control_loop_wait.simps by (intro spec_bind spec_ask)
  qed (use assms in \<open>simp add: spec_halted\<close>)
  then show ?thesis unfolding read_control_byte_wait_def [abs_def] by (rule spec_patience [where m = read_control_loop_wait])
qed

lemma keeps_control:
  "keeps unreleased_workload (write_control_byte_wait b)" "keeps unreleased_workload read_control_byte_wait"
  by (rule keepsI, rule spec_write_control_byte_wait spec_read_control_byte_wait; simp add: unreleased_workload_def)+

lemma keeps_handshake: "keeps unreleased_workload root_terminal_handshake"
proof -
  have "keeps unreleased_workload (await_settlement n)" for n
  proof (induction n)
    case (Suc n)
    then show ?case unfolding await_settlement.simps by (intro keeps_rules keeps_control)
  qed (simp add: keeps_halted)
  then show ?thesis
    unfolding root_terminal_handshake_def by (intro keeps_bind keeps_control keeps_patience [where m = await_settlement])
qed

lemma keeps_supervisor_meta: "keeps I (supervisor_meta me m)"
  unfolding supervisor_meta_def Let_def by (intro keeps_rules)

lemma keeps_without_launch: "keeps unreleased_workload (complete_without_launch fuel sf cf role cause)"
  unfolding complete_without_launch_def
  by (intro keeps_rules keeps_supervisor_meta unreleased.keeps_log unreleased.keeps_persist
      unreleased.keeps_complete_loop keeps_handshake)

text \<open>Only the byte of a grant, in answer to the request, is a grant.\<close>

lemma grant_of_byte_granted: "grant_of_byte b = Inr Granted \<Longrightarrow> b = CHR ''G''"
  by (auto simp: grant_of_byte_def split: if_splits)

lemma spec_await_grant:
  assumes "idle a b s"
  shows "spec await_root_execution_grant s
     (\<lambda>g t. if g = Granted then idle (a @ ''P'') (b @ ''G'') t else unreleased_workload t)
     (\<lambda>_. unreleased_workload) unreleased_workload"
  unfolding await_root_execution_grant_def
  by (intro spec_bind spec_write_control_byte_wait spec_read_control_byte_wait spec_lift_result)
    (use assms grant_of_byte_granted in \<open>auto simp: idle_def on_wire_def unreleased_workload_def\<close>)

subsection \<open>Releasing the workload\<close>

text \<open>A call of \<^verbatim>\<open>launched\<close> that returns leaves a launched fence, or found no registration.\<close>

lemma reaches_launched_document:
  assumes "faithful_codec jc"
  shows "reaches (transition jc v ''launched'') s (\<lambda>_. launch_proven jc)"
proof -
  have "launch_proven jc (put FENCE (Some (Regular (Text d))) s)"
    if "json_bytes jc (jset u ''phase'' (JStr ''launched'')) = Inr d" for u d
  proof -
    from that obtain b where "json_to_vec jc (jset u ''phase'' (JStr ''launched'')) = Inr b" "d = b @ [newline_char]"
      by (auto simp: json_bytes_def split: sum.splits)
    with assms obtain x where "json_from_slice jc d = Inr x" "\<forall>k. jindex x k = jindex (jset u ''phase'' (JStr ''launched'')) k"
      unfolding faithful_codec_def by blast
    then show ?thesis by (simp add: launch_proven_def document_in_def)
  qed
  then show ?thesis
    unfolding transition_def save_document_def
    by (intro spec_bind spec_require spec_if spec_raise spec_lift_result spec_atomic_write) auto
qed

lemma reaches_launched:
  assumes "faithful_codec jc"
  shows "reaches (launched jc sp child) s (\<lambda>_. launch_proven jc)"
proof -
  have plain: "spec v2_enabled s (\<lambda>v2 t. v2 \<or> launch_proven jc t) (\<lambda>_ _. True) (\<lambda>_. True)"
    unfolding v2_enabled_def
    by (intro spec_handle_err spec_lstat) (auto simp: launch_proven_def hard_def intro!: spec_ret)
  show ?thesis
    unfolding launched_def
    by (rule spec_bind, rule spec_mono [OF plain])
      (auto intro!: spec_if spec_ret reaches_then spec_raise spec_bind [of "transition jc _ _"]
        spec_mono [OF reaches_launched_document [OF assms]] split: prod.split)
qed

lemma spec_launched_idle:
  assumes "faithful_codec jc" and "idle a b s"
  shows "spec (launched jc sp child) s (\<lambda>_. ready jc a b) (\<lambda>_. idle a b) (idle a b)"
  by (rule spec_mono [OF spec_conj [OF keepsD [OF idling.keeps_launched assms(2)] reaches_launched [OF assms(1)]]])
    (auto simp: ready_def)

lemma ready_started: "ready jc a b s \<Longrightarrow> granted jc a b (started ''workload'' s)"
  by (simp add: start_state_defs on_wire_def count_list_0_iff)

lemma lawfulI: "unreleased_workload s \<Longrightarrow> lawful jc a b s" "idle a b s \<Longrightarrow> lawful jc a b s" "ready jc a b s \<Longrightarrow> lawful jc a b s" "granted jc a b s \<Longrightarrow> lawful jc a b s"
  by (auto simp: lawful_def ready_def idle_def)

abbreviation lawful_spec where
  "lawful_spec jc a b m s \<equiv> spec m s (\<lambda>_. lawful jc a b) (\<lambda>_. lawful jc a b) (lawful jc a b)"

lemma spec_release:
  assumes "ready jc a b s"
  shows "lawful_spec jc a b (release_workload launch) s"
proof -
  have "lawful_spec jc a b (open_gate n) s" for n
  proof (induction n)
    case (Suc n)
    then show ?case
      unfolding open_gate.simps
      by (intro spec_handle_err spec_bind spec_sock_call spec_log_spawn spec_ret spec_if spec_raise)
        (use assms ready_started in \<open>auto intro: lawfulI\<close>)
  qed (use assms in \<open>auto intro: spec_halted lawfulI\<close>)
  then show ?thesis
    unfolding release_workload_def
    by (intro spec_if spec_ret spec_patience [where m = open_gate]) (use assms in \<open>auto intro: lawfulI\<close>)
qed

lemma spec_attempt: "spec m s (\<lambda>a. Q (Inr a)) (\<lambda>e. Q (Inl e)) H \<Longrightarrow> spec (attempt m) s Q E H"
  unfolding attempt_def by (rule spec_handle_err, erule spec_mono) (auto intro: spec_ret)

lemma keeps_spawn_metadata: "keeps I (apply_spawn_metadata child pidfd observed m)"
  unfolding apply_spawn_metadata_def by (intro keeps_rules)

lemma keeps_owner_pidfd: "keeps I (owner_pidfd_of sf m)"
  unfolding owner_pidfd_of_def by (intro keeps_rules)

lemma spec_keeping:
  assumes "keeps I m" and "I s" and "\<And>t. I t \<Longrightarrow> H t" and "\<And>a t. I t \<Longrightarrow> spec (f a) t Q (\<lambda>_. H) H"
  shows "spec (bind m f) s Q (\<lambda>_. H) H"
  by (rule spec_bind, rule keeps_spec [OF assms(1,2)]) (use assms(3,4) in auto)

lemma spec_after_fork:
  assumes jc: "faithful_codec jc" and s: "idle a b s"
  shows "lawful_spec jc a b (after_fork jc sf cf role control child m) s"
proof -
  let ?J = "\<lambda>ok. if ok then ready jc a b else idle a b"
  have gate: "lawful_spec jc a b (attempt (release_workload ok)) t" if "?J ok t" for ok t
  proof (cases ok)
    case True
    then show ?thesis using that by (auto intro: spec_attempt spec_release)
  next
    case False
    then show ?thesis using that by (auto simp: release_workload_def intro!: spec_attempt spec_ret lawfulI(2))
  qed
  have tail: "keeps (lawful jc a b) (seq (persist_supervisor_meta_best_effort m3)
      (case x of Inl e \<Rightarrow> give_up role m3 (f e) True | Inr sm \<Rightarrow> ret (g sm)))" for m3 x f and g :: "'b \<Rightarrow> int + 'c"
    by (intro keeps_bind keeps_sum keeps_ret lawfully.keeps_persist lawfully.keeps_give_up)
  have weak: "?J ok t \<Longrightarrow> lawful jc a b t" for ok t by (auto intro: lawfulI split: if_splits)
  have launch: "spec (attempt (launched jc sp c)) t (\<lambda>r. ?J (case r of Inr _ \<Rightarrow> True | Inl _ \<Rightarrow> False)) (\<lambda>_. lawful jc a b) (lawful jc a b)"
    if "idle a b t" for sp c t
    by (rule spec_attempt, rule spec_mono [OF spec_launched_idle [OF jc that]]) (auto intro: lawfulI)
  show ?thesis
    unfolding after_fork_def Let_def
    by (rule spec_keeping [of "idle a b"], auto intro!: keeps_rules keeps_owner_pidfd s lawfulI(2))
      (rule spec_bind, rule spec_mono [OF launch], assumption,
        rule spec_keeping [OF keeps_spawn_metadata], assumption, erule weak,
        rule spec_bind, rule spec_mono [OF gate], auto intro: keepsD [OF tail])
qed

lemma spec_fail_step:
  assumes "idle a b s" and "lawful_spec jc a b n s"
  shows "lawful_spec jc a b (fail_step role m p log x n) s"
  unfolding fail_step_def
  by (rule spec_option) (use assms in \<open>auto intro: keepsD [OF lawfully.keeps_give_up] lawfulI(2)\<close>)

lemma spec_start_supervisor:
  assumes jc: "faithful_codec jc" and s: "idle a b s"
  shows "lawful_spec jc a b (start_supervisor jc sf cf role control) s"
proof -
  have quit: "lawful_spec jc a b (give_up role m d log) t" if "idle a b t" for m d log t
    by (rule keepsD [OF lawfully.keeps_give_up lawfulI(2) [OF that]])
  have forked: "lawful_spec jc a b (if \<not> ok then give_up role m d True
      else case x of Inl e \<Rightarrow> give_up role m (g e) True | Inr child \<Rightarrow> after_fork jc sf cf role control child m) t"
    if "idle a b t" for ok m d x g t
    by (intro spec_if spec_sum quit spec_after_fork jc that)
  note stay = spec_keeping [where I = "idle a b", OF _ _ lawfulI(2)]
  have touched: "keeps (idle a b) (touch_now m)" for m by (intro keeps_rules)
  have rest: "lawful_spec jc a b (fail_step role m p1 True x1 (fail_step role m p2 True x2
      (seq (persist_supervisor_meta_best_effort m) (fail_step role m p3 True x3
        (bind (touch_now m') (\<lambda>m'. seq (persist_supervisor_meta_best_effort m')
          (if \<not> ok then give_up role m' d True
           else case x of Inl e \<Rightarrow> give_up role m' (g e) True | Inr child \<Rightarrow> after_fork jc sf cf role control child m'))))))) t"
    if "idle a b t" for m m' p1 p2 p3 x1 x2 x3 ok d x g t
    by (rule spec_fail_step [OF that], rule spec_fail_step [OF that], rule stay [OF idling.keeps_persist that], assumption,
        rule spec_fail_step, assumption, rule stay [OF touched], assumption+, rule stay [OF idling.keeps_persist], assumption+,
        rule forked)
  show ?thesis
    unfolding start_supervisor_def Let_def
    by (rule stay [OF keeps_supervisor_meta s], assumption, rule stay [OF keeps_v2(1)], assumption+,
        rule spec_handle_err, rule keeps_spec [OF idling.keeps_log], assumption)
      (auto intro!: quit rest lawfulI(2))
qed

lemma spec_start_root_worker:
  assumes jc: "faithful_codec jc" and s: "idle a b s"
  shows "lawful_spec jc (a @ ''P'') (b @ ''G'') (start_root_worker jc fuel sf cf role) s" (is "spec _ _ ?Q ?E ?H")
proof -
  have plain: "lawful_spec jc (a @ ''P'') (b @ ''G'') m t" if "keeps unreleased_workload m" "unreleased_workload t" for m :: "(int + event_loop) io" and t
    by (rule keeps_spec [OF that]) (auto intro: lawfulI(1))
  have failed: "keeps unreleased_workload (seq (record_registration_failure m f) (seq (ignore_err root_terminal_handshake) (ret x)))"
    for m f and x :: "int + event_loop"
    by (intro keeps_rules unreleased.keeps_failure keeps_handshake)
  have cancelled: "keeps unreleased_workload (bind (complete_without_launch fuel sf cf role cause) (\<lambda>c. ret (Inl c)))"
    for cause by (intro keeps_rules keeps_without_launch)
  have answer: "lawful_spec jc (a @ ''P'') (b @ ''G'')
      (case g of Inr Granted \<Rightarrow> start_supervisor jc sf cf role True
       | Inr (GrantCancelled cause) \<Rightarrow> bind (complete_without_launch fuel sf cf role cause) (\<lambda>c. ret (Inl c))
       | Inl e \<Rightarrow> bind (complete_root_loss_before_launch fuel sf cf role e) (\<lambda>c. ret (Inl c))) t"
    if "if g = Inr Granted then idle (a @ ''P'') (b @ ''G'') t else unreleased_workload t" for g t
    using that by (auto simp: complete_root_loss_before_launch_def split: sum.split root_execution_grant.split intro: spec_start_supervisor [OF jc] plain cancelled)
  have asked: "lawful_spec jc (a @ ''P'') (b @ ''G'') (bind (attempt await_root_execution_grant) f) t"
    if "idle a b t" "\<And>g u. (if g = Inr Granted then idle (a @ ''P'') (b @ ''G'') u else unreleased_workload u) \<Longrightarrow>
        lawful_spec jc (a @ ''P'') (b @ ''G'') (f g) u" for t and f :: "io_error + root_execution_grant \<Rightarrow> (int + event_loop) io"
    by (rule spec_bind, rule spec_attempt, rule spec_mono [OF spec_await_grant [OF that(1)]])
      (auto intro!: that(2) intro: lawfulI(1))
  have idle: "idle a b t \<Longrightarrow> unreleased_workload t" for t by (simp add: idle_def)
  show ?thesis
    unfolding start_root_worker_def
    by (rule spec_keeping [OF idling.keeps_register_source s], erule lawfulI(1) [OF idle], rule spec_sum,
        rule plain [OF failed], erule idle, rule asked, assumption, rule answer)
qed

text \<open>
  C9. A root worker, from its registration to its event loop, in every environment and with failures and
  deaths anywhere: if it releases a workload, it releases it once, it had sent nothing to the root
  but its request, it had heard nothing but the grant, and the source either has no v2 registration or its
  launch fence on disk says launched.
\<close>

theorem workload_needs_grant:
  assumes "faithful_codec jc" and "''workload'' \<notin> set (spawned w)"
    and "start_root_worker jc fuel sf cf role w = (r, w')" and "''workload'' \<in> set (spawned w')"
  shows "count_list (spawned w') ''workload'' = 1 \<and> wire w' = wire w @ ''P'' \<and> heard w' = heard w @ ''G'' \<and>
    (files w' REGISTRATION = None \<or> fence_phase jc w' = JStr ''launched'')"
proof -
  have "idle (wire w) (heard w) (view_of w)"
    using assms(2) by (simp add: idle_def on_wire_def unreleased_workload_def view_of_def)
  from spec_start_root_worker [OF assms(1) this, of fuel sf cf role]
  have "lawful jc (wire w @ ''P'') (heard w @ ''G'') (view_of w')"
    using assms(3) by (cases r) (auto simp: spec_def)
  then show ?thesis
    using assms(4)
    by (auto simp: start_state_defs on_wire_def view_spawned view_files fence_phase_def) (simp_all add: view_of_def)
qed

text \<open>A worker without a v2 registration: the helper registers it, the root grants it, and its workload runs.\<close>

definition start0 :: start_facts where
  "start0 = \<lparr>source_facts_of = facts0, endpoint = None, has_authority = False, capability_output = Inl (io_other []),
     connected = Inl (io_other []), euid = 1000, hello_sent = None, hello_reply = Inl (io_other []),
     helper_attempt = Inl (io_other []), helper_sha256 = [], worker_pid = 41, session_started = True, subreaper_error = None,
     role_error = None, supervisor_fork = Inr True, sigchld_error = None, image_owner_error = None,
     cgroup_result = (cgroup bare_meta, False), workload_fork = Inr 42, root_pidfd_opened = True, owner_local_pid = None,
     owner_pidfd_opened = False, child_identity = Inr child0, compile_regex = (\<lambda>_. Inl [])\<rparr>"

definition config0 :: supervisor_config where
  "config0 = \<lparr>config_paths = paths0, config_meta = bare_meta, config_argv = [''true''], config_scope = TreeScope, config_sentinel = None\<rparr>"

definition granting_world :: world where
  "granting_world = quiet_world\<lparr>env := quiet_env\<lparr>socket_answers := (\<lambda>_.
     \<lparr>sock_error = None, peer_creds = None, bytes_taken = 0, sock_read = Inr ''G''\<rparr>)\<rparr>\<rparr>"

lemmas start_run_simps =
  fence_run_simps start0_def config0_def granting_world_def hard_def ask_def ignore_err_def catch_def may_stop_def log_spawn_def spawn_helper_def

lemma registered0:
  "\<exists>t. register_source codec0 start0 config0 granting_world = (Done (Inr ()), granting_world\<lparr>tick := t, spawned := [''register'']\<rparr>)"
  by (simp add: register_source_def prepare_continuation_def register_def register_request_def start_run_simps bare_meta_def meta_new_def
      run_required_delivery_helper_command_detailed_def with_external_transfer_custody_def wait_delivery_helper_def
      require_helper_success_def)

lemma granted0:
  "await_root_execution_grant (granting_world\<lparr>tick := t, spawned := sp\<rparr>) =
     (Done Granted, granting_world\<lparr>tick := t + 2, spawned := sp, wire := ''P'', heard := ''G''\<rparr>)"
  by (simp add: await_root_execution_grant_def write_control_byte_wait_def read_control_byte_wait_def write_control_byte_def
      put_wire_def put_heard_def sock_call_def start_run_simps grant_of_byte_def)

text \<open>The world of the run after its log was opened, and what a write of the metadata makes of it.\<close>

definition logged :: "string list \<Rightarrow> world \<Rightarrow> bool" where
  "logged sp w \<longleftrightarrow> env w = env granting_world \<and> dir_exists w \<and> spawned w = sp \<and> files w REGISTRATION = None \<and>
     files w (F DeliveryModeFile) = None \<and> files w (F MetaFile) \<noteq> Some Directory \<and> (\<forall>f p n. files w (Tmp f p n) = None)"

lemma persist0: "logged sp w \<Longrightarrow> \<exists>w'. persist_supervisor_meta_best_effort m w = (Done (), w') \<and> logged sp w'"
  by (simp add: logged_def persist_supervisor_meta_best_effort_def write_meta_atomic_def read_delivery_mode_def read_file_text_def
      start_run_simps REGISTRATION_def)

lemma touch0: "logged sp w \<Longrightarrow> \<exists>m' w'. touch_now m w = (Done m', w') \<and> cancel_owner m' = cancel_owner m \<and> logged sp w'"
  by (simp add: logged_def touch_now_def touch_def unix_ms_def start_run_simps)

lemma plain0: "logged sp w \<Longrightarrow> \<exists>w'. v2_enabled w = (Done False, w') \<and> logged sp w'"
  by (simp add: logged_def start_run_simps)

lemma release0: "logged sp w \<Longrightarrow> \<exists>w'. release_workload True w = (Done (), w') \<and> logged (sp @ [''workload'']) w'"
  by (simp add: logged_def release_workload_def sock_call_def start_run_simps)

lemma forked0:
  assumes "logged sp w"
  shows "\<exists>l w'. after_fork codec0 start0 config0 False True 42 m w = (Done (Inr l), w') \<and> logged (sp @ [''workload'']) w'"
proof -
  from plain0 [OF assms] obtain w1 where w1: "v2_enabled w = (Done False, w1)" "logged sp w1" by blast
  then have launch: "attempt (launched codec0 paths0 (Inr child0)) w = (Done (Inr None), w1)"
    by (simp add: attempt_def launched_def bind_def handle_err_def ret_def)
  obtain m2 w2 where w2: "apply_spawn_metadata 42 True (Some child0) m w1 = (Done m2, w2)" "logged sp w2"
    using touch0 [OF w1(2)] unfolding apply_spawn_metadata_def by blast
  from release0 [OF w2(2)] obtain w3 where w3: "release_workload True w2 = (Done (), w3)" "logged (sp @ [''workload'']) w3" by blast
  then have release: "attempt (release_workload True) w2 = (Done (Inr ()), w3)" by (simp add: attempt_def handle_err_def ret_def)
  from persist0 [OF w3(2)] obtain w4 where "persist_supervisor_meta_best_effort m2 w3 = (Done (), w4)" "logged (sp @ [''workload'']) w4"
    by blast
  then show ?thesis
    by (simp add: after_fork_def start0_def config0_def Let_def sentinel_matcher_of_def bind_def ret_def launch w2(1) release)
qed

lemma started0:
  assumes "logged sp w" and "files w (F Log) = None"
  shows "\<exists>l w'. start_supervisor codec0 start0 config0 False True w = (Done (Inr l), w') \<and> logged (sp @ [''workload'']) w'"
proof -
  obtain m1 w1 where w1: "supervisor_meta (own_identity (source_facts_of start0)) (config_meta config0) w = (Done m1, w1)" "logged sp w1"
    "files w1 (F Log) = None"
    using assms by (simp add: supervisor_meta_def touch_now_def unix_ms_def logged_def Let_def start_run_simps)
  obtain w2 where w2: "v2_enabled w1 = (Done False, w2)" "logged sp w2" "files w2 (F Log) = None"
    using w1(2,3) by (simp add: logged_def start_run_simps)
  obtain w3 where w3: "open_supervisor_log w2 = (Done (), w3)" "logged sp w3"
    using w2(2,3) by (simp add: logged_def open_supervisor_log_def start_run_simps REGISTRATION_def)
  from persist0 [OF w3(2)] obtain w4 where w4: "persist_supervisor_meta_best_effort m1 w3 = (Done (), w4)" "logged sp w4" by blast
  from touch0 [OF w4(2)] obtain m5 w5 where w5: "touch_now (m1\<lparr>cgroup := cgroup bare_meta\<rparr>) w4 = (Done m5, w5)" "logged sp w5" by blast
  from persist0 [OF w5(2)] obtain w6 where w6: "persist_supervisor_meta_best_effort m5 w5 = (Done (), w6)" "logged sp w6" by blast
  have facts: "subreaper_error start0 = None" "sigchld_error start0 = None" "image_owner_error start0 = None"
    "fst (cgroup_result start0) = cgroup bare_meta" "workload_fork start0 = Inr 42" "validate_cstring_argv (config_argv config0)"
    by (simp_all add: start0_def config0_def validate_cstring_argv_def)
  from forked0 [OF w6(2)] show ?thesis
    by (simp add: start_supervisor_def Let_def bind_def handle_err_def fail_step_def facts w1(1) w2(1) w3(1) w4(1) w5(1) w6(1))
qed

theorem workload_needs_grant_witness:
  "\<exists>r w'. start_root_worker codec0 1 start0 config0 False granting_world = (r, w') \<and> spawned w' = [''register'', ''workload''] \<and>
     wire w' = ''P'' \<and> heard w' = ''G''"
proof -
  obtain t where reg: "register_source codec0 start0 config0 granting_world =
      (Done (Inr ()), granting_world\<lparr>tick := t, spawned := [''register'']\<rparr>)"
    using registered0 by blast
  let ?w = "granting_world\<lparr>tick := t + 2, spawned := [''register''], wire := ''P'', heard := ''G''\<rparr>"
  have "logged [''register''] ?w" "files ?w (F Log) = None"
    by (simp_all add: logged_def granting_world_def quiet_world_def)
  from started0 [OF this] obtain l w' where run: "start_supervisor codec0 start0 config0 False True ?w = (Done (Inr l), w')"
    "logged [''register'', ''workload''] w'" by auto
  have worker: "start_root_worker codec0 1 start0 config0 False granting_world = (Done (Inr l), w')"
    by (simp add: start_root_worker_def bind_def attempt_def handle_err_def ret_def reg granted0 run(1) del: add_2_eq_Suc')
  have "faithful_codec codec0" unfolding codec0_def by (rule table_codec_faithful)
  from workload_needs_grant [OF this _ worker] run(2) worker show ?thesis
    by (simp add: logged_def granting_world_def quiet_world_def)
qed

end
