(* ===== verification/Retained_Output.thy ===== *)
theory Retained_Output
  imports Source_Evidence
begin

section \<open>Retained output\<close>

text \<open>
  \<^verbatim>\<open>src/src/retained_output.rs\<close>: a snapshot is a prefix of the output log with an identity (length and SHA-256); its
  acceptance is a receipt that replaces the previous one by a rename. The log is opened once and its length
  is taken at that moment; every call may fail or end the process.
\<close>

record retained_identity =
  ri_version :: nat
  ri_handle :: string
  ri_created_at_unix_ms :: nat
  ri_bytes :: nat
  ri_sha256 :: string
  ri_encoding :: string

record retained_snapshot =
  rsn_identity :: retained_identity
  rsn_output :: string

text \<open>\<^verbatim>\<open>state::open_read_no_follow\<close> also opens a directory.\<close>

definition open_read_no_follow :: "fname \<Rightarrow> node io" where
  "open_read_no_follow f =
     sys (bind (lookup_file f)
       (\<lambda>n. case n of None \<Rightarrow> raise err_not_found | Some Symlink \<Rightarrow> raise err_loop | Some x \<Rightarrow> ret x))"

definition read_bounded :: "bytes \<Rightarrow> nat \<Rightarrow> bytes io" where
  "read_bounded source n =
     seq sys_sync (if length (take n source) \<noteq> n then raise (io_invalid ''incomplete retained source read'') else ret (take n source))"

definition read_prefix :: "nat option \<Rightarrow> bytes io" where
  "read_prefix wanted_bytes =
     bind (open_read_no_follow (F Log)) (\<lambda>n.
     seq sys_sync
       (case n of
          Regular c \<Rightarrow>
            bind (text_of c) (\<lambda>d.
              (let wanted = (case wanted_bytes of None \<Rightarrow> length d | Some k \<Rightarrow> k)
               in if wanted > length d then raise (io_invalid ''retained source shorter than requested prefix'')
                  else read_bounded d wanted))
        | _ \<Rightarrow> raise (io_invalid ''retained source is not a regular file'')))"

definition identity_of :: "json_codec \<Rightarrow> meta \<Rightarrow> bytes \<Rightarrow> retained_identity" where
  "identity_of jc m out =
     \<lparr>ri_version = 1, ri_handle = handle m, ri_created_at_unix_ms = created_at_unix_ms m, ri_bytes = length out,
      ri_sha256 = sha_hex jc out, ri_encoding = ''hex''\<rparr>"

definition hex_bytes :: "bytes \<Rightarrow> string" where
  "hex_bytes bs = concat (map hex_byte bs)"

definition acquire :: "json_codec \<Rightarrow> meta \<Rightarrow> nat option \<Rightarrow> retained_snapshot io" where
  "acquire jc m wanted_bytes =
     bind (read_prefix wanted_bytes) (\<lambda>out. ret \<lparr>rsn_identity = identity_of jc m out, rsn_output = hex_bytes out\<rparr>)"

definition validate_retained :: "json_codec \<Rightarrow> meta \<Rightarrow> retained_identity \<Rightarrow> unit io" where
  "validate_retained jc m expected =
     (if ri_version expected \<noteq> 1 \<or> ri_handle expected \<noteq> handle m \<or>
         ri_created_at_unix_ms expected \<noteq> created_at_unix_ms m \<or> ri_encoding expected \<noteq> ''hex''
      then raise (io_invalid ''snapshot source identity mismatch'')
      else bind (read_prefix (Some (ri_bytes expected))) (\<lambda>out.
             if identity_of jc m out \<noteq> expected then raise (io_invalid ''snapshot bytes do not match retained source'')
             else ret ()))"

subsection \<open>The receipt\<close>

definition OUTPUT_RECEIPT :: fname where "OUTPUT_RECEIPT = Extra ''output-receipt.json''"
definition OUTPUT_PENDING :: fname where "OUTPUT_PENDING = Extra ''output-receipt.pending''"

definition identity_json :: "retained_identity \<Rightarrow> json" where
  "identity_json i =
     JObj [(''version'', jnat (ri_version i)), (''handle'', JStr (ri_handle i)),
       (''created_at_unix_ms'', jnat (ri_created_at_unix_ms i)), (''bytes'', jnat (ri_bytes i)),
       (''sha256'', JStr (ri_sha256 i)), (''encoding'', JStr (ri_encoding i))]"

definition reject_legacy :: "unit io" where
  "reject_legacy =
     handle_err (sys_lstat (F Consumed))
       (\<lambda>e. if kind e = NotFound then ret () else raise e)
       (\<lambda>_. raise (io_invalid ''legacy-state: consumed entry exists; previous suppression cannot be reversed locally''))"

definition publication_error :: "string \<Rightarrow> io_error \<Rightarrow> io_error" where
  "publication_error phase e = io_other (''local-receipt '' @ phase @ '': '' @ to_string e @ ''; acceptance unconfirmed'')"

definition in_phase :: "string \<Rightarrow> 'a io \<Rightarrow> 'a io" where
  "in_phase phase m = catch m (\<lambda>e. raise (publication_error phase e))"

definition sync_receipt_directory :: "unit io" where
  "sync_receipt_directory =
     seq (in_phase ''directory-open'' sys_open_dir) (in_phase ''published-directory-sync'' sys_sync)"

text \<open>\<^verbatim>\<open>create(true).truncate(true)\<close> without following a symbolic link.\<close>

definition sys_open_truncate :: "fname \<Rightarrow> unit io" where
  "sys_open_truncate f =
     sys (in_dir (bind (lookup_file f)
       (\<lambda>n. case n of
          Some Symlink \<Rightarrow> raise err_loop
        | Some Directory \<Rightarrow> raise err_is_dir
        | _ \<Rightarrow> set_file f (Some (Regular (Text []))))))"

definition replace_receipt :: "bytes \<Rightarrow> bool io" where
  "replace_receipt encoded =
     seq (in_phase ''prepare'' (sys_open_truncate OUTPUT_PENDING))
    (seq (in_phase ''write'' (sys_write OUTPUT_PENDING (Text encoded)))
    (seq (in_phase ''prepare-file-sync'' sys_sync)
    (seq (in_phase ''publish'' (sys_rename OUTPUT_PENDING OUTPUT_RECEIPT))
    (seq sync_receipt_directory (ret True)))))"

definition publish_receipt :: "json_codec \<Rightarrow> retained_identity \<Rightarrow> bool io" where
  "publish_receipt jc i =
     bind (lift_result (json_to_vec jc (identity_json i))) (\<lambda>encoded.
     bind (in_phase ''read'' (durable_marker_exists OUTPUT_RECEIPT)) (\<lambda>_.
     bind (handle_err (open_read_no_follow OUTPUT_RECEIPT)
             (\<lambda>e. if kind e = NotFound then ret None else raise (publication_error ''read'' e))
             (\<lambda>n. ret (Some n))) (\<lambda>existing.
       case existing of
         None \<Rightarrow> replace_receipt encoded
       | Some n \<Rightarrow>
           bind (sys (case n of Regular c \<Rightarrow> text_of c | _ \<Rightarrow> raise err_is_dir)) (\<lambda>d.
             if take (length encoded + 1) d = encoded
             then seq (in_phase ''duplicate-file-sync'' sys_sync) (seq sync_receipt_directory (ret False))
             else replace_receipt encoded))))"

definition record_receipt :: "json_codec \<Rightarrow> retained_identity \<Rightarrow> bool io" where
  "record_receipt jc i = seq reject_legacy (publish_receipt jc i)"

end
