(* ===== verification/Commands.thy ===== *)
theory Commands
  imports Retained_Output "HOL-Library.List_Lexorder" "HOL-Library.Char_ord" "HOL-Library.Product_Lexorder"
begin

section \<open>The commands on an existing handle\<close>

text \<open>
  \<^verbatim>\<open>src/src/main.rs\<close>: who may control a handle, and the commands \<^verbatim>\<open>cancel\<close>, \<^verbatim>\<open>detach\<close>, \<^verbatim>\<open>mode\<close>, \<^verbatim>\<open>status\<close>,
  \<^verbatim>\<open>snapshot\<close>, \<^verbatim>\<open>accept-output\<close> and \<^verbatim>\<open>list\<close>, with the owner lookup of \<^verbatim>\<open>src/src/delivery.rs\<close> they use. A command works on the
  world of its handle directory and returns what it prints, or an exit code with a message. The answers of the session
  lookup, the text of an exit status and the state root are fields of an argument.
\<close>

definition EX_USAGE :: int where "EX_USAGE = 64"
definition EX_DATAERR :: int where "EX_DATAERR = 65"
definition EX_NOINPUT :: int where "EX_NOINPUT = 66"
definition EX_UNAVAILABLE :: int where "EX_UNAVAILABLE = 69"
definition EX_CANTCREAT :: int where "EX_CANTCREAT = 73"
definition EX_IOERR :: int where "EX_IOERR = 74"
definition EX_NOPERM :: int where "EX_NOPERM = 77"

record app_error =
  ae_code :: int
  ae_message :: string

definition app_error_new :: "int \<Rightarrow> string \<Rightarrow> app_error" where
  "app_error_new c m = \<lparr>ae_code = c, ae_message = m\<rparr>"

text \<open>\<^verbatim>\<open>map_err(c)?\<close> on an operation, and \<^verbatim>\<open>?\<close> on a step of a command.\<close>

definition or_app :: "(io_error \<Rightarrow> app_error) \<Rightarrow> 'a io \<Rightarrow> ('a \<Rightarrow> (app_error + 'b) io) \<Rightarrow> (app_error + 'b) io" where
  "or_app c m f = handle_err m (\<lambda>e. ret (Inl (c e))) f"

definition and_then :: "(app_error + 'a) io \<Rightarrow> ('a \<Rightarrow> (app_error + 'b) io) \<Rightarrow> (app_error + 'b) io" where
  "and_then m f = bind m (\<lambda>r. case r of Inl e \<Rightarrow> ret (Inl e) | Inr a \<Rightarrow> f a)"

subsection \<open>Who owns a process\<close>

record pid_session_response =
  ps_found :: bool
  ps_invocation_uuid :: "string option"
  ps_session_id :: "string option"

datatype lookup_answer = LookupTimedOut | LookupReply helper_reply

datatype owner_lookup = Resolved string string | OwnerPending | OwnerNotFound

record cli_facts =
  of_pid :: "nat \<Rightarrow> pid \<Rightarrow> lookup_answer"
  parse_session :: "bytes \<Rightarrow> string + pid_session_response"
  status_text :: "int \<Rightarrow> string"
  state_root_result :: "string + string"
  observer_to_local :: "nat \<Rightarrow> pid \<Rightarrow> pid option"

definition lookup_of_response :: "string option \<Rightarrow> pid_session_response \<Rightarrow> owner_lookup" where
  "lookup_of_response expected r =
     (if \<not> ps_found r \<or> (case expected of None \<Rightarrow> False | Some u \<Rightarrow> ps_invocation_uuid r \<noteq> Some u) then OwnerNotFound
      else case ps_session_id r of
        None \<Rightarrow> OwnerPending
      | Some s \<Rightarrow>
          if s = [] then OwnerPending
          else (case ps_invocation_uuid r of None \<Rightarrow> OwnerNotFound | Some u \<Rightarrow> Resolved s u))"

definition lookup_result :: "cli_facts \<Rightarrow> pid \<Rightarrow> string option \<Rightarrow> lookup_answer \<Rightarrow> io_error + owner_lookup" where
  "lookup_result fc p expected a =
     (let prefix_text = ''agents session of-pid '' @ int_dec p
      in case a of
           LookupTimedOut \<Rightarrow> Inl (io_new TimedOut (prefix_text @ '' timed out''))
         | LookupReply (SpawnFails e) \<Rightarrow> Inl e
         | LookupReply (WaitFails e) \<Rightarrow> Inl e
         | LookupReply (Exits st out err) \<Rightarrow>
             if st \<noteq> 0
             then if status_code st = Some 1 \<and> (case parse_session fc out of Inr r \<Rightarrow> \<not> ps_found r | Inl _ \<Rightarrow> False)
                  then Inr OwnerNotFound
                  else Inl (io_other (prefix_text @ '' exited with '' @ status_text fc st @
                    (case command_failure_detail err out of None \<Rightarrow> [] | Some d \<Rightarrow> '': '' @ d)))
             else (case parse_session fc out of
                     Inl e \<Rightarrow> Inl (io_invalid (prefix_text @ '' returned invalid JSON: '' @ e))
                   | Inr r \<Rightarrow> Inr (lookup_of_response expected r)))"

text \<open>
  The helper is started, unless that fails, and the caller may die while it runs. The child runs until
  it exits or its deadline; which comes first is part of the answer.
\<close>

definition resolve_owner_for_pid :: "cli_facts \<Rightarrow> pid \<Rightarrow> string option \<Rightarrow> owner_lookup io" where
  "resolve_owner_for_pid fc p expected =
     bind (ask (\<lambda>_ t. of_pid fc t p)) (\<lambda>a.
       case a of
         LookupReply (SpawnFails e) \<Rightarrow> raise e
       | _ \<Rightarrow> seq (log_spawn ''session of-pid'') (seq may_stop (lift_result (lookup_result fc p expected a))))"

definition identity_live :: "caller_entry \<Rightarrow> bool io" where
  "identity_live entry =
     bind current_boot_id (\<lambda>b. bind (ask stat_files) (\<lambda>rd. ret (process_identity_is_live rd b entry)))"

definition PENDING_OWNER_BINDING_TIMEOUT_ms :: nat where "PENDING_OWNER_BINDING_TIMEOUT_ms = 5000"

fun wait_pending_loop :: "cli_facts \<Rightarrow> caller_entry \<Rightarrow> string \<Rightarrow> nat \<Rightarrow> nat \<Rightarrow> (string \<times> string) option io" where
  "wait_pending_loop fc entry expected deadline 0 = halt"
| "wait_pending_loop fc entry expected deadline (Suc n) =
     bind (ask clock) (\<lambda>now.
       if now \<ge> deadline then ret None
       else bind (identity_live entry) (\<lambda>live.
         if \<not> live then ret None
         else bind (resolve_owner_for_pid fc (ce_pid entry) (Some expected)) (\<lambda>l.
           case l of
             Resolved s u \<Rightarrow> ret (Some (s, u))
           | OwnerPending \<Rightarrow> wait_pending_loop fc entry expected deadline n
           | OwnerNotFound \<Rightarrow> ret None)))"

definition wait_for_pending_owner_binding :: "cli_facts \<Rightarrow> caller_entry \<Rightarrow> string \<Rightarrow> (string \<times> string) option io" where
  "wait_for_pending_owner_binding fc entry expected =
     bind (ask clock) (\<lambda>now. (\<lambda>w. wait_pending_loop fc entry expected (now + PENDING_OWNER_BINDING_TIMEOUT_ms) (patience (env w)) w))"

fun resolve_owner_binding :: "cli_facts \<Rightarrow> string option \<Rightarrow> caller_entry list \<Rightarrow> (string \<times> string) option io" where
  "resolve_owner_binding fc expected [] = ret None"
| "resolve_owner_binding fc expected (entry # chain) =
     bind (identity_live entry) (\<lambda>live.
       if \<not> live then resolve_owner_binding fc expected chain
       else bind (resolve_owner_for_pid fc (ce_pid entry) expected) (\<lambda>l.
         case l of
           Resolved s u \<Rightarrow> ret (Some (s, u))
         | OwnerPending \<Rightarrow>
             (case expected of
                None \<Rightarrow> resolve_owner_binding fc expected chain
              | Some u \<Rightarrow> wait_for_pending_owner_binding fc entry u)
         | OwnerNotFound \<Rightarrow> resolve_owner_binding fc expected chain))"

definition resolve_handle_owner_binding ::
  "cli_facts \<Rightarrow> string \<Rightarrow> helper_provenance option \<Rightarrow> caller_entry list \<Rightarrow> (string \<times> string) option io" where
  "resolve_handle_owner_binding fc hdl provenance chain =
     bind (from_provenance hdl provenance) (\<lambda>r.
       case r of
         Inl e \<Rightarrow> raise (io_other (helper_error_text e))
       | Inr _ \<Rightarrow> resolve_owner_binding fc None chain)"

subsection \<open>Who may control a handle\<close>

definition caller_chain_matches_handle :: "meta \<Rightarrow> caller_entry list \<Rightarrow> bool" where
  "caller_chain_matches_handle m chain =
     (case caller_chain m of
        [] \<Rightarrow> False
      | anchor # _ \<Rightarrow>
          if ce_pid anchor \<le> 1 \<or> starttime_ticks anchor = 0 \<or> ce_boot_id anchor = [] then False
          else list_ex (\<lambda>e. ce_pid e = ce_pid anchor \<and> starttime_ticks e = starttime_ticks anchor \<and>
                 ce_boot_id e = ce_boot_id anchor) chain)"

definition acting_session_matches_handle :: "cli_facts \<Rightarrow> string \<Rightarrow> meta \<Rightarrow> caller_entry list \<Rightarrow> string \<Rightarrow> bool io" where
  "acting_session_matches_handle fc hdl m chain recorded =
     bind (resolve_handle_owner_binding fc hdl (delivery_helper m) chain)
       (\<lambda>r. ret (case r of None \<Rightarrow> False | Some (s, _) \<Rightarrow> s = recorded))"

definition handle_matches_control_route :: "cli_facts \<Rightarrow> string \<Rightarrow> meta \<Rightarrow> caller_entry list \<Rightarrow> bool io" where
  "handle_matches_control_route fc hdl m chain =
     (case owner_session_id m of
        Some s \<Rightarrow> acting_session_matches_handle fc hdl m chain s
      | None \<Rightarrow>
          handle_err read_owner
            (\<lambda>e. if kind e = NotFound then ret (caller_chain_matches_handle m chain) else raise e)
            (\<lambda>om. case om_session_id om of
                Some s \<Rightarrow> acting_session_matches_handle fc hdl m chain s
              | None \<Rightarrow> ret (caller_chain_matches_handle m chain)))"

definition read_meta_for_handle :: "string \<Rightarrow> (meta \<Rightarrow> (app_error + 'b) io) \<Rightarrow> (app_error + 'b) io" where
  "read_meta_for_handle hdl f =
     or_app (\<lambda>e. app_error_new EX_DATAERR (''agent-bash: failed to read meta for '' @ hdl @ '': '' @ to_string e)) read_meta f"

definition caller_is_control_eligible ::
  "cli_facts \<Rightarrow> string \<Rightarrow> meta \<Rightarrow> caller_entry list \<Rightarrow> (bool \<Rightarrow> (app_error + 'b) io) \<Rightarrow> (app_error + 'b) io" where
  "caller_is_control_eligible fc hdl m chain f =
     or_app (\<lambda>e. app_error_new EX_IOERR
               (''agent-bash: cannot determine control eligibility for handle '' @ hdl @ '': '' @ to_string e))
       (handle_matches_control_route fc hdl m chain) f"

definition require_control_eligibility :: "cli_facts \<Rightarrow> string \<Rightarrow> caller_entry list \<Rightarrow> (app_error + 'b) io \<Rightarrow> (app_error + 'b) io" where
  "require_control_eligibility fc hdl chain n =
     read_meta_for_handle hdl (\<lambda>m.
     caller_is_control_eligible fc hdl m chain (\<lambda>eligible.
       if eligible then n
       else ret (Inl (app_error_new EX_NOPERM (''agent-bash: caller is not eligible to control handle '' @ hdl)))))"

text \<open>\<^verbatim>\<open>Path::exists\<close>: an error counts as absence, and a symbolic link of the directory has no target in the model.\<close>

definition path_exists :: "fname \<Rightarrow> bool io" where
  "path_exists f = handle_err (sys_lstat f) (\<lambda>_. ret False) (\<lambda>n. ret (n \<noteq> Symlink))"

definition starts_with :: "string \<Rightarrow> string \<Rightarrow> bool" where
  "starts_with p s \<longleftrightarrow> take (length p) s = p"

definition is_v30_handle :: "string \<Rightarrow> bool" where
  "is_v30_handle hdl \<longleftrightarrow> starts_with ''ab30_'' hdl"

definition paths_for_existing_handle :: "cli_facts \<Rightarrow> string \<Rightarrow> (app_error + 'b) io \<Rightarrow> (app_error + 'b) io" where
  "paths_for_existing_handle fc hdl n =
     (if is_v30_handle hdl
      then ret (Inl (app_error_new EX_UNAVAILABLE (''agent-bash: v30 broker handle route unavailable: '' @ hdl)))
      else case state_root_result fc of
        Inl e \<Rightarrow> ret (Inl (app_error_new EX_CANTCREAT (''agent-bash: state root unavailable: '' @ e)))
      | Inr _ \<Rightarrow>
          bind (path_exists (F MetaFile)) (\<lambda>known.
            if known then n else ret (Inl (app_error_new EX_NOINPUT (''agent-bash: unknown handle: '' @ hdl)))))"

subsection \<open>Commands that change a handle\<close>

definition json_write_error :: "io_error \<Rightarrow> app_error" where
  "json_write_error e = app_error_new EX_IOERR (''agent-bash: failed to write JSON: '' @ to_string e)"

definition emit_json :: "json_codec \<Rightarrow> json \<Rightarrow> (app_error + bytes) io" where
  "emit_json jc v =
     or_app json_write_error (bind (lift_result (json_to_vec jc v)) (\<lambda>d. seq (sys (ret ())) (ret d))) (\<lambda>d.
     or_app json_write_error (sys (ret ())) (\<lambda>_. ret (Inr (d @ [newline_char]))))"

definition json_text :: "string option \<Rightarrow> json" where
  "json_text x = (case x of None \<Rightarrow> JNull | Some s \<Rightarrow> JStr s)"

fun wake_text :: "cancel_wake \<Rightarrow> string" where
  "wake_text WakeNotRequested = ''not-requested''"
| "wake_text CustodyPolling = ''custody-polling''"
| "wake_text Sent = ''sent''"
| "wake_text SupervisorGone = ''supervisor-gone''"
| "wake_text WakeFailed = ''failed''"

definition cancel_request_error :: "string \<Rightarrow> io_error \<Rightarrow> app_error" where
  "cancel_request_error hdl e = app_error_new EX_IOERR (''agent-bash: failed to cancel '' @ hdl @ '': '' @ to_string e)"

definition cancel_command ::
  "json_codec \<Rightarrow> codec \<Rightarrow> root_context \<Rightarrow> cli_facts \<Rightarrow> bool \<Rightarrow> string \<Rightarrow> caller_entry list \<Rightarrow> (app_error + bytes) io" where
  "cancel_command jc cd cx fc role hdl chain =
     paths_for_existing_handle fc hdl
       (require_control_eligibility fc hdl chain
         (bind is_root_owned (\<lambda>owned.
            if owned
            then or_app (cancel_request_error hdl) (cancel_root_work cd cx) (\<lambda>r.
                   case r of
                     None \<Rightarrow> ret (Inl (cancel_request_error hdl (io_other ''root-owned work lost its acceptance receipt'')))
                   | Some response \<Rightarrow>
                       emit_json jc (JObj [(''handle'', JStr hdl), (''requested'', JBool (wr_status response = ''cancellation_accepted'')),
                         (''root_status'', JStr (wr_status response)), (''root_detail'', json_text (wr_detail response))]))
            else or_app (cancel_request_error hdl) (request_cancel role) (\<lambda>c.
                   emit_json jc (JObj [(''handle'', JStr hdl), (''requested'', JBool (requested c)),
                     (''wake'', JStr (wake_text (wake c))), (''wake_error'', json_text (wake_error c))])))))"

definition detach_json :: "detach_outcome \<Rightarrow> json" where
  "detach_json d =
     JObj [(''handle'', JStr (do_handle d)), (''delivery_mode'', JStr (delivery_mode_as_str (do_delivery_mode d))),
       (''state'', JStr (do_state d)), (''transitioned'', JBool (transitioned d)),
       (''notification_attempted'', JBool (terminal_activation_requests_notification d))]"

definition detach_command :: "json_codec \<Rightarrow> cli_facts \<Rightarrow> string \<Rightarrow> caller_entry list \<Rightarrow> (app_error + bytes) io" where
  "detach_command jc fc hdl chain =
     paths_for_existing_handle fc hdl
       (require_control_eligibility fc hdl chain
         (or_app (\<lambda>e. app_error_new EX_IOERR (''agent-bash: failed to update delivery mode for '' @ hdl @ '': '' @ to_string e))
            detach (\<lambda>d. emit_json jc (detach_json d))))"

definition mode_command :: "cli_facts \<Rightarrow> string \<Rightarrow> caller_entry list \<Rightarrow> (app_error + bytes) io" where
  "mode_command fc hdl chain =
     paths_for_existing_handle fc hdl
       (read_meta_for_handle hdl (\<lambda>m.
        caller_is_control_eligible fc hdl m chain (\<lambda>eligible.
        or_app (\<lambda>e. app_error_new EX_IOERR (''agent-bash: failed to determine delivery mode for '' @ hdl @ '': '' @ to_string e))
          (if eligible then settled_delivery_mode else observed_delivery_mode)
          (\<lambda>mode. ret (Inr (delivery_mode_as_str mode @ [newline_char]))))))"

definition output_error :: "io_error \<Rightarrow> app_error" where
  "output_error e = app_error_new EX_DATAERR (''agent-bash: retained output unavailable or invalid: '' @ to_string e)"

definition terminal_output_meta :: "string \<Rightarrow> (meta \<Rightarrow> (app_error + 'b) io) \<Rightarrow> (app_error + 'b) io" where
  "terminal_output_meta hdl f =
     read_meta_for_handle hdl (\<lambda>m.
       if handle m \<noteq> hdl \<or> \<not> terminal m
       then ret (Inl (output_error (io_other ''mismatched identity or non-terminal source'')))
       else f m)"

definition accept_output_command ::
  "json_codec \<Rightarrow> cli_facts \<Rightarrow> string \<Rightarrow> string + retained_identity \<Rightarrow> caller_entry list \<Rightarrow> (app_error + bytes) io" where
  "accept_output_command jc fc hdl snapshot chain =
     paths_for_existing_handle fc hdl
       (case snapshot of
          Inl e \<Rightarrow> ret (Inl (output_error (io_other e)))
        | Inr i \<Rightarrow>
            or_app output_error lock_output (\<lambda>_.
            require_control_eligibility fc hdl chain
              (terminal_output_meta hdl (\<lambda>m.
               or_app output_error (validate_retained jc m i) (\<lambda>_.
               or_app output_error (record_receipt jc i) (\<lambda>updated.
                 emit_json jc (JObj [(''version'', jnat 1), (''handle'', JStr hdl), (''receipt_updated'', JBool updated),
                   (''local_receipt'', JStr ''durable''), (''snapshot'', identity_json i),
                   (''remote_ack'', JStr ''unconfirmed''), (''physical_drain'', JStr ''unconfirmed'')])))))))"

subsection \<open>Status\<close>

datatype done_reason = DoneExit | DoneReadySentinel bool | DoneExitBeforeReady | DoneCancellation cancellation_cause

datatype status_header = HeaderRunning string | HeaderDone string int done_reason | HeaderError string int

definition done_reason_of :: "meta \<Rightarrow> done_reason" where
  "done_reason_of m =
     (case (case completion_reason m of None \<Rightarrow> None | Some r \<Rightarrow> cause_from_completion_reason r) of
        Some cause \<Rightarrow> DoneCancellation cause
      | None \<Rightarrow>
          if run_mode m = ''sentinel'' \<and> completion_reason m = Some ''ready-sentinel''
          then DoneReadySentinel (workload_rc m = None)
          else if run_mode m = ''sentinel'' \<and> completion_reason m = Some ''exit-before-ready'' then DoneExitBeforeReady
          else DoneExit)"

definition validated_status_header :: "meta \<Rightarrow> int option \<Rightarrow> app_error + status_header" where
  "validated_status_header m rc_from_file =
     (if state m = ''RUNNING'' then Inr (HeaderRunning (handle m))
      else if state m = ''DONE''
      then (case rc_from_file of
              None \<Rightarrow> Inl (app_error_new EX_DATAERR (''agent-bash: inconsistent state for handle '' @ handle m))
            | Some r \<Rightarrow> Inr (HeaderDone (handle m) r (done_reason_of m)))
      else if state m = ''ERROR''
      then Inr (HeaderError (handle m)
             (case rc_from_file of Some r \<Rightarrow> r | None \<Rightarrow> (case rc m of Some r \<Rightarrow> r | None \<Rightarrow> EX_SOFTWARE)))
      else Inl (app_error_new EX_DATAERR (''agent-bash: corrupt state for handle '' @ handle m)))"

definition workload_state :: "bool \<Rightarrow> string" where
  "workload_state running = (if running then ''running'' else ''exited'')"

fun format_done_header :: "string \<Rightarrow> int \<Rightarrow> done_reason \<Rightarrow> string" where
  "format_done_header hdl r (DoneReadySentinel running) =
     ''DONE rc='' @ int_dec r @ '' handle='' @ hdl @ '' reason=ready-sentinel workload='' @ workload_state running"
| "format_done_header hdl r DoneExitBeforeReady = ''DONE rc='' @ int_dec r @ '' handle='' @ hdl @ '' reason=exit-before-ready''"
| "format_done_header hdl r (DoneCancellation cause) =
     ''DONE rc='' @ int_dec r @ '' handle='' @ hdl @ '' reason='' @ cause_completion_reason cause"
| "format_done_header hdl r DoneExit = ''DONE rc='' @ int_dec r @ '' handle='' @ hdl"

fun format_status_header :: "status_header \<Rightarrow> string" where
  "format_status_header (HeaderRunning hdl) = ''RUNNING handle='' @ hdl"
| "format_status_header (HeaderDone hdl r reason) = format_done_header hdl r reason"
| "format_status_header (HeaderError hdl r) = ''ERROR rc='' @ int_dec r @ '' handle='' @ hdl"

definition render_status_header :: "meta \<Rightarrow> int option \<Rightarrow> app_error + string" where
  "render_status_header m rc_from_file =
     (case validated_status_header m rc_from_file of Inl e \<Rightarrow> Inl e | Inr h \<Rightarrow> Inr (format_status_header h))"

definition reconcile_status_meta :: "bool \<Rightarrow> string \<Rightarrow> meta \<Rightarrow> (app_error + meta) io" where
  "reconcile_status_meta role hdl m =
     (let failed = (\<lambda>e. app_error_new EX_IOERR (''agent-bash: failed to reconcile state for '' @ hdl @ '': '' @ to_string e))
      in if completion_delivery_pending m
         then or_app failed (reconcile_completion_delivery role) (\<lambda>r. ret (Inr (case r of Some m' \<Rightarrow> m' | None \<Rightarrow> m)))
         else if \<not> running_exit_mode m then ret (Inr m)
         else or_app failed (reconcile_lost_supervisor role) (\<lambda>m'. ret (Inr m')))"

definition status_log_read_error :: "string \<Rightarrow> io_error \<Rightarrow> app_error" where
  "status_log_read_error hdl e = app_error_new EX_IOERR (''agent-bash: failed to read log for '' @ hdl @ '': '' @ to_string e)"

definition status_write_error :: "io_error \<Rightarrow> app_error" where
  "status_write_error e = app_error_new EX_IOERR (''agent-bash: failed to write status: '' @ to_string e)"

text \<open>
  The log is copied in chunks of at most 8192 bytes; what was printed before an error stays printed. A command
  with such output returns it beside its result.
\<close>

function copy_log :: "string \<Rightarrow> bytes \<Rightarrow> bytes \<Rightarrow> (bytes \<times> app_error option) io" where
  "copy_log hdl printed rest =
     handle_err (sys (ret ())) (\<lambda>e. ret (printed, Some (status_log_read_error hdl e)))
       (\<lambda>_. if rest = [] then ret (printed, None)
            else handle_err (sys (ret ())) (\<lambda>e. ret (printed, Some (status_write_error e)))
                   (\<lambda>_. copy_log hdl (printed @ take 8192 rest) (drop 8192 rest)))"
  by pat_completeness auto
termination by (relation "measure (\<lambda>(_, _, rest). length rest)") auto

declare copy_log.simps [simp del]

definition write_log_for_status :: "string \<Rightarrow> bool \<Rightarrow> nat \<Rightarrow> bytes \<Rightarrow> (bytes \<times> app_error option) io" where
  "write_log_for_status hdl full tail_bytes printed =
     (let failed = (\<lambda>e. ret (printed, Some (status_log_read_error hdl e)))
      in handle_err (open_read_no_follow (F Log))
           (\<lambda>e. if kind e = NotFound then ret (printed, None) else failed e)
           (\<lambda>n. handle_err (seq (sys (ret ())) (case n of Regular c \<Rightarrow> text_of c | _ \<Rightarrow> raise err_is_dir)) failed (\<lambda>d.
              (let start = (if full then 0 else length d - tail_bytes)
               in handle_err (sys (ret ())) failed (\<lambda>_. copy_log hdl printed (drop start d))))))"

definition status_command ::
  "cli_facts \<Rightarrow> bool \<Rightarrow> string \<Rightarrow> nat \<Rightarrow> bool \<Rightarrow> bool \<Rightarrow> caller_entry list \<Rightarrow> (bytes \<times> app_error option) io" where
  "status_command fc role hdl tail_bytes full observe_only chain =
     bind (paths_for_existing_handle fc hdl
       (read_meta_for_handle hdl (\<lambda>m.
        and_then
          (if observe_only then ret (Inr m)
           else caller_is_control_eligible fc hdl m chain (\<lambda>eligible.
                  if eligible then reconcile_status_meta role hdl m else ret (Inr m)))
          (\<lambda>m'. bind (path_exists (F Rc)) (\<lambda>there.
             or_app (\<lambda>e. app_error_new EX_DATAERR (''agent-bash: failed to read rc for '' @ hdl @ '': '' @ to_string e))
               (if there then bind read_rc (\<lambda>r. ret (Some r)) else ret None)
               (\<lambda>rc_from_file. ret (render_status_header m' rc_from_file))))))) (\<lambda>header.
       case header of
         Inl e \<Rightarrow> ret ([], Some e)
       | Inr h \<Rightarrow> write_log_for_status hdl full tail_bytes (h @ [newline_char] @ ''--- output ---'' @ [newline_char]))"

definition snapshot_command :: "json_codec \<Rightarrow> cli_facts \<Rightarrow> string \<Rightarrow> nat option \<Rightarrow> (app_error + bytes) io" where
  "snapshot_command jc fc hdl wanted_bytes =
     paths_for_existing_handle fc hdl
       (or_app output_error lock_output (\<lambda>_.
        terminal_output_meta hdl (\<lambda>m.
        or_app output_error (acquire jc m wanted_bytes) (\<lambda>s.
        or_app output_error read_rc (\<lambda>r.
          case render_status_header m (Some r) of
            Inl e \<Rightarrow> ret (Inl e)
          | Inr header \<Rightarrow>
              emit_json jc (JObj [(''snapshot'', identity_json (rsn_identity s)), (''output'', JStr (rsn_output s)),
                (''status'', JStr header)]))))))"

subsection \<open>The list\<close>

definition handle_is_visible_to_caller :: "meta \<Rightarrow> caller_entry list \<Rightarrow> string option \<Rightarrow> bool io" where
  "handle_is_visible_to_caller m chain acting =
     (case owner_session_id m of
        Some s \<Rightarrow> ret (acting = Some s)
      | None \<Rightarrow>
          handle_err read_owner
            (\<lambda>e. ret (kind e = NotFound \<and> caller_chain_matches_handle m chain))
            (\<lambda>om. ret (case om_session_id om of
                Some s \<Rightarrow> acting = Some s
              | None \<Rightarrow> caller_chain_matches_handle m chain)))"

definition reconcile_list_meta :: "bool \<Rightarrow> meta \<Rightarrow> meta option io" where
  "reconcile_list_meta role m =
     (if \<not> running_exit_mode m then ret (Some m)
      else handle_err (reconcile_lost_supervisor_for_list role) (\<lambda>_. ret None) (\<lambda>m'. ret (Some m')))"

definition summary_of :: "string \<Rightarrow> meta \<Rightarrow> list_summary io" where
  "summary_of dir m =
     bind (attempt observed_delivery_mode) (\<lambda>mode.
       ret (list_summary_from_meta m dir (case mode of Inl e \<Rightarrow> Inl (to_string e) | Inr d \<Rightarrow> Inr d)))"

definition list_summary_for_entry ::
  "bool \<Rightarrow> string \<Rightarrow> string \<Rightarrow> bool \<Rightarrow> caller_entry list \<Rightarrow> string option \<Rightarrow> bool \<Rightarrow> list_summary option io" where
  "list_summary_for_entry role dir entry is_dir chain acting all_handles =
     (if \<not> is_dir \<or> is_v30_handle entry then ret None
      else handle_err read_meta (\<lambda>_. ret None) (\<lambda>m.
        if all_handles then bind (summary_of dir m) (\<lambda>s. ret (Some s))
        else bind (handle_is_visible_to_caller m chain acting) (\<lambda>owned.
          if \<not> owned then ret None
          else bind (reconcile_list_meta role m) (\<lambda>r.
            case r of None \<Rightarrow> ret None | Some m' \<Rightarrow> bind (summary_of dir m') (\<lambda>s. ret (Some s))))))"

definition sort_summaries :: "list_summary list \<Rightarrow> list_summary list" where
  "sort_summaries = sort_key (\<lambda>s. (ls_created_at_unix_ms s, ls_handle s))"

definition format_optional_rc :: "int option \<Rightarrow> string" where
  "format_optional_rc r = (case r of None \<Rightarrow> ''-'' | Some v \<Rightarrow> int_dec v)"

definition format_list_summary :: "list_summary \<Rightarrow> string" where
  "format_list_summary s =
     ls_handle s @ '' '' @ ls_state s @ '' rc='' @ format_optional_rc (ls_rc s) @ '' mode='' @ ls_mode s @ '' delivery='' @
     (case ls_delivery_mode s of None \<Rightarrow> ''unavailable'' | Some d \<Rightarrow> delivery_mode_as_str d) @
     '' created_at='' @ nat_dec (ls_created_at_unix_ms s) @ '' state_dir='' @ ls_state_dir s"

text \<open>
  Every directory entry is a world of its own. The entries are summarised in turn; an entry that cannot be read
  ends the command.
\<close>

fun list_summaries ::
  "bool \<Rightarrow> caller_entry list \<Rightarrow> string option \<Rightarrow> bool \<Rightarrow> (io_error + string \<times> string \<times> bool \<times> world) list \<Rightarrow>
   (app_error + list_summary list) outcome" where
  "list_summaries role chain acting all_handles [] = Done (Inr [])"
| "list_summaries role chain acting all_handles (Inl e # entries) =
     Done (Inl (app_error_new EX_IOERR (''agent-bash: failed to read state root: '' @ to_string e)))"
| "list_summaries role chain acting all_handles (Inr (dir, entry, is_dir, w) # entries) =
     (case fst (list_summary_for_entry role dir entry is_dir chain acting all_handles w) of
        Done found \<Rightarrow>
          (case list_summaries role chain acting all_handles entries of
             Done (Inr rest) \<Rightarrow> Done (Inr (case found of Some s \<Rightarrow> s # rest | None \<Rightarrow> rest))
           | r \<Rightarrow> r)
      | Raise e \<Rightarrow> Raise e
      | Halted \<Rightarrow> Halted)"

definition list_text :: "app_error + list_summary list \<Rightarrow> app_error + string" where
  "list_text r = (case r of Inl e \<Rightarrow> Inl e
     | Inr ss \<Rightarrow> Inr (concat (map (\<lambda>s. format_list_summary s @ [newline_char]) (sort_summaries ss))))"

end
