(* ===== verification/Command_Laws.thy ===== *)
theory Command_Laws
  imports Commands
begin

section \<open>Laws of the commands\<close>

text \<open>
  A caller that is not eligible changes nothing of a handle, whichever command it uses; an accepted output is exactly a prefix of
  the log, and its receipt is replaced as a whole; a status shows the outcome that is on disk and exactly the end of the log.
\<close>

subsection \<open>Eligibility\<close>

text \<open>A process of the caller's chain that the session lookup names as one of a session.\<close>

definition vouched :: "cli_facts \<Rightarrow> caller_entry list \<Rightarrow> string \<Rightarrow> bool" where
  "vouched fc chain sid \<longleftrightarrow>
     (\<exists>entry\<in>set chain. \<exists>t u. lookup_result fc (ce_pid entry) None (of_pid fc t (ce_pid entry)) = Inr (Resolved sid u))"

definition recorded_session :: "(fname \<rightharpoonup> node) \<Rightarrow> meta \<Rightarrow> string option" where
  "recorded_session fs m =
     (case owner_session_id m of
        Some sid \<Rightarrow> Some sid
      | None \<Rightarrow> (case fs (F Owner) of Some (Regular (OwnerDoc om)) \<Rightarrow> om_session_id om | _ \<Rightarrow> None))"

definition may_control :: "cli_facts \<Rightarrow> caller_entry list \<Rightarrow> (fname \<rightharpoonup> node) \<Rightarrow> bool" where
  "may_control fc chain fs \<longleftrightarrow>
     (\<exists>m. fs (F MetaFile) = Some (Regular (Doc m)) \<and>
        (case recorded_session fs m of
           Some sid \<Rightarrow> vouched fc chain sid
         | None \<Rightarrow> caller_chain_matches_handle m chain))"

lemma may_control_cong:
  "fs (F MetaFile) = gs (F MetaFile) \<Longrightarrow> fs (F Owner) = gs (F Owner) \<Longrightarrow> may_control fc chain fs = may_control fc chain gs"
  by (simp add: may_control_def recorded_session_def cong: option.case_cong)

abbreviation still :: "'a io \<Rightarrow> view \<Rightarrow> ('a \<Rightarrow> bool) \<Rightarrow> bool" where
  "still m s P \<equiv> spec m s (\<lambda>a t. t = s \<and> P a) (\<lambda>_ t. t = s) (\<lambda>t. t = s)"

lemma still_bind: "still m s P \<Longrightarrow> (\<And>a. P a \<Longrightarrow> still (f a) s Q) \<Longrightarrow> still (bind m f) s Q"
  by (rule spec_bind, erule spec_mono) auto

lemma still_keeps: "(\<And>I. keeps I m) \<Longrightarrow> still m s (\<lambda>_. True)"
  by (rule keeps_spec [of "\<lambda>t. t = s"]) simp_all

lemma keeps_identity_live [keeps_rules]: "keeps I (identity_live entry)"
  unfolding identity_live_def by (intro keeps_rules)

text \<open>A session lookup starts the helper and changes nothing else.\<close>

definition looked :: "view \<Rightarrow> view \<Rightarrow> bool" where
  "looked s t \<longleftrightarrow> (\<exists>n. t = s\<lparr>vspawned := vspawned s @ replicate n ''session of-pid''\<rparr>)"

lemma looked_refl [simp]: "looked s s"
  unfolding looked_def by (rule exI [of _ 0]) simp

lemma looked_trans: "looked s t \<Longrightarrow> looked t u \<Longrightarrow> looked s u"
  unfolding looked_def by (auto simp flip: replicate_add)

lemma looked_once [simp]: "looked s (started ''session of-pid'' s)"
  unfolding looked_def by (rule exI [of _ 1]) simp

lemma looked_files: "looked s t \<Longrightarrow> vfiles t = vfiles s"
  by (auto simp: looked_def)

abbreviation asking :: "'a io \<Rightarrow> view \<Rightarrow> ('a \<Rightarrow> bool) \<Rightarrow> bool" where
  "asking m s P \<equiv> spec m s (\<lambda>a t. looked s t \<and> P a) (\<lambda>_. looked s) (looked s)"

lemma asking_bind: "asking m s P \<Longrightarrow> (\<And>a t. P a \<Longrightarrow> looked s t \<Longrightarrow> asking (f a) t Q) \<Longrightarrow> asking (bind m f) s Q"
  by (rule spec_bind, erule spec_mono) (auto intro: spec_mono looked_trans)

lemma asking_still: "still m s P \<Longrightarrow> (\<And>a. P a \<Longrightarrow> asking (f a) s Q) \<Longrightarrow> asking (bind m f) s Q"
  by (rule spec_bind, erule spec_mono) auto

lemma asking_ret: "P a \<Longrightarrow> asking (ret a) s P"
  by (rule spec_ret) simp

lemma asking_lookup:
  assumes "\<And>l t. lookup_result fc p expected (of_pid fc t p) = Inr l \<Longrightarrow> P l"
  shows "asking (resolve_owner_for_pid fc p expected) s P"
proof -
  have ask: "still (ask (\<lambda>_ t. of_pid fc t p)) s (\<lambda>a. \<exists>t. of_pid fc t p = a)"
    by (auto simp: spec_def ask_def)
  have run: "asking (seq (log_spawn ''session of-pid'') (seq may_stop (lift_result (lookup_result fc p expected a)))) s P"
    if "\<exists>t. of_pid fc t p = a" for a
    by (intro spec_bind spec_log_spawn spec_may_stop spec_lift_result) (use assms that in auto)
  have failed: "asking (raise e) s P" for e by (rule spec_raise) simp
  show ?thesis
    unfolding resolve_owner_for_pid_def
    by (rule asking_still [OF ask]) (auto split: lookup_answer.split helper_reply.split intro!: run failed)
qed

lemma asking_resolve:
  "asking (resolve_owner_binding fc None chain) s (\<lambda>r. \<forall>sid u. r = Some (sid, u) \<longrightarrow> vouched fc chain sid)"
proof (induction chain arbitrary: s)
  case (Cons entry chain)
  have rest: "asking (resolve_owner_binding fc None chain) t (\<lambda>r. \<forall>sid u. r = Some (sid, u) \<longrightarrow> vouched fc (entry # chain) sid)" for t
    by (rule spec_mono [OF Cons]) (auto simp: vouched_def)
  have lookup: "asking (resolve_owner_for_pid fc (ce_pid entry) None) s
      (\<lambda>l. \<forall>sid u. l = Resolved sid u \<longrightarrow> vouched fc (entry # chain) sid)"
    by (rule asking_lookup) (auto simp: vouched_def)
  show ?case
    unfolding resolve_owner_binding.simps
    by (rule asking_still [OF still_keeps [OF keeps_identity_live]], rule spec_if, rule rest, rule asking_bind [OF lookup])
      (use rest in \<open>auto split: owner_lookup.split intro!: asking_ret\<close>)
qed (auto intro: asking_ret)

lemma keeps_provenance: "keeps I (from_provenance hdl p)"
  unfolding from_provenance_def by (intro keeps_rules)

lemma asking_acting: "asking (acting_session_matches_handle fc hdl m chain sid) s (\<lambda>b. b \<longrightarrow> vouched fc chain sid)"
proof -
  have "asking (resolve_handle_owner_binding fc hdl pr chain) s (\<lambda>r. \<forall>x u. r = Some (x, u) \<longrightarrow> vouched fc chain x)" for pr
    unfolding resolve_handle_owner_binding_def
    by (rule asking_still [OF still_keeps [OF keeps_provenance]], rule spec_sum, rule spec_raise, simp, rule asking_resolve)
  then show ?thesis
    unfolding acting_session_matches_handle_def
    by (rule asking_bind) (auto intro!: asking_ret split: option.split)
qed

lemma spec_read_owner:
  assumes "\<And>om. vfiles s (F Owner) = Some (Regular (OwnerDoc om)) \<Longrightarrow> Q om s"
    and "vfiles s (F Owner) = None \<Longrightarrow> E err_not_found s" and "\<And>e. hard e \<Longrightarrow> E e s" and "H s"
  shows "spec read_owner s Q E H"
  unfolding read_owner_def
  by (intro spec_bind spec_open_read spec_sys)
    (use assms in \<open>auto split: content.splits intro!: spec_raise spec_ret\<close>)

lemma asking_route:
  assumes "vfiles s (F MetaFile) = Some (Regular (Doc m))"
  shows "asking (handle_matches_control_route fc hdl m chain) s (\<lambda>b. b \<longrightarrow> may_control fc chain (vfiles s))"
proof -
  have session: "asking (acting_session_matches_handle fc hdl m chain sid) s (\<lambda>b. b \<longrightarrow> may_control fc chain (vfiles s))"
    if "recorded_session (vfiles s) m = Some sid" for sid
    by (rule spec_mono [OF asking_acting]) (use assms that in \<open>auto simp: may_control_def\<close>)
  have chain: "asking (ret (caller_chain_matches_handle m chain)) s (\<lambda>b. b \<longrightarrow> may_control fc chain (vfiles s))"
    if "recorded_session (vfiles s) m = None"
    by (rule asking_ret) (use assms that in \<open>auto simp: may_control_def\<close>)
  have owner: "asking (handle_err read_owner
      (\<lambda>e. if kind e = NotFound then ret (caller_chain_matches_handle m chain) else raise e)
      (\<lambda>om. case om_session_id om of Some sid \<Rightarrow> acting_session_matches_handle fc hdl m chain sid
         | None \<Rightarrow> ret (caller_chain_matches_handle m chain))) s (\<lambda>b. b \<longrightarrow> may_control fc chain (vfiles s))"
    if "owner_session_id m = None"
    by (rule spec_handle_err, rule spec_read_owner)
      (use that in \<open>auto intro!: session chain spec_option spec_raise simp: recorded_session_def hard_def\<close>)
  show ?thesis
    unfolding handle_matches_control_route_def
    by (rule spec_option) (auto intro!: session owner simp: recorded_session_def)
qed

subsection \<open>Nothing changes without it\<close>

text \<open>The commands that could change a handle.\<close>

datatype control_request =
  ControlCancel | ControlDetach | ControlMode | ControlAccept "string + retained_identity" | ControlStatus nat bool

fun control_command ::
  "json_codec \<Rightarrow> codec \<Rightarrow> root_context \<Rightarrow> cli_facts \<Rightarrow> bool \<Rightarrow> string \<Rightarrow> caller_entry list \<Rightarrow> control_request \<Rightarrow> unit io" where
  "control_command jc cd cx fc role hdl chain ControlCancel = ignore_err (cancel_command jc cd cx fc role hdl chain)"
| "control_command jc cd cx fc role hdl chain ControlDetach = ignore_err (detach_command jc fc hdl chain)"
| "control_command jc cd cx fc role hdl chain ControlMode = ignore_err (mode_command fc hdl chain)"
| "control_command jc cd cx fc role hdl chain (ControlAccept i) = ignore_err (accept_output_command jc fc hdl i chain)"
| "control_command jc cd cx fc role hdl chain (ControlStatus n full) =
     ignore_err (status_command fc role hdl n full False chain)"

definition untouched :: "view \<Rightarrow> view \<Rightarrow> bool" where
  "untouched s t \<longleftrightarrow> (\<forall>f. f \<noteq> F OutputLock \<longrightarrow> vfiles t f = vfiles s f) \<and> vwire t = vwire s \<and>
     (\<exists>n. vspawned t = vspawned s @ replicate n ''session of-pid'')"

lemma untouched_refl [simp]: "untouched s s"
  unfolding untouched_def by (auto intro: exI [of _ 0])

lemma untouched_looked: "untouched s t \<Longrightarrow> looked t u \<Longrightarrow> untouched s u"
  unfolding untouched_def looked_def by (auto simp flip: replicate_add)

lemma untouched_lock [simp]: "ignores (untouched s) (F OutputLock)"
  by (simp add: ignores_def untouched_def)

lemma untouched_control: "untouched s t \<Longrightarrow> may_control fc chain (vfiles t) = may_control fc chain (vfiles s)"
  by (rule may_control_cong) (simp_all add: untouched_def)

lemma keeps_or_app [keeps_rules]: "keeps I m \<Longrightarrow> (\<And>a. keeps I (f a)) \<Longrightarrow> keeps I (or_app c m f)"
  unfolding or_app_def by (intro keeps_rules)

lemma keeps_and_then [keeps_rules]: "keeps I m \<Longrightarrow> (\<And>a. keeps I (f a)) \<Longrightarrow> keeps I (and_then m f)"
  unfolding and_then_def by (intro keeps_rules)

lemma keeps_path_exists [keeps_rules]: "\<not> is_tmp f \<Longrightarrow> keeps I (path_exists f)"
  unfolding path_exists_def by (intro keeps_rules)

lemma keeps_existing: "keeps I n \<Longrightarrow> keeps I (paths_for_existing_handle fc hdl n)"
  unfolding paths_for_existing_handle_def by (intro keeps_rules) simp_all

text \<open>Past the eligibility check an operation may assume that the caller may control the handle.\<close>

abbreviation leaves :: "view \<Rightarrow> 'a io \<Rightarrow> view \<Rightarrow> bool" where
  "leaves s m t \<equiv> spec m t (\<lambda>_. untouched s) (\<lambda>_. untouched s) (untouched s)"

lemma leaves_eligible:
  assumes "\<not> may_control fc chain (vfiles s)" and "untouched s t" and "vfiles t (F MetaFile) = Some (Regular (Doc m))"
    and "keeps (untouched s) (f False)"
  shows "leaves s (caller_is_control_eligible fc hdl m chain f) t"
  unfolding caller_is_control_eligible_def or_app_def
  by (rule spec_handle_err, rule spec_mono [OF asking_route [OF assms(3)]])
    (use assms(1) untouched_looked [OF assms(2)] untouched_control [OF assms(2)] in
      \<open>auto intro!: spec_ret keepsD [OF assms(4)]\<close>)

lemma keeps_with_meta:
  assumes "\<And>m t. untouched s t \<Longrightarrow> vfiles t (F MetaFile) = Some (Regular (Doc m)) \<Longrightarrow> leaves s (f m) t"
  shows "keeps (untouched s) (read_meta_for_handle hdl f)"
  unfolding read_meta_for_handle_def or_app_def
  by (rule keepsI, rule spec_handle_err, rule spec_read_meta) (use assms in \<open>auto intro!: spec_ret\<close>)

lemma keeps_refused: "\<not> may_control fc chain (vfiles s) \<Longrightarrow> keeps (untouched s) (require_control_eligibility fc hdl chain n)"
  unfolding require_control_eligibility_def by (intro keeps_with_meta leaves_eligible) (simp_all add: keeps_ret)

lemma keeps_open_node [keeps_rules]: "\<not> is_tmp f \<Longrightarrow> keeps I (open_read_no_follow f)"
  unfolding open_read_no_follow_def
  by (rule keepsI) (intro spec_sys spec_bind spec_lookup; auto split: option.split node.split intro!: spec_ret spec_raise)

lemma keeps_node [keeps_rules]:
  "(\<And>c. keeps I (f c)) \<Longrightarrow> keeps I g \<Longrightarrow> keeps I h \<Longrightarrow> keeps I (case n of Regular c \<Rightarrow> f c | Directory \<Rightarrow> g | Symlink \<Rightarrow> h)"
  by (cases n) simp_all

lemma keeps_cases: "(b \<Longrightarrow> keeps I m) \<Longrightarrow> (\<not> b \<Longrightarrow> keeps I n) \<Longrightarrow> keeps I (if b then m else n)"
  by simp

lemma keeps_copy_log: "keeps I (copy_log hdl printed rest)"
proof (induction hdl printed rest rule: copy_log.induct)
  case (1 hdl printed rest)
  show ?case
    by (subst copy_log.simps) (intro keeps_handle_err keeps_sys keeps_ret keeps_cases 1)
qed

lemma keeps_text_of: "keeps I (text_of c)"
  unfolding text_of_def by (intro keeps_rules)

lemma keeps_write_log: "keeps I (write_log_for_status hdl full n printed)"
  unfolding write_log_for_status_def Let_def by (intro keeps_rules keeps_copy_log keeps_text_of) simp_all

lemma keeps_lock_output: "ignores I (F OutputLock) \<Longrightarrow> keeps I lock_output"
  unfolding lock_output_def by (intro keeps_rules) simp_all

lemma keeps_read_rc: "keeps I read_rc"
  unfolding read_rc_def by (intro keeps_rules) simp_all

lemma leaves_control:
  assumes "\<not> may_control fc chain (vfiles s)"
  shows "keeps (untouched s) (control_command jc cd cx fc role hdl chain c)"
proof (cases c)
  case ControlCancel
  then show ?thesis by (simp add: cancel_command_def keeps_ignore_err keeps_existing keeps_refused [OF assms])
next
  case ControlDetach
  then show ?thesis by (simp add: detach_command_def keeps_ignore_err keeps_existing keeps_refused [OF assms])
next
  case ControlMode
  have "keeps (untouched s) (or_app e (if False then settled_delivery_mode else observed_delivery_mode)
      (\<lambda>mode. ret (Inr (delivery_mode_as_str mode @ [newline_char]))))" for e
    unfolding if_False by (intro keeps_rules)
  with ControlMode show ?thesis
    unfolding ControlMode control_command.simps mode_command_def
    by (intro keeps_ignore_err keeps_existing keeps_with_meta leaves_eligible [OF assms])
next
  case (ControlAccept i)
  then show ?thesis
    by (simp add: accept_output_command_def)
      (intro keeps_rules keeps_existing keeps_refused [OF assms] keeps_lock_output untouched_lock)
next
  case (ControlStatus n full)
  have header: "keeps (untouched s) (bind (path_exists (F Rc)) (\<lambda>there. or_app e
      (if there then bind read_rc (\<lambda>r. ret (Some r)) else ret None) (\<lambda>x. ret (g x))))" for e and g :: "int option \<Rightarrow> app_error + bytes"
    by (intro keeps_rules keeps_read_rc) simp_all
  have stay: "keeps (untouched s) (if False then reconcile_status_meta role hdl m else ret (Inr m))" for m
    by (simp add: keeps_ret)
  have checked: "leaves s (and_then (caller_is_control_eligible fc hdl m chain (\<lambda>eligible. if eligible then reconcile_status_meta role hdl m else ret (Inr m)))
      h) t"
    if "untouched s t" "vfiles t (F MetaFile) = Some (Regular (Doc m))" "\<And>m. keeps (untouched s) (h m)" for m t and h :: "meta \<Rightarrow> (app_error + bytes) io"
    unfolding and_then_def
    by (rule spec_bind, rule spec_mono, rule leaves_eligible [OF assms that(1,2)], rule stay)
      (auto split: sum.split intro!: spec_ret keepsD [OF that(3)])
  have known: "keeps (untouched s) (read_meta_for_handle hdl (\<lambda>m. and_then (caller_is_control_eligible fc hdl m chain
      (\<lambda>eligible. if eligible then reconcile_status_meta role hdl m else ret (Inr m))) h))"
    if "\<And>m. keeps (untouched s) (h m)" for h :: "meta \<Rightarrow> (app_error + bytes) io"
    by (rule keeps_with_meta, rule checked [OF _ _ that])
  show ?thesis
    unfolding ControlStatus control_command.simps status_command_def if_False
    by (intro keeps_ignore_err keeps_bind keeps_existing known header keeps_sum keeps_ret keeps_write_log)
qed

text \<open>
  C13. A caller whose processes are not vouched for as the session recorded for a handle, or whose chain lacks the anchor of a
  handle without a session, changes nothing of it with any command: in every environment, and with failures and deaths anywhere,
  every file but the output lock keeps its content and nothing is sent to a root; the only helpers started are the session lookups
  that look for such a process.
\<close>

theorem control_needs_eligibility:
  assumes "\<not> may_control fc chain (files w)" and "control_command jc cd cx fc role hdl chain c w = (r, w')"
  shows "(\<exists>n. spawned w' = spawned w @ replicate n ''session of-pid'') \<and> wire w' = wire w \<and>
    (\<forall>f. \<not> is_tmp f \<longrightarrow> f \<noteq> F OutputLock \<longrightarrow> files w' f = files w f)"
proof -
  have "\<not> may_control fc chain (vfiles (view_of w))"
    using assms(1) may_control_cong [of "vfiles (view_of w)" "files w" fc chain] by (simp add: view_files)
  from keeps_run [OF leaves_control [OF this], of w jc cd cx role hdl c] assms(2)
  have "untouched (view_of w) (view_of w')" by simp
  then show ?thesis by (auto simp: untouched_def view_of_def visible_def)
qed

subsection \<open>Retained output\<close>

lemma spec_open_node:
  assumes "\<not> is_tmp f" and "\<And>n. vfiles s f = Some n \<Longrightarrow> Q n s" and "vfiles s f = None \<Longrightarrow> E err_not_found s"
    and "\<And>e. hard e \<Longrightarrow> E e s" and "H s"
  shows "spec (open_read_no_follow f) s Q E H"
  unfolding open_read_no_follow_def
  by (intro spec_sys spec_bind spec_lookup)
    (use assms in \<open>auto simp: err_loop_def hard_def split: option.split node.split intro!: spec_raise spec_ret\<close>)

definition log_bytes_at :: "view \<Rightarrow> bytes \<Rightarrow> bool" where
  "log_bytes_at s d \<longleftrightarrow> vfiles s (F Log) = Some (Regular (Text d))"

lemma still_sync: "still n s P \<Longrightarrow> still (seq sys_sync n) s P"
  by (rule still_bind [OF still_keeps [OF keeps_sync]])

lemma still_text: "still (text_of c) s (\<lambda>d. c = Text d)"
  by (cases c) (auto simp: text_of_def intro: spec_ret spec_raise)

lemma still_read_prefix:
  "still (read_prefix k) s (\<lambda>out. \<exists>d. log_bytes_at s d \<and> (case k of None \<Rightarrow> out = d | Some n \<Rightarrow> n \<le> length d \<and> out = take n d))"
    (is "still _ s ?P")
proof -
  have bytes: "still (bind (text_of c) (\<lambda>d. if (case k of None \<Rightarrow> length d | Some n \<Rightarrow> n) > length d then raise e
      else read_bounded d (case k of None \<Rightarrow> length d | Some n \<Rightarrow> n))) s ?P"
    if "vfiles s (F Log) = Some (Regular c)" for c e
    unfolding read_bounded_def
    by (rule still_bind [OF still_text], intro spec_if spec_raise still_sync)
      (use that in \<open>auto intro!: spec_ret simp: log_bytes_at_def split: option.split\<close>)
  show ?thesis
    unfolding read_prefix_def Let_def
    by (rule still_bind [where P = "\<lambda>n. vfiles s (F Log) = Some n"], rule spec_open_node)
      (auto intro!: still_sync bytes spec_raise split: node.split)
qed

lemma still_validate:
  "still (validate_retained jc m i) s (\<lambda>_. \<exists>d. log_bytes_at s d \<and> ri_bytes i \<le> length d \<and> identity_of jc m (take (ri_bytes i) d) = i)"
  unfolding validate_retained_def
  by (intro spec_if spec_raise) (auto intro!: still_bind [OF still_read_prefix] spec_if spec_raise spec_ret)

definition receipt_of :: "json_codec \<Rightarrow> retained_identity \<Rightarrow> view \<Rightarrow> bool" where
  "receipt_of jc i s \<longleftrightarrow> (\<exists>d. json_to_vec jc (identity_json i) = Inr d \<and> vfiles s OUTPUT_RECEIPT = Some (Regular (Text d)))"

lemma receipt_files [simp]:
  "\<not> is_tmp OUTPUT_RECEIPT" "\<not> is_tmp OUTPUT_PENDING" "OUTPUT_PENDING \<noteq> OUTPUT_RECEIPT" "OUTPUT_RECEIPT \<noteq> OUTPUT_PENDING"
  by (simp_all add: OUTPUT_RECEIPT_def OUTPUT_PENDING_def)

text \<open>While a receipt is published it is the old one or the new one.\<close>

definition publishing :: "json_codec \<Rightarrow> retained_identity \<Rightarrow> node option \<Rightarrow> view \<Rightarrow> bool" where
  "publishing jc i old s \<longleftrightarrow> vfiles s OUTPUT_RECEIPT = old \<or> receipt_of jc i s"

lemma publishing_ignores [simp]: "f \<noteq> OUTPUT_RECEIPT \<Longrightarrow> ignores (publishing jc i old) f" "f \<noteq> OUTPUT_RECEIPT \<Longrightarrow> ignores (receipt_of jc i) f"
  by (simp_all add: ignores_def publishing_def receipt_of_def)

lemma spec_in_phase: "spec m s Q (\<lambda>_. E) H \<Longrightarrow> spec (in_phase p m) s Q (\<lambda>_. E) H"
  unfolding in_phase_def by (rule spec_catch, erule spec_mono) (auto intro: spec_raise)

lemma keeps_in_phase [keeps_rules]: "keeps I m \<Longrightarrow> keeps I (in_phase p m)"
  unfolding in_phase_def by (intro keeps_rules)

lemma keeps_sync_receipt [keeps_rules]: "keeps I sync_receipt_directory"
  unfolding sync_receipt_directory_def by (intro keeps_rules)

lemma spec_replace_receipt:
  assumes enc: "json_to_vec jc (identity_json i) = Inr d" and s: "vfiles s OUTPUT_RECEIPT = old"
  shows "spec (replace_receipt d) s (\<lambda>_. receipt_of jc i) (\<lambda>_. publishing jc i old) (publishing jc i old)"
proof -
  let ?P = "publishing jc i old"
  let ?staged = "\<lambda>t. vfiles t OUTPUT_RECEIPT = old \<and> vfiles t OUTPUT_PENDING = Some (Regular (Text d))"
  have truncate: "spec (sys_open_truncate OUTPUT_PENDING) s (\<lambda>_ t. vfiles t OUTPUT_RECEIPT = old) (\<lambda>_. ?P) ?P"
    unfolding sys_open_truncate_def
    by (intro spec_sys spec_in_dir spec_bind spec_lookup)
      (use s in \<open>auto split: option.split node.split intro!: spec_raise spec_set_file simp: publishing_def\<close>)
  have wrote: "spec (sys_write OUTPUT_PENDING (Text d)) t (\<lambda>_. ?staged) (\<lambda>_. ?P) ?P" if "vfiles t OUTPUT_RECEIPT = old" for t
    unfolding sys_write_def by (intro spec_sys spec_set_file) (use that in \<open>auto simp: publishing_def\<close>)
  have rename: "spec (sys_rename OUTPUT_PENDING OUTPUT_RECEIPT) t (\<lambda>_. receipt_of jc i) (\<lambda>_. ?P) ?P" if "?staged t" for t
    unfolding sys_rename_def
    by (intro spec_sys spec_bind spec_lookup)
      (use that enc in \<open>auto simp: publishing_def receipt_of_def split: option.split intro!: spec_raise spec_if spec_set_file spec_bind spec_lookup\<close>)
  have finish: "spec (seq sync_receipt_directory (ret True)) t (\<lambda>_. receipt_of jc i) (\<lambda>_. ?P) ?P" if "receipt_of jc i t" for t
    by (rule keeps_spec [of "receipt_of jc i"]) (use that in \<open>auto intro!: keeps_rules simp: publishing_def\<close>)
  have synced: "spec (in_phase p sys_sync) t (\<lambda>_. ?staged) (\<lambda>_. ?P) ?P" if "?staged t" for t p
    by (rule keeps_spec [of ?staged]) (use that in \<open>auto intro!: keeps_rules simp: publishing_def\<close>)
  show ?thesis
    unfolding replace_receipt_def
    by (rule spec_bind, rule spec_in_phase, rule spec_mono [OF truncate], rule spec_bind, rule spec_in_phase, rule spec_mono [OF wrote],
        assumption, rule spec_bind, rule spec_mono [OF synced], assumption, rule spec_bind, rule spec_in_phase,
        rule spec_mono [OF rename], assumption, erule finish)
qed

lemma spec_publish_receipt:
  assumes s: "vfiles s OUTPUT_RECEIPT = old"
  shows "spec (publish_receipt jc i) s (\<lambda>_. receipt_of jc i) (\<lambda>_. publishing jc i old) (publishing jc i old)"
proof -
  let ?P = "publishing jc i old"
  have old: "?P s" using s by (simp add: publishing_def)
  have duplicate: "spec (seq (in_phase p sys_sync) (seq sync_receipt_directory (ret False))) s (\<lambda>_. receipt_of jc i) (\<lambda>_. ?P) ?P"
    if "receipt_of jc i s" for p
    by (rule keeps_spec [of "receipt_of jc i"]) (use that in \<open>auto intro!: keeps_rules simp: publishing_def\<close>)
  have same: "take (length d + 1) x = d \<Longrightarrow> x = d" for d x :: bytes
  proof -
    assume "take (length d + 1) x = d"
    then have "length x < length d + 1"
      by (metis length_take less_add_one min.absorb2 not_less order_less_irrefl)
    with \<open>take (length d + 1) x = d\<close> show "x = d" by simp
  qed
  have compared: "spec (bind (sys (case n of Regular c \<Rightarrow> text_of c | _ \<Rightarrow> raise err_is_dir)) (\<lambda>x.
      if take (length d + 1) x = d then seq (in_phase p sys_sync) (seq sync_receipt_directory (ret False)) else replace_receipt d)) s
      (\<lambda>_. receipt_of jc i) (\<lambda>_. ?P) ?P"
    if d: "json_to_vec jc (identity_json i) = Inr d" and n: "vfiles s OUTPUT_RECEIPT = Some n" for d n p
  proof -
    have "spec (sys (case n of Regular c \<Rightarrow> text_of c | _ \<Rightarrow> raise err_is_dir)) s
        (\<lambda>x t. t = s \<and> n = Regular (Text x)) (\<lambda>_. ?P) ?P"
      by (rule spec_sys) (use old in \<open>auto simp: text_of_def split: node.split content.split intro!: spec_ret spec_raise\<close>)
    moreover have "spec (if take (length d + 1) x = d then seq (in_phase p sys_sync) (seq sync_receipt_directory (ret False))
        else replace_receipt d) s (\<lambda>_. receipt_of jc i) (\<lambda>_. ?P) ?P" if "n = Regular (Text x)" for x
      by (rule spec_if, rule duplicate, drule same) (use d n s that in \<open>auto intro!: spec_replace_receipt simp: receipt_of_def\<close>)
    ultimately show ?thesis by (intro spec_bind) (erule spec_mono, auto)
  qed
  have existing: "spec (handle_err (open_read_no_follow OUTPUT_RECEIPT)
      (\<lambda>e. if kind e = NotFound then ret None else raise (publication_error p e)) (\<lambda>n. ret (Some n))) s
      (\<lambda>x t. t = s \<and> vfiles s OUTPUT_RECEIPT = x) (\<lambda>_. ?P) ?P" for p
    by (rule spec_handle_err, rule spec_open_node) (use old in \<open>auto simp: hard_def intro!: spec_ret spec_raise\<close>)
  have known: "spec (in_phase p (durable_marker_exists OUTPUT_RECEIPT)) s (\<lambda>_ t. t = s) (\<lambda>_. ?P) ?P" for p
    by (rule keeps_spec [of "\<lambda>t. t = s"]) (use old in \<open>auto intro!: keeps_rules\<close>)
  show ?thesis
    unfolding publish_receipt_def
  proof (rule spec_bind, rule spec_lift_result)
    fix d assume d: "json_to_vec jc (identity_json i) = Inr d"
    show "spec (bind (in_phase ''read'' (durable_marker_exists OUTPUT_RECEIPT)) (\<lambda>_.
        bind (handle_err (open_read_no_follow OUTPUT_RECEIPT)
          (\<lambda>e. if kind e = NotFound then ret None else raise (publication_error ''read'' e)) (\<lambda>n. ret (Some n))) (\<lambda>existing.
        case existing of None \<Rightarrow> replace_receipt d
        | Some n \<Rightarrow> bind (sys (case n of Regular c \<Rightarrow> text_of c | _ \<Rightarrow> raise err_is_dir)) (\<lambda>x.
            if take (length d + 1) x = d then seq (in_phase ''duplicate-file-sync'' sys_sync) (seq sync_receipt_directory (ret False))
            else replace_receipt d)))) s (\<lambda>_. receipt_of jc i) (\<lambda>_. ?P) ?P"
      by (rule spec_bind, rule spec_mono [OF known], simp only:, rule spec_bind, rule spec_mono [OF existing], elim conjE, simp only:,
          rule spec_option, rule spec_replace_receipt [OF d s], rule compared [OF d], simp)
  qed (rule old)
qed

text \<open>What must hold of a handle whose output is accepted.\<close>

definition acceptable :: "json_codec \<Rightarrow> cli_facts \<Rightarrow> caller_entry list \<Rightarrow> retained_identity \<Rightarrow> (fname \<rightharpoonup> node) \<Rightarrow> bool" where
  "acceptable jc fc chain i fs \<longleftrightarrow>
     may_control fc chain fs \<and>
     (\<exists>m d. fs (F MetaFile) = Some (Regular (Doc m)) \<and> terminal m \<and> fs (F Log) = Some (Regular (Text d)) \<and>
        ri_bytes i \<le> length d \<and> identity_of jc m (take (ri_bytes i) d) = i)"

lemma acceptable_cong:
  "(\<And>f. f \<noteq> F OutputLock \<Longrightarrow> fs f = gs f) \<Longrightarrow> acceptable jc fc chain i fs = acceptable jc fc chain i gs"
  using may_control_cong [of fs gs fc chain] by (simp add: acceptable_def)

text \<open>The receipt is the old one, or the handle is acceptable and the receipt is the new one.\<close>

definition accepting :: "json_codec \<Rightarrow> cli_facts \<Rightarrow> caller_entry list \<Rightarrow> retained_identity \<Rightarrow> view \<Rightarrow> view \<Rightarrow> bool" where
  "accepting jc fc chain i s t \<longleftrightarrow>
     vfiles t OUTPUT_RECEIPT = vfiles s OUTPUT_RECEIPT \<or> acceptable jc fc chain i (vfiles s) \<and> receipt_of jc i t"

definition accepted :: "json_codec \<Rightarrow> cli_facts \<Rightarrow> caller_entry list \<Rightarrow> retained_identity \<Rightarrow> view \<Rightarrow> app_error + bytes \<Rightarrow> view \<Rightarrow> bool" where
  "accepted jc fc chain i s r t \<longleftrightarrow>
     (case r of Inl _ \<Rightarrow> accepting jc fc chain i s t | Inr _ \<Rightarrow> acceptable jc fc chain i (vfiles s) \<and> receipt_of jc i t)"

abbreviation accept_spec where
  "accept_spec jc fc chain i s m t \<equiv> spec m t (accepted jc fc chain i s) (\<lambda>_. accepting jc fc chain i s) (accepting jc fc chain i s)"

lemma untouched_accepting: "untouched s t \<Longrightarrow> accepting jc fc chain i s t"
  by (simp add: untouched_def accepting_def OUTPUT_RECEIPT_def)

lemma accept_or_app:
  assumes "spec m t P (\<lambda>_. accepting jc fc chain i s) (accepting jc fc chain i s)" and "\<And>a u. P a u \<Longrightarrow> accept_spec jc fc chain i s (f a) u"
  shows "accept_spec jc fc chain i s (or_app c m f) t"
  unfolding or_app_def
  by (rule spec_handle_err, rule spec_mono [OF assms(1)]) (use assms(2) in \<open>auto intro!: spec_ret simp: accepted_def\<close>)

lemma keeps_emit: "keeps I (emit_json jc v)"
  unfolding emit_json_def by (intro keeps_rules)

lemma accept_recorded:
  assumes "acceptable jc fc chain i (vfiles s)" and "vfiles t OUTPUT_RECEIPT = vfiles s OUTPUT_RECEIPT"
  shows "accept_spec jc fc chain i s (or_app output_error (record_receipt jc i) (\<lambda>updated. emit_json jc (v updated))) t"
proof -
  have weak: "receipt_of jc i u \<Longrightarrow> accepting jc fc chain i s u" "publishing jc i (vfiles s OUTPUT_RECEIPT) u \<Longrightarrow> accepting jc fc chain i s u" for u
    using assms(1) by (auto simp: accepting_def publishing_def)
  have "spec reject_legacy t (\<lambda>_ u. u = t) (\<lambda>_ u. u = t) (\<lambda>u. u = t)"
    unfolding reject_legacy_def by (rule keeps_spec [of "\<lambda>u. u = t"]) (auto intro!: keeps_rules)
  then have "spec (record_receipt jc i) t (\<lambda>_. receipt_of jc i) (\<lambda>_. accepting jc fc chain i s) (accepting jc fc chain i s)"
    unfolding record_receipt_def
    by (rule spec_bind [OF spec_mono])
      (use assms(2) weak in \<open>auto intro!: spec_mono [OF spec_publish_receipt [OF assms(2)]] simp: accepting_def\<close>)
  then show ?thesis
    by (rule accept_or_app, intro keeps_spec [where I = "receipt_of jc i", OF keeps_emit])
      (use assms(1) in \<open>auto simp: accepted_def accepting_def split: sum.split\<close>)
qed

lemma accept_checked:
  assumes "untouched s t" and "may_control fc chain (vfiles s)"
  shows "accept_spec jc fc chain i s (terminal_output_meta hdl (\<lambda>m.
    or_app output_error (validate_retained jc m i) (\<lambda>_. or_app output_error (record_receipt jc i) (\<lambda>u. emit_json jc (v u))))) t"
proof -
  have same: "vfiles t f = vfiles s f" if "f \<noteq> F OutputLock" for f using assms(1) that by (simp add: untouched_def)
  have here: "accepting jc fc chain i s t" by (rule untouched_accepting [OF assms(1)])
  have recorded: "accept_spec jc fc chain i s (or_app output_error (record_receipt jc i) (\<lambda>u. emit_json jc (v u))) t"
    if "vfiles t (F MetaFile) = Some (Regular (Doc m))" "terminal m" "log_bytes_at t d" "ri_bytes i \<le> length d"
      "identity_of jc m (take (ri_bytes i) d) = i" for m d
    by (rule accept_recorded) (use that same assms(2) in \<open>auto simp: acceptable_def log_bytes_at_def OUTPUT_RECEIPT_def\<close>)
  have validated: "accept_spec jc fc chain i s (or_app output_error (validate_retained jc m i) (\<lambda>_.
      or_app output_error (record_receipt jc i) (\<lambda>u. emit_json jc (v u)))) t"
    if "vfiles t (F MetaFile) = Some (Regular (Doc m))" "terminal m" for m
    by (rule accept_or_app, rule spec_mono [OF still_validate]) (use here recorded [OF that] in auto)
  show ?thesis
    unfolding terminal_output_meta_def read_meta_for_handle_def
    by (rule accept_or_app [where P = "\<lambda>m u. u = t \<and> vfiles t (F MetaFile) = Some (Regular (Doc m))"], rule spec_read_meta)
      (use here validated in \<open>auto intro!: spec_if spec_ret simp: accepted_def\<close>)
qed

lemma spec_accept_output: "accept_spec jc fc chain i s (accept_output_command jc fc hdl (Inr i) chain) s"
proof -
  have weak: "untouched s t \<Longrightarrow> accepting jc fc chain i s t" for t by (rule untouched_accepting)
  have refused: "accept_spec jc fc chain i s (ret (Inl e)) t" if "untouched s t" for e t
    by (rule spec_ret) (use weak [OF that] in \<open>simp add: accepted_def\<close>)
  have eligible: "accept_spec jc fc chain i s (require_control_eligibility fc hdl chain n) t"
    if t: "untouched s t" and n: "\<And>u. may_control fc chain (vfiles s) \<Longrightarrow> untouched s u \<Longrightarrow> accept_spec jc fc chain i s n u" for n t
    unfolding require_control_eligibility_def read_meta_for_handle_def
  proof (rule accept_or_app [where P = "\<lambda>m u. u = t \<and> vfiles t (F MetaFile) = Some (Regular (Doc m))"], rule spec_read_meta)
    fix m u assume u: "u = t \<and> vfiles t (F MetaFile) = Some (Regular (Doc m))"
    note route = asking_route [OF conjunct2 [OF u]]
    show "accept_spec jc fc chain i s (caller_is_control_eligible fc hdl m chain (\<lambda>ok. if ok then n
        else ret (Inl (app_error_new EX_NOPERM (''agent-bash: caller is not eligible to control handle '' @ hdl))))) u"
      unfolding caller_is_control_eligible_def conjunct1 [OF u]
      by (rule accept_or_app, rule spec_mono [OF route])
        (use weak refused n untouched_looked [OF t] untouched_control [OF t] in \<open>auto intro!: spec_if\<close>)
  qed (use weak [OF t] in auto)
  have locked: "spec lock_output s (\<lambda>_. untouched s) (\<lambda>_. accepting jc fc chain i s) (accepting jc fc chain i s)"
    by (rule keeps_spec [of "untouched s"]) (auto intro: keeps_lock_output weak)
  have "untouched s s" by simp
  have start: "accept_spec jc fc chain i s (paths_for_existing_handle fc hdl n) s" if "accept_spec jc fc chain i s n s" for n
    unfolding paths_for_existing_handle_def
    by (intro spec_if spec_sum refused [OF \<open>untouched s s\<close>])
      (rule spec_bind, rule keeps_spec [of "\<lambda>t. t = s"],
        use that weak [OF \<open>untouched s s\<close>] refused [OF \<open>untouched s s\<close>] in \<open>auto intro!: keeps_path_exists spec_if\<close>)
  show ?thesis
    unfolding accept_output_command_def sum.case
    by (rule start, rule accept_or_app [OF locked], rule eligible, assumption, rule accept_checked)
qed

text \<open>
  C14. A receipt for retained output is exact. Whatever an acceptance meets, if it succeeds or changes the receipt of the handle in any way, then
  the receipt on disk is the encoding of precisely the accepted identity, the caller was eligible, the handle was terminal, and the
  identity is that of the log's own prefix of the stated length.
\<close>

theorem receipt_is_exact:
  assumes "accept_output_command jc fc hdl (Inr i) chain w = (r, w')"
    and "(\<exists>out. r = Done (Inr out)) \<or> files w' OUTPUT_RECEIPT \<noteq> files w OUTPUT_RECEIPT"
  shows "acceptable jc fc chain i (files w) \<and>
    (\<exists>d. json_to_vec jc (identity_json i) = Inr d \<and> files w' OUTPUT_RECEIPT = Some (Regular (Text d)))"
proof -
  let ?s = "view_of w"
  have "accept_spec jc fc chain i ?s (accept_output_command jc fc hdl (Inr i) chain) ?s" by (rule spec_accept_output)
  with assms(1) have "acceptable jc fc chain i (vfiles ?s) \<and> receipt_of jc i (view_of w')"
    using assms(2) by (cases r) (auto simp: spec_def accepted_def accepting_def view_files split: sum.splits)
  moreover have "acceptable jc fc chain i (vfiles ?s) = acceptable jc fc chain i (files w)"
    using may_control_cong [of "vfiles ?s" "files w" fc chain] by (simp add: acceptable_def view_files)
  ultimately show ?thesis by (simp add: receipt_of_def view_files)
qed

subsection \<open>Status\<close>

definition log_tail :: "bool \<Rightarrow> nat \<Rightarrow> node option \<Rightarrow> bytes \<Rightarrow> bool" where
  "log_tail full n log out \<longleftrightarrow>
     log = None \<and> out = [] \<or> (\<exists>d. log = Some (Regular (Text d)) \<and> out = (if full then d else drop (length d - n) d))"

lemma still_call: "still n s P \<Longrightarrow> (\<And>e. still (h e) s P) \<Longrightarrow> still (handle_err (sys (ret ())) h (\<lambda>_. n)) s P"
  by (rule spec_handle_err, rule spec_sys) (auto intro!: spec_ret)

lemma still_copy_log: "still (copy_log hdl printed rest) s (\<lambda>(out, e). e = None \<longrightarrow> out = printed @ rest)"
proof (induction hdl printed rest rule: copy_log.induct)
  case (1 hdl printed rest)
  show ?case
  proof (cases "rest = []")
    case True
    then show ?thesis by (subst copy_log.simps) (auto intro!: still_call spec_ret)
  next
    case False
    with 1 have "still (copy_log hdl (printed @ take 8192 rest) (drop 8192 rest)) s (\<lambda>(out, e). e = None \<longrightarrow> out = printed @ rest)"
      by simp
    with False show ?thesis by (subst copy_log.simps) (auto intro!: still_call spec_ret)
  qed
qed

lemma still_write_log:
  "still (write_log_for_status hdl full n printed) s
     (\<lambda>(out, e). e = None \<longrightarrow> (\<exists>tl. log_tail full n (vfiles s (F Log)) tl \<and> out = printed @ tl))" (is "still _ s ?P")
proof -
  have failed: "still (ret (printed, Some e)) s ?P" for e by (rule spec_ret) simp
  have copied: "still (copy_log hdl printed (drop (if full then 0 else length d - n) d)) s ?P"
    if "vfiles s (F Log) = Some (Regular (Text d))" for d
    by (rule spec_mono [OF still_copy_log]) (use that in \<open>auto simp: log_tail_def split: prod.split\<close>)
  have content: "still (handle_err (seq (sys (ret ())) (case x of Regular c \<Rightarrow> text_of c | _ \<Rightarrow> raise err_is_dir))
      (\<lambda>e. ret (printed, Some (status_log_read_error hdl e))) (\<lambda>d. handle_err (sys (ret ()))
        (\<lambda>e. ret (printed, Some (status_log_read_error hdl e))) (\<lambda>_. copy_log hdl printed (drop (if full then 0 else length d - n) d)))) s ?P"
    if x: "vfiles s (F Log) = Some x" for x
  proof -
    have "spec (seq (sys (ret ())) (case x of Regular c \<Rightarrow> text_of c | _ \<Rightarrow> raise err_is_dir)) s
        (\<lambda>d t. t = s \<and> x = Regular (Text d)) (\<lambda>_ t. t = s) (\<lambda>t. t = s)"
      by (rule spec_bind, rule spec_sys)
        (auto intro!: spec_ret spec_raise simp: text_of_def split: node.split content.split)
    moreover have "still (handle_err (sys (ret ())) (\<lambda>e. ret (printed, Some (status_log_read_error hdl e)))
        (\<lambda>_. copy_log hdl printed (drop (if full then 0 else length d - n) d))) s ?P" if "x = Regular (Text d)" for d
      by (rule still_call [OF copied failed]) (simp add: x that)
    ultimately show ?thesis
      by (intro spec_handle_err) (erule spec_mono, blast+, use failed in blast)
  qed
  have absent: "still (ret (printed, None)) s ?P" if "vfiles s (F Log) = None"
    by (rule spec_ret) (use that in \<open>simp add: log_tail_def\<close>)
  show ?thesis
    unfolding write_log_for_status_def Let_def
    by (rule spec_handle_err, rule spec_open_node, simp, erule content, rule spec_if, erule absent, rule failed, rule spec_if,
        simp add: hard_def, rule failed, simp)
qed

definition status_header_on :: "(fname \<rightharpoonup> node) \<Rightarrow> bytes \<Rightarrow> bool" where
  "status_header_on fs h \<longleftrightarrow>
     (\<exists>m r. fs (F MetaFile) = Some (Regular (Doc m)) \<and> render_status_header m r = Inr h \<and>
        (r \<noteq> None \<longrightarrow> (\<exists>t. fs (F Rc) = Some (Regular (Text t)) \<and> parse_rc_text t = r)))"

lemma still_read_rc: "still read_rc s (\<lambda>r. \<exists>t. vfiles s (F Rc) = Some (Regular (Text t)) \<and> parse_rc_text t = Some r)"
  unfolding read_rc_def read_file_text_def text_of_def
  by (intro spec_bind spec_open_read spec_sys)
    (auto split: content.splits option.splits intro!: spec_ret spec_raise)

lemma still_existing:
  assumes "still n s P" and "\<And>e. P (Inl e)"
  shows "still (paths_for_existing_handle fc hdl n) s P"
  unfolding paths_for_existing_handle_def
  by (intro spec_if spec_sum still_bind [OF still_keeps] keeps_path_exists) (use assms in \<open>auto intro!: spec_ret\<close>)

lemma still_or_app:
  assumes "still m s P" and "\<And>a. P a \<Longrightarrow> still (f a) s Q" and "\<And>e. Q (Inl e)"
  shows "still (or_app c m f) s Q"
  unfolding or_app_def by (rule spec_handle_err, rule spec_mono [OF assms(1)]) (use assms(2,3) in \<open>auto intro!: spec_ret\<close>)

text \<open>
  C15. An observing status that ends without an error changed nothing and printed exactly what is on disk: the line rendered
  from the metadata there, with a return code only if the return-code file holds it, and then the log, all of it or exactly its last bytes of the
  requested number, in spite of the copying in chunks.
\<close>

theorem status_reports_disk:
  assumes "status_command fc role hdl n full True chain w = (Done (out, None), w')"
  shows "\<exists>h tl. status_header_on (files w) h \<and> log_tail full n (files w (F Log)) tl \<and>
    out = h @ [newline_char] @ ''--- output ---'' @ [newline_char] @ tl \<and> (\<forall>f. \<not> is_tmp f \<longrightarrow> files w' f = files w f)"
proof -
  let ?s = "view_of w"
  have header: "still (paths_for_existing_handle fc hdl (read_meta_for_handle hdl (\<lambda>m.
        and_then (ret (Inr m)) (\<lambda>m'. bind (path_exists (F Rc)) (\<lambda>there. or_app c
          (if there then bind read_rc (\<lambda>r. ret (Some r)) else ret None) (\<lambda>x. ret (render_status_header m' x))))))) ?s
      (\<lambda>r. \<forall>h. r = Inr h \<longrightarrow> status_header_on (vfiles ?s) h)" for c
  proof -
    have code: "still (if there then bind read_rc (\<lambda>r. ret (Some r)) else ret None) ?s
        (\<lambda>r. r \<noteq> None \<longrightarrow> (\<exists>t. vfiles ?s (F Rc) = Some (Regular (Text t)) \<and> parse_rc_text t = r))" for there
      by (intro spec_if still_bind [OF still_read_rc] spec_ret) auto
    have rendered: "still (bind (path_exists (F Rc)) (\<lambda>there. or_app c
          (if there then bind read_rc (\<lambda>r. ret (Some r)) else ret None) (\<lambda>x. ret (render_status_header m x)))) ?s
        (\<lambda>r. \<forall>h. r = Inr h \<longrightarrow> status_header_on (vfiles ?s) h)" if "vfiles ?s (F MetaFile) = Some (Regular (Doc m))" for m
      by (rule still_bind [OF still_keeps], rule keeps_path_exists, simp, rule still_or_app [OF code], rule spec_ret)
        (use that in \<open>auto simp: status_header_on_def\<close>)
    show ?thesis
      unfolding read_meta_for_handle_def and_then_def
      by (rule still_existing, rule still_or_app [where P = "\<lambda>m. vfiles ?s (F MetaFile) = Some (Regular (Doc m))"], rule spec_read_meta)
        (auto intro!: still_bind [where P = "\<lambda>r. r = Inr _"] spec_ret rendered)
  qed
  have "still (status_command fc role hdl n full True chain) ?s (\<lambda>(x, e). e = None \<longrightarrow> (\<exists>h tl. status_header_on (vfiles ?s) h \<and>
      log_tail full n (vfiles ?s (F Log)) tl \<and> x = h @ [newline_char] @ ''--- output ---'' @ [newline_char] @ tl))"
    unfolding status_command_def if_True
    by (rule still_bind [OF header]) (auto split: sum.split intro!: spec_ret spec_mono [OF still_write_log])
  from spec_run(1) [OF this assms] obtain h tl where w': "view_of w' = ?s" and h: "status_header_on (vfiles ?s) h"
      and tl: "log_tail full n (vfiles ?s (F Log)) tl" and out: "out = h @ [newline_char] @ ''--- output ---'' @ [newline_char] @ tl"
    by blast
  have "files w' f = files w f" if "\<not> is_tmp f" for f using w' view_files [OF that] by metis
  moreover have "status_header_on (files w) h" using h by (simp add: status_header_on_def view_files)
  moreover have "log_tail full n (files w (F Log)) tl" using tl by (simp add: view_files)
  ultimately show ?thesis using out by blast
qed

subsection \<open>A snapshot can be accepted later\<close>

lemma hex_bytes_inj: "hex_bytes xs = hex_bytes ys \<Longrightarrow> xs = ys"
proof (induction xs arbitrary: ys)
  case Nil
  then show ?case by (cases ys) (auto simp: hex_bytes_def hex_byte_def Let_def)
next
  case (Cons x xs)
  then obtain y zs where ys: "ys = y # zs" by (cases ys) (auto simp: hex_bytes_def hex_byte_def Let_def)
  have "length (hex_byte a) = 2" for a by (simp add: hex_byte_def Let_def)
  with Cons.prems ys have "hex_byte x = hex_byte y" "hex_bytes xs = hex_bytes zs"
    by (simp_all add: hex_bytes_def)
  with Cons.IH hex_byte_inj ys show ?case by blast
qed

text \<open>
  C17. A snapshot can be accepted later: its text determines exactly the prefix of the log it was taken of, and while the log only
  grows and no system call fails, its identity validates again.
\<close>

theorem snapshot_validates_later:
  assumes "acquire jc m k w = (Done snap, w1)" and "files w (F Log) = Some (Regular (Text d))"
    and "files w2 (F Log) = Some (Regular (Text (d @ extra)))" and "\<And>t. environment.faults (env w2) t = Proceed"
  shows "fst (validate_retained jc m (rsn_identity snap) w2) = Done () \<and>
    ri_bytes (rsn_identity snap) \<le> length d \<and>
    (\<forall>bs. hex_bytes bs = rsn_output snap \<longleftrightarrow> bs = take (ri_bytes (rsn_identity snap)) d)"
proof -
  have "still (acquire jc m k) (view_of w) (\<lambda>x. \<exists>n\<le>length d. x = \<lparr>rsn_identity = identity_of jc m (take n d), rsn_output = hex_bytes (take n d)\<rparr>)"
    unfolding acquire_def
    by (rule still_bind [OF still_read_prefix], rule spec_ret)
      (use assms(2) in \<open>auto simp: log_bytes_at_def view_files split: option.splits intro: exI [of _ "length d"]\<close>)
  from spec_run(1) [OF this assms(1)] obtain n where n: "n \<le> length d"
    "snap = \<lparr>rsn_identity = identity_of jc m (take n d), rsn_output = hex_bytes (take n d)\<rparr>" by blast
  have "fst (validate_retained jc m (identity_of jc m (take n d)) w2) = Done ()"
    using n(1) assms(3,4)
    by (simp add: validate_retained_def identity_of_def read_prefix_def read_bounded_def open_read_no_follow_def bind_def ret_def
        sys_sync_def sys_def sys_by_def next_tick_def lookup_file_def text_of_def Let_def)
  with n show ?thesis using hex_bytes_inj by (auto simp: identity_of_def)
qed

subsection \<open>Examples\<close>

definition anchor1 :: caller_entry where
  "anchor1 = \<lparr>ce_pid = 30, starttime_ticks = 9, ce_boot_id = ''b''\<rparr>"

definition done_meta1 :: meta where
  "done_meta1 = bare_meta\<lparr>state := ''DONE'', completion_reason := Some ''exit'', rc := Some 0, completed_at_unix_ms := Some 9, caller_chain := [anchor1]\<rparr>"

definition facts1 :: cli_facts where
  "facts1 = \<lparr>of_pid = (\<lambda>_ _. LookupReply (Exits 0 [] [])),
     parse_session = (\<lambda>_. Inr \<lparr>ps_found = True, ps_invocation_uuid = Some ''i2'', ps_session_id = Some ''s2''\<rparr>),
     status_text = (\<lambda>_. []), state_root_result = Inr ''/r'', observer_to_local = (\<lambda>_ _. None)\<rparr>"

definition cli_codec :: json_codec where
  "cli_codec = \<lparr>json_to_vec = (\<lambda>_. Inr ''j''), json_from_slice = (\<lambda>_. Inl (io_other [])), sha_hex = (\<lambda>_. ''h'')\<rparr>"

definition done_world1 :: world where
  "done_world1 = quiet_world\<lparr>files := [F MetaFile \<mapsto> Regular (Doc done_meta1), F Rc \<mapsto> Regular (Text ''0''),
     F Log \<mapsto> Regular (Text ''hello'')]\<rparr>"

lemmas command_run_simps =
  fence_run_simps hard_def ask_def paths_for_existing_handle_def is_v30_handle_def starts_with_def path_exists_def or_app_def and_then_def
  read_meta_for_handle_def read_meta_def done_world1_def facts1_def cli_codec_def

text \<open>
  A handle of session \<^verbatim>\<open>s1\<close> and a living caller the lookup names as one of session \<^verbatim>\<open>s2\<close>: one lookup is started,
  and the command is refused.
\<close>

definition owned_world1 :: world where
  "owned_world1 = quiet_world\<lparr>
     files := [F MetaFile \<mapsto> Regular (Doc (done_meta1\<lparr>owner_session_id := Some ''s1'', delivery_helper := Some helper0\<rparr>))],
     env := quiet_env\<lparr>boot_file := (\<lambda>_. Inr ''b''), stat_files := (\<lambda>_ p. Inr (stat_line 41 1 5))\<rparr>\<rparr>"

lemma caller_live: "process_identity_is_live (\<lambda>_. Inr (stat_line 41 1 5)) ''b'' worker0"
  by (simp add: process_identity_is_live_def process_identity_evidence_def inspect_process_identity_def read_proc_stat_result_def
      parse_stat_line i32_range_def worker0_def)

lemma boot_text: "read_boot_id_from (Inr ''b'') = ''b''"
  by code_simp

theorem control_needs_eligibility_witness:
  "files (snd (control_command cli_codec sample_codec sample_context facts1 False ''ab_1'' [worker0] ControlDetach owned_world1)) (F MetaFile) =
     files owned_world1 (F MetaFile) \<and>
   spawned (snd (control_command cli_codec sample_codec sample_context facts1 False ''ab_1'' [worker0] ControlDetach owned_world1)) = [''session of-pid'']"
proof -
  have "\<not> may_control facts1 [worker0] (files owned_world1)"
    by (simp add: may_control_def recorded_session_def owned_world1_def vouched_def facts1_def lookup_result_def lookup_of_response_def)
  then have "files (snd (control_command cli_codec sample_codec sample_context facts1 False ''ab_1'' [worker0] ControlDetach owned_world1)) (F MetaFile) =
      files owned_world1 (F MetaFile)"
    using control_needs_eligibility [of facts1 "[worker0]" owned_world1 cli_codec sample_codec sample_context False "''ab_1''" ControlDetach]
    by (simp add: prod_eq_iff)
  moreover have "spawned (snd (control_command cli_codec sample_codec sample_context facts1 False ''ab_1'' [worker0] ControlDetach owned_world1)) =
      [''session of-pid'']"
    by (simp add: detach_command_def ignore_err_def command_run_simps require_control_eligibility_def caller_is_control_eligible_def
        handle_matches_control_route_def acting_session_matches_handle_def resolve_handle_owner_binding_def from_provenance_def helper0_def
        identity_live_def caller_live boot_text current_boot_id_def resolve_owner_for_pid_def lookup_result_def lookup_of_response_def
        log_spawn_def may_stop_def lift_result_def owned_world1_def done_meta1_def bare_meta_def meta_new_def
        DELIVERY_HELPER_SCHEMA_VERSION_def LEGACY_INLINE_ENVIRONMENT_SCHEMA_VERSION_def)
  ultimately show ?thesis by blast
qed

theorem receipt_is_exact_witness:
  "\<exists>out w'. accept_output_command cli_codec facts1 ''ab_1'' (Inr (identity_of cli_codec done_meta1 ''hel'')) [anchor1] done_world1 = (Done (Inr out), w') \<and>
     files w' OUTPUT_RECEIPT = Some (Regular (Text ''j''))"
proof -
  obtain out w' where run: "accept_output_command cli_codec facts1 ''ab_1'' (Inr (identity_of cli_codec done_meta1 ''hel'')) [anchor1] done_world1 = (Done (Inr out), w')"
    by (simp add: accept_output_command_def command_run_simps lock_output_def require_control_eligibility_def caller_is_control_eligible_def
        handle_matches_control_route_def read_owner_def caller_chain_matches_handle_def terminal_output_meta_def terminal_def
        validate_retained_def identity_of_def read_prefix_def read_bounded_def open_read_no_follow_def record_receipt_def reject_legacy_def
        publish_receipt_def in_phase_def catch_def durable_marker_exists_def replace_receipt_def sys_open_truncate_def sync_receipt_directory_def
        emit_json_def done_meta1_def bare_meta_def meta_new_def anchor1_def OUTPUT_RECEIPT_def OUTPUT_PENDING_def)
  from receipt_is_exact [OF this] have "files w' OUTPUT_RECEIPT = Some (Regular (Text ''j''))" by (simp add: cli_codec_def)
  with run show ?thesis by blast
qed

theorem status_reports_disk_witness:
  "\<exists>out w'. status_command facts1 False ''ab_1'' 3 False True [] done_world1 = (Done (out, None), w') \<and>
     (\<exists>h. out = h @ [newline_char] @ ''--- output ---'' @ [newline_char] @ ''llo'')"
proof -
  have code: "parse_rc_text ''0'' = Some 0" by code_simp
  obtain out w' where run: "status_command facts1 False ''ab_1'' 3 False True [] done_world1 = (Done (out, None), w')"
    by (simp add: status_command_def command_run_simps read_rc_def read_file_text_def code render_status_header_def
        validated_status_header_def write_log_for_status_def open_read_no_follow_def copy_log.simps done_meta1_def bare_meta_def meta_new_def)
  from status_reports_disk [OF run] obtain h tl where "out = h @ [newline_char] @ ''--- output ---'' @ [newline_char] @ tl"
    "log_tail False 3 (files done_world1 (F Log)) tl" by blast
  with run show ?thesis by (auto simp: log_tail_def done_world1_def)
qed

theorem snapshot_validates_later_witness:
  "\<exists>snap w1. acquire cli_codec done_meta1 (Some 3) done_world1 = (Done snap, w1) \<and>
     fst (validate_retained cli_codec done_meta1 (rsn_identity snap) done_world1) = Done ()"
proof -
  obtain snap w1 where run: "acquire cli_codec done_meta1 (Some 3) done_world1 = (Done snap, w1)"
    by (simp add: acquire_def command_run_simps read_prefix_def read_bounded_def open_read_no_follow_def)
  with snapshot_validates_later [OF run, of "''hello''" done_world1 "[]"] show ?thesis
    by (simp add: done_world1_def quiet_world_def quiet_env_def)
qed

end
