(* ===== verification/Run_Command.thy ===== *)
theory Run_Command
  imports Command_Laws Supervisor_Start
begin

section \<open>The run command\<close>

text \<open>
  \<^verbatim>\<open>run_command\<close> of \<^verbatim>\<open>src/src/main.rs\<close>: the arguments are checked, the owner is resolved and attested, the handle directory is created
  with its mode, metadata and owner documents, and the work is submitted to a paired root or given to a supervisor of its own. The world
  is that of the new handle directory. Answers met once (the fresh-run route, the caller chain, the new handle, the pinned helper, the second look at
  the parent, the launcher's reading of its worker's answer) are fields of an argument. The reaper pass over other handles is in \<open>Reaper\<close>.
\<close>

record run_facts =
  raw_session :: "string option"
  raw_invocation :: "string option"
  raw_parent :: "string option"
  cwd_result :: "io_error + string"
  fresh_route :: "string + bytes option"
  fresh_again :: "string + bytes option"
  run_root :: "string + string"
  run_chain :: "caller_entry list option"
  helper_ready :: "io_error option"
  new_handle :: "string + string"
  pinned_helper :: "io_error + helper_provenance"
  own_pid :: pid
  parent_still_attached :: "bool \<times> bool"
  ring_evidence :: "io_error + bool"
  ancestor_evidence :: "io_error + bool"
  registration_authority :: "bytes option"
  compile_sentinel :: "string \<Rightarrow> string + unit"
  standalone_start :: "io_error + startup_outcome"

subsection \<open>Checks before anything exists\<close>

definition validate_ready_sentinel :: "run_facts \<Rightarrow> string option \<Rightarrow> app_error + unit" where
  "validate_ready_sentinel rf pattern =
     (case pattern of
        None \<Rightarrow> Inr ()
      | Some p \<Rightarrow>
          (case compile_sentinel rf p of
             Inl e \<Rightarrow> Inl (app_error_new EX_USAGE (''agent-bash: invalid --ready-sentinel regex: '' @ e))
           | Inr _ \<Rightarrow> Inr ()))"

definition run_mode_of :: "string option \<Rightarrow> string" where
  "run_mode_of sentinel_pattern = (if sentinel_pattern \<noteq> None then ''sentinel'' else ''exit'')"

fun find_cancel_owner :: "cli_facts \<Rightarrow> pid \<Rightarrow> caller_entry list \<Rightarrow> caller_entry option io" where
  "find_cancel_owner fc owner_pid [] = ret None"
| "find_cancel_owner fc owner_pid (entry # chain) =
     bind (identity_live entry) (\<lambda>live.
     bind (ask (\<lambda>_ t. observer_to_local fc t (ce_pid entry))) (\<lambda>lpid.
       if live \<and> lpid = Some owner_pid then ret (Some entry) else find_cancel_owner fc owner_pid chain))"

definition resolve_cancel_owner ::
  "cli_facts \<Rightarrow> caller_entry list \<Rightarrow> bool \<Rightarrow> pid option \<Rightarrow> (app_error + caller_entry option) io" where
  "resolve_cancel_owner fc chain enabled owner_pid =
     (if \<not> enabled then ret (Inr None)
      else case owner_pid of
        None \<Rightarrow> ret (Inl (app_error_new EX_USAGE ''agent-bash: --cancel-on-owner-exit requires --owner-pid''))
      | Some p \<Rightarrow>
          bind (find_cancel_owner fc p chain) (\<lambda>r.
            ret (case r of
                   Some e \<Rightarrow> Inr (Some e)
                 | None \<Rightarrow> Inl (app_error_new EX_USAGE (''agent-bash: owner PID '' @ int_dec p @ '' is not in the caller ancestry'')))))"

subsection \<open>The owner\<close>

record owner_context =
  oc_session_id :: "string option"
  oc_invocation_uuid :: "string option"

definition nonempty_env :: "string option \<Rightarrow> string option" where
  "nonempty_env v = (case v of None \<Rightarrow> None | Some s \<Rightarrow> if trim s = [] then None else Some s)"

definition parent_invocation_uuid :: "json_codec \<Rightarrow> run_facts \<Rightarrow> string option" where
  "parent_invocation_uuid jc rf =
     (case nonempty_env (raw_parent rf) of
        None \<Rightarrow> None
      | Some raw \<Rightarrow>
          (case json_from_slice jc raw of
             Inl _ \<Rightarrow> None
           | Inr marker \<Rightarrow>
               (case (case jget marker ''id'' of None \<Rightarrow> None | Some v \<Rightarrow> as_str v) of
                  Some i \<Rightarrow> if i = [] then None else Some i
                | None \<Rightarrow> None)))"

definition owner_attestation_error :: app_error where
  "owner_attestation_error = app_error_new EX_IOERR
     ''agent-bash: explicit completion owner requires matching parent invocation and helper attestation''"

definition attested_owner ::
  "cli_facts \<Rightarrow> string \<Rightarrow> caller_entry list \<Rightarrow> (app_error + owner_context) \<Rightarrow> (app_error + owner_context) io" where
  "attested_owner fc invocation chain otherwise =
     or_app (\<lambda>e. app_error_new EX_IOERR (''agent-bash: failed to resolve completion owner: '' @ to_string e))
       (resolve_owner_binding fc (Some invocation) chain)
       (\<lambda>r. ret (case r of
               None \<Rightarrow> otherwise
             | Some (s, u) \<Rightarrow> Inr \<lparr>oc_session_id = Some s, oc_invocation_uuid = Some u\<rparr>))"

definition owner_context_of :: "json_codec \<Rightarrow> cli_facts \<Rightarrow> run_facts \<Rightarrow> caller_entry list \<Rightarrow> (app_error + owner_context) io" where
  "owner_context_of jc fc rf chain =
     (let session = nonempty_env (raw_session rf); invocation = nonempty_env (raw_invocation rf);
          parent = parent_invocation_uuid jc rf
      in if session \<noteq> None \<or> invocation \<noteq> None
         then (case (invocation, session) of
                 (Some i, Some _) \<Rightarrow>
                   if parent \<noteq> Some i then ret (Inl owner_attestation_error)
                   else attested_owner fc i chain (Inl owner_attestation_error)
               | _ \<Rightarrow> ret (Inl owner_attestation_error))
         else (case parent of
                 None \<Rightarrow> ret (Inr \<lparr>oc_session_id = None, oc_invocation_uuid = None\<rparr>)
               | Some i \<Rightarrow> attested_owner fc i chain (Inr \<lparr>oc_session_id = None, oc_invocation_uuid = None\<rparr>)))"

definition is_fresh_owner :: "owner_context \<Rightarrow> bool" where
  "is_fresh_owner oc = (case oc_session_id oc of None \<Rightarrow> False | Some s \<Rightarrow> starts_with ''v30:'' s)"

definition require_legacy_source_route :: "owner_context \<Rightarrow> app_error + unit" where
  "require_legacy_source_route oc =
     (if is_fresh_owner oc
      then Inl (app_error_new EX_UNAVAILABLE ''agent-bash: fresh owner requires committed v30 source registration'')
      else Inr ())"

fun contains_text :: "string \<Rightarrow> string \<Rightarrow> bool" where
  "contains_text p [] = (p = [])"
| "contains_text p (c # cs) = (starts_with p (c # cs) \<or> contains_text p cs)"

definition fresh_run_error :: "string \<Rightarrow> app_error" where
  "fresh_run_error e =
     app_error_new (if contains_text ''unavailable before K'' e then EX_UNAVAILABLE else EX_IOERR) (''agent-bash: '' @ e)"

subsection \<open>The new handle\<close>

definition sys_create_dir :: "unit io" where
  "sys_create_dir = sys (\<lambda>w. if dir_exists w then (Raise err_exists, w) else (Done (), w\<lparr>dir_exists := True\<rparr>))"

definition create_handle_state :: "unit io" where
  "create_handle_state = seq sys_sync (seq sys_sync sys_create_dir)"

definition create_log :: "unit io" where
  "create_log = sys_create_new (F Log)"

definition create_run_state :: "string \<Rightarrow> string \<Rightarrow> (app_error + 'b) io \<Rightarrow> (app_error + 'b) io" where
  "create_run_state root hdl n =
     (let failed = (\<lambda>p e. app_error_new EX_CANTCREAT (''agent-bash: failed to create handle state: '' @ p @ '': '' @ to_string e))
      in or_app (failed (path_join root hdl)) create_handle_state (\<lambda>_.
         or_app (failed (state_path root hdl Log)) create_log (\<lambda>_. n)))"

definition initial_meta_create_error :: "io_error \<Rightarrow> app_error" where
  "initial_meta_create_error e = app_error_new EX_CANTCREAT (''agent-bash: failed to create handle state: '' @ to_string e)"

definition persist_delivery_mode :: "delivery_mode \<Rightarrow> (app_error + 'b) io \<Rightarrow> (app_error + 'b) io" where
  "persist_delivery_mode d n = or_app initial_meta_create_error (write_delivery_mode_atomic d) (\<lambda>_. n)"

definition persist_initial_meta :: "meta \<Rightarrow> (app_error + 'b) io \<Rightarrow> (app_error + 'b) io" where
  "persist_initial_meta m n =
     or_app initial_meta_create_error (write_meta_atomic m) (\<lambda>_.
     or_app initial_meta_create_error (write_owner_atomic (owner_from_meta m)) (\<lambda>_. n))"

definition remove_state_dir :: "unit io" where
  "remove_state_dir = sys (\<lambda>w. (Done (), w\<lparr>dir_exists := False, files := Map.empty\<rparr>))"

definition attached_guard_error :: app_error where
  "attached_guard_error = app_error_new EX_USAGE ''agent-bash: must be called as an attached subprocess''"

definition registration_stage_error :: "string \<Rightarrow> io_error \<Rightarrow> app_error" where
  "registration_stage_error stage e =
     app_error_new EX_IOERR (''agent-bash: failed to register completion event: '' @ stage @ '': '' @ to_string e)"

record run_request =
  rq_delivery :: delivery_mode
  rq_scope :: completion_scope
  rq_sentinel :: "string option"
  rq_cancel_on_owner_exit :: bool
  rq_owner_pid :: "pid option"
  rq_argv :: "string list"

definition initial_meta ::
  "run_facts \<Rightarrow> run_request \<Rightarrow> nat \<Rightarrow> string \<Rightarrow> string \<Rightarrow> caller_entry list \<Rightarrow> caller_entry option \<Rightarrow> owner_context \<Rightarrow> helper_provenance \<Rightarrow> meta" where
  "initial_meta rf rq now hdl wd chain owner oc helper =
     with_delivery_helper
       (with_owner_context
         (meta_new now hdl (ce_pid (hd chain)) (own_pid rf) (rq_argv rq) wd (run_mode_of (rq_sentinel rq)) (rq_delivery rq)
            (rq_sentinel rq) chain owner)
         (oc_session_id oc) (oc_invocation_uuid oc))
       helper"

text \<open>From the creation of the directory to a complete initial record.\<close>

definition create_handle ::
  "run_facts \<Rightarrow> run_request \<Rightarrow> string \<Rightarrow> string \<Rightarrow> string \<Rightarrow> caller_entry list \<Rightarrow> caller_entry option \<Rightarrow> owner_context \<Rightarrow> (app_error + meta) io" where
  "create_handle rf rq root hdl wd chain owner oc =
     create_run_state root hdl
       (case pinned_helper rf of
          Inl e \<Rightarrow> seq (ignore_err remove_state_dir) (ret (Inl (registration_stage_error ''bind delivery helper to handle'' e)))
        | Inr helper \<Rightarrow>
            bind unix_ms (\<lambda>now.
              (let m = initial_meta rf rq now hdl wd chain owner oc helper
               in persist_delivery_mode (rq_delivery rq)
                    (persist_initial_meta m
                      (if \<not> snd (parent_still_attached rf)
                       then seq (ignore_err remove_state_dir) (ret (Inl attached_guard_error))
                       else ret (Inr m))))))"

definition emit_fresh :: "bytes \<Rightarrow> (app_error + bytes) io" where
  "emit_fresh result = or_app json_write_error (sys (ret ())) (\<lambda>_. ret (Inr result))"

definition start_run ::
  "codec \<Rightarrow> root_context \<Rightarrow> run_facts \<Rightarrow> run_request \<Rightarrow> string \<Rightarrow> string \<Rightarrow> meta \<Rightarrow> (app_error + startup_outcome) io" where
  "start_run cd cx rf rq root hdl m =
     or_app (registration_stage_error ''select paired or standalone route'')
       (selected cd cx hdl m (ring_evidence rf) (ancestor_evidence rf)) (\<lambda>paired.
     or_app (registration_stage_error (if paired then ''submit paired original work'' else ''start standalone supervisor registration''))
       (if paired
        then submit_inner cd cx hdl root m (rq_argv rq) (rq_scope rq) (rq_sentinel rq) (registration_authority rf)
        else lift_result (standalone_start rf)) (\<lambda>outcome. ret (Inr outcome)))"

definition run_output_json :: "run_output \<Rightarrow> json" where
  "run_output_json r =
     JObj [(''schema_version'', jnat (ro_schema_version r)), (''handle'', JStr (ro_handle r)), (''state_dir'', JStr (ro_state_dir r)),
       (''log'', JStr (ro_log r)), (''rc'', JStr (ro_rc r)), (''meta'', JStr (ro_meta r)), (''caller_ppid'', JNum (ro_caller_ppid r)),
       (''mode'', JStr (ro_mode r)), (''delivery_mode'', JStr (delivery_mode_as_str (ro_delivery_mode r))),
       (''ready_sentinel'', json_text (ro_ready_sentinel r)), (''dispatch_state'', JStr (dispatch_state r)),
       (''retry_safe'', JBool (retry_safe r)), (''effects_possible'', JBool (effects_possible r))]"

definition try_app :: "app_error + 'a \<Rightarrow> ('a \<Rightarrow> (app_error + 'b) io) \<Rightarrow> (app_error + 'b) io" where
  "try_app r f = (case r of Inl e \<Rightarrow> ret (Inl e) | Inr a \<Rightarrow> f a)"

text \<open>A run whose owner is not fresh, from its new handle on.\<close>

definition run_legacy ::
  "json_codec \<Rightarrow> codec \<Rightarrow> root_context \<Rightarrow> run_facts \<Rightarrow> run_request \<Rightarrow> string \<Rightarrow> string \<Rightarrow> caller_entry list \<Rightarrow> caller_entry option \<Rightarrow>
   owner_context \<Rightarrow> (app_error + bytes) io" where
  "run_legacy jc cd cx rf rq root wd chain owner oc =
     (case new_handle rf of
        Inl e \<Rightarrow> ret (Inl (app_error_new EX_SOFTWARE (''agent-bash: supervisor bootstrap failed: '' @ e)))
      | Inr hdl \<Rightarrow>
          and_then (create_handle rf rq root hdl wd chain owner oc) (\<lambda>m.
          and_then (start_run cd cx rf rq root hdl m) (\<lambda>outcome.
            emit_json jc (run_output_json (run_output_new root hdl (caller_ppid m) (run_mode_of (rq_sentinel rq)) (rq_delivery rq)
              (rq_sentinel rq) (startup_outcome_as_str outcome))))))"

text \<open>A fresh owner goes to the broker's route, or nowhere.\<close>

definition run_routed ::
  "json_codec \<Rightarrow> codec \<Rightarrow> root_context \<Rightarrow> run_facts \<Rightarrow> run_request \<Rightarrow> string \<Rightarrow> string \<Rightarrow> caller_entry list \<Rightarrow> caller_entry option \<Rightarrow>
   owner_context \<Rightarrow> (app_error + bytes) io" where
  "run_routed jc cd cx rf rq root wd chain owner oc =
     (if is_fresh_owner oc
      then if \<not> fst (parent_still_attached rf) then ret (Inl attached_guard_error)
           else (case fresh_again rf of
                   Inl e \<Rightarrow> ret (Inl (fresh_run_error e))
                 | Inr None \<Rightarrow> ret (Inl (app_error_new EX_UNAVAILABLE ''agent-bash: fresh Broker source route unavailable''))
                 | Inr (Some result) \<Rightarrow> emit_fresh result)
      else try_app (require_legacy_source_route oc) (\<lambda>_. run_legacy jc cd cx rf rq root wd chain owner oc))"

definition run_owned ::
  "json_codec \<Rightarrow> codec \<Rightarrow> root_context \<Rightarrow> cli_facts \<Rightarrow> run_facts \<Rightarrow> run_request \<Rightarrow> string \<Rightarrow> (app_error + bytes) io" where
  "run_owned jc cd cx fc rf rq wd =
     (case run_root rf of
        Inl e \<Rightarrow> ret (Inl (app_error_new EX_CANTCREAT (''agent-bash: state root unavailable: '' @ e)))
      | Inr root \<Rightarrow>
          (case run_chain rf of
             None \<Rightarrow> ret (Inl attached_guard_error)
           | Some chain \<Rightarrow>
               and_then (resolve_cancel_owner fc chain (rq_cancel_on_owner_exit rq) (rq_owner_pid rq)) (\<lambda>owner.
                 (case helper_ready rf of
                    Some e \<Rightarrow> ret (Inl (registration_stage_error ''prepare delivery helper'' e))
                  | None \<Rightarrow>
                      and_then (owner_context_of jc fc rf chain) (\<lambda>oc. run_routed jc cd cx rf rq root wd chain owner oc)))))"

definition run_command ::
  "json_codec \<Rightarrow> codec \<Rightarrow> root_context \<Rightarrow> cli_facts \<Rightarrow> run_facts \<Rightarrow> run_request \<Rightarrow> (app_error + bytes) io" where
  "run_command jc cd cx fc rf rq =
     try_app (validate_ready_sentinel rf (rq_sentinel rq)) (\<lambda>_.
     try_app (case validate_argv (rq_argv rq) of Inl e \<Rightarrow> Inl (app_error_new EX_USAGE e) | Inr _ \<Rightarrow> Inr ()) (\<lambda>_.
       (case cwd_result rf of
          Inl e \<Rightarrow> ret (Inl (app_error_new EX_IOERR (''agent-bash: failed to read current directory: '' @ to_string e)))
        | Inr wd \<Rightarrow>
            (case fresh_route rf of
               Inl e \<Rightarrow> ret (Inl (fresh_run_error e))
             | Inr (Some result) \<Rightarrow> emit_fresh result
             | Inr None \<Rightarrow> run_owned jc cd cx fc rf rq wd))))"

subsection \<open>The owner is attested\<close>

text \<open>A process of the chain that the lookup names with a session and an invocation.\<close>

definition attested :: "cli_facts \<Rightarrow> caller_entry list \<Rightarrow> string \<Rightarrow> string \<Rightarrow> bool" where
  "attested fc chain sid u \<longleftrightarrow>
     (\<exists>entry\<in>set chain. \<exists>t. lookup_result fc (ce_pid entry) (Some u) (of_pid fc t (ce_pid entry)) = Inr (Resolved sid u))"

lemma resolved_expected: "lookup_result fc p (Some u) a = Inr (Resolved s v) \<Longrightarrow> v = u"
  by (auto simp: lookup_result_def lookup_of_response_def Let_def
      split: lookup_answer.splits helper_reply.splits if_splits sum.splits option.splits)

lemma asking_lookup_expected:
  "asking (resolve_owner_for_pid fc p (Some u)) s (\<lambda>l. \<forall>sid v. l = Resolved sid v \<longrightarrow>
     v = u \<and> (\<exists>t. lookup_result fc p (Some u) (of_pid fc t p) = Inr (Resolved sid u)))"
  by (rule asking_lookup) (auto dest: resolved_expected)

abbreviation found :: "cli_facts \<Rightarrow> caller_entry list \<Rightarrow> string \<Rightarrow> (string \<times> string) option \<Rightarrow> bool" where
  "found fc chain u r \<equiv> \<forall>sid v. r = Some (sid, v) \<longrightarrow> v = u \<and> attested fc chain sid u"

lemma asking_pending:
  assumes "entry \<in> set chain"
  shows "asking (wait_for_pending_owner_binding fc entry u) s (found fc chain u)"
proof -
  have "asking (wait_pending_loop fc entry u deadline n) s (found fc chain u)" for deadline n s
  proof (induction n arbitrary: s)
    case 0
    then show ?case by (simp add: spec_def halt_def)
  next
    case (Suc n)
    have answered: "asking (case l of Resolved sid v \<Rightarrow> ret (Some (sid, v)) | OwnerPending \<Rightarrow> wait_pending_loop fc entry u deadline n
        | OwnerNotFound \<Rightarrow> ret None) t (found fc chain u)"
      if "\<forall>sid v. l = Resolved sid v \<longrightarrow> v = u \<and> (\<exists>t. lookup_result fc (ce_pid entry) (Some u) (of_pid fc t (ce_pid entry)) = Inr (Resolved sid u))" for l t
      by (cases l) (use that assms Suc in \<open>auto intro!: asking_ret simp: attested_def\<close>)
    have stop: "asking (ret None) s (found fc chain u)" by (rule asking_ret) simp
    show ?case
      unfolding wait_pending_loop.simps
      by (rule asking_still [OF still_keeps [OF keeps_ask]], rule spec_if, rule stop,
          rule asking_still [OF still_keeps [OF keeps_identity_live]], rule spec_if, rule stop,
          rule asking_bind [OF asking_lookup_expected], rule answered)
  qed
  then show ?thesis
    unfolding wait_for_pending_owner_binding_def
    by (intro asking_still [OF still_keeps [OF keeps_ask]] spec_patience [where m = "\<lambda>n. wait_pending_loop fc entry u _ n"])
qed

lemma found_more: "found fc chain u r \<Longrightarrow> found fc (entry # chain) u r"
  by (auto simp: attested_def)

lemma asking_resolve_expected: "asking (resolve_owner_binding fc (Some u) chain) s (found fc chain u)"
proof (induction chain arbitrary: s)
  case (Cons entry chain)
  have rest: "asking (resolve_owner_binding fc (Some u) chain) t (found fc (entry # chain) u)" for t
    by (rule spec_mono [OF Cons]) (auto simp: attested_def)
  have answered: "asking (case l of Resolved sid v \<Rightarrow> ret (Some (sid, v))
      | OwnerPending \<Rightarrow> (case Some u of None \<Rightarrow> resolve_owner_binding fc (Some u) chain | Some u \<Rightarrow> wait_for_pending_owner_binding fc entry u)
      | OwnerNotFound \<Rightarrow> resolve_owner_binding fc (Some u) chain) t (found fc (entry # chain) u)"
    if "\<forall>sid v. l = Resolved sid v \<longrightarrow> v = u \<and> (\<exists>t. lookup_result fc (ce_pid entry) (Some u) (of_pid fc t (ce_pid entry)) = Inr (Resolved sid u))" for l t
  proof (cases l)
    case OwnerPending
    then show ?thesis using asking_pending [of entry "entry # chain" fc u t] by simp
  qed (use that rest in \<open>auto intro!: asking_ret simp: attested_def\<close>)
  show ?case
    unfolding resolve_owner_binding.simps
    by (rule asking_still [OF still_keeps [OF keeps_identity_live]], rule spec_if, rule rest,
        rule asking_bind [OF asking_lookup_expected], rule answered)
qed (auto intro: asking_ret)

definition owner_proven :: "json_codec \<Rightarrow> cli_facts \<Rightarrow> run_facts \<Rightarrow> caller_entry list \<Rightarrow> owner_context \<Rightarrow> bool" where
  "owner_proven jc fc rf chain oc \<longleftrightarrow>
     (if oc_session_id oc = None \<and> oc_invocation_uuid oc = None
      then nonempty_env (raw_session rf) = None \<and> nonempty_env (raw_invocation rf) = None
      else \<exists>sid u. oc = \<lparr>oc_session_id = Some sid, oc_invocation_uuid = Some u\<rparr> \<and> parent_invocation_uuid jc rf = Some u \<and>
        attested fc chain sid u \<and> nonempty_env (raw_invocation rf) \<in> {None, Some u})"

lemma asking_attested_owner:
  assumes "otherwise = Inl e \<or> otherwise = Inr \<lparr>oc_session_id = None, oc_invocation_uuid = None\<rparr> \<and>
      nonempty_env (raw_session rf) = None \<and> nonempty_env (raw_invocation rf) = None"
    and "parent_invocation_uuid jc rf = Some u" and "nonempty_env (raw_invocation rf) \<in> {None, Some u}"
  shows "asking (attested_owner fc u chain otherwise) s (\<lambda>r. \<forall>oc. r = Inr oc \<longrightarrow> owner_proven jc fc rf chain oc)"
  unfolding attested_owner_def or_app_def
  by (rule spec_handle_err, rule spec_mono [OF asking_resolve_expected])
    (use assms in \<open>auto intro!: spec_ret simp: owner_proven_def split: option.split\<close>)

text \<open>
  C16. The owner of a run is attested: whatever the environment variables claim, a run that is given an owner has one whose invocation is that of
  the parent marker and for which the lookup named that very session and invocation for a process of the caller's chain; variables that claim an owner
  are never ignored.
\<close>

theorem run_owner_attested:
  assumes "owner_context_of jc fc rf chain w = (Done (Inr oc), w')"
  shows "owner_proven jc fc rf chain oc"
proof -
  let ?P = "\<lambda>r. \<forall>oc. r = Inr oc \<longrightarrow> owner_proven jc fc rf chain oc"
  have refused: "asking (ret (Inl e)) s ?P" for e s by (rule asking_ret) simp
  have nobody: "asking (ret (Inr \<lparr>oc_session_id = None, oc_invocation_uuid = None\<rparr>)) s ?P"
    if "nonempty_env (raw_session rf) = None" "nonempty_env (raw_invocation rf) = None" for s
    by (rule asking_ret) (use that in \<open>simp add: owner_proven_def\<close>)
  have "asking (owner_context_of jc fc rf chain) (view_of w) ?P"
    unfolding owner_context_of_def Let_def
    by (auto intro!: refused nobody asking_attested_owner split: option.split)
  from spec_run(1) [OF this assms] show ?thesis by simp
qed

subsection \<open>A started run has a complete record\<close>

definition complete_record :: "meta \<Rightarrow> view \<Rightarrow> bool" where
  "complete_record m s \<longleftrightarrow>
     vfiles s (F MetaFile) = Some (Regular (Doc m)) \<and> vfiles s (F Owner) = Some (Regular (OwnerDoc (owner_from_meta m))) \<and>
     vfiles s (F DeliveryModeFile) = Some (Regular (Text (delivery_mode_as_str (delivery_mode m)))) \<and>
     vfiles s (F Log) = Some (Regular (Text []))"

lemma reaches_or_app:
  "spec m s (\<lambda>a t. reaches (f a) t (\<lambda>r u. \<forall>x. r = Inr x \<longrightarrow> Q x u)) (\<lambda>_ _. True) (\<lambda>_. True) \<Longrightarrow>
   reaches (or_app c m f) s (\<lambda>r u. \<forall>x. r = Inr x \<longrightarrow> Q x u)"
  unfolding or_app_def by (rule spec_handle_err, erule spec_mono) (auto intro!: spec_ret)

lemma spec_create_log: "spec create_log s (\<lambda>_ t. vfiles t (F Log) = Some (Regular (Text []))) (\<lambda>_ _. True) (\<lambda>_. True)"
  unfolding create_log_def by (rule spec_create_new) simp_all

lemma delivery_mode_initial [simp]: "delivery_mode (initial_meta rf rq now hdl wd chain owner oc helper) = rq_delivery rq"
  by (simp add: initial_meta_def with_delivery_helper_def with_owner_context_def meta_new_def)

lemma reaches_initial_meta:
  assumes "vfiles s (F Log) = Some (Regular (Text []))"
    and "vfiles s (F DeliveryModeFile) = Some (Regular (Text (delivery_mode_as_str (delivery_mode m))))"
    and "\<And>t. complete_record m t \<Longrightarrow> reaches n t (\<lambda>r u. \<forall>x. r = Inr x \<longrightarrow> Q x u)"
  shows "reaches (persist_initial_meta m n) s (\<lambda>r u. \<forall>x. r = Inr x \<longrightarrow> Q x u)"
proof -
  have same: "m\<lparr>delivery_mode := delivery_mode m\<rparr> = m" by simp
  have "reaches (write_meta_atomic m) s (\<lambda>_ t. t = put (F MetaFile) (Some (Regular (Doc m))) s)"
    unfolding write_meta_atomic_def
    by (intro spec_handle_err spec_read_delivery_mode spec_atomic_write)
      (use assms(2) parse_delivery_mode_as_str in \<open>auto simp: same intro!: spec_atomic_write\<close>)
  then show ?thesis
    unfolding persist_initial_meta_def write_owner_atomic_def
    by (intro reaches_or_app, elim spec_mono, intro reaches_or_app spec_atomic_write)
      (use assms in \<open>auto simp: complete_record_def\<close>)
qed

text \<open>
  A run gets past the creation of its handle only with a complete record on disk: metadata, owner document and delivery mode that agree, and an
  empty log.
\<close>

theorem run_record_complete:
  assumes "create_handle rf rq root hdl wd chain owner oc w = (Done (Inr m), w')"
  shows "complete_record m (view_of w') \<and> state m = ''RUNNING'' \<and> handle m = hdl \<and>
    owner_session_id m = oc_session_id oc \<and> owner_invocation_uuid m = oc_invocation_uuid oc"
proof -
  let ?Q = "\<lambda>x u. complete_record x u \<and> (\<exists>now helper. x = initial_meta rf rq now hdl wd chain owner oc helper)"
  have finish: "reaches (if \<not> ok then seq (ignore_err remove_state_dir) (ret (Inl e)) else ret (Inr x)) t
      (\<lambda>r u. \<forall>y. r = Inr y \<longrightarrow> ?Q y u)"
    if "complete_record x t" "x = initial_meta rf rq now hdl wd chain owner oc helper" for ok e x now helper t
    by (intro spec_if reaches_then spec_ret) (use that in auto)
  have recorded: "reaches (bind unix_ms (\<lambda>now. persist_delivery_mode (rq_delivery rq)
      (persist_initial_meta (initial_meta rf rq now hdl wd chain owner oc helper)
        (if \<not> ok then seq (ignore_err remove_state_dir) (ret (Inl e)) else ret (Inr (initial_meta rf rq now hdl wd chain owner oc helper)))))) t
      (\<lambda>r u. \<forall>y. r = Inr y \<longrightarrow> ?Q y u)" if "vfiles t (F Log) = Some (Regular (Text []))" for helper ok e t
    unfolding unix_ms_def persist_delivery_mode_def write_delivery_mode_atomic_def
    by (rule spec_bind, rule spec_ask, intro reaches_or_app spec_atomic_write reaches_initial_meta finish) (use that in auto)
  have "reaches (create_handle rf rq root hdl wd chain owner oc) (view_of w) (\<lambda>r u. \<forall>y. r = Inr y \<longrightarrow> ?Q y u)"
    unfolding create_handle_def create_run_state_def Let_def
    by (rule reaches_or_app, rule keeps_spec [OF keeps_const [of True]], simp_all, rule reaches_or_app, rule spec_mono [OF spec_create_log],
        rule spec_sum, intro reaches_then spec_ret, simp, rule recorded, assumption)
  from spec_run(1) [OF this assms] show ?thesis
    by (auto simp: initial_meta_def with_delivery_helper_def with_owner_context_def meta_new_def)
qed

subsection \<open>Example\<close>

definition facts_session :: cli_facts where
  "facts_session = facts1\<lparr>parse_session := (\<lambda>_. Inr \<lparr>ps_found = True, ps_invocation_uuid = Some ''i1'', ps_session_id = Some ''s1''\<rparr>)\<rparr>"

definition run_facts1 :: run_facts where
  "run_facts1 = \<lparr>raw_session = Some ''s1'', raw_invocation = Some ''i1'', raw_parent = Some ''{}'', cwd_result = Inr ''/'', fresh_route = Inr None,
     fresh_again = Inr None, run_root = Inr ''/r'', run_chain = Some [worker0], helper_ready = None, new_handle = Inr ''ab_2'',
     pinned_helper = Inr helper0, own_pid = 7, parent_still_attached = (True, True), ring_evidence = Inr False, ancestor_evidence = Inr False,
     registration_authority = None, compile_sentinel = (\<lambda>_. Inr ()), standalone_start = Inr StRunning\<rparr>"

definition marker_codec :: json_codec where
  "marker_codec = cli_codec\<lparr>json_from_slice := (\<lambda>_. Inr (JObj [(''id'', JStr ''i1'')]))\<rparr>"

definition attached_world :: world where
  "attached_world = quiet_world\<lparr>env := quiet_env\<lparr>boot_file := (\<lambda>_. Inr ''b''),
     stat_files := (\<lambda>_ p. Inr (stat_line 41 1 5))\<rparr>\<rparr>"

lemma example_values:
  "read_boot_id_from (Inr ''b'') = ''b''"
  "nonempty_env (Some ''s1'') = Some ''s1''" "nonempty_env (Some ''i1'') = Some ''i1''" "nonempty_env (Some ''{}'') = Some ''{}''"
  by code_simp+

theorem run_owner_attested_witness:
  "\<exists>w'. owner_context_of marker_codec facts_session run_facts1 [worker0] attached_world =
     (Done (Inr \<lparr>oc_session_id = Some ''s1'', oc_invocation_uuid = Some ''i1''\<rparr>), w') \<and> attested facts_session [worker0] ''s1'' ''i1''"
proof -
  have "\<exists>w'. owner_context_of marker_codec facts_session run_facts1 [worker0] attached_world =
     (Done (Inr \<lparr>oc_session_id = Some ''s1'', oc_invocation_uuid = Some ''i1''\<rparr>), w')"
    by (simp add: example_values caller_live owner_context_of_def attested_owner_def parent_invocation_uuid_def run_facts1_def marker_codec_def facts_session_def facts1_def
        identity_live_def resolve_owner_for_pid_def lookup_result_def lookup_of_response_def current_boot_id_def attached_world_def
        or_app_def Let_def run_simps ask_def lift_result_def log_spawn_def may_stop_def)
  with run_owner_attested [of marker_codec facts_session run_facts1 "[worker0]" attached_world] show ?thesis
    by (fastforce simp: owner_proven_def)
qed

end
