(* ===== verification/Workload_Spawn.thy ===== *)
theory Workload_Spawn
  imports Event_Loop
begin

section \<open>Descriptors: spawning the workload\<close>

text \<open>
  The descriptor side of \<^verbatim>\<open>src/src/supervisor.rs\<close>: the pipes, the launch gate, the fork, and the child up to
  its \<^verbatim>\<open>execvp\<close>. Signal mask and process group of the child do not touch descriptors and are left out.

  A process is its descriptor table, the calls it has made, its children and the cgroup directories it made. The kernel answers each call by its tick: an
  error, or the numbers of the new descriptors, which must be free. A descriptor is what it refers to
  with its close-on-exec and nonblocking flags. \<^verbatim>\<open>close\<close> and \<^verbatim>\<open>dup2\<close> take no new number. A fork records the child with
  a copy of the table.
\<close>

subsection \<open>Tables\<close>

datatype fd_object =
  PipeEnd nat bool | GateEnd nat bool | CgroupProcs string | CgroupEvents string | Inotify | DevNull | Inherited nat

record open_file =
  object :: fd_object
  cloexec :: bool
  nonblocking :: bool

record fd_kernel =
  call_error :: "nat \<Rightarrow> io_error option"
  new_fds :: "nat \<Rightarrow> int \<times> int"
  fork_pid :: "nat \<Rightarrow> pid"

record fd_process =
  fd_table :: "int \<rightharpoonup> open_file"
  calls :: nat
  forked :: "(int \<rightharpoonup> open_file) list"
  awaited :: "pid list"
  cgroups :: "string list"

type_synonym 'a kop = "fd_kernel \<Rightarrow> fd_process \<Rightarrow> (io_error + 'a) \<times> fd_process"

definition kret :: "'a \<Rightarrow> 'a kop" where
  "kret a k p = (Inr a, p)"

definition kraise :: "io_error \<Rightarrow> 'a kop" where
  "kraise e k p = (Inl e, p)"

definition kbind :: "'a kop \<Rightarrow> ('a \<Rightarrow> 'b kop) \<Rightarrow> 'b kop" where
  "kbind m f k p = (case m k p of (Inr a, q) \<Rightarrow> f a k q | (Inl e, q) \<Rightarrow> (Inl e, q))"

text \<open>\<^verbatim>\<open>inspect_err\<close>, and a cleanup before an error is returned.\<close>

definition on_error :: "'a kop \<Rightarrow> unit kop \<Rightarrow> 'a kop" where
  "on_error m c k p = (case m k p of (Inr a, q) \<Rightarrow> (Inr a, q) | (Inl e, q) \<Rightarrow> (Inl e, snd (c k q)))"

definition kcall :: "(nat \<Rightarrow> 'a kop) \<Rightarrow> 'a kop" where
  "kcall f k p =
     (let t = calls p; q = p\<lparr>calls := Suc t\<rparr>
      in case call_error k t of Some e \<Rightarrow> (Inl e, q) | None \<Rightarrow> f t k q)"

definition EMFILE :: io_error where
  "EMFILE = io_other ''Too many open files (os error 24)''"

definition close_fd :: "int \<Rightarrow> unit kop" where
  "close_fd fd k p = (Inr (), p\<lparr>fd_table := (fd_table p)(fd := None)\<rparr>)"

definition set_fd :: "int \<Rightarrow> open_file \<Rightarrow> unit kop" where
  "set_fd fd f k p = (Inr (), p\<lparr>fd_table := (fd_table p)(fd \<mapsto> f)\<rparr>)"

text \<open>A call that returns a pair of new descriptors.\<close>

record pipe =
  read_end :: int
  write_end :: int

definition new_pair :: "(nat \<Rightarrow> bool \<Rightarrow> fd_object) \<Rightarrow> pipe kop" where
  "new_pair mk =
     kcall (\<lambda>t k p.
       (case new_fds k t of (r, w) \<Rightarrow>
          if 0 \<le> r \<and> 0 \<le> w \<and> r \<noteq> w \<and> fd_table p r = None \<and> fd_table p w = None
          then (Inr \<lparr>read_end = r, write_end = w\<rparr>,
                p\<lparr>fd_table := (fd_table p)(r \<mapsto> \<lparr>object = mk t False, cloexec = True, nonblocking = False\<rparr>,
                                     w \<mapsto> \<lparr>object = mk t True, cloexec = True, nonblocking = False\<rparr>)\<rparr>)
          else (Inl EMFILE, p)))"

definition new_fd :: "fd_object \<Rightarrow> int kop" where
  "new_fd ob =
     kcall (\<lambda>t k p.
       (case new_fds k t of (r, _) \<Rightarrow>
          if 0 \<le> r \<and> fd_table p r = None
          then (Inr r, p\<lparr>fd_table := (fd_table p)(r \<mapsto> \<lparr>object = ob, cloexec = True, nonblocking = False\<rparr>)\<rparr>)
          else (Inl EMFILE, p)))"

text \<open>\<^verbatim>\<open>dup2\<close>: the copy is not closed on exec; onto itself it does nothing, and an error leaves the target.\<close>

definition dup2 :: "int \<Rightarrow> int \<Rightarrow> unit kop" where
  "dup2 old new =
     kcall (\<lambda>_ k p.
       (case fd_table p old of
          None \<Rightarrow> (Inl (io_other ''Bad file descriptor (os error 9)''), p)
        | Some f \<Rightarrow> (Inr (), if old = new then p else p\<lparr>fd_table := (fd_table p)(new \<mapsto> f\<lparr>cloexec := False\<rparr>)\<rparr>)))"

definition ignored :: "'a kop \<Rightarrow> unit kop" where
  "ignored m k p = (Inr (), snd (m k p))"

definition make_pipe :: "pipe kop" where
  "make_pipe = new_pair PipeEnd"

definition make_start_gate :: "pipe kop" where
  "make_start_gate = new_pair GateEnd"

definition close_pipe :: "pipe \<Rightarrow> unit kop" where
  "close_pipe x = kbind (close_fd (read_end x)) (\<lambda>_. close_fd (write_end x))"

definition close_all :: "int list \<Rightarrow> unit kop" where
  "close_all fds = foldr (\<lambda>fd m. kbind (close_fd fd) (\<lambda>_. m)) fds (kret ())"

definition set_nonblocking :: "int \<Rightarrow> unit kop" where
  "set_nonblocking fd =
     kbind (kcall (\<lambda>_. kret ())) (\<lambda>_.
       kcall (\<lambda>_ k p.
         (case fd_table p fd of
            None \<Rightarrow> (Inl (io_other ''Bad file descriptor (os error 9)''), p)
          | Some f \<Rightarrow> set_fd fd (f\<lparr>nonblocking := True\<rparr>) k p)))"

subsection \<open>The supervisor's side\<close>

record workload_spawn =
  spawn_pid :: pid
  spawn_gate :: int
  spawn_stdout :: int
  spawn_stderr :: int
  spawn_exec_err :: int

text \<open>What the child starts with: its ends of the pipes, after the copy of the gate's write end is closed.\<close>

record child_fds =
  gate_read :: int
  stdout_pipe :: pipe
  stderr_pipe :: pipe
  exec_err_pipe :: pipe

definition fork :: "pid kop" where
  "fork = kcall (\<lambda>t k p. (Inr (fork_pid k t), p\<lparr>forked := forked p @ [fd_table p]\<rparr>))"

definition await :: "pid \<Rightarrow> unit kop" where
  "await c k p = (Inr (), p\<lparr>awaited := awaited p @ [c]\<rparr>)"

definition spawn_workload :: "(workload_spawn \<times> child_fds) kop" where
  "spawn_workload =
     kbind make_pipe (\<lambda>out.
     kbind (on_error make_pipe (close_pipe out)) (\<lambda>err.
     kbind (on_error make_pipe (kbind (close_pipe out) (\<lambda>_. close_pipe err))) (\<lambda>ex.
     kbind (on_error make_start_gate (kbind (close_pipe out) (\<lambda>_. kbind (close_pipe err) (\<lambda>_. close_pipe ex)))) (\<lambda>gate.
     kbind (on_error fork
       (kbind (close_pipe out) (\<lambda>_. kbind (close_pipe err) (\<lambda>_. kbind (close_pipe ex) (\<lambda>_. close_pipe gate))))) (\<lambda>c.
     kbind (close_all [read_end gate, write_end out, write_end err, write_end ex]) (\<lambda>_.
     kbind (on_error
       (kbind (set_nonblocking (read_end out)) (\<lambda>_.
        kbind (set_nonblocking (read_end err)) (\<lambda>_. set_nonblocking (read_end ex))))
       (kbind (close_all [write_end gate, read_end out, read_end err, read_end ex]) (\<lambda>_. await c))) (\<lambda>_.
     kret
       (\<lparr>spawn_pid = c, spawn_gate = write_end gate, spawn_stdout = read_end out, spawn_stderr = read_end err,
         spawn_exec_err = read_end ex\<rparr>,
        \<lparr>gate_read = read_end gate, stdout_pipe = out, stderr_pipe = err, exec_err_pipe = ex\<rparr>))))))))"

subsection \<open>The child's side\<close>

text \<open>
  The answers the child gets: what reading the gate returns (it stays blocked when they are used up), how many bytes the
  write of its pid takes, \<^verbatim>\<open>errno\<close>, and whether \<^verbatim>\<open>execvp\<close> fails.
\<close>

record child_answers =
  gate_reads :: "(io_error + bytes) list"
  child_pid :: pid
  pid_written :: int
  errno :: int
  exec_fails :: bool

datatype child_end =
  Blocked
| Exited int "bytes option"
| Execed "string list" "string \<rightharpoonup> string" "int \<rightharpoonup> open_file"

fun wait_for_workload_release :: "(io_error + bytes) list \<Rightarrow> bool option" where
  "wait_for_workload_release [] = None"
| "wait_for_workload_release (Inl e # rs) = (if kind e = Interrupted then wait_for_workload_release rs else Some False)"
| "wait_for_workload_release (Inr bs # rs) = Some (length bs = 1 \<and> hd bs = CHR 0x01)"

definition errno_bytes :: "int \<Rightarrow> bytes" where
  "errno_bytes n = map (\<lambda>i. char_of (n div 256 ^ i mod 256)) [0, 1, 2, 3]"

definition write_errno_and_exit :: "int \<Rightarrow> child_answers \<Rightarrow> fd_process \<Rightarrow> int \<Rightarrow> child_end" where
  "write_errno_and_exit code a p fd = Exited code (if fd_table p fd = None then None else Some (errno_bytes (errno a)))"

definition format_pid_line :: "pid \<Rightarrow> bytes option" where
  "format_pid_line c = (if c < 0 then None else Some (int_dec c @ [CHR 0x0A]))"

definition write_pid_to_procs_fd :: "child_answers \<Rightarrow> pid \<Rightarrow> int" where
  "write_pid_to_procs_fd a c =
     (case format_pid_line c of
        None \<Rightarrow> - 1
      | Some bs \<Rightarrow> if pid_written a = int (length bs) then 0 else - 1)"

definition redirect_workload_output :: "child_fds \<Rightarrow> unit kop" where
  "redirect_workload_output c =
     kbind (close_all [read_end (stdout_pipe c), read_end (stderr_pipe c), read_end (exec_err_pipe c)]) (\<lambda>_.
     kbind (ignored (dup2 (write_end (stdout_pipe c)) 1)) (\<lambda>_.
     ignored (dup2 (write_end (stderr_pipe c)) 2)))"

definition redirect_workload_stdin :: "unit kop" where
  "redirect_workload_stdin =
     ignored (kbind (new_fd DevNull) (\<lambda>fd. kbind (ignored (dup2 fd 0)) (\<lambda>_. close_fd fd)))"

definition redirect_stdio_to_devnull :: "unit kop" where
  "redirect_stdio_to_devnull =
     ignored (kbind (new_fd DevNull) (\<lambda>fd.
       kbind (ignored (dup2 fd 0)) (\<lambda>_. kbind (ignored (dup2 fd 1)) (\<lambda>_. kbind (ignored (dup2 fd 2)) (\<lambda>_. close_fd fd)))))"

definition close_workload_output_writes :: "child_fds \<Rightarrow> unit kop" where
  "close_workload_output_writes c = close_all [write_end (stdout_pipe c), write_end (stderr_pipe c)]"

text \<open>\<^verbatim>\<open>execvp\<close> keeps what is not closed on exec; two variables are removed from the environment first.\<close>

definition over_exec :: "(int \<rightharpoonup> open_file) \<Rightarrow> (int \<rightharpoonup> open_file)" where
  "over_exec t = (\<lambda>fd. case t fd of Some f \<Rightarrow> if cloexec f then None else Some f | None \<Rightarrow> None)"

definition exec_workload :: "string list \<Rightarrow> (string \<rightharpoonup> string) \<Rightarrow> child_answers \<Rightarrow> fd_process \<Rightarrow> child_end option" where
  "exec_workload av vars a p =
     (if exec_fails a then None
      else Some (Execed av
        (vars(''OULIPOLY_COMPLETION_REGISTRATION_AUTHORITY'' := None, ''AGENT_BASH_AGENT_RUNNER_BIN'' := None))
        (over_exec (fd_table p))))"

definition enroll_workload_in_cgroup :: "int option \<Rightarrow> child_answers \<Rightarrow> bool" where
  "enroll_workload_in_cgroup procs a \<longleftrightarrow>
     (case procs of None \<Rightarrow> True | Some fd \<Rightarrow> write_pid_to_procs_fd a (child_pid a) = 0)"

definition workload_child ::
  "string list \<Rightarrow> (string \<rightharpoonup> string) \<Rightarrow> int option \<Rightarrow> child_answers \<Rightarrow> fd_kernel \<Rightarrow> child_fds \<Rightarrow> fd_process \<Rightarrow> child_end" where
  "workload_child av vars procs a k c p =
     (case wait_for_workload_release (gate_reads a) of
        None \<Rightarrow> Blocked
      | Some False \<Rightarrow> Exited 126 None
      | Some True \<Rightarrow>
          (let p1 = snd (close_fd (gate_read c) k p)
           in if \<not> enroll_workload_in_cgroup procs a then write_errno_and_exit 126 a p1 (write_end (exec_err_pipe c))
              else
                (let p2 = snd (redirect_workload_output c k p1); p3 = snd (redirect_workload_stdin k p2);
                     p4 = snd (close_workload_output_writes c k p3)
                 in case exec_workload av vars a p4 of
                      Some e \<Rightarrow> e
                    | None \<Rightarrow> write_errno_and_exit 127 a p4 (write_end (exec_err_pipe c)))))"

text \<open>The child of \<^verbatim>\<open>spawn_workload\<close>, with the table the fork gave it.\<close>

definition forked_child ::
  "string list \<Rightarrow> (string \<rightharpoonup> string) \<Rightarrow> int option \<Rightarrow> child_answers \<Rightarrow> fd_kernel \<Rightarrow> workload_spawn \<times> child_fds \<Rightarrow> (int \<rightharpoonup> open_file) \<Rightarrow> child_end" where
  "forked_child av vars procs a k sc t =
     (let p = \<lparr>fd_table = t, calls = 0, forked = [], awaited = [], cgroups = []\<rparr>
      in workload_child av vars procs a k (snd sc) (snd (close_fd (spawn_gate (fst sc)) k p)))"

subsection \<open>Laws\<close>

text \<open>What an operation gives when it succeeds, and when it fails.\<close>

definition kspec :: "'a kop \<Rightarrow> fd_kernel \<Rightarrow> fd_process \<Rightarrow> ('a \<Rightarrow> fd_process \<Rightarrow> bool) \<Rightarrow> (fd_process \<Rightarrow> bool) \<Rightarrow> bool" where
  "kspec m k p Q E \<longleftrightarrow> (case m k p of (Inr a, q) \<Rightarrow> Q a q | (Inl _, q) \<Rightarrow> E q)"

named_theorems kspec_rules \<open>rules that follow a descriptor operation\<close>

lemma kspec_bind [kspec_rules]: "kspec m k p (\<lambda>a q. kspec (f a) k q Q E) E \<Longrightarrow> kspec (kbind m f) k p Q E"
  by (auto simp: kspec_def kbind_def split: prod.splits sum.splits)

lemma kspec_ret [kspec_rules]: "Q a p \<Longrightarrow> kspec (kret a) k p Q E"
  by (simp add: kspec_def kret_def)

lemma kspec_on_error: "kspec m k p Q (\<lambda>q. E (snd (c k q))) \<Longrightarrow> kspec (on_error m c) k p Q E"
  by (auto simp: kspec_def on_error_def split: prod.splits sum.splits)

lemma kspec_cleanup: "fst (c k q) = Inr () \<Longrightarrow> kspec c k q (\<lambda>_. E) (\<lambda>_. True) \<Longrightarrow> E (snd (c k q))"
  by (auto simp: kspec_def split: prod.splits sum.splits)

text \<open>The table with a new pair in it.\<close>

abbreviation fresh_file :: "fd_object \<Rightarrow> open_file" where
  "fresh_file ob \<equiv> \<lparr>object = ob, cloexec = True, nonblocking = False\<rparr>"

definition with_pair :: "(nat \<Rightarrow> bool \<Rightarrow> fd_object) \<Rightarrow> nat \<Rightarrow> pipe \<Rightarrow> (int \<rightharpoonup> open_file) \<Rightarrow> (int \<rightharpoonup> open_file)" where
  "with_pair mk i x t = t(read_end x \<mapsto> fresh_file (mk i False), write_end x \<mapsto> fresh_file (mk i True))"

definition ends :: "pipe \<Rightarrow> int list" where
  "ends x = [read_end x, write_end x]"

definition without :: "int list \<Rightarrow> (int \<rightharpoonup> open_file) \<Rightarrow> (int \<rightharpoonup> open_file)" where
  "without fds t = (\<lambda>fd. if fd \<in> set fds then None else t fd)"

lemma with_pair_free: "with_pair mk i x t fd = None \<longleftrightarrow> t fd = None \<and> fd \<notin> set (ends x)"
  by (auto simp: with_pair_def ends_def)

lemma kspec_new_pair [kspec_rules]:
  assumes "\<And>x i p'. forked p' = forked p \<Longrightarrow> awaited p' = awaited p \<Longrightarrow> list_all (\<lambda>fd. 0 \<le> fd \<and> fd_table p fd = None) (ends x) \<Longrightarrow>
      distinct (ends x) \<Longrightarrow> fd_table p' = with_pair mk i x (fd_table p) \<Longrightarrow> Q x p'"
    and "\<And>p'. fd_table p' = fd_table p \<Longrightarrow> forked p' = forked p \<Longrightarrow> awaited p' = awaited p \<Longrightarrow> E p'"
  shows "kspec (new_pair mk) k p Q E"
  by (auto simp: kspec_def new_pair_def kcall_def Let_def with_pair_def ends_def split: option.splits prod.splits intro!: assms)

lemma close_all_run: "close_all fds k p = (Inr (), p\<lparr>fd_table := without fds (fd_table p)\<rparr>)"
  by (induction fds arbitrary: p) (auto simp: close_all_def kret_def kbind_def close_fd_def without_def fun_eq_iff)

lemma kspec_close_all [kspec_rules]: "Q () (p\<lparr>fd_table := without fds (fd_table p)\<rparr>) \<Longrightarrow> kspec (close_all fds) k p Q E"
  by (simp add: kspec_def close_all_run)

lemma close_pipe_run: "close_pipe x k p = (Inr (), p\<lparr>fd_table := without (ends x) (fd_table p)\<rparr>)"
  by (auto simp: close_pipe_def kbind_def close_fd_def without_def ends_def fun_eq_iff)

lemma kspec_fork [kspec_rules]:
  assumes "\<And>c. Q c (p\<lparr>calls := Suc (calls p), forked := forked p @ [fd_table p]\<rparr>)"
    and "E (p\<lparr>calls := Suc (calls p)\<rparr>)"
  shows "kspec fork k p Q E"
  by (auto simp: kspec_def fork_def kcall_def Let_def split: option.splits intro!: assms)

lemma kspec_set_nonblocking [kspec_rules]:
  assumes "\<And>f p'. fd_table p fd = Some f \<Longrightarrow> fd_table p' = (fd_table p)(fd \<mapsto> f\<lparr>nonblocking := True\<rparr>) \<Longrightarrow> forked p' = forked p \<Longrightarrow> awaited p' = awaited p \<Longrightarrow> Q () p'"
    and "\<And>p'. fd_table p' = fd_table p \<Longrightarrow> forked p' = forked p \<Longrightarrow> awaited p' = awaited p \<Longrightarrow> E p'"
  shows "kspec (set_nonblocking fd) k p Q E"
  by (auto simp: kspec_def set_nonblocking_def kcall_def kbind_def kret_def set_fd_def Let_def split: option.splits intro!: assms)

definition same_children :: "fd_process \<Rightarrow> fd_process \<Rightarrow> bool" where
  "same_children p q \<longleftrightarrow> forked q = forked p \<and> awaited q = awaited p"

definition pipes_opened :: "pipe \<Rightarrow> pipe \<Rightarrow> pipe \<Rightarrow> pipe \<Rightarrow> fd_process \<Rightarrow> fd_process \<Rightarrow> bool" where
  "pipes_opened out err ex gate p q \<longleftrightarrow>
     distinct (ends out @ ends err @ ends ex @ ends gate) \<and>
     list_all (\<lambda>fd. 0 \<le> fd \<and> fd_table p fd = None) (ends out @ ends err @ ends ex @ ends gate) \<and> same_children p q \<and>
     (\<exists>i j l n. fd_table q = with_pair GateEnd n gate (with_pair PipeEnd l ex (with_pair PipeEnd j err (with_pair PipeEnd i out (fd_table p)))))"

lemma without_without: "without fds (without gds t) = without (fds @ gds) t"
  by (auto simp: without_def)

lemma in_ends [simp]: "read_end x \<in> set (ends x)" "write_end x \<in> set (ends x)"
  by (simp_all add: ends_def)

lemma without_pair: "read_end x \<in> set fds \<Longrightarrow> write_end x \<in> set fds \<Longrightarrow> without fds (with_pair mk i x t) = without fds t"
  by (auto simp: without_def with_pair_def ends_def fun_eq_iff)

lemma without_free: "list_all (\<lambda>fd. 0 \<le> fd \<and> t fd = None) fds \<Longrightarrow> without fds t = t"
  by (auto simp: without_def list_all_iff fun_eq_iff)

lemmas pair_simps = close_pipe_run kbind_def without_without without_pair without_free

lemma free_pair:
  "list_all (\<lambda>fd. 0 \<le> fd \<and> with_pair mk i x t fd = None) xs \<longleftrightarrow> list_all (\<lambda>fd. 0 \<le> fd \<and> t fd = None) xs \<and> set xs \<inter> set (ends x) = {}"
  by (auto simp: list_all_iff with_pair_free)

lemma kspec_spawn_pipes:
  assumes all_open: "\<And>out err ex gate q. pipes_opened out err ex gate p q \<Longrightarrow> kspec (f out err ex gate) k q Q E"
    and failed: "\<And>q. fd_table q = fd_table p \<Longrightarrow> same_children p q \<Longrightarrow> E q"
  shows "kspec (kbind make_pipe (\<lambda>out. kbind (on_error make_pipe (close_pipe out)) (\<lambda>err.
     kbind (on_error make_pipe (kbind (close_pipe out) (\<lambda>_. close_pipe err))) (\<lambda>ex.
     kbind (on_error make_start_gate (kbind (close_pipe out) (\<lambda>_. kbind (close_pipe err) (\<lambda>_. close_pipe ex)))) (f out err ex))))) k p Q E"
  unfolding make_pipe_def make_start_gate_def
  apply (rule kspec_bind, rule kspec_new_pair)
   prefer 2 subgoal by (rule failed) (simp_all add: same_children_def)
  apply (rule kspec_bind, rule kspec_on_error, rule kspec_new_pair)
   prefer 2 subgoal by (rule failed) (simp_all add: same_children_def free_pair pair_simps)
  apply (rule kspec_bind, rule kspec_on_error, rule kspec_new_pair)
   prefer 2 subgoal by (rule failed) (simp_all add: same_children_def free_pair pair_simps)
  apply (rule kspec_bind, rule kspec_on_error, rule kspec_new_pair)
   prefer 2 subgoal by (rule failed) (simp_all add: same_children_def free_pair pair_simps)
  apply (rule all_open)
  unfolding pipes_opened_def same_children_def
  apply (intro conjI)
      apply (simp add: free_pair Int_commute)
      apply blast
     apply (simp add: free_pair)
    apply simp
   apply simp
  apply simp
  apply blast
  done

definition abandoned :: "fd_process \<Rightarrow> fd_process \<Rightarrow> bool" where
  "abandoned p q \<longleftrightarrow> fd_table q = fd_table p \<and>
     (same_children p q \<or> (\<exists>c t. forked q = forked p @ [t] \<and> awaited q = awaited p @ [c]))"

definition spawned_workload :: "fd_process \<Rightarrow> workload_spawn \<times> child_fds \<Rightarrow> fd_process \<Rightarrow> bool" where
  "spawned_workload p sc q \<longleftrightarrow> (\<exists>out err ex gate q0 f1 f2 f3 c.
     pipes_opened out err ex gate p q0 \<and> forked q = forked p @ [fd_table q0] \<and> awaited q = awaited p \<and>
     snd sc = \<lparr>gate_read = read_end gate, stdout_pipe = out, stderr_pipe = err, exec_err_pipe = ex\<rparr> \<and>
     fst sc = \<lparr>spawn_pid = c, spawn_gate = write_end gate, spawn_stdout = read_end out, spawn_stderr = read_end err, spawn_exec_err = read_end ex\<rparr> \<and>
     fd_table q0 (read_end out) = Some f1 \<and> fd_table q0 (read_end err) = Some f2 \<and> fd_table q0 (read_end ex) = Some f3 \<and>
     fd_table q = (without [read_end gate, write_end out, write_end err, write_end ex] (fd_table q0))
       (read_end out \<mapsto> f1\<lparr>nonblocking := True\<rparr>, read_end err \<mapsto> f2\<lparr>nonblocking := True\<rparr>, read_end ex \<mapsto> f3\<lparr>nonblocking := True\<rparr>))"

lemma without_upd: "fd \<in> set fds \<Longrightarrow> without fds (t(fd := x)) = without fds t"
  by (auto simp: without_def fun_eq_iff)

lemma opened_closed:
  assumes "pipes_opened out err ex gate p q0" and "set (ends out @ ends err @ ends ex @ ends gate) \<subseteq> set fds"
    and "set fds \<subseteq> set (ends out @ ends err @ ends ex @ ends gate)"
  shows "without fds (fd_table q0) = fd_table p"
proof -
  obtain i j l n where t: "fd_table q0 = with_pair GateEnd n gate (with_pair PipeEnd l ex (with_pair PipeEnd j err (with_pair PipeEnd i out (fd_table p))))"
    using assms(1) by (auto simp: pipes_opened_def)
  have "list_all (\<lambda>fd. 0 \<le> fd \<and> fd_table p fd = None) fds"
    using assms(1,3) by (auto simp: pipes_opened_def list_all_iff)
  then show ?thesis using assms(2) by (simp add: t without_pair without_free subset_iff)
qed

lemma spawn_spec: "kspec spawn_workload k p (spawned_workload p) (abandoned p)"
  unfolding spawn_workload_def
proof (rule kspec_spawn_pipes)
  fix q assume "fd_table q = fd_table p" "same_children p q"
  then show "abandoned p q" by (simp add: abandoned_def)
next
  fix out err ex gate q0 assume o: "pipes_opened out err ex gate p q0"
  have kids: "forked q0 = forked p" "awaited q0 = awaited p" using o by (simp_all add: pipes_opened_def same_children_def)
  have all: "without (ends gate @ ends ex @ ends err @ ends out) (fd_table q0) = fd_table p" by (rule opened_closed [OF o]) auto
  have rest: "without ([write_end gate, read_end out, read_end err, read_end ex] @ [read_end gate, write_end out, write_end err, write_end ex]) (fd_table q0) = fd_table p"
    by (rule opened_closed [OF o]) (auto simp: ends_def)
  have apart: "distinct [read_end out, write_end out, read_end err, write_end err, read_end ex, write_end ex, read_end gate, write_end gate]"
    using o by (simp add: pipes_opened_def ends_def)
  show "kspec (kbind (on_error fork
       (kbind (close_pipe out) (\<lambda>_. kbind (close_pipe err) (\<lambda>_. kbind (close_pipe ex) (\<lambda>_. close_pipe gate))))) (\<lambda>c.
     kbind (close_all [read_end gate, write_end out, write_end err, write_end ex]) (\<lambda>_.
     kbind (on_error
       (kbind (set_nonblocking (read_end out)) (\<lambda>_.
        kbind (set_nonblocking (read_end err)) (\<lambda>_. set_nonblocking (read_end ex))))
       (kbind (close_all [write_end gate, read_end out, read_end err, read_end ex]) (\<lambda>_. await c))) (\<lambda>_.
     kret
       (\<lparr>spawn_pid = c, spawn_gate = write_end gate, spawn_stdout = read_end out, spawn_stderr = read_end err,
         spawn_exec_err = read_end ex\<rparr>,
        \<lparr>gate_read = read_end gate, stdout_pipe = out, stderr_pipe = err, exec_err_pipe = ex\<rparr>))))) k q0 (spawned_workload p) (abandoned p)"
    apply (rule kspec_bind, rule kspec_on_error, rule kspec_fork)
     prefer 2 subgoal using all by (simp add: abandoned_def same_children_def kids close_pipe_run kbind_def without_without)
    apply (rule kspec_bind, rule kspec_close_all, rule kspec_bind, rule kspec_on_error)
    apply (rule kspec_bind, rule kspec_set_nonblocking)
     prefer 2 subgoal using rest by (simp add: abandoned_def kids close_all_run await_def kbind_def without_without)
    apply (rule kspec_bind, rule kspec_set_nonblocking)
     prefer 2 subgoal using rest by (simp add: abandoned_def kids close_all_run await_def kbind_def without_upd without_without)
    apply (rule kspec_set_nonblocking)
     prefer 2 subgoal using rest by (simp add: abandoned_def kids close_all_run await_def kbind_def without_upd without_without)
    apply (rule kspec_ret)
    subgoal premises prems for c f p1 fa p2 fb p3
    proof -
      have "fd_table q0 (read_end out) = Some f" "fd_table q0 (read_end err) = Some fa" "fd_table q0 (read_end ex) = Some fb"
        using prems(1,2,5,6,9) apart by (simp_all add: without_def split: if_splits)
      with prems o show ?thesis by (force simp: spawned_workload_def kids)
    qed
    done
qed

abbreviation read_file :: "nat \<Rightarrow> open_file" where
  "read_file i \<equiv> \<lparr>object = PipeEnd i False, cloexec = True, nonblocking = True\<rparr>"

lemma started_obtain:
  assumes "spawned_workload p sc q"
  obtains out err ex gate q0 i j l n c where
    "pipes_opened out err ex gate p q0" "forked q = forked p @ [fd_table q0]" "awaited q = awaited p"
    "distinct [read_end out, write_end out, read_end err, write_end err, read_end ex, write_end ex, read_end gate, write_end gate]"
    "fd_table q0 = with_pair GateEnd n gate (with_pair PipeEnd l ex (with_pair PipeEnd j err (with_pair PipeEnd i out (fd_table p))))"
    "sc = (\<lparr>spawn_pid = c, spawn_gate = write_end gate, spawn_stdout = read_end out, spawn_stderr = read_end err, spawn_exec_err = read_end ex\<rparr>,
           \<lparr>gate_read = read_end gate, stdout_pipe = out, stderr_pipe = err, exec_err_pipe = ex\<rparr>)"
    "fd_table q = (without [read_end gate, write_end out, write_end err, write_end ex] (fd_table q0))
       (read_end out \<mapsto> read_file i, read_end err \<mapsto> read_file j, read_end ex \<mapsto> read_file l)"
proof -
  obtain out err ex gate q0 f1 f2 f3 c where st:
    "pipes_opened out err ex gate p q0" "forked q = forked p @ [fd_table q0]" "awaited q = awaited p"
    "snd sc = \<lparr>gate_read = read_end gate, stdout_pipe = out, stderr_pipe = err, exec_err_pipe = ex\<rparr>"
    "fst sc = \<lparr>spawn_pid = c, spawn_gate = write_end gate, spawn_stdout = read_end out, spawn_stderr = read_end err, spawn_exec_err = read_end ex\<rparr>"
    and f: "fd_table q0 (read_end out) = Some f1" "fd_table q0 (read_end err) = Some f2" "fd_table q0 (read_end ex) = Some f3"
    and q: "fd_table q = (without [read_end gate, write_end out, write_end err, write_end ex] (fd_table q0))
       (read_end out \<mapsto> f1\<lparr>nonblocking := True\<rparr>, read_end err \<mapsto> f2\<lparr>nonblocking := True\<rparr>, read_end ex \<mapsto> f3\<lparr>nonblocking := True\<rparr>)"
    using assms unfolding spawned_workload_def by blast
  from st(1) obtain i j l n where q0: "fd_table q0 = with_pair GateEnd n gate (with_pair PipeEnd l ex (with_pair PipeEnd j err (with_pair PipeEnd i out (fd_table p))))"
    unfolding pipes_opened_def by blast
  have apart: "distinct [read_end out, write_end out, read_end err, write_end err, read_end ex, write_end ex, read_end gate, write_end gate]"
    using st(1) by (simp add: pipes_opened_def ends_def)
  then have "f1 = fresh_file (PipeEnd i False)" "f2 = fresh_file (PipeEnd j False)" "f3 = fresh_file (PipeEnd l False)"
    using f by (clarsimp simp: q0 with_pair_def)+
  with q have "fd_table q = (without [read_end gate, write_end out, write_end err, write_end ex] (fd_table q0))
       (read_end out \<mapsto> read_file i, read_end err \<mapsto> read_file j, read_end ex \<mapsto> read_file l)" by simp
  from that [OF st(1-3) apart q0 _ this, of c] st(4,5) show thesis by (cases sc) simp
qed

text \<open>
  Spawning the workload leaks no descriptor: when it fails anywhere, the supervisor's table is exactly the one before and a child that was forked is
  waited for; when it succeeds, the table has gained exactly the gate and the three reading ends, all closed on exec, and one child was forked.
\<close>

theorem spawn_leaks_nothing:
  assumes "spawn_workload k p = (r, q)"
  shows "case r of
     Inl e \<Rightarrow> fd_table q = fd_table p \<and> (same_children p q \<or> (\<exists>c t. forked q = forked p @ [t] \<and> awaited q = awaited p @ [c]))
   | Inr (s, c) \<Rightarrow>
       (let mine = [spawn_gate s, spawn_stdout s, spawn_stderr s, spawn_exec_err s]
        in distinct mine \<and> without mine (fd_table q) = fd_table p \<and>
           list_all (\<lambda>fd. fd_table p fd = None \<and> (\<exists>f. fd_table q fd = Some f \<and> cloexec f)) mine \<and>
           awaited q = awaited p \<and> (\<exists>t. forked q = forked p @ [t]))"
proof (cases r)
  case (Inl e)
  with assms spawn_spec [of k p] show ?thesis by (simp add: kspec_def abandoned_def)
next
  case (Inr sc)
  with assms spawn_spec [of k p] have "spawned_workload p sc q" by (simp add: kspec_def)
  then show ?thesis
  proof (rule started_obtain)
    fix out err ex gate q0 i j l n c
    assume o: "pipes_opened out err ex gate p q0" and fk: "forked q = forked p @ [fd_table q0]" "awaited q = awaited p"
      and apart: "distinct [read_end out, write_end out, read_end err, write_end err, read_end ex, write_end ex, read_end gate, write_end gate]"
      and q0: "fd_table q0 = with_pair GateEnd n gate (with_pair PipeEnd l ex (with_pair PipeEnd j err (with_pair PipeEnd i out (fd_table p))))"
      and sc: "sc = (\<lparr>spawn_pid = c, spawn_gate = write_end gate, spawn_stdout = read_end out, spawn_stderr = read_end err, spawn_exec_err = read_end ex\<rparr>,
           \<lparr>gate_read = read_end gate, stdout_pipe = out, stderr_pipe = err, exec_err_pipe = ex\<rparr>)"
      and q: "fd_table q = (without [read_end gate, write_end out, write_end err, write_end ex] (fd_table q0))
       (read_end out \<mapsto> read_file i, read_end err \<mapsto> read_file j, read_end ex \<mapsto> read_file l)"
    have "without ([write_end gate, read_end out, read_end err, read_end ex] @ [read_end gate, write_end out, write_end err, write_end ex]) (fd_table q0) = fd_table p"
      by (rule opened_closed [OF o]) (auto simp: ends_def)
    then have "without [write_end gate, read_end out, read_end err, read_end ex] (fd_table q) = fd_table p"
      by (simp add: q without_upd without_without)
    moreover have "fd_table q (write_end gate) = Some (fresh_file (GateEnd n True))" "fd_table q (read_end out) = Some (read_file i)"
      "fd_table q (read_end err) = Some (read_file j)" "fd_table q (read_end ex) = Some (read_file l)"
      using apart by (clarsimp simp: q q0 with_pair_def without_def)+
    moreover have "list_all (\<lambda>fd. fd_table p fd = None) [write_end gate, read_end out, read_end err, read_end ex]"
      using o by (simp add: pipes_opened_def ends_def)
    ultimately show ?thesis using apart by (clarsimp simp: Inr Let_def sc fk)
  qed
qed

subsection \<open>What the workload gets\<close>

text \<open>Every descriptor but the three standard ones is closed on exec.\<close>

definition stdio_only :: "(int \<rightharpoonup> open_file) \<Rightarrow> bool" where
  "stdio_only t \<longleftrightarrow> (\<forall>fd f. t fd = Some f \<longrightarrow> fd \<notin> {0, 1, 2} \<longrightarrow> cloexec f)"

lemma guarded_close: "stdio_only (fd_table p) \<Longrightarrow> stdio_only (fd_table (snd (close_all fds k p)))"
  by (auto simp: stdio_only_def close_all_run without_def split: if_splits)

lemma guarded_dup2: "stdio_only (fd_table p) \<Longrightarrow> new \<in> {0, 1, 2} \<Longrightarrow> stdio_only (fd_table (snd (dup2 old new k p)))"
  by (auto simp: stdio_only_def dup2_def kcall_def Let_def split: option.splits if_splits)

lemma guarded_new: "stdio_only (fd_table p) \<Longrightarrow> stdio_only (fd_table (snd (new_fd ob k p)))"
  by (auto simp: stdio_only_def new_fd_def kcall_def Let_def split: option.splits if_splits prod.splits)

lemma guarded_ignored: "stdio_only (fd_table (snd (m k p))) \<Longrightarrow> stdio_only (fd_table (snd (ignored m k p)))"
  by (simp add: ignored_def)

lemma guarded_bind: "stdio_only (fd_table (snd (m k p))) \<Longrightarrow> (\<And>a q. m k p = (Inr a, q) \<Longrightarrow> stdio_only (fd_table q) \<Longrightarrow> stdio_only (fd_table (snd (f a k q)))) \<Longrightarrow> stdio_only (fd_table (snd (kbind m f k p)))"
  by (auto simp: kbind_def split: prod.split sum.split)

lemma guarded_output: "stdio_only (fd_table p) \<Longrightarrow> stdio_only (fd_table (snd (redirect_workload_output c k p)))"
  unfolding redirect_workload_output_def by (intro guarded_bind guarded_close guarded_ignored guarded_dup2) simp_all

lemma guarded_stdin: "stdio_only (fd_table p) \<Longrightarrow> stdio_only (fd_table (snd (redirect_workload_stdin k p)))"
proof -
  assume g: "stdio_only (fd_table p)"
  have cl: "stdio_only (fd_table q) \<Longrightarrow> stdio_only (fd_table (snd (close_fd fd k q)))" for q fd
    by (auto simp: stdio_only_def close_fd_def split: if_splits)
  show ?thesis unfolding redirect_workload_stdin_def
    by (intro guarded_ignored guarded_bind guarded_new g cl guarded_dup2) simp_all
qed

lemma guarded_over_exec: "stdio_only t \<Longrightarrow> dom (over_exec t) \<subseteq> {0, 1, 2}"
  by (fastforce simp: stdio_only_def over_exec_def dom_def split: option.splits if_splits)

text \<open>The pipes are not among the standard descriptors, so each stream goes to its own pipe.\<close>

lemma stdin_keeps: "fd \<noteq> 0 \<Longrightarrow> fd_table p fd = Some f \<Longrightarrow> fd_table (snd (redirect_workload_stdin k p)) fd = Some f"
  by (auto simp: redirect_workload_stdin_def ignored_def kbind_def new_fd_def dup2_def close_fd_def kcall_def Let_def split: option.splits prod.splits sum.splits)

lemma output_exact:
  assumes "\<And>n. call_error k n = None" and "fd_table p (write_end (stdout_pipe c)) = Some f" "fd_table p (write_end (stderr_pipe c)) = Some g"
    and "distinct [1, 2, read_end (stdout_pipe c), read_end (stderr_pipe c), read_end (exec_err_pipe c), write_end (stdout_pipe c), write_end (stderr_pipe c)]"
  shows "fd_table (snd (redirect_workload_output c k p)) 1 = Some (f\<lparr>cloexec := False\<rparr>) \<and>
    fd_table (snd (redirect_workload_output c k p)) 2 = Some (g\<lparr>cloexec := False\<rparr>)"
  using assms by (clarsimp simp: redirect_workload_output_def kbind_def close_all_run ignored_def dup2_def kcall_def Let_def without_def)

lemma released_by_byte:
  "wait_for_workload_release rs = Some True \<Longrightarrow> \<exists>us vs. rs = us @ Inr [CHR 0x01] # vs \<and> list_all (\<lambda>r. \<exists>e. r = Inl e \<and> kind e = Interrupted) us"
proof (induction rs rule: wait_for_workload_release.induct)
  case (2 e rs)
  then obtain us vs where "rs = us @ Inr [CHR 0x01] # vs" "list_all (\<lambda>r. \<exists>e. r = Inl e \<and> kind e = Interrupted) us" "kind e = Interrupted"
    by (auto split: if_splits)
  then show ?case by (intro exI [of _ "Inl e # us"] exI [of _ vs]) simp
next
  case (3 bs rs)
  then have "bs = [CHR 0x01]" by (cases bs) auto
  then show ?case by (intro exI [of _ "[]"] exI [of _ rs]) simp
qed simp

lemma child_execs:
  assumes "workload_child av vars procs a k c p = Execed av' vars' t"
  shows "wait_for_workload_release (gate_reads a) = Some True \<and> enroll_workload_in_cgroup procs a \<and> av' = av \<and>
    vars' = vars(''OULIPOLY_COMPLETION_REGISTRATION_AUTHORITY'' := None, ''AGENT_BASH_AGENT_RUNNER_BIN'' := None) \<and>
    t = over_exec (fd_table (snd (close_workload_output_writes c k (snd (redirect_workload_stdin k (snd (redirect_workload_output c k
      (snd (close_fd (gate_read c) k p)))))))))"
  using assms by (auto simp: workload_child_def exec_workload_def write_errno_and_exit_def Let_def split: option.splits bool.splits if_splits)

text \<open>
  C40. The workload is executed only after the supervisor's byte came through the launch gate and, in a cgroup, after it was enrolled there. It gets the
  given arguments, neither the registration authority nor the runner's path in its environment, and no descriptor but the standard three; its standard
  output and error are the writing ends of the pipes whose reading ends the supervisor holds, unless a call of the child fails.
\<close>

theorem workload_execs_released:
  assumes "spawn_workload k p = (Inr sc, q)" and "fd_table p 0 \<noteq> None" "fd_table p 1 \<noteq> None" "fd_table p 2 \<noteq> None" and "stdio_only (fd_table p)"
    and "forked_child av vars procs a k' sc (last (forked q)) = Execed av' vars' t"
  shows "av' = av \<and> (\<exists>us vs. gate_reads a = us @ Inr [CHR 0x01] # vs \<and> list_all (\<lambda>r. \<exists>e. r = Inl e \<and> kind e = Interrupted) us) \<and>
    (procs \<noteq> None \<longrightarrow> write_pid_to_procs_fd a (child_pid a) = 0) \<and>
    vars' ''OULIPOLY_COMPLETION_REGISTRATION_AUTHORITY'' = None \<and> vars' ''AGENT_BASH_AGENT_RUNNER_BIN'' = None \<and> dom t \<subseteq> {0, 1, 2} \<and>
    ((\<forall>n. call_error k' n = None) \<longrightarrow>
      (\<exists>i j. map_option object (t 1) = Some (PipeEnd i True) \<and> map_option object (fd_table q (spawn_stdout (fst sc))) = Some (PipeEnd i False) \<and>
             map_option object (t 2) = Some (PipeEnd j True) \<and> map_option object (fd_table q (spawn_stderr (fst sc))) = Some (PipeEnd j False)))"
proof -
  have "spawned_workload p sc q" using assms(1) spawn_spec [of k p] by (simp add: kspec_def)
  then show ?thesis
  proof (rule started_obtain)
    fix out err ex gate q0 i j l n c
    assume o: "pipes_opened out err ex gate p q0" and fk: "forked q = forked p @ [fd_table q0]"
      and apart: "distinct [read_end out, write_end out, read_end err, write_end err, read_end ex, write_end ex, read_end gate, write_end gate]"
      and q0: "fd_table q0 = with_pair GateEnd n gate (with_pair PipeEnd l ex (with_pair PipeEnd j err (with_pair PipeEnd i out (fd_table p))))"
      and sc: "sc = (\<lparr>spawn_pid = c, spawn_gate = write_end gate, spawn_stdout = read_end out, spawn_stderr = read_end err, spawn_exec_err = read_end ex\<rparr>,
           \<lparr>gate_read = read_end gate, stdout_pipe = out, stderr_pipe = err, exec_err_pipe = ex\<rparr>)"
      and q: "fd_table q = (without [read_end gate, write_end out, write_end err, write_end ex] (fd_table q0))
       (read_end out \<mapsto> read_file i, read_end err \<mapsto> read_file j, read_end ex \<mapsto> read_file l)"
    let ?c = "\<lparr>gate_read = read_end gate, stdout_pipe = out, stderr_pipe = err, exec_err_pipe = ex\<rparr>"
    let ?p0 = "snd (close_all [write_end gate, read_end gate] k' \<lparr>fd_table = fd_table q0, calls = 0, forked = [], awaited = [], cgroups = []\<rparr>)"
    let ?t = "fd_table (snd (close_workload_output_writes ?c k' (snd (redirect_workload_stdin k' (snd (redirect_workload_output ?c k' ?p0))))))"
    have ex: "wait_for_workload_release (gate_reads a) = Some True \<and> enroll_workload_in_cgroup procs a \<and> av' = av \<and>
        vars' = vars(''OULIPOLY_COMPLETION_REGISTRATION_AUTHORITY'' := None, ''AGENT_BASH_AGENT_RUNNER_BIN'' := None) \<and> t = over_exec ?t"
      using child_execs [OF assms(6) [unfolded forked_child_def Let_def]] by (simp add: sc fk close_all_def kbind_def kret_def close_fd_def)
    have "stdio_only (fd_table ?p0)"
      by (rule guarded_close) (use assms(5) in \<open>auto simp: q0 stdio_only_def with_pair_def split: if_splits\<close>)
    then have "stdio_only ?t" unfolding close_workload_output_writes_def by (rule guarded_close [OF guarded_stdin [OF guarded_output]])
    then have "dom t \<subseteq> {0, 1, 2}" using ex guarded_over_exec by simp
    moreover have "\<exists>i j. map_option object (t 1) = Some (PipeEnd i True) \<and> map_option object (fd_table q (spawn_stdout (fst sc))) = Some (PipeEnd i False) \<and>
         map_option object (t 2) = Some (PipeEnd j True) \<and> map_option object (fd_table q (spawn_stderr (fst sc))) = Some (PipeEnd j False)"
      if quiet: "\<forall>n. call_error k' n = None"
    proof -
      have apart': "distinct [1, 2, read_end out, read_end err, read_end ex, write_end out, write_end err]"
        using apart o assms(3,4) by (clarsimp simp: pipes_opened_def ends_def) force
      have pipes: "fd_table ?p0 (write_end out) = Some (fresh_file (PipeEnd i True))" "fd_table ?p0 (write_end err) = Some (fresh_file (PipeEnd j True))"
        using apart by (clarsimp simp: q0 with_pair_def close_all_run without_def)+
      have "fd_table (snd (redirect_workload_output ?c k' ?p0)) 1 = Some (fresh_file (PipeEnd i True)\<lparr>cloexec := False\<rparr>) \<and>
          fd_table (snd (redirect_workload_output ?c k' ?p0)) 2 = Some (fresh_file (PipeEnd j True)\<lparr>cloexec := False\<rparr>)"
        by (rule output_exact) (use quiet pipes apart' in simp_all)
      then have "?t 1 = Some (fresh_file (PipeEnd i True)\<lparr>cloexec := False\<rparr>)" "?t 2 = Some (fresh_file (PipeEnd j True)\<lparr>cloexec := False\<rparr>)"
        using apart' by (auto simp: close_workload_output_writes_def close_all_run [of "[write_end out, write_end err]"] without_def stdin_keeps)
      then have "map_option object (t 1) = Some (PipeEnd i True)" "map_option object (t 2) = Some (PipeEnd j True)"
        using ex by (auto simp: over_exec_def)
      moreover have "fd_table q (read_end out) = Some (read_file i)" "fd_table q (read_end err) = Some (read_file j)"
        using apart by (clarsimp simp: q)+
      ultimately show ?thesis by (auto simp: sc)
    qed
    ultimately show ?thesis using ex released_by_byte [of "gate_reads a"] by (auto simp: enroll_workload_in_cgroup_def)
  qed
qed

subsection \<open>What a failed child reports\<close>

lemma errno_round_trip:
  assumes "i32_range n"
  shows "exec_error_errno (errno_bytes n) = Some n"
proof -
  let ?u = "n mod 4294967296"
  have bytes: "map of_char (errno_bytes n) = [n mod 256, n div 256 mod 256, n div 65536 mod 256, n div 16777216 mod 256]"
    by (simp add: errno_bytes_def of_char_of)
  have split: "x mod (256 * m) = x mod 256 + 256 * (x div 256 mod m)" if "0 \<le> m" for x m :: int
    using zmod_zmult2_eq [OF that, of x 256] by simp
  have shift: "n div 256 div 256 = n div 65536" "n div 65536 div 256 = n div 16777216"
    using zdiv_zmult2_eq [of 256 n 256] zdiv_zmult2_eq [of 256 n 65536] by simp_all
  have "?u = n mod 256 + 256 * (n div 256 mod 16777216)" using split [of 16777216 n] by simp
  moreover have "n div 256 mod 16777216 = n div 256 mod 256 + 256 * (n div 65536 mod 65536)"
    using split [of 65536 "n div 256"] by (simp add: shift)
  moreover have "n div 65536 mod 65536 = n div 65536 mod 256 + 256 * (n div 16777216 mod 256)"
    using split [of 256 "n div 65536"] by (simp add: shift)
  ultimately have sum: "n mod 256 + 256 * (n div 256 mod 256) + 65536 * (n div 65536 mod 256) + 16777216 * (n div 16777216 mod 256) = ?u" by linarith
  have wrap: "(if ?u \<ge> 2147483648 then ?u - 4294967296 else ?u) = n"
  proof (cases "n < 0")
    case True
    have "?u = (n + 4294967296) mod 4294967296" by simp
    also have "\<dots> = n + 4294967296" using assms True by (intro mod_pos_pos_trivial) (simp_all add: i32_range_def)
    finally show ?thesis using assms by (simp add: i32_range_def)
  next
    case False
    then have "?u = n" using assms by (intro mod_pos_pos_trivial) (simp_all add: i32_range_def)
    then show ?thesis using assms by (simp add: i32_range_def)
  qed
  show ?thesis unfolding exec_error_errno_def bytes list.case Let_def sum wrap by (rule refl)
qed

lemma dup2_open: "fd_table p fd \<noteq> None \<Longrightarrow> fd_table (snd (dup2 old new k p)) fd \<noteq> None"
  by (auto simp: dup2_def kcall_def Let_def split: option.splits)

lemma output_open:
  "fd_table p fd \<noteq> None \<Longrightarrow> fd \<notin> {read_end (stdout_pipe c), read_end (stderr_pipe c), read_end (exec_err_pipe c)} \<Longrightarrow>
   fd_table (snd (redirect_workload_output c k p)) fd \<noteq> None"
  unfolding redirect_workload_output_def kbind_def close_all_run ignored_def
  using dup2_open [OF dup2_open [of "p\<lparr>fd_table := without [read_end (stdout_pipe c), read_end (stderr_pipe c), read_end (exec_err_pipe c)] (fd_table p)\<rparr>" fd]]
  by (simp add: without_def)

lemma stdin_open: "fd_table p fd \<noteq> None \<Longrightarrow> fd_table (snd (redirect_workload_stdin k p)) fd \<noteq> None"
  by (auto simp: redirect_workload_stdin_def ignored_def kbind_def new_fd_def dup2_def close_fd_def kcall_def Let_def split: option.splits prod.splits sum.splits)

text \<open>The standard descriptors stay open over \<^verbatim>\<open>redirect_stdio_to_devnull\<close>, and nothing else becomes inheritable.\<close>

lemma stdio_open: "fd_table p fd \<noteq> None \<Longrightarrow> fd_table (snd (redirect_stdio_to_devnull k p)) fd \<noteq> None"
proof -
  assume open_fd: "fd_table p fd \<noteq> None"
  show ?thesis
  proof (cases "new_fd DevNull k p")
    case (Pair r q)
    then have q: "fd_table q fd \<noteq> None" and other: "r = Inr x \<Longrightarrow> x \<noteq> fd" for x
      using open_fd by (auto simp: new_fd_def kcall_def Let_def split: option.splits prod.splits if_splits)
    show ?thesis
    proof (cases r)
      case (Inl e)
      with Pair q show ?thesis by (simp add: redirect_stdio_to_devnull_def ignored_def kbind_def)
    next
      case (Inr x)
      let ?q = "snd (dup2 x 2 k (snd (dup2 x 1 k (snd (dup2 x 0 k q)))))"
      have "fd_table ?q fd \<noteq> None" by (intro dup2_open q)
      with Pair Inr other [OF Inr] show ?thesis by (simp add: redirect_stdio_to_devnull_def ignored_def kbind_def close_fd_def)
    qed
  qed
qed

lemma stdio_guarded: "stdio_only (fd_table p) \<Longrightarrow> stdio_only (fd_table (snd (redirect_stdio_to_devnull k p)))"
proof -
  assume g: "stdio_only (fd_table p)"
  have cl: "stdio_only (fd_table q) \<Longrightarrow> stdio_only (fd_table (snd (close_fd fd k q)))" for q fd
    by (auto simp: stdio_only_def close_fd_def split: if_splits)
  show ?thesis unfolding redirect_stdio_to_devnull_def
    by (intro guarded_ignored guarded_bind guarded_new g cl guarded_dup2) simp_all
qed

text \<open>
  A released workload that cannot be enrolled or executed exits with 126 or 127, and what the event loop makes of the bytes it left in the error
  pipe is the system's text for exactly its \<^verbatim>\<open>errno\<close>.
\<close>

theorem exec_failure_reported:
  assumes "wait_for_workload_release (gate_reads a) = Some True" and "i32_range (errno a)"
    and "spawn_workload k p = (Inr sc, q)"
    and "\<not> enroll_workload_in_cgroup procs a \<or> exec_fails a"
  shows "\<exists>code bs. forked_child av vars procs a k' sc (last (forked q)) = Exited code (Some bs) \<and>
    code = (if enroll_workload_in_cgroup procs a then 127 else 126) \<and> exec_error_message strerror bs = strerror (errno a)"
proof -
  have "spawned_workload p sc q" using assms(3) spawn_spec [of k p] by (simp add: kspec_def)
  then show ?thesis
  proof (rule started_obtain)
    fix out err ex gate q0 i j l n c
    assume fk: "forked q = forked p @ [fd_table q0]"
      and apart: "distinct [read_end out, write_end out, read_end err, write_end err, read_end ex, write_end ex, read_end gate, write_end gate]"
      and q0: "fd_table q0 = with_pair GateEnd n gate (with_pair PipeEnd l ex (with_pair PipeEnd j err (with_pair PipeEnd i out (fd_table p))))"
      and sc: "sc = (\<lparr>spawn_pid = c, spawn_gate = write_end gate, spawn_stdout = read_end out, spawn_stderr = read_end err, spawn_exec_err = read_end ex\<rparr>,
           \<lparr>gate_read = read_end gate, stdout_pipe = out, stderr_pipe = err, exec_err_pipe = ex\<rparr>)"
    let ?c = "\<lparr>gate_read = read_end gate, stdout_pipe = out, stderr_pipe = err, exec_err_pipe = ex\<rparr>"
    let ?p1 = "snd (close_fd (read_end gate) k' (snd (close_fd (write_end gate) k' \<lparr>fd_table = fd_table q0, calls = 0, forked = [], awaited = [], cgroups = []\<rparr>)))"
    let ?p3 = "snd (redirect_workload_stdin k' (snd (redirect_workload_output ?c k' ?p1)))"
    have "fd_table ?p1 (write_end ex) \<noteq> None" using apart by (clarsimp simp: q0 close_fd_def with_pair_def)
    moreover from this have "fd_table ?p3 (write_end ex) \<noteq> None"
      by (intro stdin_open output_open) (use apart in auto)
    then have "fd_table (snd (close_workload_output_writes ?c k' ?p3)) (write_end ex) \<noteq> None"
      using apart by (clarsimp simp: close_workload_output_writes_def close_all_run without_def)
    ultimately show ?thesis using assms(1,4) errno_round_trip [OF assms(2)]
      by (auto simp: sc fk forked_child_def workload_child_def Let_def write_errno_and_exit_def exec_workload_def exec_error_message_def)
  qed
qed

subsection \<open>A spawn, computed\<close>

definition kernel0 :: fd_kernel where
  "kernel0 = \<lparr>call_error = (\<lambda>_. None), new_fds = (\<lambda>t. (2 * int t + 3, 2 * int t + 4)), fork_pid = (\<lambda>_. 42)\<rparr>"

definition process0 :: fd_process where
  "process0 = \<lparr>fd_table = (\<lambda>fd. if fd \<in> {0, 1, 2} then Some \<lparr>object = DevNull, cloexec = False, nonblocking = False\<rparr> else None),
     calls = 0, forked = [], awaited = [], cgroups = []\<rparr>"

definition spawn0 :: "workload_spawn \<times> child_fds" where
  "spawn0 =
     (\<lparr>spawn_pid = 42, spawn_gate = 10, spawn_stdout = 3, spawn_stderr = 5, spawn_exec_err = 7\<rparr>,
      \<lparr>gate_read = 9, stdout_pipe = \<lparr>read_end = 3, write_end = 4\<rparr>, stderr_pipe = \<lparr>read_end = 5, write_end = 6\<rparr>,
       exec_err_pipe = \<lparr>read_end = 7, write_end = 8\<rparr>\<rparr>)"

lemma spawn_example: "\<exists>q. spawn_workload kernel0 process0 = (Inr spawn0, q)"
  by (simp add: spawn_workload_def kbind_def on_error_def make_pipe_def make_start_gate_def new_pair_def kcall_def Let_def fork_def
      close_all_run set_nonblocking_def set_fd_def kret_def without_def kernel0_def process0_def spawn0_def)

definition released :: child_answers where
  "released = \<lparr>gate_reads = [Inl (io_new Interrupted ''interrupted''), Inr [CHR 0x01]], child_pid = 42, pid_written = 3, errno = 2, exec_fails = False\<rparr>"

theorem spawn_leaks_nothing_witness:
  "\<exists>q. spawn_workload kernel0 process0 = (Inr spawn0, q) \<and> without [10, 3, 5, 7] (fd_table q) = fd_table process0"
proof -
  obtain q where "spawn_workload kernel0 process0 = (Inr spawn0, q)" using spawn_example by blast
  with spawn_leaks_nothing [OF this] show ?thesis by (auto simp: spawn0_def Let_def)
qed

theorem workload_execs_released_witness:
  "\<exists>q av vars t. spawn_workload kernel0 process0 = (Inr spawn0, q) \<and>
     forked_child [''true''] Map.empty None released kernel0 spawn0 (last (forked q)) = Execed av vars t \<and> av = [''true''] \<and> dom t \<subseteq> {0, 1, 2}"
proof -
  obtain q where q: "spawn_workload kernel0 process0 = (Inr spawn0, q)" using spawn_example by blast
  have p0: "fd_table process0 0 \<noteq> None" "fd_table process0 1 \<noteq> None" "fd_table process0 2 \<noteq> None" "stdio_only (fd_table process0)"
    by (simp_all add: process0_def stdio_only_def)
  have "\<exists>av vars t. forked_child [''true''] Map.empty None released kernel0 spawn0 (last (forked q)) = Execed av vars t"
    by (simp add: forked_child_def workload_child_def released_def io_new_def enroll_workload_in_cgroup_def exec_workload_def Let_def)
  then obtain av vars t where e: "forked_child [''true''] Map.empty None released kernel0 spawn0 (last (forked q)) = Execed av vars t" by blast
  from workload_execs_released [OF q p0 e] q e show ?thesis by blast
qed

theorem exec_failure_reported_witness:
  "\<exists>q bs. spawn_workload kernel0 process0 = (Inr spawn0, q) \<and>
     forked_child [''nowhere''] Map.empty None (released\<lparr>exec_fails := True\<rparr>) kernel0 spawn0 (last (forked q)) = Exited 127 (Some bs) \<and>
     exec_error_message (\<lambda>n. if n = 2 then ''No such file or directory'' else []) bs = ''No such file or directory''"
proof -
  obtain q where q: "spawn_workload kernel0 process0 = (Inr spawn0, q)" using spawn_example by blast
  have "wait_for_workload_release (gate_reads (released\<lparr>exec_fails := True\<rparr>)) = Some True" "i32_range (errno (released\<lparr>exec_fails := True\<rparr>))"
    "\<not> enroll_workload_in_cgroup None (released\<lparr>exec_fails := True\<rparr>) \<or> exec_fails (released\<lparr>exec_fails := True\<rparr>)"
    by (simp_all add: released_def io_new_def i32_range_def)
  from exec_failure_reported [OF this(1,2) q this(3), of "[''nowhere'']" Map.empty kernel0 "\<lambda>n. if n = 2 then ''No such file or directory'' else []"] q
  show ?thesis by (auto simp: enroll_workload_in_cgroup_def released_def)
qed

end
