(* ===== verification/Spec2Isabelle.thy ===== *)
theory Spec2Isabelle
  imports Live_Capture Sentinel Reaper Guardian Bounded_Waits Descendant_Signal Root_Ingress_Laws Supervisor_Start_Laws Run_Command Workload_Spawn
begin

text \<open>
  \<^bold>\<open>agent-bash: the detached command supervisor.\<close>

  A \<^verbatim>\<open>run\<close> creates a \<^emph>\<open>handle directory\<close>, forks a guardian and a supervisor, and returns. The supervisor runs the
  workload, copies its output to the log, and when the run is over \<^emph>\<open>publishes\<close> a terminal state: the
  return-code file, then the metadata that makes it final. A published handle is then \<^emph>\<open>delivered\<close>: an
  external helper is run once to tell the owner. A \<^verbatim>\<open>cancel\<close> leaves a marker that the supervisor
  polls. Every process may die anywhere; the guardian, and any later command that looks at the
  handle, recovers from what the files say. A reaper removes old directories. Inside a \<^emph>\<open>root\<close> the command
  is handed to the root's own socket instead.

  \<^bold>\<open>Theories and the code they model\<close> (all sources under \<^verbatim>\<open>src/src/\<close>).

  \<^item> \<open>Prelude\<close>, \<open>Rust_Numbers\<close>, \<open>Rolling_Window\<close>, \<open>Json\<close>: shared types and rule collections; Rust's text and
    saturating arithmetic; decimal text of integers; suffixes that fit a bound; \<^verbatim>\<open>serde_json::Value\<close>.
  \<^item> \<open>State_Data\<close> (\<^verbatim>\<open>state.rs\<close>): the metadata record and its parts, file names, lifecycles, modes, the
    text formats. \<open>Process_Identity\<close> (\<^verbatim>\<open>state.rs\<close>, \<^verbatim>\<open>guard.rs\<close>): procfs parsing, identity evidence, the caller
    chain, the observer's child list, the attached guard.
  \<^item> \<open>Effects\<close>: the world (files of one handle directory, helpers started, the environment), the monad of
    operations on it, the system calls, and the calculus \<open>spec\<close> / \<open>keeps\<close> / \<open>gives\<close> of what an operation may
    leave behind. \<open>Handle_Store\<close> (\<^verbatim>\<open>state.rs\<close>): locks, atomic write, create-once markers, custody and
    activation files, in the source's order of system calls.
  \<^item> \<open>Reaper\<close> (\<^verbatim>\<open>state.rs\<close>): retention settings, shard cursor, eligibility, one pass.
  \<^item> \<open>Delivery\<close> (\<^verbatim>\<open>delivery.rs\<close>): helper runs under external custody, transfers, their integration,
    reconciliation, detach and its worker, recovery of interrupted activations. \<open>Delivery_Protocol\<close>: the
    laws of whole histories of these.
  \<^item> \<open>Publication\<close> (\<^verbatim>\<open>supervisor.rs\<close>): causes and precedence, terminal metadata, publication under the
    completion lock, recovery of a lost supervisor, admission of a cancellation. \<open>Publication_Laws\<close> and
    \<open>Handle_History\<close>: what stands once a handle is terminal, over histories that interleave everything.
  \<^item> \<open>Event_Loop\<close> (\<^verbatim>\<open>supervisor.rs\<close>): the supervisor's loop as a record and one operation per method.
    \<open>Event_Loop_Frame\<close>, \<open>Event_Loop_Laws\<close>, \<open>Event_Loop_Properties\<close>: the contract of its methods, its
    interpretations, the loop as a step relation and its properties.
  \<^item> \<open>Guardian\<close> (\<^verbatim>\<open>supervisor.rs\<close>): the process that outlives the supervisor, adopts its children, recovers and
    delivers in its place, and gives custody up. \<open>Bounded_Waits\<close>: the waits with a deadline end.
  \<^item> \<open>Sentinel\<close> (\<^verbatim>\<open>supervisor.rs\<close>) and \<open>Live_Capture\<close> (\<^verbatim>\<open>live_capture.rs\<close>): the two bounded windows on the output.
  \<^item> \<open>Delivery_Role\<close> (\<^verbatim>\<open>delivery_role.rs\<close>): the shared word that protects delivery helpers from cancellation
    signals. \<open>Descendant_Signal\<close> (\<^verbatim>\<open>supervisor/descendant_signal.rs\<close>, \<^verbatim>\<open>supervisor.rs\<close>): which process a signal
    reaches while processes exit, are reparented and pids are reused.
  \<^item> \<open>Base64\<close>, \<open>Root_Ingress\<close> (\<^verbatim>\<open>root_v1.rs\<close>): the request to a root, the decoders of its stage lines, retained
    output. \<open>Root_Ingress_Laws\<close>: what a decoded result may claim.
  \<^item> \<open>Root_Selection\<close>, \<open>Root_Work\<close> (\<^verbatim>\<open>root_work.rs\<close>): whether a run belongs to a paired root (environment, session
    keyring, ancestors), and the submission and cancellation of original work over the root's socket with
    its bounded diagnostics. \<open>Root_Work_Laws\<close>: what a submission may report.
  \<^item> \<open>Continuation\<close> (\<^verbatim>\<open>continuation.rs\<close>): a v2 source keeps JSON documents in the handle directory: the registration, the
    launch fence, the registration confirmation, acceptances, the selected event with its evidence, the outcome and the snapshot.
    \<open>Launch_Fence\<close>: the fence is an automaton and releases the workload once. \<open>Source_Evidence\<close>: evidence is never rewritten
    and a published snapshot binds the outcome beside it.
  \<^item> \<open>Supervisor_Start\<close> (\<^verbatim>\<open>supervisor.rs\<close>, \<^verbatim>\<open>delivery.rs\<close>): how a supervisor prepares and registers its source, asks a root for its grant, and
    forks and releases the workload, up to the first round of the event loop. \<open>Supervisor_Start_Laws\<close>: no workload without a grant.
  \<^item> \<open>Workload_Spawn\<close> (\<^verbatim>\<open>supervisor.rs\<close>, \<^verbatim>\<open>cgroup.rs\<close>): the descriptor tables of supervisor and child through the pipes, the launch gate, the fork,
    the child's wait for its release, its enrolment and redirections, and the exec.
  \<^item> \<open>Retained_Output\<close> (\<^verbatim>\<open>retained_output.rs\<close>): snapshots of a prefix of the log, their validation and the receipt. \<open>Commands\<close> (\<^verbatim>\<open>main.rs\<close>, the
    owner lookup of \<^verbatim>\<open>delivery.rs\<close>): who may control a handle, and the commands \<^verbatim>\<open>cancel\<close>, \<^verbatim>\<open>detach\<close>, \<^verbatim>\<open>mode\<close>, \<^verbatim>\<open>status\<close>, \<^verbatim>\<open>snapshot\<close>,
    \<^verbatim>\<open>accept-output\<close> and \<^verbatim>\<open>list\<close>. \<open>Command_Laws\<close>: what they may change and what they report. \<open>Run_Command\<close> (\<^verbatim>\<open>main.rs\<close>): the owner
    of a run, the creation of its handle and its hand-over to a supervisor or a root.

  \<^bold>\<open>How effects are modelled.\<close> An operation takes a world and returns a value, an error, or \<open>Halted\<close>, with
  the world it leaves. Every system call takes one tick of the environment, which lets it proceed,
  fails it, or ends the process there; answers of the kernel, the clock, helpers and descriptors are
  functions of the tick. A theorem over all worlds covers every placement of errors and of a crash.
  Operations of different processes on one handle appear as a sequence: each one holds the
  completion, delivery, custody or reconciliation lock from its first read to its last write of what it
  protects, and a history may switch environments between any two of them.

  \<^bold>\<open>Bounds and fuel.\<close> Loops that wait for the kernel (an interrupted lock, a poll for the custody lock, a
  read of a descriptor, reaping) take \<open>patience\<close> of the environment as fuel, and the event loop takes a number
  of rounds. Running out is \<open>Halted\<close>, the outcome of a process that never gets further, and every safety
  theorem covers it for every amount of fuel. \<open>Bounded_Waits\<close> shows for the waits with a deadline that enough
  fuel exists in every environment whose clock goes on. Loops over data need none.

  \<^bold>\<open>What the lemmas show.\<close> Safety of delivery: one completion helper at most, over every history, and one
  activation helper at most; progress: every returning reconciliation brings the delivery closer to settled.
  Safety of publication: a terminal outcome and its return code never change and always agree; an
  accepted cancellation decides the outcome, and discharged custody of a terminal handle admits none. The loop: it returns only when everything is settled,
  settles nothing before the root authority grants it, reports the true exit, and never withdraws a
  cancellation. The guardian leaves only a settled handle with no child left. But for the completion helper and the
  cancellation that is never withdrawn, all of these are stated for a source without a v2 registration while no lookup of a file name
  (\<^verbatim>\<open>lstat\<close>) fails, with every other call failing and processes dying anywhere: \<^verbatim>\<open>continuation::enabled\<close> takes a failed lookup for a v2
  registration, and \<open>lookup_fault_overwrites\<close> of \<open>Handle_History\<close> computes a run in which that replaces a terminal state.

  The store: atomic writes and exclusive markers.
  The reaper removes only on evidence it could read, within its limits, and visits every shard. Signals go to descendants
  only and never to the delivery role's custodian or what is below it, also while pidfds lag behind exits. The windows are exact suffixes and the narrowed search is equivalent to the full one. A
  result of a root claims only what its stage lines prove, a submission to a root reports an error only when nothing
  was sent or the root rejected this very work, and a run is standalone only when everything that could witness a pairing was read and shows none. The launch fence
  of a v2 source releases its workload at most once and never after a revocation, a root worker releases none before the root's grant; a released
  workload executes after its enrolment with the standard descriptors only; the documents of a source are well typed, its evidence is written once. A
  command changes a handle only for a caller the recorded session or anchor admits and starts nothing but session lookups for another, an acceptance records exactly what was accepted, a status
  prints exactly what is on disk, and the owner of a run is attested. Parsers and text formats round-trip.
  Interfaces are locales (\<open>delivery_invariant\<close> and its extension \<open>handle_invariant\<close>, \<open>meta_stable\<close>, \<open>loop_frame\<close> and \<open>loop_invariant\<close>,
  \<open>unsent_frame\<close> and \<open>wire_frame\<close>, \<open>polling\<close>, \<open>rolling_window\<close>, \<open>retained_file\<close>, \<open>publication_invariant\<close>, \<open>handle_frame\<close> with its sublocale \<open>bystander\<close> and the extension \<open>onlooker\<close>), each interpreted on the model's own operations.

  \<^bold>\<open>Not modelled.\<close> Of the v2 source continuation the capture of the output bytes, the reconstruction of a missing output
  and the dispatch of the \<^verbatim>\<open>reconcile\<close> command. Delivery, publication and the guardian take the calls into the continuation as answers of the
  environment, and their theorems that depend on it are stated for a source without a v2 registration. A file is read without following a
  symbolic link, also where the source calls \<^verbatim>\<open>fs::read_to_string\<close>, and the hard link of the selected log is a copy of it. Positions in the output are natural numbers, where the
  source has 64 bits. A worker that outlives its custodian and runs on beside it is not represented. The three
  registration-failure records are modelled but are not steps of the histories: on an error reading the
  metadata they fall back to the initial metadata, so a transient read error lets them replace a
  terminal state. Live capture inside the loop (off in the default build), descriptors and \<^verbatim>\<open>poll\<close> flags,
  pidfds, memfd sealing and digests, JSON parsing, SHA-256 and the regex engine are arguments or answers.
  Of the root work protocol the descriptor calls of the executor and the feature-gated variants, and the private
  v30 admission, cgroup setup, helper image pinning, attempt diagnostics and the configuration files are left out. Of the command
  line, argument parsing and the broker's route of a fresh run are arguments.
\<close>

end
